(* ===== verification/Prelude.thy ===== *)
theory Prelude
  imports Complex_Main "HOL-Library.AList" "HOL-Library.Char_ord" "HOL-Library.List_Lexorder"
    "HOL-Library.Multiset" "HOL-Library.Product_Lexorder" "HOL-Library.Option_ord"
begin

text \<open>
  Shared vocabulary of the development: the collections of facts the component theories
  feed, the Python data that every component uses (identifiers, dictionaries in insertion
  order, \<open>sorted\<close>, \<open>any\<close>), and the generic lemmas about them.
\<close>

named_theorems scoring_defs "definitions of the pure scoring core"
named_theorems step_defs "definitions of the state changing operations"
named_theorems inv_intro "preservation facts of component invariants"

subsection \<open>Types the whole model shares\<close>

text \<open>
  A Python \<open>str\<close> is a list of Unicode code points; \<open>u ''abc''\<close> is the literal \<open>"abc"\<close>. List order
  on code points is Python's string order. HOL strings are used for the fixed error codes of
  exceptions only. \<open>ident\<close> marks text the code compares and orders but never looks into.
\<close>

type_synonym ustr = "nat list"
type_synonym ident = ustr
type_synonym uuid = nat
type_synonym timestamp = int

definition u :: "string \<Rightarrow> ustr" where
  "u s = map of_char s"

lemma u_simps: "u [] = []" "u (c # cs) = of_char c # u cs"
  by (simp_all add: u_def)

lemma length_u [simp]: "length (u s) = length s"
  by (simp add: u_def)

lemma u_append: "u (s @ t) = u s @ u t"
  by (simp add: u_def)

lemma u_Nil_iff [simp]: "u s = [] \<longleftrightarrow> s = []" "[] = u s \<longleftrightarrow> s = []"
  by (auto simp: u_def)

lemma u_inj [simp]: "u s = u t \<longleftrightarrow> s = t"
proof -
  have "inj (of_char :: char \<Rightarrow> nat)" by (rule inj_of_char)
  then show ?thesis unfolding u_def by (rule inj_map_eq_map)
qed

subsection \<open>UUIDs and their canonical text\<close>

text \<open>
  \<open>str(uuid)\<close> is 32 lower case hexadecimal digits of the 128 bit value, grouped 8-4-4-4-12.
\<close>

definition hex_digit :: "nat \<Rightarrow> nat" where
  "hex_digit d = (if d < 10 then 48 + d else 87 + d)"

primrec hex_digits :: "nat \<Rightarrow> nat \<Rightarrow> ustr" where
  "hex_digits 0 n = []"
| "hex_digits (Suc k) n = hex_digits k (n div 16) @ [hex_digit (n mod 16)]"

definition uuid_str :: "uuid \<Rightarrow> ustr" where
  "uuid_str n =
     (let h = hex_digits 32 n
      in take 8 h @ [45] @ take 4 (drop 8 h) @ [45] @ take 4 (drop 12 h) @ [45]
         @ take 4 (drop 16 h) @ [45] @ drop 20 h)"

lemma length_hex_digits [simp]: "length (hex_digits k n) = k"
  by (induction k arbitrary: n) auto

lemma hex_digit_inj: "hex_digit a = hex_digit b \<Longrightarrow> a < 16 \<Longrightarrow> b < 16 \<Longrightarrow> a = b"
  by (simp add: hex_digit_def split: if_splits)

lemma hex_digits_inj: "hex_digits k a = hex_digits k b \<Longrightarrow> a < 16 ^ k \<Longrightarrow> b < 16 ^ k \<Longrightarrow> a = b"
proof (induction k arbitrary: a b)
  case 0
  then show ?case by simp
next
  case (Suc k)
  from Suc.prems(1) have "hex_digits k (a div 16) = hex_digits k (b div 16)"
    and "hex_digit (a mod 16) = hex_digit (b mod 16)" by simp_all
  moreover have "a div 16 < 16 ^ k" "b div 16 < 16 ^ k"
    using Suc.prems(2,3) by (simp_all add: less_mult_imp_div_less mult.commute)
  ultimately have "a div 16 = b div 16" "a mod 16 = b mod 16"
    using Suc.IH hex_digit_inj by simp_all
  then show ?case by (metis div_mult_mod_eq)
qed

lemma uuid_str_digits: "filter (\<lambda>c. c \<noteq> 45) (uuid_str n) = filter (\<lambda>c. c \<noteq> 45) (hex_digits 32 n)"
proof -
  define h where "h = hex_digits 32 n"
  have "take 8 h @ take 4 (drop 8 h) @ take 4 (drop 12 h) @ take 4 (drop 16 h) @ drop 20 h = h"
  proof -
    have "drop 16 h = take 4 (drop 16 h) @ drop 20 h"
      using append_take_drop_id [of 4 "drop 16 h"] by simp
    moreover have "drop 12 h = take 4 (drop 12 h) @ drop 16 h"
      using append_take_drop_id [of 4 "drop 12 h"] by simp
    moreover have "drop 8 h = take 4 (drop 8 h) @ drop 12 h"
      using append_take_drop_id [of 4 "drop 8 h"] by simp
    ultimately show ?thesis by (metis append_take_drop_id)
  qed
  then have "filter (\<lambda>c. c \<noteq> 45) h =
    filter (\<lambda>c. c \<noteq> 45) (take 8 h @ take 4 (drop 8 h) @ take 4 (drop 12 h)
      @ take 4 (drop 16 h) @ drop 20 h)" by simp
  then show ?thesis by (simp add: uuid_str_def h_def [symmetric] Let_def)
qed

lemma hex_digit_not_dash: "hex_digit d \<noteq> 45"
  by (simp add: hex_digit_def)

lemma hex_digits_no_dash: "c \<in> set (hex_digits k n) \<Longrightarrow> c \<noteq> 45"
proof (induction k arbitrary: n)
  case (Suc k)
  have "hex_digit (n mod 16) \<noteq> 45" by (rule hex_digit_not_dash)
  with Suc show ?case by auto
qed simp

lemma uuid_str_inj:
  assumes "uuid_str a = uuid_str b" "a < 2 ^ 128" "b < 2 ^ 128"
  shows "a = b"
proof -
  have id: "filter (\<lambda>c. c \<noteq> 45) (hex_digits 32 n) = hex_digits 32 n" for n
    by (rule filter_True) (blast dest: hex_digits_no_dash)
  have "(16::nat) ^ 32 = 2 ^ 128" by simp
  with assms uuid_str_digits [of a] uuid_str_digits [of b] show ?thesis
    by (intro hex_digits_inj [of 32]) (simp_all add: id)
qed

subsection \<open>Dictionaries in insertion order\<close>

text \<open>
  A Python dict whose order matters is an association list with distinct keys:
  \<open>d[k] = v\<close> is \<^const>\<open>AList.update\<close> (in place, or appended at the end), \<open>d.get(k)\<close> is
  \<^const>\<open>map_of\<close>.
\<close>

definition dict_get :: "('k \<times> 'v) list \<Rightarrow> 'k \<Rightarrow> 'v \<Rightarrow> 'v" where
  "dict_get d k dflt = (case map_of d k of None \<Rightarrow> dflt | Some v \<Rightarrow> v)"

definition dict_of :: "('k \<times> 'v) list \<Rightarrow> ('k \<times> 'v) list" where
  "dict_of ps = fold (\<lambda>(k, v) d. AList.update k v d) ps []"

lemma dict_get_map_of [simp]: "map_of d k = Some v \<Longrightarrow> dict_get d k x = v"
  by (simp add: dict_get_def)

lemma dict_get_None [simp]: "map_of d k = None \<Longrightarrow> dict_get d k x = x"
  by (simp add: dict_get_def)

lemma dict_get_update: "dict_get (AList.update k v d) k' x = (if k' = k then v else dict_get d k' x)"
  by (simp add: dict_get_def update_conv')

lemma map_of_fold_update:
  "map_of (fold (\<lambda>(k, v) d. AList.update k v d) ps d) = map_of d ++ map_of (rev ps)"
proof (induction ps arbitrary: d)
  case (Cons p ps)
  obtain k v where p: "p = (k, v)" by fastforce
  have "map_of (AList.update k v d) = (map_of d)(k \<mapsto> v)"
    by (simp add: update_conv')
  with Cons p show ?case by (simp add: map_add_def fun_eq_iff split: option.splits)
qed simp

lemma map_of_dict_of: "map_of (dict_of ps) = map_of (rev ps)"
  by (simp add: dict_of_def map_of_fold_update)

lemma distinct_dict_of: "distinct (map fst (dict_of ps))"
proof -
  have "distinct (map fst (fold (\<lambda>(k, v) d. AList.update k v d) ps d))"
    if "distinct (map fst d)" for d
    using that by (induction ps arbitrary: d) (auto simp: distinct_update)
  then show ?thesis by (simp add: dict_of_def)
qed

subsection \<open>Sorting and searching\<close>

text \<open>\<open>sorted(set)\<close> of a finite set of identifiers.\<close>

definition sorted_set :: "('a::linorder) list \<Rightarrow> 'a list" where
  "sorted_set xs = sort (remdups xs)"

lemma set_sorted_set [simp]: "set (sorted_set xs) = set xs"
  by (simp add: sorted_set_def)

lemma distinct_sorted_set [simp]: "distinct (sorted_set xs)"
  by (simp add: sorted_set_def)

lemma sorted_sorted_set [simp]: "sorted (sorted_set xs)"
  by (simp add: sorted_set_def)

lemma sorted_set_cong: "set xs = set ys \<Longrightarrow> sorted_set xs = sorted_set ys"
  by (rule sorted_distinct_set_unique) simp_all

definition any_of :: "('a \<Rightarrow> bool) \<Rightarrow> 'a list \<Rightarrow> bool" where
  "any_of = list_ex"

lemma any_of_iff: "any_of p xs \<longleftrightarrow> (\<exists>x \<in> set xs. p x)"
  by (simp add: any_of_def list_ex_iff)

lemma any_of_simps [simp]: "any_of p [] = False" "any_of p (x # xs) = (p x \<or> any_of p xs)"
  by (simp_all add: any_of_def)

text \<open>Sorting by an injective key depends only on the multiset of the elements.\<close>

lemma sort_key_mset_eq:
  assumes "mset xs = mset ys" "inj_on f (set xs)"
  shows "sort_key f xs = sort_key f ys"
proof (rule properties_for_sort_key)
  show "mset (sort_key f ys) = mset xs" using assms(1) by simp
  show "sorted (map f (sort_key f ys))" by simp
  fix k assume "k \<in> set (sort_key f ys)"
  then have k: "k \<in> set ys" by simp
  have st: "set xs = set ys" using assms(1) by (metis mset_eq_setD)
  have only_k: "f k = f x \<longleftrightarrow> x = k" if "x \<in> set xs" for x
    using assms(2) that k st by (metis inj_onD)
  have rep: "filter (\<lambda>x. f k = f x) zs = replicate (count (mset zs) k) k"
    if "set zs = set xs" for zs
  proof -
    have "filter (\<lambda>x. f k = f x) zs = filter (\<lambda>x. x = k) zs"
      using only_k that by (intro filter_cong) auto
    also have "\<dots> = replicate (count (mset zs) k) k"
      by (induction zs) auto
    finally show ?thesis .
  qed
  show "filter (\<lambda>x. f k = f x) (sort_key f ys) = filter (\<lambda>x. f k = f x) xs"
    by (simp add: rep st assms(1))
qed

subsection \<open>Case mapping and trimming\<close>

text \<open>
  \<open>str.upper()\<close> and \<open>str.lower()\<close> on ASCII are written out; for the other code points the
  interpreter's Unicode table is the parameter \<open>uc\<close> (one code point may become several; the
  two forms of the Greek final sigma are not told apart, neither is ASCII).
\<close>

type_synonym case_table = "nat \<Rightarrow> nat list"

definition upper_cp :: "case_table \<Rightarrow> nat \<Rightarrow> nat list" where
  "upper_cp uc c = (if c < 128 then [if 97 \<le> c \<and> c \<le> 122 then c - 32 else c] else uc c)"

definition lower_cp :: "case_table \<Rightarrow> nat \<Rightarrow> nat list" where
  "lower_cp lc c = (if c < 128 then [if 65 \<le> c \<and> c \<le> 90 then c + 32 else c] else lc c)"

definition py_upper :: "case_table \<Rightarrow> ustr \<Rightarrow> ustr" where
  "py_upper uc s = concat (map (upper_cp uc) s)"

definition py_lower :: "case_table \<Rightarrow> ustr \<Rightarrow> ustr" where
  "py_lower lc s = concat (map (lower_cp lc) s)"

text \<open>The code points \<open>str.isspace\<close> accepts, which \<open>str.strip()\<close> removes at both ends.\<close>

definition is_space :: "nat \<Rightarrow> bool" where
  "is_space c \<longleftrightarrow> (9 \<le> c \<and> c \<le> 13) \<or> (28 \<le> c \<and> c \<le> 32) \<or> c = 133 \<or> c = 160 \<or> c = 5760
     \<or> (8192 \<le> c \<and> c \<le> 8202) \<or> c = 8232 \<or> c = 8233 \<or> c = 8239 \<or> c = 8287 \<or> c = 12288"

definition lstrip_by :: "(nat \<Rightarrow> bool) \<Rightarrow> ustr \<Rightarrow> ustr" where
  "lstrip_by p s = dropWhile p s"

definition rstrip_by :: "(nat \<Rightarrow> bool) \<Rightarrow> ustr \<Rightarrow> ustr" where
  "rstrip_by p s = rev (dropWhile p (rev s))"

definition strip_by :: "(nat \<Rightarrow> bool) \<Rightarrow> ustr \<Rightarrow> ustr" where
  "strip_by p s = rstrip_by p (lstrip_by p s)"

definition py_strip :: "ustr \<Rightarrow> ustr" where
  "py_strip s = strip_by is_space s"

definition is_prefix :: "ustr \<Rightarrow> ustr \<Rightarrow> bool" where
  "is_prefix p s \<longleftrightarrow> take (length p) s = p"

lemma is_prefix_iff: "is_prefix p s \<longleftrightarrow> (\<exists>t. s = p @ t)"
  unfolding is_prefix_def by (metis append_take_drop_id append_eq_conv_conj)

lemma py_upper_append [simp]: "py_upper uc (s @ t) = py_upper uc s @ py_upper uc t"
  by (simp add: py_upper_def)

lemma py_upper_idem_ascii:
  assumes "\<forall>c \<in> set s. c < 128"
  shows "py_upper uc (py_upper uc s) = py_upper uc s"
  using assms by (induction s) (auto simp: py_upper_def upper_cp_def)

lemma dropWhile_id: "(\<And>c cs. s = c # cs \<Longrightarrow> \<not> p c) \<Longrightarrow> dropWhile p s = s"
  by (cases s) auto

lemma hd_dropWhile_not: "dropWhile p s = c # cs \<Longrightarrow> \<not> p c"
  by (simp add: dropWhile_eq_Cons_conv)

lemma rstrip_prefix: "\<exists>t. s = rstrip_by p s @ t"
proof -
  have "s = rev (takeWhile p (rev s) @ dropWhile p (rev s))" by simp
  then have "s = rstrip_by p s @ rev (takeWhile p (rev s))" unfolding rstrip_by_def rev_append .
  then show ?thesis by (rule exI)
qed

lemma strip_ends:
  "strip_by p s = c # cs \<Longrightarrow> \<not> p c"
  "strip_by p s = cs @ [c] \<Longrightarrow> \<not> p c"
proof -
  assume h: "strip_by p s = c # cs"
  obtain t where "lstrip_by p s = strip_by p s @ t"
    using rstrip_prefix unfolding strip_by_def by blast
  with h show "\<not> p c" using hd_dropWhile_not [of p s c] by (simp add: lstrip_by_def)
next
  assume "strip_by p s = cs @ [c]"
  then have "dropWhile p (rev (lstrip_by p s)) = c # rev cs"
    unfolding strip_by_def rstrip_by_def by (metis rev_eq_Cons_iff rev_rev_ident)
  then show "\<not> p c" by (rule hd_dropWhile_not)
qed

lemma strip_idem [simp]: "strip_by p (strip_by p s) = strip_by p s"
proof -
  have l: "lstrip_by p (strip_by p s) = strip_by p s"
    unfolding lstrip_by_def by (rule dropWhile_id) (rule strip_ends)
  have "dropWhile p (rev (strip_by p s)) = rev (strip_by p s)"
  proof (rule dropWhile_id)
    fix c cs assume "rev (strip_by p s) = c # cs"
    then have "strip_by p s = rev cs @ [c]" by (metis rev_eq_Cons_iff)
    then show "\<not> p c" by (rule strip_ends)
  qed
  then show ?thesis using l by (metis rev_rev_ident rstrip_by_def strip_by_def)
qed

lemma strip_subset: "set (strip_by p s) \<subseteq> set s"
  by (auto simp: strip_by_def rstrip_by_def lstrip_by_def dest!: set_dropWhileD)

lemma length_strip: "length (strip_by p s) \<le> length s"
  unfolding strip_by_def rstrip_by_def lstrip_by_def
  by (metis length_dropWhile_le length_rev order_trans)

lemma list_all2_left: "list_all2 P xs ys \<Longrightarrow> x \<in> set xs \<Longrightarrow> \<exists>y \<in> set ys. P x y"
  by (induction rule: list_all2_induct) auto

lemma list_all2_right: "list_all2 P xs ys \<Longrightarrow> y \<in> set ys \<Longrightarrow> \<exists>x \<in> set xs. P x y"
  by (induction rule: list_all2_induct) auto

end
