(* ===== verification/PyFloat.thy ===== *)
theory PyFloat
  imports Prelude
begin

text \<open>
  Python's \<open>float\<close>: IEEE 754 binary64 arithmetic. A finite double is the rational number it
  denotes; \<open>+\<close>, \<open>*\<close> and \<open>/\<close> are the exact operation followed by \<open>fl\<close>, rounding to the nearest
  number with a 53 bit significand, ties to even. \<open>sum()\<close> over floats is the compensated
  (Neumaier) summation CPython has used since 3.12 (the project requires 3.13). The exponent
  range is unbounded: overflow to infinity, subnormal loss and NaN are outside the model, so
  results apply while magnitudes stay within $2^{-1022}$ and $2^{1024}$.
\<close>

type_synonym pyfloat = rat

subsection \<open>Rounding to binary64\<close>

fun ilog2 :: "nat \<Rightarrow> nat" where
  "ilog2 n = (if n < 2 then 0 else Suc (ilog2 (n div 2)))"

declare ilog2.simps [simp del]

definition expo :: "rat \<Rightarrow> int" where
  "expo x = (let (n, d) = quotient_of \<bar>x\<bar>;
                 k = int (ilog2 (nat n)) - int (ilog2 (nat d))
             in if 2 powi k \<le> \<bar>x\<bar> then k else k - 1)"

definition rhe :: "rat \<Rightarrow> int" where
  "rhe y = (let f = \<lfloor>y\<rfloor>; r = y - of_int f
            in if r < 1 / 2 then f else if 1 / 2 < r then f + 1
               else if even f then f else f + 1)"

definition fl :: "rat \<Rightarrow> pyfloat" where
  "fl x = (if x = 0 then 0
           else let ulp = 2 powi (expo x - 52) in of_int (rhe (x / ulp)) * ulp)"

definition fadd :: "pyfloat \<Rightarrow> pyfloat \<Rightarrow> pyfloat" where "fadd a b = fl (a + b)"
definition fsub :: "pyfloat \<Rightarrow> pyfloat \<Rightarrow> pyfloat" where "fsub a b = fl (a - b)"
definition fmul :: "pyfloat \<Rightarrow> pyfloat \<Rightarrow> pyfloat" where "fmul a b = fl (a * b)"
definition fdiv :: "pyfloat \<Rightarrow> pyfloat \<Rightarrow> pyfloat" where "fdiv a b = fl (a / b)"

text \<open>
  \<open>sum(xs)\<close>: the first item is added to the integer 0, every later one with compensation.
\<close>

fun neumaier :: "pyfloat \<Rightarrow> pyfloat \<Rightarrow> pyfloat list \<Rightarrow> pyfloat" where
  "neumaier f c [] = (if c \<noteq> 0 then fadd f c else f)"
| "neumaier f c (x # xs) =
     (let t = fadd f x;
          e = (if \<bar>x\<bar> \<le> \<bar>f\<bar> then fadd (fsub f t) x else fadd (fsub x t) f)
      in neumaier t (fadd c e) xs)"

fun fsum :: "pyfloat list \<Rightarrow> pyfloat" where
  "fsum [] = 0"
| "fsum (x # xs) = neumaier x 0 xs"

text \<open>A rational is a double when rounding leaves it alone.\<close>

definition is_float :: "rat \<Rightarrow> bool" where
  "is_float x \<longleftrightarrow> fl x = x"

subsection \<open>Binary exponents\<close>

lemma ilog2_bounds: "0 < n \<Longrightarrow> 2 ^ ilog2 n \<le> n \<and> n < 2 ^ Suc (ilog2 n)"
proof (induction n rule: ilog2.induct)
  case (1 n)
  show ?case
  proof (cases "n < 2")
    case True
    with "1.prems" have "n = 1" by simp
    then show ?thesis by (simp add: ilog2.simps)
  next
    case False
    then have "2 ^ ilog2 (n div 2) \<le> n div 2 \<and> n div 2 < 2 ^ Suc (ilog2 (n div 2))"
      using "1.IH" by auto
    moreover have "ilog2 n = Suc (ilog2 (n div 2))"
      using False by (simp add: ilog2.simps [of n])
    ultimately show ?thesis by auto
  qed
qed

lemma powi2_pos [simp]: "(0::rat) < 2 powi k"
  by simp

lemma powi2_mono: "j \<le> k \<Longrightarrow> (2::rat) powi j \<le> 2 powi k"
  by (rule power_int_increasing) simp_all

lemma powi2_Suc: "(2::rat) powi (k + 1) = 2 * 2 powi k"
  by (simp add: power_int_add)

lemma powi2_diff: "(2::rat) powi (j - k) = 2 powi j / 2 powi k"
  by (simp add: power_int_diff)

lemma expo_bounds:
  assumes "x \<noteq> 0"
  shows "2 powi expo x \<le> \<bar>x\<bar>" "\<bar>x\<bar> < 2 powi (expo x + 1)"
proof -
  obtain n d where q: "quotient_of \<bar>x\<bar> = (n, d)" by fastforce
  have d: "0 < d" using q by (rule quotient_of_denom_pos)
  have x: "\<bar>x\<bar> = of_int n / of_int d" using q by (rule quotient_of_div)
  have "0 < \<bar>x\<bar>" using assms by simp
  then have n: "0 < n" using d by (simp add: x zero_less_divide_iff)
  define a b where "a = ilog2 (nat n)" and "b = ilog2 (nat d)"
  have "2 ^ a \<le> nat n \<and> nat n < 2 ^ Suc a" "2 ^ b \<le> nat d \<and> nat d < 2 ^ Suc b"
    unfolding a_def b_def using n d by (intro ilog2_bounds; simp)+
  then have "int (2 ^ a) \<le> n" "n < int (2 ^ Suc a)" "int (2 ^ b) \<le> d" "d < int (2 ^ Suc b)"
    using n d by (simp_all add: le_nat_iff nat_less_iff)
  then have "of_int (int (2 ^ a)) \<le> (of_int n :: rat)" "of_int n < (of_int (int (2 ^ Suc a)) :: rat)"
    "of_int (int (2 ^ b)) \<le> (of_int d :: rat)" "of_int d < (of_int (int (2 ^ Suc b)) :: rat)"
    by (simp_all only: of_int_le_iff of_int_less_iff)
  then have r: "2 ^ a \<le> (of_int n :: rat)" "(of_int n :: rat) < 2 * 2 ^ a"
    "2 ^ b \<le> (of_int d :: rat)" "(of_int d :: rat) < 2 * 2 ^ b"
    by simp_all
  define k where "k = int a - int b"
  have k: "(2::rat) powi k = 2 ^ a / 2 ^ b"
    by (simp add: k_def power_int_diff)
  have d': "(0::rat) < of_int d" using d by simp
  have up: "\<bar>x\<bar> < 2 powi (k + 1)"
  proof -
    have "of_int n * 2 ^ b < 2 * 2 ^ a * (of_int d :: rat)"
      using r d' n by (intro mult_less_le_imp_less) simp_all
    moreover have eq: "2 powi (k + 1) = (2 * 2 ^ a / 2 ^ b :: rat)"
      by (simp only: powi2_Suc k times_divide_eq_right)
    ultimately show ?thesis
      unfolding eq x using d' by (simp add: field_simps)
  qed
  have lo: "2 powi (k - 1) \<le> \<bar>x\<bar>"
  proof -
    have "2 ^ a * of_int d \<le> of_int n * (2 * 2 ^ b :: rat)"
      using r d' n by (intro mult_mono) simp_all
    then show ?thesis
      using d' n by (simp add: x powi2_diff k field_simps)
  qed
  have e: "expo x = (if 2 powi k \<le> \<bar>x\<bar> then k else k - 1)"
    by (simp add: expo_def q k_def a_def b_def)
  show "2 powi expo x \<le> \<bar>x\<bar>" using lo by (simp add: e)
  show "\<bar>x\<bar> < 2 powi (expo x + 1)" using up by (auto simp: e)
qed

lemma expo_unique:
  assumes "2 powi k \<le> \<bar>x\<bar>" "\<bar>x\<bar> < 2 powi (k + 1)"
  shows "expo x = k"
proof -
  have "0 < \<bar>x\<bar>" using powi2_pos [of k] assms(1) by linarith
  then have x: "x \<noteq> 0" by simp
  note b = expo_bounds [OF x]
  have "\<not> k + 1 \<le> expo x"
    using powi2_mono [of "k + 1" "expo x"] b(1) assms(2) by linarith
  moreover have "\<not> expo x + 1 \<le> k"
    using powi2_mono [of "expo x + 1" k] b(2) assms(1) by linarith
  ultimately show ?thesis by linarith
qed

subsection \<open>Rounding half to even\<close>

lemma rhe_of_int [simp]: "rhe (of_int i) = i"
  by (simp add: rhe_def Let_def)

lemma rhe_error: "\<bar>of_int (rhe y) - y\<bar> \<le> 1 / 2"
proof -
  have "of_int \<lfloor>y\<rfloor> \<le> y" "y < of_int \<lfloor>y\<rfloor> + 1" by linarith+
  then show ?thesis by (auto simp: rhe_def Let_def)
qed

lemma rhe_mono: "x \<le> y \<Longrightarrow> rhe x \<le> rhe y"
proof -
  assume le: "x \<le> y"
  have fl: "\<lfloor>x\<rfloor> \<le> \<lfloor>y\<rfloor>" using le by (rule floor_mono)
  have b: "\<lfloor>z\<rfloor> \<le> rhe z \<and> rhe z \<le> \<lfloor>z\<rfloor> + 1" for z by (auto simp: rhe_def Let_def)
  show ?thesis
  proof (cases "\<lfloor>x\<rfloor> = \<lfloor>y\<rfloor>")
    case True
    then show ?thesis using le by (auto simp: rhe_def Let_def)
  next
    case False
    with fl b [of x] b [of y] show ?thesis by linarith
  qed
qed

lemma rhe_le: "x \<le> of_int i \<Longrightarrow> rhe x \<le> i"
  using rhe_mono [of x "of_int i"] by simp

lemma rhe_ge: "of_int i \<le> x \<Longrightarrow> i \<le> rhe x"
  using rhe_mono [of "of_int i" x] by simp

lemma rhe_neg: "rhe (- y) = - rhe y"
proof -
  define f r where "f = \<lfloor>y\<rfloor>" and "r = y - of_int f"
  have r: "0 \<le> r" "r < 1" unfolding r_def f_def by linarith+
  have y: "y = of_int f + r" by (simp add: r_def)
  show ?thesis
  proof (cases "r = 0")
    case True
    then have "y = of_int f" by (simp add: y)
    then have "- y = of_int (- f)" by simp
    with \<open>y = of_int f\<close> show ?thesis by (simp only: rhe_of_int)
  next
    case False
    with r have "0 < r" by simp
    with r have n: "\<lfloor>- y\<rfloor> = - f - 1" unfolding y by (intro floor_unique) simp_all
    have "- y - of_int (- f - 1) = 1 - r" by (simp add: y)
    with n have "rhe (- y) = (if 1 - r < 1 / 2 then - f - 1 else if 1 / 2 < 1 - r then - f
      else if even (- f - 1) then - f - 1 else - f)"
      by (simp add: rhe_def)
    moreover have "rhe y = (if r < 1 / 2 then f else if 1 / 2 < r then f + 1
      else if even f then f else f + 1)"
      by (simp only: rhe_def Let_def f_def [symmetric] r_def [symmetric])
    ultimately show ?thesis by auto
  qed
qed

subsection \<open>Properties of rounding\<close>

lemma fl_0 [simp]: "fl 0 = 0"
  by (simp add: fl_def)

lemma expo_neg [simp]: "expo (- x) = expo x"
  by (simp add: expo_def)

lemma fl_neg: "fl (- x) = - fl x"
  by (simp add: fl_def rhe_neg Let_def)

lemma fl_scaled: "x \<noteq> 0 \<Longrightarrow> fl x = of_int (rhe (x / 2 powi (expo x - 52))) * 2 powi (expo x - 52)"
  by (simp add: fl_def Let_def)

lemma scaled_bounds:
  assumes "0 < x"
  shows "2 ^ 52 \<le> x / 2 powi (expo x - 52)" "x / 2 powi (expo x - 52) < 2 ^ 53"
proof -
  have x: "x \<noteq> 0" "\<bar>x\<bar> = x" using assms by simp_all
  note b = expo_bounds [OF x(1), unfolded x(2) powi2_Suc]
  have "(2::rat) powi expo x = 2 ^ 52 * 2 powi (expo x - 52)"
    by (simp add: powi2_diff)
  with b show "2 ^ 52 \<le> x / 2 powi (expo x - 52)" "x / 2 powi (expo x - 52) < 2 ^ 53"
    by (simp_all add: field_simps)
qed

lemma rhe_scaled_bounds:
  assumes "0 < x"
  shows "2 ^ 52 \<le> rhe (x / 2 powi (expo x - 52))" "rhe (x / 2 powi (expo x - 52)) \<le> 2 ^ 53"
  using scaled_bounds [OF assms] rhe_ge [of "2 ^ 52"] rhe_le [of _ "2 ^ 53"] by simp_all

lemma fl_binade:
  assumes "0 < x"
  shows "2 powi expo x \<le> fl x" "fl x \<le> 2 powi (expo x + 1)"
proof -
  let ?m = "rhe (x / 2 powi (expo x - 52))"
  have m: "(2::rat) ^ 52 \<le> of_int ?m" "of_int ?m \<le> (2::rat) ^ 53"
    using rhe_scaled_bounds [OF assms, folded of_int_le_iff [where 'a = rat]]
    by (simp_all only: of_int_power of_int_numeral)
  have "fl x = of_int ?m * 2 powi (expo x - 52)" using assms by (simp add: fl_scaled)
  then have "2 ^ 52 * 2 powi (expo x - 52) \<le> fl x" "fl x \<le> 2 ^ 53 * 2 powi (expo x - 52)"
    using m by simp_all
  then show "2 powi expo x \<le> fl x" "fl x \<le> 2 powi (expo x + 1)"
    by (simp_all add: powi2_diff powi2_Suc)
qed

lemma fl_pos [simp]: "0 < x \<Longrightarrow> 0 < fl x"
  using fl_binade(1) [of x] powi2_pos [of "expo x"] by linarith

lemma expo_mono: "0 < x \<Longrightarrow> x \<le> y \<Longrightarrow> expo x \<le> expo y"
proof (rule ccontr)
  assume x: "0 < x" and xy: "x \<le> y" and "\<not> expo x \<le> expo y"
  then have "2 powi (expo y + 1) \<le> (2::rat) powi expo x" by (intro powi2_mono) simp
  also have "\<dots> \<le> x" using expo_bounds(1) [of x] x by simp
  also have "\<dots> < 2 powi (expo y + 1)" using expo_bounds(2) [of y] x xy by simp
  finally show False by simp
qed

lemma fl_mono_pos:
  assumes "0 < x" "x \<le> y"
  shows "fl x \<le> fl y"
proof (cases "expo x = expo y")
  case True
  have "rhe (x / 2 powi (expo y - 52)) \<le> rhe (y / 2 powi (expo y - 52))"
    using assms by (intro rhe_mono divide_right_mono) simp_all
  then show ?thesis using assms True by (simp add: fl_scaled)
next
  case False
  with expo_mono [OF assms] have "expo x + 1 \<le> expo y" by simp
  then have "(2::rat) powi (expo x + 1) \<le> 2 powi expo y" by (rule powi2_mono)
  with fl_binade(2) [of x] fl_binade(1) [of y] assms show ?thesis by linarith
qed

lemma fl_mono: "x \<le> y \<Longrightarrow> fl x \<le> fl y"
proof -
  assume xy: "x \<le> y"
  consider "0 < x" | "x \<le> 0" "0 \<le> y" | "y < 0" by linarith
  then show ?thesis
  proof cases
    case 1 then show ?thesis using xy by (rule fl_mono_pos)
  next
    case 2
    have "fl x \<le> 0"
    proof (cases "x = 0")
      case False
      then have "0 < fl (- x)" using 2 by (intro fl_pos) simp
      then show ?thesis by (simp add: fl_neg)
    qed simp
    moreover have "0 \<le> fl y" using 2 by (metis fl_0 fl_pos order_less_le)
    ultimately show ?thesis by linarith
  next
    case 3
    then have "fl (- y) \<le> fl (- x)" using xy by (intro fl_mono_pos) simp_all
    then show ?thesis by (simp add: fl_neg)
  qed
qed

lemma fl_nonneg [simp]: "0 \<le> x \<Longrightarrow> 0 \<le> fl x"
  using fl_mono [of 0 x] by simp

lemma fl_grid_less:
  assumes "\<bar>m\<bar> < 2 ^ 53"
  shows "fl (of_int m * 2 powi k) = of_int m * 2 powi k"
proof (cases "m = 0")
  case False
  define x where "x = (of_int m * 2 powi k :: rat)"
  have x: "x \<noteq> 0" using False by (simp add: x_def)
  have ax: "\<bar>x\<bar> = of_int \<bar>m\<bar> * 2 powi k" by (simp add: x_def abs_mult)
  have "of_int \<bar>m\<bar> < (2::rat) ^ 53"
    using assms [folded of_int_less_iff [where 'a = rat]] by (simp only: of_int_power of_int_numeral)
  then have "\<bar>x\<bar> < 2 ^ 53 * 2 powi k" by (simp add: ax)
  moreover have "(2::rat) ^ 53 * 2 powi k = 2 powi (k + 53)" by (simp add: power_int_add)
  moreover note expo_bounds(1) [OF x]
  ultimately have "(2::rat) powi expo x < 2 powi (k + 53)" by linarith
  then have "expo x - 52 \<le> k" using powi2_mono [of "k + 53" "expo x"] by linarith
  then obtain j where j: "k = expo x - 52 + int j" by (metis add.commute diff_add_cancel zle_iff_zadd)
  define w where "w = (2::rat) powi (expo x - 52)"
  have w: "w \<noteq> 0" by (simp add: w_def)
  have "2 powi k = w * 2 ^ j" by (simp add: j power_int_add w_def)
  then have xw: "x = of_int (m * 2 ^ j) * w" by (simp add: x_def)
  have "x / w = of_int (m * 2 ^ j)" using w by (simp add: xw)
  then have "fl x = of_int (m * 2 ^ j) * w"
    using fl_scaled [OF x, folded w_def] by (simp only: rhe_of_int)
  also have "\<dots> = x" by (rule xw [symmetric])
  finally show ?thesis by (simp add: x_def)
qed simp

lemma fl_grid:
  assumes "\<bar>m\<bar> \<le> 2 ^ 53"
  shows "fl (of_int m * 2 powi k) = of_int m * 2 powi k"
proof (cases "\<bar>m\<bar> < 2 ^ 53")
  case True
  then show ?thesis by (rule fl_grid_less)
next
  case False
  with assms have "\<bar>m\<bar> = 2 * 2 ^ 52" by simp
  then have "m = 2 * 2 ^ 52 \<or> m = 2 * (- (2 ^ 52))" by arith
  then obtain h where m: "m = 2 * h" and h: "\<bar>h\<bar> < 2 ^ 53" by fastforce
  have "(of_int m * 2 powi k :: rat) = of_int h * 2 powi (k + 1)"
    by (simp add: m powi2_Suc)
  with fl_grid_less [OF h] show ?thesis by simp
qed

lemma fl_of_int: "\<bar>m\<bar> \<le> 2 ^ 53 \<Longrightarrow> fl (of_int m) = of_int m"
  using fl_grid [of m 0] by simp

lemma fl_on_grid: "\<exists>m k. fl x = of_int m * 2 powi k \<and> \<bar>m\<bar> \<le> 2 ^ 53"
proof -
  consider "x = 0" | "0 < x" | "0 < - x" by linarith
  then show ?thesis
  proof cases
    case 1 then show ?thesis by (intro exI [of _ 0]) simp
  next
    case 2
    then show ?thesis using rhe_scaled_bounds [of x] fl_scaled [of x]
      by (intro exI [of _ "rhe (x / 2 powi (expo x - 52))"] exI [of _ "expo x - 52"]) simp
  next
    case 3
    let ?m = "rhe (- x / 2 powi (expo (- x) - 52))"
    have "fl x = of_int (- ?m) * 2 powi (expo (- x) - 52)"
      using fl_scaled [of "- x"] 3 by (simp add: fl_neg)
    moreover have "\<bar>- ?m\<bar> \<le> 2 ^ 53" using rhe_scaled_bounds [OF 3] by simp
    ultimately show ?thesis by blast
  qed
qed

lemma fl_idem [simp]: "fl (fl x) = fl x"
  using fl_on_grid [of x] fl_grid by metis

lemma is_float_fl [simp]: "is_float (fl x)"
  by (simp add: is_float_def)

lemma is_float_ops [simp]:
  "is_float (fadd a b)" "is_float (fsub a b)" "is_float (fmul a b)" "is_float (fdiv a b)"
  by (simp_all add: fadd_def fsub_def fmul_def fdiv_def)

definition eps :: rat where "eps = 1 / 2 ^ 53"

lemma fl_rel_error: "\<bar>fl x - x\<bar> \<le> eps * \<bar>x\<bar>"
proof (cases "x = 0")
  case False
  define w where "w = (2::rat) powi (expo x - 52)"
  have w: "0 < w" by (simp add: w_def)
  have "fl x - x = (of_int (rhe (x / w)) - x / w) * w"
    using False w by (simp add: fl_scaled w_def field_simps)
  then have "\<bar>fl x - x\<bar> = \<bar>of_int (rhe (x / w)) - x / w\<bar> * w"
    using w by (simp add: abs_mult)
  also have "\<dots> \<le> 1 / 2 * w" using rhe_error w by (intro mult_right_mono) simp_all
  also have "\<dots> = eps * 2 powi expo x" by (simp add: eps_def w_def powi2_diff)
  also have "\<dots> \<le> eps * \<bar>x\<bar>" using expo_bounds(1) [OF False] by (simp add: eps_def)
  finally show ?thesis .
qed simp

subsection \<open>Accuracy of compensated summation\<close>

lemma eps_pos: "0 < eps" "eps \<le> 1 / 100"
  by (simp_all add: eps_def)

lemma fl_abs_le: "\<bar>fl x\<bar> \<le> \<bar>x\<bar> + eps * \<bar>x\<bar>"
  using fl_rel_error [of x] by linarith

lemma is_float_mono: "is_float a \<Longrightarrow> a \<le> b \<Longrightarrow> a \<le> fl b"
  unfolding is_float_def by (metis fl_mono)

text \<open>One addition of nonnegative doubles: the sum dominates both, and the recovered error is tiny.\<close>

lemma fadd_nonneg_bounds:
  assumes "is_float a" "is_float b" "0 \<le> a" "0 \<le> b"
  shows "a \<le> fadd a b" "b \<le> fadd a b" "\<bar>fadd a b - (a + b)\<bar> \<le> 2 * eps * fadd a b"
proof -
  show a: "a \<le> fadd a b" and b: "b \<le> fadd a b"
    unfolding fadd_def using assms by (simp_all add: is_float_mono)
  have "\<bar>fadd a b - (a + b)\<bar> \<le> eps * \<bar>a + b\<bar>" unfolding fadd_def by (rule fl_rel_error)
  also have "\<dots> \<le> eps * (2 * fadd a b)"
    using a b assms eps_pos by (intro mult_left_mono) simp_all
  finally show "\<bar>fadd a b - (a + b)\<bar> \<le> 2 * eps * fadd a b" by (simp add: mult.assoc mult.left_commute)
qed

lemma compensation_bound:
  assumes "is_float a" "is_float b" "0 \<le> a" "0 \<le> b" "t = fadd a b"
  shows "\<bar>fadd (fsub a t) b\<bar> \<le> 4 * eps * t"
proof -
  note bd = fadd_nonneg_bounds [OF assms(1-4), folded assms(5)]
  have t: "0 \<le> t" using bd(1) assms(3) by linarith
  have "\<bar>fsub a t - (a - t)\<bar> \<le> eps * \<bar>a - t\<bar>" unfolding fsub_def by (rule fl_rel_error)
  also have "\<dots> \<le> eps * t" using bd(1) assms(3) eps_pos by (intro mult_left_mono) simp_all
  finally have 1: "\<bar>fsub a t + b\<bar> \<le> 3 * (eps * t)" using bd(3) by linarith
  define A where "A = \<bar>fsub a t + b\<bar>"
  have "\<bar>fadd (fsub a t) b\<bar> \<le> A + eps * A"
    unfolding fadd_def A_def by (rule fl_abs_le)
  also have "\<dots> \<le> A + 1 / 100 * A"
    using eps_pos by (intro add_left_mono mult_right_mono) (simp_all add: A_def)
  also have "\<dots> \<le> 4 * (eps * t)"
  proof -
    have "0 \<le> eps * t" using t eps_pos by simp
    with 1 [folded A_def] show ?thesis by (simp add: field_simps)
  qed
  finally show ?thesis by (simp add: mult.assoc)
qed

lemma neumaier_error:
  assumes "\<forall>x \<in> set xs. is_float x \<and> 0 \<le> x" "is_float f" "0 \<le> f"
    and "\<bar>c\<bar> \<le> 8 * of_nat k * eps * f" "\<bar>f - S\<bar> \<le> 2 * of_nat k * eps * f"
    and "of_nat (k + length xs) * (8 * eps) \<le> 1"
  shows "\<bar>neumaier f c xs - (S + sum_list xs)\<bar>
    \<le> 2 * (10 * of_nat (k + length xs) + 2) * eps * (S + sum_list xs)"
  using assms
proof (induction xs arbitrary: f c k S)
  case Nil
  define r where "r = neumaier f c []"
  have k: "of_nat k * (8 * eps) \<le> 1" using Nil.prems(6) by simp
  have kf: "of_nat k * (8 * eps) * f \<le> 1 * f" using k Nil.prems(3) by (rule mult_right_mono)
  have c: "\<bar>c\<bar> \<le> f" using Nil.prems(4) kf by (simp add: mult_ac)
  have "\<bar>r - f\<bar> \<le> \<bar>c\<bar> + eps * (2 * f)"
  proof (cases "c = 0")
    case True
    then show ?thesis using Nil.prems(3) eps_pos by (simp add: r_def)
  next
    case False
    have "\<bar>r - (f + c)\<bar> \<le> eps * \<bar>f + c\<bar>" using False fl_rel_error by (simp add: r_def fadd_def)
    also have "\<dots> \<le> eps * (2 * f)" using c eps_pos Nil.prems(3) by (intro mult_left_mono) linarith+
    finally show ?thesis by linarith
  qed
  then have "\<bar>r - S\<bar> \<le> (10 * of_nat k + 2) * (eps * f)"
    using Nil.prems(4,5) by (simp add: algebra_simps)
  moreover have "f \<le> 2 * S" using Nil.prems(5) kf by (simp add: mult_ac)
  then have "(10 * of_nat k + 2) * (eps * f) \<le> (10 * of_nat k + 2) * (eps * (2 * S))"
    using eps_pos by (intro mult_left_mono) simp_all
  ultimately have "\<bar>r - S\<bar> \<le> (10 * of_nat k + 2) * (eps * (2 * S))" by linarith
  then show ?case by (simp add: r_def algebra_simps)
next
  case (Cons x xs)
  define t where "t = fadd f x"
  define e where "e = (if \<bar>x\<bar> \<le> \<bar>f\<bar> then fadd (fsub f t) x else fadd (fsub x t) f)"
  have x: "is_float x" "0 \<le> x" using Cons.prems(1) by simp_all
  note bd = fadd_nonneg_bounds [OF Cons.prems(2) x(1) Cons.prems(3) x(2), folded t_def]
  have t0: "0 \<le> t" using bd(1) Cons.prems(3) by linarith
  have et: "0 \<le> eps * t" using t0 eps_pos by simp
  have e: "\<bar>e\<bar> \<le> 4 * eps * t"
    using compensation_bound [OF Cons.prems(2) x(1) Cons.prems(3) x(2) t_def]
      compensation_bound [OF x(1) Cons.prems(2) x(2) Cons.prems(3), of t]
    by (simp add: e_def t_def fadd_def add.commute)
  have ft: "of_nat k * eps * f \<le> of_nat k * eps * t"
    using bd(1) eps_pos by (intro mult_left_mono) simp_all
  have "of_nat k * (8 * eps) \<le> 1"
  proof -
    have "of_nat k * (8 * eps) \<le> of_nat (k + length (x # xs)) * (8 * eps)"
      using eps_pos by (intro mult_right_mono) simp_all
    with Cons.prems(6) show ?thesis by linarith
  qed
  then have kt: "of_nat k * (8 * eps) * t \<le> 1 * t" using t0 by (rule mult_right_mono)
  have c: "\<bar>c\<bar> \<le> 8 * (of_nat k * eps * t)" using Cons.prems(4) ft by (simp add: mult.assoc)
  have ce: "\<bar>c + e\<bar> \<le> 8 * (of_nat k * eps * t) + 4 * (eps * t)" using c e by (simp add: mult.assoc)
  also have "\<dots> \<le> 2 * t"
  proof -
    have "eps * t \<le> 1 / 100 * t" using eps_pos t0 by (intro mult_right_mono)
    with kt t0 show ?thesis by (simp add: mult_ac)
  qed
  finally have ce2: "\<bar>c + e\<bar> \<le> 2 * t" .
  have "\<bar>fadd c e\<bar> \<le> \<bar>c + e\<bar> + eps * \<bar>c + e\<bar>" unfolding fadd_def by (rule fl_abs_le)
  also have "\<dots> \<le> 8 * (of_nat k * eps * t) + 4 * (eps * t) + eps * (2 * t)"
    using ce ce2 eps_pos by (intro add_mono mult_left_mono) simp_all
  also have "\<dots> \<le> 8 * of_nat (Suc k) * eps * t" using et by (simp add: algebra_simps)
  finally have c': "\<bar>fadd c e\<bar> \<le> 8 * of_nat (Suc k) * eps * t" .
  have S': "\<bar>t - (S + x)\<bar> \<le> 2 * of_nat (Suc k) * eps * t"
    using bd(3) Cons.prems(5) ft by (simp add: algebra_simps)
  have "\<bar>neumaier t (fadd c e) xs - ((S + x) + sum_list xs)\<bar>
    \<le> 2 * (10 * of_nat (Suc k + length xs) + 2) * eps * ((S + x) + sum_list xs)"
    using Cons.prems t0 c' S' by (intro Cons.IH) (simp_all add: t_def)
  moreover have "neumaier f c (x # xs) = neumaier t (fadd c e) xs"
    by (simp add: t_def e_def Let_def)
  ultimately show ?case by (simp only: sum_list.Cons list.size add.assoc add_Suc_right add_Suc add_0_right)
qed

definition fsum_tol :: "nat \<Rightarrow> rat" where
  "fsum_tol n = (20 * of_nat n + 4) * eps"

lemma fsum_error:
  assumes "\<forall>x \<in> set xs. is_float x \<and> 0 \<le> x" "length xs \<le> 2 ^ 48"
  shows "\<bar>fsum xs - sum_list xs\<bar> \<le> fsum_tol (length xs) * sum_list xs"
proof (cases xs)
  case (Cons x ys)
  have S: "0 \<le> sum_list xs" using assms(1) by (intro sum_list_nonneg) simp
  have "of_nat (0 + length ys) * (8 * eps) \<le> (2 ^ 48) * (8 * eps)"
  proof -
    have "rat_of_nat (length ys) \<le> rat_of_nat (2 ^ 48)"
      by (subst of_nat_le_iff) (use assms(2) Cons in simp)
    then show ?thesis using eps_pos by (intro mult_right_mono) simp_all
  qed
  also have "\<dots> \<le> 1" by (simp add: eps_def)
  finally have "\<bar>neumaier x 0 ys - (x + sum_list ys)\<bar>
    \<le> 2 * (10 * of_nat (0 + length ys) + 2) * eps * (x + sum_list ys)"
    using assms(1) Cons by (intro neumaier_error) simp_all
  also have "\<dots> \<le> fsum_tol (length xs) * sum_list xs"
    using S eps_pos Cons by (simp add: fsum_tol_def, intro mult_right_mono) simp_all
  finally show ?thesis using Cons by simp
qed (simp add: fsum_tol_def)

lemma fsum_tol_small: "n \<le> 2 ^ 48 \<Longrightarrow> fsum_tol n < 1"
proof -
  assume n: "n \<le> 2 ^ 48"
  have "rat_of_nat n \<le> rat_of_nat (2 ^ 48)"
    by (subst of_nat_le_iff) (rule n)
  then show ?thesis by (simp add: fsum_tol_def eps_def)
qed

lemma fsum_nonneg:
  assumes "\<forall>x \<in> set xs. is_float x \<and> 0 \<le> x" "length xs \<le> 2 ^ 48"
  shows "0 \<le> fsum xs"
proof -
  have S: "0 \<le> sum_list xs" using assms(1) by (intro sum_list_nonneg) simp
  then have "fsum_tol (length xs) * sum_list xs \<le> 1 * sum_list xs"
    using fsum_tol_small [OF assms(2)] by (intro mult_right_mono) simp_all
  with fsum_error [OF assms] show ?thesis by linarith
qed

lemma fsum_pos:
  assumes "\<forall>x \<in> set xs. is_float x \<and> 0 < x" "length xs \<le> 2 ^ 48" "xs \<noteq> []"
  shows "0 < fsum xs"
proof -
  obtain y ys where xs: "xs = y # ys" using assms(3) by (cases xs) simp_all
  have "0 \<le> sum_list ys" using assms(1) by (intro sum_list_nonneg) (simp add: xs less_imp_le)
  then have S: "0 < sum_list xs" using assms(1) by (simp add: xs)
  then have "fsum_tol (length xs) * sum_list xs < 1 * sum_list xs"
    using fsum_tol_small [OF assms(2)] by (intro mult_strict_right_mono) simp_all
  moreover have "\<forall>x \<in> set xs. is_float x \<and> 0 \<le> x" using assms(1) by (simp add: less_imp_le)
  ultimately show ?thesis using fsum_error [of xs] assms(2) by fastforce
qed

subsection \<open>Weighted means\<close>

definition mean_slack :: rat where "mean_slack = 1 / 10 ^ 8"

lemma fsum_tol_le: "n \<le> 2 ^ 16 \<Longrightarrow> fsum_tol n \<le> 1310724 * eps"
proof -
  assume n: "n \<le> 2 ^ 16"
  have "rat_of_nat n \<le> rat_of_nat (2 ^ 16)" by (subst of_nat_le_iff) (rule n)
  then show ?thesis by (simp add: fsum_tol_def eps_def)
qed

lemma sum_list_fmul_le:
  assumes "\<forall>(w, s) \<in> set ps. 0 \<le> w \<and> 0 \<le> s \<and> s \<le> B"
  shows "sum_list (map (\<lambda>(w, s). fmul w s) ps) \<le> (1 + eps) * B * sum_list (map fst ps)"
  using assms
proof (induction ps)
  case (Cons p ps)
  obtain w s where p: "p = (w, s)" by fastforce
  have "\<bar>w * s\<bar> \<le> w * B" using Cons.prems p by (auto intro: mult_left_mono)
  then have "(1 + eps) * \<bar>w * s\<bar> \<le> (1 + eps) * (w * B)"
    using eps_pos by (intro mult_left_mono) simp_all
  then have "fmul w s \<le> (1 + eps) * (w * B)"
    using fl_abs_le [of "w * s"] by (simp add: fmul_def algebra_simps)
  with Cons show ?case by (simp add: p algebra_simps)
qed simp

lemma weighted_mean_bounds:
  assumes ps: "\<forall>(w, s) \<in> set ps. is_float w \<and> 0 < w \<and> 0 \<le> s \<and> s \<le> B" "ps \<noteq> []"
    and len: "length ps \<le> 2 ^ 16"
    and D: "D = fdiv (fsum (map (\<lambda>(w, s). fmul w s) ps)) (fsum (map fst ps))"
  shows "0 \<le> D" "D \<le> B * (1 + mean_slack)"
proof -
  define N where "N = fsum (map (\<lambda>(w, s). fmul w s) ps)"
  define V where "V = fsum (map fst ps)"
  define W where "W = sum_list (map fst ps)"
  have B: "0 \<le> B" using ps by (cases ps) fastforce+
  have len48: "length ps \<le> 2 ^ 48" using len by simp
  have prods: "\<forall>x \<in> set (map (\<lambda>(w, s). fmul w s) ps). is_float x \<and> 0 \<le> x"
    using ps by (fastforce simp: fmul_def)
  have ws: "\<forall>x \<in> set (map fst ps). is_float x \<and> 0 < x" using ps by fastforce
  have V0: "0 < V" unfolding V_def using ws ps(2) len48 by (intro fsum_pos) simp_all
  have N0: "0 \<le> N" unfolding N_def using prods len48 by (intro fsum_nonneg) simp_all
  show "0 \<le> D" using N0 V0 by (simp add: D N_def [symmetric] V_def [symmetric] fdiv_def)
  have W0: "0 \<le> W" unfolding W_def using ws by (intro sum_list_nonneg) force
  have ps': "\<forall>(w, s) \<in> set ps. 0 \<le> w \<and> 0 \<le> s \<and> s \<le> B" using ps(1) by (auto simp: less_imp_le)
  have tol: "fsum_tol (length ps) \<le> 1310724 * eps" using len by (rule fsum_tol_le)
  have P0: "0 \<le> sum_list (map (\<lambda>(w, s). fmul w s) ps)"
    by (rule sum_list_nonneg) (use prods in blast)
  have "N \<le> (1 + fsum_tol (length ps)) * sum_list (map (\<lambda>(w, s). fmul w s) ps)"
    using fsum_error [OF prods] len48 by (simp add: N_def algebra_simps)
  also have "\<dots> \<le> (1 + 1310724 * eps) * ((1 + eps) * B * W)"
    unfolding W_def using tol P0 sum_list_fmul_le [OF ps'] eps_pos by (intro mult_mono) simp_all
  finally have N: "N \<le> (1 + 1310724 * eps) * (1 + eps) * (B * W)" by (simp add: mult.assoc)
  have ws': "\<forall>x \<in> set (map fst ps). is_float x \<and> 0 \<le> x" using ws by (simp add: less_imp_le)
  have "(1 - fsum_tol (length ps)) * W \<le> V"
    using fsum_error [OF ws'] len48 by (simp add: V_def W_def algebra_simps)
  moreover have "(1 - 1310724 * eps) * W \<le> (1 - fsum_tol (length ps)) * W"
    using tol W0 by (intro mult_right_mono) simp_all
  ultimately have V: "(1 - 1310724 * eps) * W \<le> V" by linarith
  have BW: "B * ((1 - 1310724 * eps) * W) \<le> B * V" using V B by (rule mult_left_mono)
  have num: "(1 + 1310724 * eps) * (1 + eps) * (1 + eps) \<le> (1 + mean_slack) * (1 - 1310724 * eps)"
    by (simp add: eps_def mean_slack_def)
  have "(1 + eps) * N \<le> (1 + 1310724 * eps) * (1 + eps) * (1 + eps) * (B * W)"
    using mult_left_mono [OF N, of "1 + eps"] eps_pos by (simp add: mult_ac)
  also have "\<dots> \<le> (1 + mean_slack) * (1 - 1310724 * eps) * (B * W)"
    using num B W0 by (intro mult_right_mono) simp_all
  also have "\<dots> \<le> (1 + mean_slack) * (B * V)"
    using mult_left_mono [OF BW, of "1 + mean_slack"] by (simp add: mean_slack_def mult_ac)
  finally have "(1 + eps) * (N / V) \<le> B * (1 + mean_slack)"
    using V0 by (simp add: field_simps)
  moreover have "fl (N / V) \<le> (1 + eps) * (N / V)"
  proof -
    define Q where "Q = N / V"
    have "0 \<le> Q" using N0 V0 by (simp add: Q_def)
    then show ?thesis using fl_abs_le [of Q] unfolding Q_def [symmetric] by (simp add: distrib_right)
  qed
  ultimately show "D \<le> B * (1 + mean_slack)"
    by (simp add: D N_def [symmetric] V_def [symmetric] fdiv_def)
qed

subsection \<open>Evaluation of closed terms\<close>

text \<open>
  Integer arithmetic that computes \<open>fl\<close> of a fraction of numerals, for the kernel evaluation
  of concrete inputs: \<open>float_eval\<close> is the bundle a witness simplifies with.
\<close>

definition rhq :: "int \<Rightarrow> int \<Rightarrow> int" where
  "rhq n d = (let q = n div d; r = n mod d
              in if 2 * r < d then q else if d < 2 * r then q + 1 else if even q then q else q + 1)"

lemma rhe_divide: "0 < d \<Longrightarrow> rhe (of_int n / of_int d) = rhq n d"
proof -
  assume d: "0 < d"
  have f: "\<lfloor>(of_int n / of_int d :: rat)\<rfloor> = n div d" by (rule floor_divide_of_int_eq)
  have "n = (n div d) * d + n mod d" by simp
  then have "(of_int n :: rat) = of_int (n div d) * of_int d + of_int (n mod d)"
    by (metis of_int_add of_int_mult)
  then have r: "of_int n / of_int d - of_int (n div d) = (of_int (n mod d) / of_int d :: rat)"
    using d by (simp add: field_simps)
  have h: "(of_int (n mod d) / of_int d < (1 / 2 :: rat)) = (2 * (n mod d) < d)"
    "((1 / 2 :: rat) < of_int (n mod d) / of_int d) = (d < 2 * (n mod d))"
  proof -
    have c: "of_int (2 * (n mod d)) = 2 * (of_int (n mod d) :: rat)" by simp
    have "(of_int (n mod d) / of_int d < (1 / 2 :: rat)) = (of_int (2 * (n mod d)) < (of_int d :: rat))"
      "((1 / 2 :: rat) < of_int (n mod d) / of_int d) = ((of_int d :: rat) < of_int (2 * (n mod d)))"
      unfolding c using d by (simp_all add: divide_less_eq less_divide_eq mult.commute)
    then show "(of_int (n mod d) / of_int d < (1 / 2 :: rat)) = (2 * (n mod d) < d)"
      "((1 / 2 :: rat) < of_int (n mod d) / of_int d) = (d < 2 * (n mod d))"
      by (simp_all only: of_int_less_iff)
  qed
  show ?thesis by (simp only: rhe_def rhq_def f Let_def r h)
qed

lemma ilog2_numeral [simp]:
  "ilog2 (Suc 0) = 0" "ilog2 1 = 0"
  "ilog2 (numeral (num.Bit0 n)) = Suc (ilog2 (numeral n))"
  "ilog2 (numeral (num.Bit1 n)) = Suc (ilog2 (numeral n))"
proof -
  show 1: "ilog2 (Suc 0) = 0" "ilog2 1 = 0" by (simp_all add: ilog2.simps)
  have "numeral (num.Bit0 n) div 2 = (numeral n :: nat)" "numeral (num.Bit1 n) div 2 = (numeral n :: nat)"
    by simp_all
  then show "ilog2 (numeral (num.Bit0 n)) = Suc (ilog2 (numeral n))"
    "ilog2 (numeral (num.Bit1 n)) = Suc (ilog2 (numeral n))"
    by (simp_all add: ilog2.simps [of "numeral (num.Bit0 n)"] ilog2.simps [of "numeral (num.Bit1 n)"])
qed

definition fl_frac :: "int \<Rightarrow> int \<Rightarrow> rat" where
  "fl_frac a b =
     (let k = int (ilog2 (nat a)) - int (ilog2 (nat b));
          e = (if (if 0 \<le> k then 2 ^ nat k * b \<le> a else b \<le> 2 ^ nat (- k) * a) then k else k - 1)
      in if e \<le> 52 then of_int (rhq (a * 2 ^ nat (52 - e)) b) / 2 ^ nat (52 - e)
         else of_int (rhq a (b * 2 ^ nat (e - 52))) * 2 ^ nat (e - 52))"

lemma powi_nonneg: "0 \<le> k \<Longrightarrow> (2::rat) powi k = 2 ^ nat k"
  by (simp add: power_int_def)

lemma powi_neg: "k \<le> 0 \<Longrightarrow> (2::rat) powi k = 1 / 2 ^ nat (- k)"
  by (cases "k = 0") (simp_all add: power_int_def field_simps)

lemma expo_frac:
  fixes a b :: int
  assumes "0 < a" "0 < b" "k = int (ilog2 (nat a)) - int (ilog2 (nat b))"
  shows "expo (of_int a / of_int b) =
    (if (if 0 \<le> k then 2 ^ nat k * b \<le> a else b \<le> 2 ^ nat (- k) * a) then k else k - 1)"
proof -
  define i j where "i = ilog2 (nat a)" and "j = ilog2 (nat b)"
  have "2 ^ i \<le> nat a \<and> nat a < 2 ^ Suc i" "2 ^ j \<le> nat b \<and> nat b < 2 ^ Suc j"
    unfolding i_def j_def using assms by (intro ilog2_bounds; simp)+
  then have "int (2 ^ i) \<le> a" "a < int (2 ^ Suc i)" "int (2 ^ j) \<le> b" "b < int (2 ^ Suc j)"
    using assms by (simp_all add: le_nat_iff nat_less_iff)
  then have "of_int (int (2 ^ i)) \<le> (of_int a :: rat)" "of_int a < (of_int (int (2 ^ Suc i)) :: rat)"
    "of_int (int (2 ^ j)) \<le> (of_int b :: rat)" "of_int b < (of_int (int (2 ^ Suc j)) :: rat)"
    by (simp_all only: of_int_le_iff of_int_less_iff)
  then have r: "2 ^ i \<le> (of_int a :: rat)" "(of_int a :: rat) < 2 * 2 ^ i"
    "2 ^ j \<le> (of_int b :: rat)" "(of_int b :: rat) < 2 * 2 ^ j"
    by simp_all
  define x where "x = (of_int a / of_int b :: rat)"
  have ab: "(0::rat) < of_int a" "(0::rat) < of_int b" using assms by simp_all
  have x: "\<bar>x\<bar> = x" using ab by (simp add: x_def)
  have k: "(2::rat) powi k = 2 ^ i / 2 ^ j"
    by (simp add: assms(3) i_def j_def power_int_diff)
  have "of_int a * 2 ^ j < 2 * 2 ^ i * (of_int b :: rat)"
    using r ab by (intro mult_less_le_imp_less) simp_all
  then have up: "x < 2 * 2 powi k" unfolding k x_def using ab by (simp add: field_simps)
  have "2 ^ i * of_int b \<le> of_int a * (2 * 2 ^ j :: rat)"
    using r ab by (intro mult_mono) simp_all
  then have lo: "2 powi k / 2 \<le> x" unfolding k x_def using ab by (simp add: field_simps)
  have dec: "(if 0 \<le> k then 2 ^ nat k * b \<le> a else b \<le> 2 ^ nat (- k) * a) \<longleftrightarrow> 2 powi k \<le> x"
  proof (cases "0 \<le> k")
    case True
    have "2 powi k \<le> x \<longleftrightarrow> of_int (2 ^ nat k * b) \<le> (of_int a :: rat)"
      unfolding x_def powi_nonneg [OF True] using ab by (simp add: field_simps)
    then show ?thesis using True by (simp only: of_int_le_iff if_True)
  next
    case False
    have "2 powi k \<le> x \<longleftrightarrow> of_int b \<le> (of_int (2 ^ nat (- k) * a) :: rat)"
      unfolding x_def using False ab by (simp add: powi_neg field_simps)
    then show ?thesis using False by (simp only: of_int_le_iff if_False)
  qed
  have "expo x = (if 2 powi k \<le> x then k else k - 1)"
  proof (cases "2 powi k \<le> x")
    case True
    then show ?thesis using up x powi2_Suc [of k] by (simp add: expo_unique)
  next
    case False
    then show ?thesis using lo x powi2_Suc [of "k - 1"] by (simp add: expo_unique)
  qed
  then show ?thesis by (simp only: dec x_def)
qed

lemma fl_frac:
  assumes "0 < a" "0 < b"
  shows "fl (of_int a / of_int b) = fl_frac a b"
proof -
  define k where "k = int (ilog2 (nat a)) - int (ilog2 (nat b))"
  define e where "e = (if (if 0 \<le> k then 2 ^ nat k * b \<le> a else b \<le> 2 ^ nat (- k) * a) then k else k - 1)"
  have ex: "expo (of_int a / of_int b) = e"
    unfolding e_def by (rule expo_frac) (use assms k_def in simp_all)
  have "(of_int a / of_int b :: rat) \<noteq> 0" using assms by simp
  then have f: "fl (of_int a / of_int b) =
    of_int (rhe (of_int a / of_int b / 2 powi (e - 52))) * 2 powi (e - 52)"
    by (simp add: fl_scaled ex)
  show ?thesis
  proof (cases "e \<le> 52")
    case True
    then have p: "2 powi (e - 52) = (1 / 2 ^ nat (52 - e) :: rat)" by (simp add: powi_neg)
    have "(of_int a / of_int b / 2 powi (e - 52) :: rat) = of_int (a * 2 ^ nat (52 - e)) / of_int b"
      by (simp add: p)
    then show ?thesis using f assms True
      by (simp only: rhe_divide) (simp add: fl_frac_def k_def [symmetric] e_def [symmetric] Let_def p)
  next
    case False
    then have p: "2 powi (e - 52) = (2 ^ nat (e - 52) :: rat)" by (simp add: powi_nonneg)
    have "(of_int a / of_int b / 2 powi (e - 52) :: rat) = of_int a / of_int (b * 2 ^ nat (e - 52))"
      by (simp add: p)
    moreover have "0 < b * 2 ^ nat (e - 52)" using assms by simp
    ultimately show ?thesis using f False
      by (simp only: rhe_divide) (simp add: fl_frac_def k_def [symmetric] e_def [symmetric] Let_def p)
  qed
qed

lemma fl_numeral_frac:
  "fl (numeral a / numeral b) = fl_frac (numeral a) (numeral b)"
  "fl (1 / numeral b) = fl_frac 1 (numeral b)"
  "fl (numeral a) = fl_frac (numeral a) 1"
  "fl 1 = 1"
  "fl (- x) = - fl x"
  using fl_frac [of "numeral a" "numeral b"] fl_frac [of 1 "numeral b"] fl_frac [of "numeral a" 1]
    fl_of_int [of 1] by (simp_all add: fl_neg)

lemmas float_eval = fl_numeral_frac fl_frac_def rhq_def Let_def
  fadd_def fsub_def fmul_def fdiv_def fl_0

end
