(* ===== verification/Models.thy ===== *)
theory Models
  imports PyFloat
begin

text \<open>
  The data model of the engine: \<open>core/models.py\<close> and \<open>core/entities.py\<close>. Pydantic models are
  records (they are frozen: every change builds a new value), enumerations are datatypes with
  their wire text, \<open>Any\<close> payloads are JSON values.
\<close>

subsection \<open>JSON values\<close>

text \<open>
  A value \<open>json.loads\<close> can return here: numbers with a fraction or exponent are parsed as
  \<open>Decimal\<close> (sign, coefficient, exponent), strings are code points, objects keep their order.
\<close>

datatype json =
    JNull
  | JBool bool
  | JInt int
  | JDec bool nat int
  | JFloat pyfloat
  | JStr ustr
  | JArr "json list"
  | JObj "(ustr \<times> json) list"

type_synonym jdict = "(ustr \<times> json) list"

definition jget :: "jdict \<Rightarrow> string \<Rightarrow> json option" where
  "jget d k = map_of d (u k)"

text \<open>Python truthiness of a value.\<close>

fun truthy :: "json \<Rightarrow> bool" where
  "truthy JNull = False"
| "truthy (JBool b) = b"
| "truthy (JInt i) = (i \<noteq> 0)"
| "truthy (JDec s c e) = (c \<noteq> 0)"
| "truthy (JFloat x) = (x \<noteq> 0)"
| "truthy (JStr s) = (s \<noteq> [])"
| "truthy (JArr xs) = (xs \<noteq> [])"
| "truthy (JObj kvs) = (kvs \<noteq> [])"

text \<open>\<open>d.get(k)\<close> with its default None, and the idiom \<open>a or b\<close> over it.\<close>

definition jget_null :: "jdict \<Rightarrow> string \<Rightarrow> json" where
  "jget_null d k = (case jget d k of None \<Rightarrow> JNull | Some v \<Rightarrow> v)"

definition py_or :: "json \<Rightarrow> json \<Rightarrow> json" where
  "py_or a b = (if truthy a then a else b)"

subsection \<open>Enumerations\<close>

datatype quality_gate_status = GERROR | GFAIL | GINSUFFICIENT_EVIDENCE | GWARN | GPASS

datatype publication_status = PUBLISHED | WITHHELD

datatype measurement_status =
  MEASURED | NOT_APPLICABLE | NOT_MEASURABLE | FAILED_TO_MEASURE | INSUFFICIENT_DATA | SKIPPED_BY_BUDGET

datatype standard_dimension = ACCURACY | COMPLETENESS | CONSISTENCY | TIMELINESS | VALIDITY | UNIQUENESS

datatype run_status = QUEUED | LEASED | RUNNING | SUCCEEDED | FAILED | CANCELLED

fun measurement_value :: "measurement_status \<Rightarrow> ident" where
  "measurement_value MEASURED = u ''MEASURED''"
| "measurement_value NOT_APPLICABLE = u ''NOT_APPLICABLE''"
| "measurement_value NOT_MEASURABLE = u ''NOT_MEASURABLE''"
| "measurement_value FAILED_TO_MEASURE = u ''FAILED_TO_MEASURE''"
| "measurement_value INSUFFICIENT_DATA = u ''INSUFFICIENT_DATA''"
| "measurement_value SKIPPED_BY_BUDGET = u ''SKIPPED_BY_BUDGET''"

fun gate_value :: "quality_gate_status \<Rightarrow> ident" where
  "gate_value GERROR = u ''ERROR''"
| "gate_value GFAIL = u ''FAIL''"
| "gate_value GINSUFFICIENT_EVIDENCE = u ''INSUFFICIENT_EVIDENCE''"
| "gate_value GWARN = u ''WARN''"
| "gate_value GPASS = u ''PASS''"

fun publication_value :: "publication_status \<Rightarrow> ident" where
  "publication_value PUBLISHED = u ''PUBLISHED''"
| "publication_value WITHHELD = u ''WITHHELD''"

fun dimension_value :: "standard_dimension \<Rightarrow> ident" where
  "dimension_value ACCURACY = u ''ACCURACY''"
| "dimension_value COMPLETENESS = u ''COMPLETENESS''"
| "dimension_value CONSISTENCY = u ''CONSISTENCY''"
| "dimension_value TIMELINESS = u ''TIMELINESS''"
| "dimension_value VALIDITY = u ''VALIDITY''"
| "dimension_value UNIQUENESS = u ''UNIQUENESS''"

fun run_value :: "run_status \<Rightarrow> ident" where
  "run_value QUEUED = u ''QUEUED''"
| "run_value LEASED = u ''LEASED''"
| "run_value RUNNING = u ''RUNNING''"
| "run_value SUCCEEDED = u ''SUCCEEDED''"
| "run_value FAILED = u ''FAILED''"
| "run_value CANCELLED = u ''CANCELLED''"

lemma measurement_value_inj [simp]: "measurement_value a = measurement_value b \<longleftrightarrow> a = b"
  by (cases a; cases b) simp_all

lemma run_value_inj [simp]: "run_value a = run_value b \<longleftrightarrow> a = b"
  by (cases a; cases b) simp_all

lemma gate_value_inj [simp]: "gate_value a = gate_value b \<longleftrightarrow> a = b"
  by (cases a; cases b) simp_all

subsection \<open>Value objects of the scoring core\<close>

text \<open>Counts are Python integers; the engine only ever produces nonnegative ones.\<close>

record rule_counts =
  passed :: int
  failed :: int
  missing :: int
  miscast :: int
  not_applicable :: int
  total_observed :: int

definition zero_counts :: rule_counts where
  "zero_counts = \<lparr>passed = 0, failed = 0, missing = 0, miscast = 0, not_applicable = 0, total_observed = 0\<rparr>"

record quality_rule_result =
  rule_id :: ident
  dimension :: ident
  measurement :: ident
  is_critical :: bool
  is_advisory :: bool
  is_required :: bool
  gate_enabled :: bool
  score_enabled :: bool
  conflict_group :: "ident option"
  is_primary_scoring_rule :: bool
  contribution_weight :: pyfloat
  acceptance_threshold :: "pyfloat option"
  confidence :: "pyfloat option"
  computed_score :: "pyfloat option"
  violations_count :: int
  counts :: "rule_counts option"
  evidence_samples :: "jdict list option"
  error_message :: "ustr option"
  source_kind :: ident
  target_column :: "ustr option"
  rule_config_hash :: "ident option"

record scoring_policy =
  publication_threshold :: pyfloat
  warn_min :: pyfloat
  pass_min :: pyfloat
  min_critical_confidence :: pyfloat
  critical_acceptance_threshold :: "pyfloat option"
  dimension_weights :: "(ident \<times> pyfloat) list"
  policy_id :: "uuid option"

definition default_policy :: scoring_policy where
  "default_policy = \<lparr>publication_threshold = fl (80 / 100), warn_min = 60, pass_min = 80,
     min_critical_confidence = fl (80 / 100), critical_acceptance_threshold = None,
     dimension_weights = [], policy_id = None\<rparr>"

text \<open>
  Validation at construction: the declared field bounds, then the threshold order. \<open>Inl\<close>
  carries the offending field or the validator's message.
\<close>

definition check_scoring_policy :: "scoring_policy \<Rightarrow> string + scoring_policy" where
  "check_scoring_policy p =
     (if \<not> (0 \<le> publication_threshold p \<and> publication_threshold p \<le> 1) then Inl ''publication_threshold''
      else if \<not> (0 \<le> warn_min p \<and> warn_min p \<le> 100) then Inl ''warn_min''
      else if \<not> (0 \<le> pass_min p \<and> pass_min p \<le> 100) then Inl ''pass_min''
      else if \<not> (0 \<le> min_critical_confidence p \<and> min_critical_confidence p \<le> 1)
        then Inl ''min_critical_confidence''
      else if (case critical_acceptance_threshold p of None \<Rightarrow> False | Some t \<Rightarrow> \<not> (0 \<le> t \<and> t \<le> 100))
        then Inl ''critical_acceptance_threshold''
      else if warn_min p > pass_min p
        then Inl ''warn_min (gate fail threshold) must not exceed pass_min (gate warn threshold)''
      else Inr p)"

abbreviation coverage_threshold :: "scoring_policy \<Rightarrow> pyfloat" where
  "coverage_threshold \<equiv> publication_threshold"
abbreviation gate_fail_threshold :: "scoring_policy \<Rightarrow> pyfloat" where
  "gate_fail_threshold \<equiv> warn_min"
abbreviation gate_warn_threshold :: "scoring_policy \<Rightarrow> pyfloat" where
  "gate_warn_threshold \<equiv> pass_min"

record gate_evaluation_input =
  g_rule_results :: "quality_rule_result list"
  g_dq_score :: "pyfloat option"
  g_coverage_ratio :: "pyfloat option"
  g_policy :: scoring_policy
  g_required_dimensions :: "ident set"

record publication_check_input =
  p_run_status :: ident
  p_gate_status :: quality_gate_status
  p_dq_score :: "pyfloat option"
  p_coverage_ratio :: "pyfloat option"
  p_policy :: scoring_policy
  p_all_required_dimensions_measured :: bool
  p_has_failed_required_rules :: bool
  p_has_unmeasured_required_rules :: bool

record dimension_result =
  d_dimension :: ident
  d_dimension_score :: "pyfloat option"
  d_coverage_ratio :: "pyfloat option"
  d_rule_results :: "quality_rule_result list"
  d_dimension_weight :: pyfloat

record dataset_score_result =
  ds_dq_score :: "pyfloat option"
  ds_coverage_ratio :: "pyfloat option"
  ds_dimension_results :: "dimension_result list"

subsection \<open>Lifecycle entities\<close>

record dataset_snapshot =
  sn_snapshot_id :: uuid
  sn_tenant_id :: uuid
  sn_asset_id :: uuid
  sn_source_kind :: ident
  sn_source_descriptor :: jdict
  sn_schema_definition :: jdict
  sn_total_rows :: int
  sn_total_columns :: int
  sn_captured_at :: timestamp

record quality_rule =
  q_rule_id :: uuid
  q_rule_code :: ident
  q_dimension :: ident
  q_rule_type :: ident
  q_parameters :: jdict
  q_null_policy :: ident
  q_is_required :: bool
  q_is_critical :: bool
  q_gate_enabled :: bool
  q_score_enabled :: bool
  q_conflict_group :: "ident option"
  q_is_primary_scoring_rule :: bool
  q_contribution_weight :: pyfloat
  q_acceptance_threshold :: "pyfloat option"
  q_is_advisory :: bool
  q_ruleset_id :: "uuid option"

record run_spec =
  rs_run_id :: uuid
  rs_tenant_id :: uuid
  rs_snapshot :: dataset_snapshot
  rs_rules :: "quality_rule list"
  rs_policy :: scoring_policy
  rs_execution_profile :: ident
  rs_outlier_columns :: "ident list"
  rs_ruleset_id :: "uuid option"
  rs_policy_id :: "uuid option"
  rs_created_by :: "uuid option"

record leased_run =
  lr_run_id :: uuid
  lr_worker_id :: ident
  lr_lease_generation :: int
  lr_claimed_at :: timestamp
  lr_lease_expires_at :: timestamp
  lr_spec :: run_spec

record immutable_assessment =
  a_assessment_id :: uuid
  a_tenant_id :: uuid
  a_run_id :: uuid
  a_snapshot_id :: uuid
  a_dq_score :: "pyfloat option"
  a_publication_status :: publication_status
  a_coverage_ratio :: "pyfloat option"
  a_quality_gate :: quality_gate_status
  a_dimension_results :: "dimension_result list"
  a_assessment_hash :: ident
  a_created_at :: timestamp
  a_confidence_status :: ident

record rule_execution_output =
  o_rule_id :: uuid
  o_counts :: rule_counts
  o_status :: measurement_status
  o_evidence_samples :: "jdict list"
  o_error_message :: "ustr option"

record outlier_execution_output =
  oo_column_name :: ident
  oo_total_evaluated :: int
  oo_iqr :: pyfloat
  oo_outlier_count :: int
  oo_outlier_samples :: "jdict list"

end
