(* ===== verification/RuleScoring.thy ===== *)
theory RuleScoring
  imports Models
begin

text \<open>
  \<open>core/rule_scoring.py\<close>: the partition identity of the counts of one rule, the denominator its
  null policy selects, and the rule score. The only exception is the \<open>ValueError\<close> for an unknown
  null policy.
\<close>

record rule_scoring_input =
  si_counts :: rule_counts
  si_null_policy :: ident
  si_zero_denominator_status :: ident
  si_is_applicable :: bool
  si_has_required_metadata :: bool

text \<open>The input \<open>RuleScoringInput(counts=c, null_policy=p)\<close> with its declared defaults.\<close>

definition default_scoring_input :: "rule_counts \<Rightarrow> ident \<Rightarrow> rule_scoring_input" where
  "default_scoring_input c p =
     \<lparr>si_counts = c, si_null_policy = p, si_zero_denominator_status = measurement_value NOT_MEASURABLE,
      si_is_applicable = True, si_has_required_metadata = True\<rparr>"

definition verify_partition_identity :: "rule_counts \<Rightarrow> bool" where
  "verify_partition_identity c \<longleftrightarrow>
     passed c + failed c + missing c + miscast c + not_applicable c = total_observed c"

definition calculate_denominator :: "rule_counts \<Rightarrow> ident \<Rightarrow> string + int" where
  "calculate_denominator c p =
     (if p = u ''fail'' then Inr (passed c + failed c + miscast c + missing c)
      else if p \<in> {u ''ignore'', u ''separate'', u ''not_applicable''}
        then Inr (passed c + failed c + miscast c)
      else Inl ''Unsupported null policy'')"

definition compute_rule_score :: "rule_scoring_input \<Rightarrow> string + ident \<times> pyfloat option" where
  "compute_rule_score inp =
     (if \<not> si_is_applicable inp then Inr (measurement_value NOT_APPLICABLE, None)
      else if \<not> si_has_required_metadata inp then Inr (measurement_value NOT_MEASURABLE, None)
      else case calculate_denominator (si_counts inp) (si_null_policy inp) of
        Inl e \<Rightarrow> Inl e
      | Inr denominator \<Rightarrow>
          if denominator = 0 then Inr (si_zero_denominator_status inp, None)
          else Inr (measurement_value MEASURED,
                    Some (fmul (fdiv (of_int (passed (si_counts inp))) (of_int denominator)) 100)))"

declare verify_partition_identity_def [scoring_defs] calculate_denominator_def [scoring_defs]
  compute_rule_score_def [scoring_defs]

subsection \<open>The percentage of two counts\<close>

definition percentage :: "int \<Rightarrow> int \<Rightarrow> pyfloat" where
  "percentage p d = fmul (fdiv (of_int p) (of_int d)) 100"

definition counts_nonneg :: "rule_counts \<Rightarrow> bool" where
  "counts_nonneg c \<longleftrightarrow> 0 \<le> passed c \<and> 0 \<le> failed c \<and> 0 \<le> missing c \<and> 0 \<le> miscast c \<and> 0 \<le> not_applicable c"

lemma fl_hundred: "fl 100 = 100" and fl_one: "fl 1 = 1"
  by (simp_all add: float_eval)

lemma percentage_bounds:
  assumes "0 \<le> p" "p \<le> d" "0 < d"
  shows "0 \<le> percentage p d" "percentage p d \<le> 100"
proof -
  have q: "(of_int p / of_int d :: rat) \<le> 1" using assms by simp
  have "fl (of_int p / of_int d) \<le> fl 1" using q by (rule fl_mono)
  then have "fl (fl (of_int p / of_int d) * 100) \<le> fl 100"
    by (intro fl_mono) (simp add: fl_one)
  then show "percentage p d \<le> 100" by (simp add: percentage_def fmul_def fdiv_def fl_hundred)
  show "0 \<le> percentage p d" using assms by (simp add: percentage_def fmul_def fdiv_def)
qed

lemma percentage_mono:
  assumes "p \<le> q" "0 < d"
  shows "percentage p d \<le> percentage q d"
proof -
  have "(of_int p / of_int d :: rat) \<le> of_int q / of_int d"
    using assms by (intro divide_right_mono) simp_all
  then show ?thesis
    unfolding percentage_def fmul_def fdiv_def by (intro fl_mono mult_right_mono) simp_all
qed

lemma percentage_full: "0 < d \<Longrightarrow> percentage d d = 100"
  by (simp add: percentage_def fmul_def fdiv_def fl_one fl_hundred)

text \<open>Rounding never lifts an imperfect count to a perfect score, for up to $2^{53}$ records.\<close>

lemma percentage_less_hundred:
  assumes "0 \<le> p" "p < d" "d \<le> 2 ^ 53"
  shows "percentage p d < 100"
proof -
  define top where "top = (of_int (2 ^ 53 - 1) * 2 powi (- 53) :: rat)"
  have top: "top = 9007199254740991 / 9007199254740992"
    by (simp add: top_def powi_neg)
  have d: "0 < d" using assms by simp
  have "(p + 1) * 2 ^ 53 \<le> d * 2 ^ 53" using assms by (intro mult_right_mono) simp_all
  moreover have "d + (p * 2 ^ 53) \<le> (p + 1) * 2 ^ 53" using assms(3) by (simp add: algebra_simps)
  ultimately have "p * 2 ^ 53 \<le> d * (2 ^ 53 - 1)" by (simp add: algebra_simps)
  then have "of_int (p * 2 ^ 53) \<le> (of_int (d * (2 ^ 53 - 1)) :: rat)" by (simp only: of_int_le_iff)
  then have "(of_int p / of_int d :: rat) \<le> top" using d by (simp add: top field_simps)
  then have "fl (of_int p / of_int d) \<le> fl top" by (rule fl_mono)
  also have "fl top = top" unfolding top_def by (rule fl_grid) simp
  finally have "fl (fl (of_int p / of_int d) * 100) \<le> fl (top * 100)"
    by (intro fl_mono) simp
  also have "fl (top * 100) < 100" by (simp add: top float_eval)
  finally show ?thesis by (simp add: percentage_def fmul_def fdiv_def)
qed

lemma percentage_zero: "percentage 0 d = 0"
  by (simp add: percentage_def fmul_def fdiv_def)

lemma percentage_pos: "0 < p \<Longrightarrow> 0 < d \<Longrightarrow> 0 < percentage p d"
  by (simp add: percentage_def fmul_def fdiv_def)

subsection \<open>Scores of one rule\<close>

lemma compute_rule_score_percentage:
  assumes "si_is_applicable inp" "si_has_required_metadata inp"
    and "calculate_denominator (si_counts inp) (si_null_policy inp) = Inr d" "d \<noteq> 0"
  shows "compute_rule_score inp = Inr (measurement_value MEASURED, Some (percentage (passed (si_counts inp)) d))"
  using assms by (simp add: compute_rule_score_def percentage_def)

lemma denominator_bounds:
  assumes "counts_nonneg c" "calculate_denominator c p = Inr d"
  shows "0 \<le> d" "passed c \<le> d"
  using assms by (auto simp: calculate_denominator_def counts_nonneg_def split: if_splits)

lemma computed_score_cases:
  assumes "compute_rule_score inp = Inr (st, Some s)"
  obtains d where "calculate_denominator (si_counts inp) (si_null_policy inp) = Inr d" "d \<noteq> 0"
    "st = measurement_value MEASURED" "s = percentage (passed (si_counts inp)) d"
  using assms by (auto simp: compute_rule_score_def percentage_def split: if_splits sum.splits)

lemma rule_score_range:
  assumes "compute_rule_score inp = Inr (st, Some s)" "counts_nonneg (si_counts inp)"
  shows "0 \<le> s" "s \<le> 100"
proof -
  obtain d where d: "calculate_denominator (si_counts inp) (si_null_policy inp) = Inr d" "d \<noteq> 0"
    and s: "s = percentage (passed (si_counts inp)) d"
    using assms(1) by (rule computed_score_cases)
  note b = denominator_bounds [OF assms(2) d(1)]
  have "0 \<le> passed (si_counts inp)" using assms(2) by (simp add: counts_nonneg_def)
  with b d(2) show "0 \<le> s" "s \<le> 100" by (simp_all add: s percentage_bounds)
qed

lemma is_float_percentage [simp]: "is_float (percentage p d)"
  by (simp add: percentage_def)

end
