(* ===== verification/DimensionScoring.thy ===== *)
theory DimensionScoring
  imports RuleScoring
begin

text \<open>
  \<open>core/dimension_scoring.py\<close> and \<open>core/dataset_scoring.py\<close>: the weighted means of rule scores
  and of dimension scores, and the coverage ratios. \<open>sum\<close> over floats is \<^const>\<open>fsum\<close>.
\<close>

subsection \<open>Dimensions\<close>

definition is_dimension_measured_rule :: "quality_rule_result \<Rightarrow> bool" where
  "is_dimension_measured_rule r \<longleftrightarrow>
     measurement r = measurement_value MEASURED \<and> score_enabled r \<and> \<not> is_advisory r
     \<and> is_primary_scoring_rule r \<and> computed_score r \<noteq> None \<and> contribution_weight r > 0"

definition is_dimension_expected_rule :: "quality_rule_result \<Rightarrow> bool" where
  "is_dimension_expected_rule r \<longleftrightarrow>
     \<not> is_advisory r \<and> score_enabled r \<and> measurement r \<noteq> measurement_value NOT_APPLICABLE
     \<and> is_primary_scoring_rule r \<and> contribution_weight r > 0"

definition required_dimensions :: "quality_rule_result list \<Rightarrow> ident set" where
  "required_dimensions rules = set (map dimension (filter is_dimension_expected_rule rules))"

record dimension_scoring_input =
  di_dimension :: ident
  di_rules :: "quality_rule_result list"
  di_dimension_weight :: pyfloat

text \<open>\<open>x or 0.0\<close> for an optional float.\<close>

definition or_zero :: "pyfloat option \<Rightarrow> pyfloat" where
  "or_zero x = (case x of None \<Rightarrow> 0 | Some v \<Rightarrow> v)"

definition compute_dimension_result :: "dimension_scoring_input \<Rightarrow> dimension_result" where
  "compute_dimension_result inp =
     (let measured_rules = filter is_dimension_measured_rule (di_rules inp);
          expected_rules = filter is_dimension_expected_rule (di_rules inp);
          sum_measured_weight = fsum (map contribution_weight measured_rules);
          sum_expected_weight = fsum (map contribution_weight expected_rules);
          score = (if sum_measured_weight > 0
                   then Some (fdiv (fsum (map (\<lambda>r. fmul (contribution_weight r) (or_zero (computed_score r)))
                                          measured_rules)) sum_measured_weight)
                   else None);
          coverage = (if sum_expected_weight > 0
                      then Some (fdiv sum_measured_weight sum_expected_weight) else None)
      in \<lparr>d_dimension = di_dimension inp, d_dimension_score = score, d_coverage_ratio = coverage,
          d_rule_results = di_rules inp, d_dimension_weight = di_dimension_weight inp\<rparr>)"

subsection \<open>The dataset\<close>

record dataset_scoring_input =
  dsi_dimension_results :: "dimension_result list"
  dsi_dimension_weights :: "(ident \<times> pyfloat) list"

definition DEFAULT_DIMENSION_WEIGHT :: pyfloat where
  "DEFAULT_DIMENSION_WEIGHT = 1"

definition dataset_weights :: "dataset_scoring_input \<Rightarrow> (ident \<times> pyfloat) list" where
  "dataset_weights inp =
     dict_of (map (\<lambda>d. (d_dimension d, dict_get (dsi_dimension_weights inp) (d_dimension d) DEFAULT_DIMENSION_WEIGHT))
                  (dsi_dimension_results inp))"

definition compute_dataset_score :: "dataset_scoring_input \<Rightarrow> dataset_score_result" where
  "compute_dataset_score inp =
     (let weights = dataset_weights inp;
          w = (\<lambda>d. dict_get weights (d_dimension d) 0);
          measured_dims = filter (\<lambda>d. d_dimension_score d \<noteq> None \<and> w d > 0) (dsi_dimension_results inp);
          expected_dims = filter (\<lambda>d. d_coverage_ratio d \<noteq> None \<and> w d > 0) (dsi_dimension_results inp);
          sum_measured_alpha = fsum (map w measured_dims);
          sum_expected_alpha = fsum (map w expected_dims);
          score = (if sum_measured_alpha > 0
                   then Some (fdiv (fsum (map (\<lambda>d. fmul (w d) (or_zero (d_dimension_score d))) measured_dims))
                                   sum_measured_alpha) else None);
          coverage = (if sum_expected_alpha > 0
                      then Some (fdiv (fsum (map (\<lambda>d. fmul (w d) (or_zero (d_coverage_ratio d))) expected_dims))
                                      sum_expected_alpha) else None)
      in \<lparr>ds_dq_score = score, ds_coverage_ratio = coverage,
          ds_dimension_results = dsi_dimension_results inp\<rparr>)"

declare is_dimension_measured_rule_def [scoring_defs] is_dimension_expected_rule_def [scoring_defs]
  required_dimensions_def [scoring_defs] compute_dimension_result_def [scoring_defs]
  dataset_weights_def [scoring_defs] compute_dataset_score_def [scoring_defs] or_zero_def [scoring_defs]

subsection \<open>Weighted means\<close>

lemma or_zero_simps [simp]: "or_zero None = 0" "or_zero (Some v) = v"
  by (simp_all add: or_zero_def)

lemma measured_imp_expected: "is_dimension_measured_rule r \<Longrightarrow> is_dimension_expected_rule r"
  by (simp add: is_dimension_measured_rule_def is_dimension_expected_rule_def)

text \<open>Every weight of a rule and of a policy is a binary64 value.\<close>

definition floats_ok :: "quality_rule_result list \<Rightarrow> bool" where
  "floats_ok rs \<longleftrightarrow> (\<forall>r \<in> set rs. is_float (contribution_weight r)) \<and> length rs \<le> 2 ^ 16"

text \<open>The scores of measured rules lie between 0 and 100, as \<open>compute_rule_score\<close> yields them.\<close>

definition scores_ok :: "quality_rule_result list \<Rightarrow> bool" where
  "scores_ok rs \<longleftrightarrow> (\<forall>r \<in> set rs. \<forall>s. computed_score r = Some s \<longrightarrow> 0 \<le> s \<and> s \<le> 100)"

lemma fsum_weights_pos_iff:
  assumes "\<forall>x \<in> set xs. is_float (w x) \<and> 0 < w x" "length xs \<le> 2 ^ 48"
  shows "fsum (map w xs) > 0 \<longleftrightarrow> xs \<noteq> []"
  using assms fsum_pos [of "map w xs"] by auto

lemma filter_weights_pos_iff:
  assumes "floats_ok rs" "\<And>r. P r \<Longrightarrow> 0 < contribution_weight r"
  shows "fsum (map contribution_weight (filter P rs)) > 0 \<longleftrightarrow> (\<exists>r \<in> set rs. P r)"
proof -
  have "length (filter P rs) \<le> 2 ^ 16"
    using assms(1) length_filter_le [of P rs] by (simp add: floats_ok_def del: length_filter_le)
  then have "length (filter P rs) \<le> 2 ^ 48" by simp
  then have "fsum (map contribution_weight (filter P rs)) > 0 \<longleftrightarrow> filter P rs \<noteq> []"
    using assms by (intro fsum_weights_pos_iff) (auto simp: floats_ok_def)
  then show ?thesis by (auto simp: filter_empty_conv)
qed

lemma mean_bounds:
  assumes "\<forall>x \<in> set xs. is_float (w x) \<and> 0 < w x \<and> 0 \<le> s x \<and> s x \<le> B" "xs \<noteq> []" "length xs \<le> 2 ^ 16"
    and "D = fdiv (fsum (map (\<lambda>x. fmul (w x) (s x)) xs)) (fsum (map w xs))"
  shows "0 \<le> D" "D \<le> B * (1 + mean_slack)"
  using weighted_mean_bounds [of "map (\<lambda>x. (w x, s x)) xs" B D] assms
  by (auto simp: comp_def)

lemma compute_dimension_simps [simp]:
  "d_dimension (compute_dimension_result inp) = di_dimension inp"
  "d_rule_results (compute_dimension_result inp) = di_rules inp"
  "d_dimension_weight (compute_dimension_result inp) = di_dimension_weight inp"
  by (simp_all add: compute_dimension_result_def Let_def)

lemma compute_dataset_simps [simp]:
  "ds_dimension_results (compute_dataset_score inp) = dsi_dimension_results inp"
  by (simp add: compute_dataset_score_def Let_def)

lemma dimension_score_measured:
  assumes "floats_ok (di_rules inp)"
  shows "d_dimension_score (compute_dimension_result inp) \<noteq> None \<longleftrightarrow>
    (\<exists>r \<in> set (di_rules inp). is_dimension_measured_rule r)"
  using filter_weights_pos_iff [OF assms, of is_dimension_measured_rule]
  by (simp add: compute_dimension_result_def Let_def) (simp add: is_dimension_measured_rule_def)

lemma dimension_coverage_expected:
  assumes "floats_ok (di_rules inp)"
  shows "d_coverage_ratio (compute_dimension_result inp) \<noteq> None \<longleftrightarrow>
    (\<exists>r \<in> set (di_rules inp). is_dimension_expected_rule r)"
  using filter_weights_pos_iff [OF assms, of is_dimension_expected_rule]
  by (simp add: compute_dimension_result_def Let_def) (simp add: is_dimension_expected_rule_def)

lemma dimension_score_bounds:
  assumes "floats_ok (di_rules inp)" "scores_ok (di_rules inp)"
    and "d_dimension_score (compute_dimension_result inp) = Some s"
  shows "0 \<le> s" "s \<le> 100 * (1 + mean_slack)"
proof -
  define ms where "ms = filter is_dimension_measured_rule (di_rules inp)"
  have s: "s = fdiv (fsum (map (\<lambda>r. fmul (contribution_weight r) (or_zero (computed_score r))) ms))
      (fsum (map contribution_weight ms))" and pos: "0 < fsum (map contribution_weight ms)"
    using assms(3) by (simp_all add: compute_dimension_result_def Let_def ms_def split: if_splits)
  have "ms \<noteq> []" using pos by auto
  moreover have "length ms \<le> 2 ^ 16"
    using assms(1) length_filter_le [of is_dimension_measured_rule "di_rules inp"]
    by (simp add: ms_def floats_ok_def del: length_filter_le)
  moreover have "\<forall>r \<in> set ms. is_float (contribution_weight r) \<and> 0 < contribution_weight r
      \<and> 0 \<le> or_zero (computed_score r) \<and> or_zero (computed_score r) \<le> 100"
    using assms(1,2) by (auto simp: ms_def floats_ok_def scores_ok_def is_dimension_measured_rule_def)
  ultimately show "0 \<le> s" "s \<le> 100 * (1 + mean_slack)"
    using mean_bounds [OF _ _ _ s, of 100] by blast+
qed

lemma fdiv_self: "0 < x \<Longrightarrow> fdiv x x = 1"
  by (simp add: fdiv_def fl_one)

text \<open>Full coverage: every expected rule was measured.\<close>

lemma full_coverage:
  assumes "\<forall>r \<in> set (di_rules inp). is_dimension_expected_rule r \<longrightarrow> is_dimension_measured_rule r"
    and "d_coverage_ratio (compute_dimension_result inp) = Some c"
  shows "c = 1"
proof -
  have "filter is_dimension_measured_rule (di_rules inp) = filter is_dimension_expected_rule (di_rules inp)"
    using assms(1) measured_imp_expected by (intro filter_cong) auto
  then show ?thesis using assms(2)
    by (simp add: compute_dimension_result_def Let_def fdiv_self split: if_splits)
qed

text \<open>Rules outside the expected set change neither score nor coverage.\<close>

lemma dimension_only_expected:
  assumes "filter is_dimension_expected_rule (di_rules a) = filter is_dimension_expected_rule (di_rules b)"
  shows "d_dimension_score (compute_dimension_result a) = d_dimension_score (compute_dimension_result b)"
    and "d_coverage_ratio (compute_dimension_result a) = d_coverage_ratio (compute_dimension_result b)"
proof -
  have f: "filter is_dimension_measured_rule rs =
      filter is_dimension_measured_rule (filter is_dimension_expected_rule rs)" for rs
    using measured_imp_expected by (auto intro!: filter_cong simp: filter_filter)
  have "filter is_dimension_measured_rule (di_rules a) = filter is_dimension_measured_rule (di_rules b)"
    using f [of "di_rules a"] f [of "di_rules b"] assms by simp
  then show "d_dimension_score (compute_dimension_result a) = d_dimension_score (compute_dimension_result b)"
    and "d_coverage_ratio (compute_dimension_result a) = d_coverage_ratio (compute_dimension_result b)"
    using assms by (simp_all add: compute_dimension_result_def Let_def)
qed

end
