(* ===== verification/DatasetScoring.thy ===== *)
theory DatasetScoring
  imports DimensionScoring
begin

text \<open>
  What \<open>compute_dataset_score\<close> guarantees: when the dataset has a score, the range of that score,
  and that dimensions without score, coverage or weight do not take part.
\<close>

definition dims_ok :: "dataset_scoring_input \<Rightarrow> bool" where
  "dims_ok inp \<longleftrightarrow> length (dsi_dimension_results inp) \<le> 2 ^ 16
     \<and> (\<forall>(k, w) \<in> set (dsi_dimension_weights inp). is_float w)"

lemma is_float_one: "is_float 1" and is_float_zero: "is_float 0"
  by (simp_all add: is_float_def fl_one)

lemma map_of_is_float:
  "\<forall>(k, w) \<in> set ws. is_float w \<Longrightarrow> is_float z \<Longrightarrow> is_float (dict_get ws k z)"
  by (cases "map_of ws k") (auto dest: map_of_SomeD)

lemma map_of_same_fun:
  "map_of (map (\<lambda>d. (f d, g (f d))) ds) k = (if k \<in> f ` set ds then Some (g k) else None)"
  by (induction ds) auto

lemma dataset_weight:
  assumes "d \<in> set (dsi_dimension_results inp)"
  shows "dict_get (dataset_weights inp) (d_dimension d) 0 = dict_get (dsi_dimension_weights inp) (d_dimension d) 1"
proof -
  let ?g = "\<lambda>k. dict_get (dsi_dimension_weights inp) k 1"
  have "map_of (dataset_weights inp) (d_dimension d) = Some (?g (d_dimension d))"
    using assms map_of_same_fun [of d_dimension ?g "rev (dsi_dimension_results inp)" "d_dimension d"]
    by (simp add: dataset_weights_def map_of_dict_of rev_map DEFAULT_DIMENSION_WEIGHT_def)
  then show ?thesis by (rule dict_get_map_of)
qed

text \<open>The weight the dataset mean really gives to a dimension.\<close>

definition effective_weight :: "(ident \<times> pyfloat) list \<Rightarrow> dimension_result \<Rightarrow> pyfloat" where
  "effective_weight ws d = dict_get ws (d_dimension d) 1"

lemma compute_dataset_score_weights:
  "ds_dq_score (compute_dataset_score inp) =
     (let ms = filter (\<lambda>d. d_dimension_score d \<noteq> None \<and> effective_weight (dsi_dimension_weights inp) d > 0)
                 (dsi_dimension_results inp);
          w = effective_weight (dsi_dimension_weights inp)
      in if fsum (map w ms) > 0
         then Some (fdiv (fsum (map (\<lambda>d. fmul (w d) (or_zero (d_dimension_score d))) ms)) (fsum (map w ms)))
         else None)"
  "ds_coverage_ratio (compute_dataset_score inp) =
     (let es = filter (\<lambda>d. d_coverage_ratio d \<noteq> None \<and> effective_weight (dsi_dimension_weights inp) d > 0)
                 (dsi_dimension_results inp);
          w = effective_weight (dsi_dimension_weights inp)
      in if fsum (map w es) > 0
         then Some (fdiv (fsum (map (\<lambda>d. fmul (w d) (or_zero (d_coverage_ratio d))) es)) (fsum (map w es)))
         else None)"
proof -
  let ?ds = "dsi_dimension_results inp"
  have eq: "filter (\<lambda>d. P d \<and> dict_get (dataset_weights inp) (d_dimension d) 0 > 0) ?ds =
      filter (\<lambda>d. P d \<and> effective_weight (dsi_dimension_weights inp) d > 0) ?ds" for P
    by (intro filter_cong refl) (simp add: dataset_weight effective_weight_def)
  have m: "map (\<lambda>d. f d (dict_get (dataset_weights inp) (d_dimension d) 0)) (filter P ?ds) =
      map (\<lambda>d. f d (effective_weight (dsi_dimension_weights inp) d)) (filter P ?ds)"
    for f :: "dimension_result \<Rightarrow> pyfloat \<Rightarrow> pyfloat" and P
    by (intro map_cong refl) (simp add: dataset_weight effective_weight_def)
  show "ds_dq_score (compute_dataset_score inp) =
     (let ms = filter (\<lambda>d. d_dimension_score d \<noteq> None \<and> effective_weight (dsi_dimension_weights inp) d > 0) ?ds;
          w = effective_weight (dsi_dimension_weights inp)
      in if fsum (map w ms) > 0
         then Some (fdiv (fsum (map (\<lambda>d. fmul (w d) (or_zero (d_dimension_score d))) ms)) (fsum (map w ms)))
         else None)"
    by (simp add: compute_dataset_score_def Let_def eq m [of "\<lambda>d x. x"]
        m [of "\<lambda>d x. fmul x (or_zero (d_dimension_score d))"])
  show "ds_coverage_ratio (compute_dataset_score inp) =
     (let es = filter (\<lambda>d. d_coverage_ratio d \<noteq> None \<and> effective_weight (dsi_dimension_weights inp) d > 0) ?ds;
          w = effective_weight (dsi_dimension_weights inp)
      in if fsum (map w es) > 0
         then Some (fdiv (fsum (map (\<lambda>d. fmul (w d) (or_zero (d_coverage_ratio d))) es)) (fsum (map w es)))
         else None)"
    by (simp add: compute_dataset_score_def Let_def eq m [of "\<lambda>d x. x"]
        m [of "\<lambda>d x. fmul x (or_zero (d_coverage_ratio d))"])
qed

lemma effective_weight_float: "dims_ok inp \<Longrightarrow> is_float (effective_weight (dsi_dimension_weights inp) d)"
  by (simp add: effective_weight_def dims_ok_def map_of_is_float is_float_one)

lemma length_filter_dims: "dims_ok inp \<Longrightarrow> length (filter P (dsi_dimension_results inp)) \<le> 2 ^ 16"
  using length_filter_le [of P "dsi_dimension_results inp"] by (simp add: dims_ok_def del: length_filter_le)

lemma dataset_score_measured:
  assumes "dims_ok inp"
  shows "ds_dq_score (compute_dataset_score inp) \<noteq> None \<longleftrightarrow>
    (\<exists>d \<in> set (dsi_dimension_results inp). d_dimension_score d \<noteq> None
       \<and> effective_weight (dsi_dimension_weights inp) d > 0)"
proof -
  let ?w = "effective_weight (dsi_dimension_weights inp)"
  let ?ms = "filter (\<lambda>d. d_dimension_score d \<noteq> None \<and> ?w d > 0) (dsi_dimension_results inp)"
  have "fsum (map ?w ?ms) > 0 \<longleftrightarrow> ?ms \<noteq> []"
    using assms length_filter_dims [OF assms, of "\<lambda>d. d_dimension_score d \<noteq> None \<and> ?w d > 0"]
    by (intro fsum_weights_pos_iff) (auto simp: effective_weight_float)
  then show ?thesis
    by (simp add: compute_dataset_score_weights Let_def filter_empty_conv)
qed

lemma dataset_score_bounds:
  assumes "dims_ok inp" "ds_dq_score (compute_dataset_score inp) = Some s"
    and "\<forall>d \<in> set (dsi_dimension_results inp). \<forall>x. d_dimension_score d = Some x \<longrightarrow> 0 \<le> x \<and> x \<le> B"
  shows "0 \<le> s \<and> s \<le> B * (1 + mean_slack)"
proof -
  let ?w = "effective_weight (dsi_dimension_weights inp)"
  define ms where "ms = filter (\<lambda>d. d_dimension_score d \<noteq> None \<and> ?w d > 0) (dsi_dimension_results inp)"
  have s: "s = fdiv (fsum (map (\<lambda>d. fmul (?w d) (or_zero (d_dimension_score d))) ms)) (fsum (map ?w ms))"
    and pos: "0 < fsum (map ?w ms)"
    using assms(2) by (simp_all add: compute_dataset_score_weights Let_def ms_def split: if_splits)
  have "ms \<noteq> []" using pos by auto
  moreover have "length ms \<le> 2 ^ 16" unfolding ms_def by (rule length_filter_dims [OF assms(1)])
  moreover have "\<forall>d \<in> set ms. is_float (?w d) \<and> 0 < ?w d
      \<and> 0 \<le> or_zero (d_dimension_score d) \<and> or_zero (d_dimension_score d) \<le> B"
    using assms(3) effective_weight_float [OF assms(1)] by (auto simp: ms_def)
  ultimately show ?thesis using mean_bounds [OF _ _ _ s, of B] by blast
qed

lemma dataset_coverage_bounds:
  assumes "dims_ok inp" "ds_coverage_ratio (compute_dataset_score inp) = Some c"
    and "\<forall>d \<in> set (dsi_dimension_results inp). \<forall>x. d_coverage_ratio d = Some x \<longrightarrow> 0 \<le> x \<and> x \<le> B"
  shows "0 \<le> c \<and> c \<le> B * (1 + mean_slack)"
proof -
  let ?w = "effective_weight (dsi_dimension_weights inp)"
  define es where "es = filter (\<lambda>d. d_coverage_ratio d \<noteq> None \<and> ?w d > 0) (dsi_dimension_results inp)"
  have c: "c = fdiv (fsum (map (\<lambda>d. fmul (?w d) (or_zero (d_coverage_ratio d))) es)) (fsum (map ?w es))"
    and pos: "0 < fsum (map ?w es)"
    using assms(2) by (simp_all add: compute_dataset_score_weights Let_def es_def split: if_splits)
  have "es \<noteq> []" using pos by auto
  moreover have "length es \<le> 2 ^ 16" unfolding es_def by (rule length_filter_dims [OF assms(1)])
  moreover have "\<forall>d \<in> set es. is_float (?w d) \<and> 0 < ?w d
      \<and> 0 \<le> or_zero (d_coverage_ratio d) \<and> or_zero (d_coverage_ratio d) \<le> B"
    using assms(3) effective_weight_float [OF assms(1)] by (auto simp: es_def)
  ultimately show ?thesis using mean_bounds [OF _ _ _ c, of B] by blast
qed

text \<open>Results for which every dimension is unscored and uncovered take no part in the totals.\<close>

lemma dataset_score_ignores:
  assumes "filter (\<lambda>d. d_dimension_score d \<noteq> None \<or> d_coverage_ratio d \<noteq> None) (dsi_dimension_results a) =
      filter (\<lambda>d. d_dimension_score d \<noteq> None \<or> d_coverage_ratio d \<noteq> None) (dsi_dimension_results b)"
    (is "filter ?K ?as = filter ?K ?bs")
    and "dsi_dimension_weights a = dsi_dimension_weights b"
  shows "ds_dq_score (compute_dataset_score a) = ds_dq_score (compute_dataset_score b)"
    and "ds_coverage_ratio (compute_dataset_score a) = ds_coverage_ratio (compute_dataset_score b)"
proof -
  have "filter (\<lambda>d. P d \<and> Q d) ?as = filter (\<lambda>d. P d \<and> Q d) ?bs" if "\<And>d. P d \<Longrightarrow> ?K d" for P Q
  proof -
    have f: "filter (\<lambda>d. P d \<and> Q d) xs = filter (\<lambda>d. P d \<and> Q d) (filter ?K xs)" for xs
      using that by (auto simp: filter_filter intro!: filter_cong)
    show ?thesis unfolding f [of ?as] f [of ?bs] assms(1) ..
  qed
  then have m: "filter (\<lambda>d. d_dimension_score d \<noteq> None \<and> Q d) ?as = filter (\<lambda>d. d_dimension_score d \<noteq> None \<and> Q d) ?bs"
    and e: "filter (\<lambda>d. d_coverage_ratio d \<noteq> None \<and> Q d) ?as = filter (\<lambda>d. d_coverage_ratio d \<noteq> None \<and> Q d) ?bs" for Q
    by simp_all
  show "ds_dq_score (compute_dataset_score a) = ds_dq_score (compute_dataset_score b)"
    by (simp only: compute_dataset_score_weights assms(2) m)
  show "ds_coverage_ratio (compute_dataset_score a) = ds_coverage_ratio (compute_dataset_score b)"
    by (simp only: compute_dataset_score_weights assms(2) e)
qed

end
