(* ===== verification/QualityGate.thy ===== *)
theory QualityGate
  imports DatasetScoring
begin

text \<open>
  \<open>core/quality_gate.py\<close>, \<open>core/publication.py\<close> and \<open>core/outlier_advisory.py\<close>: the gate with its
  precedence ERROR > critical FAIL > INSUFFICIENT\_EVIDENCE > FAIL > WARN > PASS, the publication
  decision and the advisory result of the outlier detector. \<open>Inl\<close> is the \<open>TypeError\<close> of comparing
  a missing score; \<open>gate_total\<close> shows that it cannot happen.
\<close>

subsection \<open>Gate\<close>

definition has_required_technical_failure :: "quality_rule_result list \<Rightarrow> bool" where
  "has_required_technical_failure rules =
     any_of (\<lambda>r. is_required r \<and> measurement r = measurement_value FAILED_TO_MEASURE) rules"

definition is_critical_violated :: "quality_rule_result \<Rightarrow> scoring_policy \<Rightarrow> bool" where
  "is_critical_violated rule policy =
     (if \<not> is_critical rule \<or> \<not> gate_enabled rule \<or> is_advisory rule then False
      else if measurement rule \<noteq> measurement_value MEASURED then False
      else if (case confidence rule of None \<Rightarrow> False | Some c \<Rightarrow> c < min_critical_confidence policy) then False
      else case (case acceptance_threshold rule of None \<Rightarrow> critical_acceptance_threshold policy
                                                 | Some t \<Rightarrow> Some t) of
        Some threshold \<Rightarrow> (case computed_score rule of None \<Rightarrow> False | Some s \<Rightarrow> s < threshold)
      | None \<Rightarrow> violations_count rule > 0)"

definition unmeasured_statuses :: "ident list" where
  "unmeasured_statuses = map measurement_value [NOT_MEASURABLE, INSUFFICIENT_DATA, SKIPPED_BY_BUDGET]"

definition has_unmeasured_required :: "quality_rule_result list \<Rightarrow> bool" where
  "has_unmeasured_required rules =
     any_of (\<lambda>r. is_required r \<and> measurement r \<in> set unmeasured_statuses) rules"

definition is_gate_measured :: "quality_rule_result \<Rightarrow> bool" where
  "is_gate_measured r \<longleftrightarrow>
     measurement r = measurement_value MEASURED \<and> score_enabled r \<and> \<not> is_advisory r
     \<and> is_primary_scoring_rule r \<and> computed_score r \<noteq> None"

definition extract_measured_dimensions :: "quality_rule_result list \<Rightarrow> ident set" where
  "extract_measured_dimensions rules = set (map dimension (filter is_gate_measured rules))"

definition is_evidence_insufficient :: "gate_evaluation_input \<Rightarrow> bool" where
  "is_evidence_insufficient inp =
     (if (case g_coverage_ratio inp of None \<Rightarrow> True | Some c \<Rightarrow> c < coverage_threshold (g_policy inp)) then True
      else if g_dq_score inp = None then True
      else if has_unmeasured_required (g_rule_results inp) then True
      else g_required_dimensions inp - extract_measured_dimensions (g_rule_results inp) \<noteq> {})"

definition evaluate_quality_gate :: "gate_evaluation_input \<Rightarrow> string + quality_gate_status" where
  "evaluate_quality_gate inp =
     (if has_required_technical_failure (g_rule_results inp) then Inr GERROR
      else if any_of (\<lambda>r. is_critical_violated r (g_policy inp)) (g_rule_results inp) then Inr GFAIL
      else if is_evidence_insufficient inp then Inr GINSUFFICIENT_EVIDENCE
      else case g_dq_score inp of
        None \<Rightarrow> Inl ''TypeError''
      | Some score \<Rightarrow>
          if score < gate_fail_threshold (g_policy inp) then Inr GFAIL
          else if score < gate_warn_threshold (g_policy inp) then Inr GWARN
          else Inr GPASS)"

declare has_required_technical_failure_def [scoring_defs] is_critical_violated_def [scoring_defs]
  has_unmeasured_required_def [scoring_defs] is_gate_measured_def [scoring_defs]
  extract_measured_dimensions_def [scoring_defs] is_evidence_insufficient_def [scoring_defs]
  evaluate_quality_gate_def [scoring_defs] unmeasured_statuses_def [scoring_defs]

lemma evidence_sufficient_score: "\<not> is_evidence_insufficient inp \<Longrightarrow> g_dq_score inp \<noteq> None"
  by (simp add: is_evidence_insufficient_def split: if_splits)

lemma gate_total: "\<exists>g. evaluate_quality_gate inp = Inr g"
  using evidence_sufficient_score [of inp]
  by (auto simp: evaluate_quality_gate_def)

lemma gate_error_iff:
  "evaluate_quality_gate inp = Inr GERROR \<longleftrightarrow> has_required_technical_failure (g_rule_results inp)"
  by (simp add: evaluate_quality_gate_def split: option.splits)

text \<open>What a gate that lets the data pass has established.\<close>

lemma gate_sufficient:
  assumes "evaluate_quality_gate inp = Inr g" "g \<in> {GWARN, GPASS}"
  shows "\<not> has_required_technical_failure (g_rule_results inp)"
    and "\<not> any_of (\<lambda>r. is_critical_violated r (g_policy inp)) (g_rule_results inp)"
    and "\<not> is_evidence_insufficient inp"
  using assms by (auto simp: evaluate_quality_gate_def split: if_splits)

lemma gate_score:
  assumes "evaluate_quality_gate inp = Inr g" "g \<in> {GWARN, GPASS}"
  obtains s where "g_dq_score inp = Some s" "gate_fail_threshold (g_policy inp) \<le> s"
    "g = GPASS \<longleftrightarrow> gate_warn_threshold (g_policy inp) \<le> s"
  using assms by (auto simp: evaluate_quality_gate_def not_less split: if_splits option.splits)

lemma sufficient_parts:
  assumes "\<not> is_evidence_insufficient inp"
  obtains c where "g_coverage_ratio inp = Some c" "coverage_threshold (g_policy inp) \<le> c"
    "\<not> has_unmeasured_required (g_rule_results inp)"
    "g_required_dimensions inp \<subseteq> extract_measured_dimensions (g_rule_results inp)"
  using assms by (auto simp: is_evidence_insufficient_def not_less split: if_splits option.splits)

subsection \<open>Publication\<close>

definition is_publication_eligible :: "publication_check_input \<Rightarrow> bool" where
  "is_publication_eligible inp =
     (if p_run_status inp \<noteq> run_value SUCCEEDED then False
      else if p_gate_status inp \<in> {GERROR, GINSUFFICIENT_EVIDENCE} then False
      else if (case p_coverage_ratio inp of None \<Rightarrow> True | Some c \<Rightarrow> c < publication_threshold (p_policy inp)) then False
      else if \<not> p_all_required_dimensions_measured inp then False
      else if p_has_failed_required_rules inp \<or> p_has_unmeasured_required_rules inp then False
      else p_dq_score inp \<noteq> None)"

definition determine_publication_status :: "publication_check_input \<Rightarrow> publication_status \<times> pyfloat option" where
  "determine_publication_status inp =
     (if is_publication_eligible inp then (PUBLISHED, p_dq_score inp) else (WITHHELD, None))"

declare is_publication_eligible_def [scoring_defs] determine_publication_status_def [scoring_defs]

lemma publication_cases:
  obtains (published) s where "determine_publication_status inp = (PUBLISHED, Some s)" "p_dq_score inp = Some s"
      "is_publication_eligible inp"
  | (withheld) "determine_publication_status inp = (WITHHELD, None)" "\<not> is_publication_eligible inp"
  by (cases "is_publication_eligible inp")
    (auto simp: determine_publication_status_def is_publication_eligible_def split: if_splits)

subsection \<open>Outlier advisories\<close>

record outlier_result_input =
  ori_column_name :: ident
  ori_total_evaluated :: int
  ori_iqr :: pyfloat
  ori_outlier_count :: int
  ori_is_all_null :: bool

definition MIN_OUTLIER_EVALUATION_SAMPLE :: int where
  "MIN_OUTLIER_EVALUATION_SAMPLE = 4"

definition build_outlier_advisory_result :: "outlier_result_input \<Rightarrow> quality_rule_result" where
  "build_outlier_advisory_result inp =
     (let is_valid_measurement = (\<not> ori_is_all_null inp
            \<and> ori_total_evaluated inp \<ge> MIN_OUTLIER_EVALUATION_SAMPLE \<and> ori_iqr inp > 0);
          status = (if is_valid_measurement then measurement_value MEASURED else measurement_value NOT_MEASURABLE)
      in \<lparr>rule_id = u ''outlier_iqr_'' @ ori_column_name inp, dimension = dimension_value ACCURACY,
          measurement = status, is_critical = False, is_advisory = True, is_required = False,
          gate_enabled = False, score_enabled = False, conflict_group = None,
          is_primary_scoring_rule = False, contribution_weight = 0, acceptance_threshold = None,
          confidence = None, computed_score = None, violations_count = ori_outlier_count inp,
          counts = None, evidence_samples = None, error_message = None, source_kind = u ''OUTLIER'',
          target_column = Some (ori_column_name inp), rule_config_hash = None\<rparr>)"

text \<open>A result that no scoring, gate or publication decision looks at.\<close>

definition inert_result :: "quality_rule_result \<Rightarrow> bool" where
  "inert_result r \<longleftrightarrow> is_advisory r \<and> \<not> is_required r"

lemma outlier_result_inert [simp]: "inert_result (build_outlier_advisory_result inp)"
  by (simp add: inert_result_def build_outlier_advisory_result_def Let_def)

lemma inert_result_simps:
  assumes "inert_result r"
  shows "\<not> is_dimension_measured_rule r" "\<not> is_dimension_expected_rule r" "\<not> is_critical_violated r p"
    "\<not> is_gate_measured r" "\<not> is_required r"
  using assms by (simp_all add: inert_result_def scoring_defs)

lemma gate_inert_append:
  assumes "\<forall>r \<in> set extra. inert_result r"
  shows "evaluate_quality_gate (inp\<lparr>g_rule_results := rs @ extra\<rparr>) =
    evaluate_quality_gate (inp\<lparr>g_rule_results := rs\<rparr>)"
proof -
  have e: "any_of P (rs @ extra) = any_of P rs" if "\<And>r. inert_result r \<Longrightarrow> \<not> P r" for P
    using assms that by (auto simp: any_of_iff)
  have f: "filter is_gate_measured (rs @ extra) = filter is_gate_measured rs"
    using assms by (simp add: inert_result_simps filter_empty_conv)
  show ?thesis
    by (simp add: evaluate_quality_gate_def is_evidence_insufficient_def has_required_technical_failure_def
        has_unmeasured_required_def extract_measured_dimensions_def e inert_result_simps f split: option.split del: filter_append)
qed

end
