(* ===== verification/Aggregator.thy ===== *)
theory Aggregator
  imports QualityGate
begin

text \<open>
  \<open>services/score_aggregator.py\<close>: grouping of the rule results by dimension, the dataset score,
  the gate and the publication decision of one run.
\<close>

record score_summary =
  ss_dq_score :: "pyfloat option"
  ss_coverage_ratio :: "pyfloat option"
  ss_quality_gate :: quality_gate_status
  ss_publication_status :: publication_status
  ss_published_score :: "pyfloat option"
  ss_dimension_results :: "dimension_result list"
  ss_all_required_dimensions_measured :: bool
  ss_has_failed_required_rules :: bool
  ss_has_unmeasured_required_rules :: bool

definition distinct_dims :: "quality_rule_result list \<Rightarrow> ident set \<Rightarrow> ident list" where
  "distinct_dims rule_results req = sorted_list_of_set (set (map dimension rule_results) \<union> req)"

definition rules_by_dim :: "ident list \<Rightarrow> quality_rule_result list \<Rightarrow> (ident \<times> quality_rule_result list) list" where
  "rules_by_dim dims rule_results =
     fold (\<lambda>r d. AList.map_entry (dimension r) (\<lambda>l. l @ [r]) d) rule_results (map (\<lambda>d. (d, [])) dims)"

definition compute_all_dimension_results ::
  "case_table \<Rightarrow> quality_rule_result list \<Rightarrow> ident set \<Rightarrow> (ident \<times> pyfloat) list \<Rightarrow> dimension_result list" where
  "compute_all_dimension_results uc rule_results req weights =
     (let dims = distinct_dims rule_results req; groups = rules_by_dim dims rule_results
      in map (\<lambda>dn. compute_dimension_result
           \<lparr>di_dimension = dn, di_rules = dict_get groups dn [],
            di_dimension_weight = dict_get weights dn (dict_get weights (py_upper uc dn) 1)\<rparr>) dims)"

definition aggregate ::
  "case_table \<Rightarrow> quality_rule_result list \<Rightarrow> scoring_policy \<Rightarrow> ident set option \<Rightarrow> ident \<Rightarrow> string + score_summary" where
  "aggregate uc rule_results policy required run_status =
     (let req_dims = (case required of None \<Rightarrow> {} | Some s \<Rightarrow> s);
          dim_results = compute_all_dimension_results uc rule_results req_dims (dimension_weights policy);
          dataset_res = compute_dataset_score
            \<lparr>dsi_dimension_results = dim_results, dsi_dimension_weights = dimension_weights policy\<rparr>;
          measured_dims = set (map d_dimension (filter (\<lambda>d. d_dimension_score d \<noteq> None) dim_results));
          all_req_measured = (req_dims - measured_dims = {});
          has_failed_required = any_of (\<lambda>r. is_required r \<and> measurement r = measurement_value FAILED_TO_MEASURE) rule_results;
          has_unmeasured = any_of (\<lambda>r. is_required r \<and> measurement r \<in>
              set (map measurement_value [NOT_MEASURABLE, INSUFFICIENT_DATA, SKIPPED_BY_BUDGET])) rule_results
      in case evaluate_quality_gate
          \<lparr>g_rule_results = rule_results, g_dq_score = ds_dq_score dataset_res,
           g_coverage_ratio = ds_coverage_ratio dataset_res, g_policy = policy, g_required_dimensions = req_dims\<rparr> of
        Inl e \<Rightarrow> Inl e
      | Inr gate_status \<Rightarrow>
          (let (pub_status, pub_score) = determine_publication_status
             \<lparr>p_run_status = run_status, p_gate_status = gate_status, p_dq_score = ds_dq_score dataset_res,
              p_coverage_ratio = ds_coverage_ratio dataset_res, p_policy = policy,
              p_all_required_dimensions_measured = all_req_measured,
              p_has_failed_required_rules = has_failed_required, p_has_unmeasured_required_rules = has_unmeasured\<rparr>
           in Inr \<lparr>ss_dq_score = ds_dq_score dataset_res, ss_coverage_ratio = ds_coverage_ratio dataset_res,
                   ss_quality_gate = gate_status, ss_publication_status = pub_status,
                   ss_published_score = pub_score, ss_dimension_results = dim_results,
                   ss_all_required_dimensions_measured = all_req_measured,
                   ss_has_failed_required_rules = has_failed_required,
                   ss_has_unmeasured_required_rules = has_unmeasured\<rparr>))"

subsection \<open>Grouping\<close>

lemma fold_group:
  "map_of (fold (\<lambda>r d. AList.map_entry (dimension r) (\<lambda>l. l @ [r]) d) rs d) k =
    (case map_of d k of None \<Rightarrow> None | Some l \<Rightarrow> Some (l @ filter (\<lambda>r. dimension r = k) rs))"
  by (induction rs arbitrary: d) (auto simp: map_of_map_entry split: option.splits)

lemma map_of_const: "map_of (map (\<lambda>d. (d, c)) ds) k = (if k \<in> set ds then Some c else None)"
  by (induction ds) auto

lemma rules_by_dim_get:
  "k \<in> set dims \<Longrightarrow> dict_get (rules_by_dim dims rs) k [] = filter (\<lambda>r. dimension r = k) rs"
  by (rule dict_get_map_of) (simp add: rules_by_dim_def fold_group map_of_const)

lemma set_distinct_dims [simp]: "finite req \<Longrightarrow> set (distinct_dims rs req) = dimension ` set rs \<union> req"
  by (simp add: distinct_dims_def)

lemma distinct_distinct_dims [simp]: "distinct (distinct_dims rs req)"
  by (simp add: distinct_dims_def)

lemma sorted_distinct_dims [simp]: "sorted (distinct_dims rs req)"
  by (simp add: distinct_dims_def)

text \<open>The result of one dimension of a run.\<close>

definition dimension_of_run ::
  "case_table \<Rightarrow> quality_rule_result list \<Rightarrow> (ident \<times> pyfloat) list \<Rightarrow> ident \<Rightarrow> dimension_result" where
  "dimension_of_run uc rs weights dn = compute_dimension_result
     \<lparr>di_dimension = dn, di_rules = filter (\<lambda>r. dimension r = dn) rs,
      di_dimension_weight = dict_get weights dn (dict_get weights (py_upper uc dn) 1)\<rparr>"

lemma all_dimension_results:
  "compute_all_dimension_results uc rs req ws = map (dimension_of_run uc rs ws) (distinct_dims rs req)"
  by (simp add: compute_all_dimension_results_def dimension_of_run_def Let_def rules_by_dim_get)

lemma dimension_of_run_simps [simp]: "d_dimension (dimension_of_run uc rs ws dn) = dn"
  "d_rule_results (dimension_of_run uc rs ws dn) = filter (\<lambda>r. dimension r = dn) rs"
  by (simp_all add: dimension_of_run_def)

text \<open>Every rule result lands in exactly one dimension result.\<close>

lemma sum_list_single:
  "distinct ds \<Longrightarrow> (\<Sum>d\<leftarrow>ds. if x = d then c else (0::nat)) = (if x \<in> set ds then c else 0)"
  by (induction ds) auto

lemma grouping_complete:
  assumes "finite req"
  shows "(\<Sum>d\<leftarrow>compute_all_dimension_results uc rs req ws. count (mset (d_rule_results d)) r) = count (mset rs) r"
proof -
  have "count (mset (filter (\<lambda>r. dimension r = d) rs)) r = (if dimension r = d then count (mset rs) r else 0)" for d
    by (simp add: count_mset)
  then have "(\<Sum>d\<leftarrow>compute_all_dimension_results uc rs req ws. count (mset (d_rule_results d)) r) =
      (\<Sum>d\<leftarrow>distinct_dims rs req. if dimension r = d then count (mset rs) r else 0)"
    by (simp add: all_dimension_results comp_def)
  also have "\<dots> = count (mset rs) r"
    using assms by (simp add: sum_list_single not_in_iff [symmetric] in_multiset_in_set)
      (metis count_mset_0_iff image_eqI)
  finally show ?thesis .
qed

subsection \<open>Totality and bounds\<close>

definition run_gate_input :: "case_table \<Rightarrow> quality_rule_result list \<Rightarrow> scoring_policy \<Rightarrow> ident set \<Rightarrow> gate_evaluation_input" where
  "run_gate_input uc rs policy req =
     (let res = compute_dataset_score
        \<lparr>dsi_dimension_results = compute_all_dimension_results uc rs req (dimension_weights policy),
         dsi_dimension_weights = dimension_weights policy\<rparr>
      in \<lparr>g_rule_results = rs, g_dq_score = ds_dq_score res, g_coverage_ratio = ds_coverage_ratio res,
          g_policy = policy, g_required_dimensions = req\<rparr>)"

lemma aggregate_total: "\<exists>s. aggregate uc rs policy req st = Inr s"
  unfolding aggregate_def Let_def
  by (metis (no_types, lifting) gate_total old.sum.simps(6) case_prod_unfold)

lemma aggregate_parts:
  assumes "aggregate uc rs policy req st = Inr s"
  defines "rq \<equiv> (case req of None \<Rightarrow> {} | Some x \<Rightarrow> x)"
  shows "evaluate_quality_gate (run_gate_input uc rs policy rq) = Inr (ss_quality_gate s)"
    and "ss_dq_score s = g_dq_score (run_gate_input uc rs policy rq)"
    and "ss_coverage_ratio s = g_coverage_ratio (run_gate_input uc rs policy rq)"
    and "ss_dimension_results s = compute_all_dimension_results uc rs rq (dimension_weights policy)"
    and "ss_all_required_dimensions_measured s \<longleftrightarrow>
      rq \<subseteq> d_dimension ` {d \<in> set (ss_dimension_results s). d_dimension_score d \<noteq> None}"
    and "ss_has_failed_required_rules s \<longleftrightarrow> has_required_technical_failure rs"
    and "ss_has_unmeasured_required_rules s \<longleftrightarrow> has_unmeasured_required rs"
    and "(ss_publication_status s, ss_published_score s) = determine_publication_status
      \<lparr>p_run_status = st, p_gate_status = ss_quality_gate s, p_dq_score = ss_dq_score s,
       p_coverage_ratio = ss_coverage_ratio s, p_policy = policy,
       p_all_required_dimensions_measured = ss_all_required_dimensions_measured s,
       p_has_failed_required_rules = ss_has_failed_required_rules s,
       p_has_unmeasured_required_rules = ss_has_unmeasured_required_rules s\<rparr>"
  using assms
  by (auto simp: aggregate_def Let_def run_gate_input_def has_required_technical_failure_def
      has_unmeasured_required_def unmeasured_statuses_def split: sum.splits prod.splits)

subsection \<open>Advisory isolation\<close>

lemma distinct_dims_unscored:
  assumes "finite req" "\<forall>r \<in> set extra. inert_result r"
    and K: "\<And>dn. K (dimension_of_run uc rs ws dn) \<Longrightarrow> dn \<in> dimension ` set rs \<union> req"
    and same: "\<And>dn. K (dimension_of_run uc (rs @ extra) ws dn) = K (dimension_of_run uc rs ws dn)"
  shows "filter (\<lambda>dn. K (dimension_of_run uc (rs @ extra) ws dn)) (distinct_dims (rs @ extra) req) =
    filter (\<lambda>dn. K (dimension_of_run uc rs ws dn)) (distinct_dims rs req)"
proof (rule sorted_distinct_set_unique)
  show "set (filter (\<lambda>dn. K (dimension_of_run uc (rs @ extra) ws dn)) (distinct_dims (rs @ extra) req)) =
    set (filter (\<lambda>dn. K (dimension_of_run uc rs ws dn)) (distinct_dims rs req))"
    using assms(1) K by (auto simp: same)
qed (simp_all add: sorted_wrt_filter)

definition run_dataset :: "case_table \<Rightarrow> quality_rule_result list \<Rightarrow> scoring_policy \<Rightarrow> ident set \<Rightarrow> dataset_score_result" where
  "run_dataset uc rs policy req = compute_dataset_score
     \<lparr>dsi_dimension_results = compute_all_dimension_results uc rs req (dimension_weights policy),
      dsi_dimension_weights = dimension_weights policy\<rparr>"

lemma compute_dimension_only:
  assumes "filter is_dimension_expected_rule xs = filter is_dimension_expected_rule ys"
  shows "d_dimension_score (compute_dimension_result \<lparr>di_dimension = k, di_rules = xs, di_dimension_weight = w\<rparr>) =
      d_dimension_score (compute_dimension_result \<lparr>di_dimension = k, di_rules = ys, di_dimension_weight = w\<rparr>)"
    and "d_coverage_ratio (compute_dimension_result \<lparr>di_dimension = k, di_rules = xs, di_dimension_weight = w\<rparr>) =
      d_coverage_ratio (compute_dimension_result \<lparr>di_dimension = k, di_rules = ys, di_dimension_weight = w\<rparr>)"
  using assms by (simp_all add: dimension_only_expected)

text \<open>The totals see a dimension result only through its name, score and coverage.\<close>

lemma dataset_score_views:
  assumes "map (\<lambda>d. (d_dimension d, d_dimension_score d, d_coverage_ratio d)) as =
      map (\<lambda>d. (d_dimension d, d_dimension_score d, d_coverage_ratio d)) bs"
  shows "ds_dq_score (compute_dataset_score \<lparr>dsi_dimension_results = as, dsi_dimension_weights = ws\<rparr>) =
      ds_dq_score (compute_dataset_score \<lparr>dsi_dimension_results = bs, dsi_dimension_weights = ws\<rparr>)"
    and "ds_coverage_ratio (compute_dataset_score \<lparr>dsi_dimension_results = as, dsi_dimension_weights = ws\<rparr>) =
      ds_coverage_ratio (compute_dataset_score \<lparr>dsi_dimension_results = bs, dsi_dimension_weights = ws\<rparr>)"
proof -
  let ?v = "\<lambda>d. (d_dimension d, d_dimension_score d, d_coverage_ratio d)"
  have f: "map g (filter P as) = map g (filter P bs)"
    if "\<And>d. g d = g' (?v d)" "\<And>d. P d = P' (?v d)"
    for g :: "dimension_result \<Rightarrow> pyfloat" and P g' P'
  proof -
    have "map g (filter P xs) = map g' (filter P' (map ?v xs))" for xs
      by (induction xs) (simp_all add: that)
    then show ?thesis using assms by simp
  qed
  have s: "map (\<lambda>d. h (effective_weight ws d) (d_dimension_score d))
        (filter (\<lambda>d. d_dimension_score d \<noteq> None \<and> effective_weight ws d > 0) as) =
      map (\<lambda>d. h (effective_weight ws d) (d_dimension_score d))
        (filter (\<lambda>d. d_dimension_score d \<noteq> None \<and> effective_weight ws d > 0) bs)"
    for h :: "pyfloat \<Rightarrow> pyfloat option \<Rightarrow> pyfloat"
    by (rule f [of _ "\<lambda>(k, x, y). h (dict_get ws k 1) x" _ "\<lambda>(k, x, y). x \<noteq> None \<and> dict_get ws k 1 > 0"])
      (simp_all add: effective_weight_def)
  have c: "map (\<lambda>d. h (effective_weight ws d) (d_coverage_ratio d))
        (filter (\<lambda>d. d_coverage_ratio d \<noteq> None \<and> effective_weight ws d > 0) as) =
      map (\<lambda>d. h (effective_weight ws d) (d_coverage_ratio d))
        (filter (\<lambda>d. d_coverage_ratio d \<noteq> None \<and> effective_weight ws d > 0) bs)"
    for h :: "pyfloat \<Rightarrow> pyfloat option \<Rightarrow> pyfloat"
    by (rule f [of _ "\<lambda>(k, x, y). h (dict_get ws k 1) y" _ "\<lambda>(k, x, y). y \<noteq> None \<and> dict_get ws k 1 > 0"])
      (simp_all add: effective_weight_def)
  show "ds_dq_score (compute_dataset_score \<lparr>dsi_dimension_results = as, dsi_dimension_weights = ws\<rparr>) =
      ds_dq_score (compute_dataset_score \<lparr>dsi_dimension_results = bs, dsi_dimension_weights = ws\<rparr>)"
    using s [of "\<lambda>w x. w"] s [of "\<lambda>w x. fmul w (or_zero x)"]
    by (simp only: compute_dataset_score_weights Let_def dataset_scoring_input.simps)
  show "ds_coverage_ratio (compute_dataset_score \<lparr>dsi_dimension_results = as, dsi_dimension_weights = ws\<rparr>) =
      ds_coverage_ratio (compute_dataset_score \<lparr>dsi_dimension_results = bs, dsi_dimension_weights = ws\<rparr>)"
    using c [of "\<lambda>w x. w"] c [of "\<lambda>w x. fmul w (or_zero x)"]
    by (simp only: compute_dataset_score_weights Let_def dataset_scoring_input.simps)
qed

definition takes_part :: "dimension_result \<Rightarrow> bool" where
  "takes_part d \<longleftrightarrow> d_dimension_score d \<noteq> None \<or> d_coverage_ratio d \<noteq> None"

lemma compute_dimension_empty:
  "d_dimension_score (compute_dimension_result \<lparr>di_dimension = k, di_rules = [], di_dimension_weight = w\<rparr>) = None"
  "d_coverage_ratio (compute_dimension_result \<lparr>di_dimension = k, di_rules = [], di_dimension_weight = w\<rparr>) = None"
  by (simp_all add: compute_dimension_result_def)

lemma takes_part_known:
  assumes "takes_part (dimension_of_run uc rs ws dn)"
  shows "dn \<in> dimension ` set rs"
proof (rule ccontr)
  assume "dn \<notin> dimension ` set rs"
  then have "filter (\<lambda>r. dimension r = dn) rs = []" by (auto simp: filter_empty_conv)
  with assms show False by (simp add: takes_part_def dimension_of_run_def compute_dimension_empty)
qed

lemma inert_same_dimension:
  assumes "\<forall>r \<in> set extra. inert_result r"
  shows "d_dimension_score (dimension_of_run uc (rs @ extra) ws dn) = d_dimension_score (dimension_of_run uc rs ws dn)"
    and "d_coverage_ratio (dimension_of_run uc (rs @ extra) ws dn) = d_coverage_ratio (dimension_of_run uc rs ws dn)"
proof -
  have "filter is_dimension_expected_rule (filter (\<lambda>r. dimension r = dn) (rs @ extra)) =
      filter is_dimension_expected_rule (filter (\<lambda>r. dimension r = dn) rs)"
    using assms by (auto simp: filter_empty_conv inert_result_simps)
  then show "d_dimension_score (dimension_of_run uc (rs @ extra) ws dn) = d_dimension_score (dimension_of_run uc rs ws dn)"
    and "d_coverage_ratio (dimension_of_run uc (rs @ extra) ws dn) = d_coverage_ratio (dimension_of_run uc rs ws dn)"
    unfolding dimension_of_run_def by (rule compute_dimension_only)+
qed

lemma inert_same_dataset:
  assumes "finite req" "\<forall>r \<in> set extra. inert_result r"
  shows "ds_dq_score (run_dataset uc (rs @ extra) policy req) = ds_dq_score (run_dataset uc rs policy req)"
    and "ds_coverage_ratio (run_dataset uc (rs @ extra) policy req) = ds_coverage_ratio (run_dataset uc rs policy req)"
proof -
  define ws where "ws = dimension_weights policy"
  let ?v = "\<lambda>d. (d_dimension d, d_dimension_score d, d_coverage_ratio d)"
  let ?all = "\<lambda>xs. compute_all_dimension_results uc xs req ws"
  let ?ds = "\<lambda>ds. compute_dataset_score \<lparr>dsi_dimension_results = ds, dsi_dimension_weights = ws\<rparr>"
  have K: "takes_part (dimension_of_run uc (rs @ extra) ws dn) = takes_part (dimension_of_run uc rs ws dn)" for dn
    by (simp add: takes_part_def inert_same_dimension [OF assms(2)])
  have "filter (\<lambda>dn. takes_part (dimension_of_run uc (rs @ extra) ws dn)) (distinct_dims (rs @ extra) req) =
      filter (\<lambda>dn. takes_part (dimension_of_run uc rs ws dn)) (distinct_dims rs req)"
    by (rule distinct_dims_unscored [OF assms]) (auto simp: K dest: takes_part_known)
  then have views: "map ?v (filter takes_part (?all (rs @ extra))) = map ?v (filter takes_part (?all rs))"
    by (simp add: all_dimension_results filter_map comp_def K inert_same_dimension [OF assms(2)])
  have part: "ds_dq_score (?ds (filter takes_part ds)) = ds_dq_score (?ds ds)"
    "ds_coverage_ratio (?ds (filter takes_part ds)) = ds_coverage_ratio (?ds ds)" for ds
    by (rule dataset_score_ignores; simp add: takes_part_def)+
  show "ds_dq_score (run_dataset uc (rs @ extra) policy req) = ds_dq_score (run_dataset uc rs policy req)"
    and "ds_coverage_ratio (run_dataset uc (rs @ extra) policy req) = ds_coverage_ratio (run_dataset uc rs policy req)"
    using dataset_score_views [OF views, of ws, unfolded part] by (simp_all add: run_dataset_def ws_def)
qed

lemma inert_same_measured:
  assumes "finite req" "\<forall>r \<in> set extra. inert_result r"
  shows "d_dimension ` {d \<in> set (compute_all_dimension_results uc (rs @ extra) req ws). d_dimension_score d \<noteq> None} =
    d_dimension ` {d \<in> set (compute_all_dimension_results uc rs req ws). d_dimension_score d \<noteq> None}"
proof -
  have "d_dimension ` {d \<in> set (compute_all_dimension_results uc xs req ws). d_dimension_score d \<noteq> None} =
      {dn \<in> dimension ` set xs \<union> req. d_dimension_score (dimension_of_run uc xs ws dn) \<noteq> None}" for xs
    using assms(1) by (force simp: all_dimension_results)
  moreover have "{dn \<in> dimension ` set (rs @ extra) \<union> req. d_dimension_score (dimension_of_run uc (rs @ extra) ws dn) \<noteq> None} =
      {dn \<in> dimension ` set rs \<union> req. d_dimension_score (dimension_of_run uc rs ws dn) \<noteq> None}"
    using takes_part_known [of uc rs ws] by (auto simp: inert_same_dimension [OF assms(2)] takes_part_def)
  ultimately show ?thesis by simp
qed

lemma inert_same_flags:
  assumes "\<forall>r \<in> set extra. inert_result r"
  shows "has_required_technical_failure (rs @ extra) = has_required_technical_failure rs"
    and "has_unmeasured_required (rs @ extra) = has_unmeasured_required rs"
  using assms by (auto simp: has_required_technical_failure_def has_unmeasured_required_def any_of_iff inert_result_def)

text \<open>C19: Advisory results are isolated: appending outlier advisories (or any advisory results that
  are not required) to the rule results of a run changes neither the DQ score, the coverage, the
  gate, the publication status nor the published score.\<close>

theorem advisory_isolation:
  assumes "finite req" "\<forall>r \<in> set extra. inert_result r"
    and "aggregate uc rs policy (Some req) st = Inr a"
    and "aggregate uc (rs @ extra) policy (Some req) st = Inr b"
  shows "ss_dq_score b = ss_dq_score a \<and> ss_coverage_ratio b = ss_coverage_ratio a
    \<and> ss_quality_gate b = ss_quality_gate a \<and> ss_publication_status b = ss_publication_status a
    \<and> ss_published_score b = ss_published_score a"
proof -
  note A = aggregate_parts [OF assms(3), unfolded option.case]
  note B = aggregate_parts [OF assms(4), unfolded option.case]
  have gi: "run_gate_input uc xs policy req =
      \<lparr>g_rule_results = xs, g_dq_score = ds_dq_score (run_dataset uc xs policy req),
       g_coverage_ratio = ds_coverage_ratio (run_dataset uc xs policy req), g_policy = policy,
       g_required_dimensions = req\<rparr>" for xs
    by (simp add: run_gate_input_def run_dataset_def Let_def)
  note ds = inert_same_dataset [OF assms(1,2)]
  have score: "ss_dq_score b = ss_dq_score a" and cov: "ss_coverage_ratio b = ss_coverage_ratio a"
    by (simp_all add: A(2,3) B(2,3) gi ds)
  have "evaluate_quality_gate (run_gate_input uc (rs @ extra) policy req) =
      evaluate_quality_gate (run_gate_input uc rs policy req)"
    using gate_inert_append [OF assms(2), where inp = "run_gate_input uc rs policy req" and rs = rs]
    by (simp add: gi ds)
  then have gate: "ss_quality_gate b = ss_quality_gate a" using A(1) B(1) by simp
  have flags: "ss_all_required_dimensions_measured b = ss_all_required_dimensions_measured a"
    "ss_has_failed_required_rules b = ss_has_failed_required_rules a"
    "ss_has_unmeasured_required_rules b = ss_has_unmeasured_required_rules a"
    by (simp_all only: A(4-7) B(4-7) inert_same_measured [OF assms(1,2)] inert_same_flags [OF assms(2)])
  have "(ss_publication_status b, ss_published_score b) = (ss_publication_status a, ss_published_score a)"
    unfolding A(8) B(8) score cov gate flags ..
  with score cov gate show ?thesis by simp
qed

end
