(* ===== verification/ScoreProperties.thy ===== *)
theory ScoreProperties
  imports Aggregator
begin

text \<open>
  What a scorecard promises, over the whole chain rule result, dimension, dataset, gate and
  publication; with concrete runs of the chain.
\<close>

subsection \<open>A rule result and a policy for concrete runs\<close>

definition no_table :: case_table where "no_table c = [c]"

definition measured_result :: "string \<Rightarrow> standard_dimension \<Rightarrow> pyfloat \<Rightarrow> pyfloat \<Rightarrow> quality_rule_result" where
  "measured_result n d w s =
     \<lparr>rule_id = u n, dimension = dimension_value d, measurement = measurement_value MEASURED,
      is_critical = False, is_advisory = False, is_required = False, gate_enabled = True,
      score_enabled = True, conflict_group = None, is_primary_scoring_rule = True,
      contribution_weight = w, acceptance_threshold = None, confidence = None,
      computed_score = Some s, violations_count = 0, counts = None, evidence_samples = None,
      error_message = None, source_kind = u ''RULE'', target_column = None, rule_config_hash = None\<rparr>"

definition strict_policy :: scoring_policy where
  "strict_policy = default_policy\<lparr>pass_min := 100\<rparr>"

definition lenient_policy :: scoring_policy where
  "lenient_policy = default_policy\<lparr>publication_threshold := 1 / 2\<rparr>"

definition zero_weight_run :: "quality_rule_result list" where
  "zero_weight_run =
     [measured_result ''a'' VALIDITY 1 100, measured_result ''b'' ACCURACY 0 100,
      (measured_result ''c'' ACCURACY 1 100)\<lparr>measurement := measurement_value FAILED_TO_MEASURE, computed_score := None\<rparr>]"

text \<open>The run of one measured rule, for any weight and score, with the default weight of its dimension.\<close>

lemma fsum_single [simp]: "fsum [x] = x"
  by simp

lemma single_run_dimension:
  assumes "is_dimension_measured_rule r" "computed_score r = Some s"
  shows "compute_all_dimension_results uc [r] {dimension r} ws =
    [\<lparr>d_dimension = dimension r,
      d_dimension_score = Some (fdiv (fmul (contribution_weight r) s) (contribution_weight r)),
      d_coverage_ratio = Some 1, d_rule_results = [r],
      d_dimension_weight = dict_get ws (dimension r) (dict_get ws (py_upper uc (dimension r)) 1)\<rparr>]"
proof -
  have "0 < contribution_weight r" using assms by (simp add: is_dimension_measured_rule_def)
  then show ?thesis
    using assms measured_imp_expected [OF assms(1)]
    by (simp add: all_dimension_results distinct_dims_def dimension_of_run_def compute_dimension_result_def
        fdiv_self Let_def)
qed

lemma single_run_totals:
  assumes "is_dimension_measured_rule r" "computed_score r = Some s" "dimension_weights policy = []"
  defines "D \<equiv> fdiv (fmul (contribution_weight r) s) (contribution_weight r)"
  shows "ds_dq_score (run_dataset uc [r] policy {dimension r}) = Some D"
    and "ds_coverage_ratio (run_dataset uc [r] policy {dimension r}) = Some 1"
proof -
  have "effective_weight [] d = 1" for d by (simp add: effective_weight_def dict_get_def)
  moreover have "fl D = D" by (simp add: D_def fdiv_def)
  ultimately show "ds_dq_score (run_dataset uc [r] policy {dimension r}) = Some D"
    and "ds_coverage_ratio (run_dataset uc [r] policy {dimension r}) = Some 1"
    by (simp_all add: run_dataset_def single_run_dimension [OF assms(1,2)] assms(3)
        compute_dataset_score_weights Let_def fmul_def fdiv_def fl_one D_def)
qed

lemma run_gate_input_dataset:
  "run_gate_input uc rs policy req =
     \<lparr>g_rule_results = rs, g_dq_score = ds_dq_score (run_dataset uc rs policy req),
      g_coverage_ratio = ds_coverage_ratio (run_dataset uc rs policy req), g_policy = policy,
      g_required_dimensions = req\<rparr>"
  by (simp add: run_gate_input_def run_dataset_def Let_def)

lemma measured_result_measured: "0 < w \<Longrightarrow> is_dimension_measured_rule (measured_result n d w s)"
  by (simp add: measured_result_def is_dimension_measured_rule_def)

lemma measured_result_simps [simp]:
  "contribution_weight (measured_result n d w s) = w" "computed_score (measured_result n d w s) = Some s"
  "dimension (measured_result n d w s) = dimension_value d" "is_required (measured_result n d w s) = False"
  "is_critical (measured_result n d w s) = False" "is_gate_measured (measured_result n d w s)"
  by (simp_all add: measured_result_def is_gate_measured_def)

lemma single_run_score:
  assumes "0 < w" "dimension_weights policy = []"
  shows "ds_dq_score (run_dataset uc [measured_result n d w s] policy {dimension_value d}) = Some (fdiv (fmul w s) w)"
    and "ds_coverage_ratio (run_dataset uc [measured_result n d w s] policy {dimension_value d}) = Some 1"
  using single_run_totals [OF measured_result_measured [OF assms(1)] _ assms(2), of n d s s uc] by simp_all

lemma single_run_gate:
  assumes "0 < w" "dimension_weights policy = []" "publication_threshold policy \<le> 1"
  shows "evaluate_quality_gate (run_gate_input uc [measured_result n d w s] policy {dimension_value d}) =
    Inr (if fdiv (fmul w s) w < gate_fail_threshold policy then GFAIL
         else if fdiv (fmul w s) w < gate_warn_threshold policy then GWARN else GPASS)"
  using assms(3)
  by (simp add: run_gate_input_dataset single_run_score [OF assms(1,2)] evaluate_quality_gate_def
      has_required_technical_failure_def is_critical_violated_def is_evidence_insufficient_def
      has_unmeasured_required_def extract_measured_dimensions_def not_less)

lemma single_run_aggregate:
  assumes "0 < w" "dimension_weights policy = []" "publication_threshold policy \<le> 1"
  obtains a where "aggregate uc [measured_result n d w s] policy (Some {dimension_value d}) (run_value SUCCEEDED) = Inr a"
    "ss_dq_score a = Some (fdiv (fmul w s) w)" "ss_coverage_ratio a = Some 1"
    "ss_quality_gate a = (if fdiv (fmul w s) w < gate_fail_threshold policy then GFAIL
         else if fdiv (fmul w s) w < gate_warn_threshold policy then GWARN else GPASS)"
    "ss_publication_status a = PUBLISHED" "ss_published_score a = Some (fdiv (fmul w s) w)"
proof -
  obtain a where a: "aggregate uc [measured_result n d w s] policy (Some {dimension_value d}) (run_value SUCCEEDED) = Inr a"
    using aggregate_total by blast
  note A = aggregate_parts [OF a, unfolded option.case]
  have g: "ss_quality_gate a = (if fdiv (fmul w s) w < gate_fail_threshold policy then GFAIL
         else if fdiv (fmul w s) w < gate_warn_threshold policy then GWARN else GPASS)"
    using A(1) by (simp only: single_run_gate [OF assms] sum.inject)
  have "ss_dimension_results a = [\<lparr>d_dimension = dimension_value d,
      d_dimension_score = Some (fdiv (fmul w s) w),
      d_coverage_ratio = Some 1, d_rule_results = [measured_result n d w s],
      d_dimension_weight = dict_get (dimension_weights policy) (dimension_value d)
        (dict_get (dimension_weights policy) (py_upper uc (dimension_value d)) 1)\<rparr>]"
    using A(4) single_run_dimension [of "measured_result n d w s" s uc "dimension_weights policy"]
      measured_result_measured [OF assms(1), of n d s]
    by simp
  then have all: "ss_all_required_dimensions_measured a" using A(5) by (simp add: image_iff)
  have none: "\<not> ss_has_failed_required_rules a" "\<not> ss_has_unmeasured_required_rules a"
    using A(6,7) by (simp_all add: has_required_technical_failure_def has_unmeasured_required_def)
  have score: "ss_dq_score a = Some (fdiv (fmul w s) w)" "ss_coverage_ratio a = Some 1"
    using A(2,3) by (simp_all add: run_gate_input_dataset single_run_score [OF assms(1,2)])
  have "ss_quality_gate a \<notin> {GERROR, GINSUFFICIENT_EVIDENCE}" using g by simp
  then have "(ss_publication_status a, ss_published_score a) = (PUBLISHED, Some (fdiv (fmul w s) w))"
    using A(8) assms(3) by (simp add: determine_publication_status_def is_publication_eligible_def all none score not_less)
  then show thesis using that a score g by blast
qed

subsection \<open>Properties\<close>

text \<open>C1: Publication is sound: a published scorecard belongs to a succeeded run whose gate is FAIL,
  WARN or PASS, whose coverage reaches the policy threshold, in which no required rule failed or stayed
  unmeasured and every required dimension has a measured rule; what is published is the DQ score itself.\<close>

theorem publication_sound:
  assumes "aggregate uc rs policy (Some req) st = Inr s" "ss_publication_status s = PUBLISHED"
  shows "st = run_value SUCCEEDED \<and> ss_quality_gate s \<in> {GFAIL, GWARN, GPASS}
    \<and> (\<exists>score cov. ss_published_score s = Some score \<and> ss_dq_score s = Some score
         \<and> ss_coverage_ratio s = Some cov \<and> publication_threshold policy \<le> cov)
    \<and> \<not> has_required_technical_failure rs \<and> \<not> has_unmeasured_required rs
    \<and> req \<subseteq> dimension ` {r \<in> set rs. is_dimension_measured_rule r}"
proof -
  note A = aggregate_parts [OF assms(1), unfolded option.case]
  define pin where "pin = \<lparr>p_run_status = st, p_gate_status = ss_quality_gate s, p_dq_score = ss_dq_score s,
       p_coverage_ratio = ss_coverage_ratio s, p_policy = policy,
       p_all_required_dimensions_measured = ss_all_required_dimensions_measured s,
       p_has_failed_required_rules = ss_has_failed_required_rules s,
       p_has_unmeasured_required_rules = ss_has_unmeasured_required_rules s\<rparr>"
  have d: "determine_publication_status pin = (PUBLISHED, ss_published_score s)"
    using A(8) assms(2) by (simp add: pin_def)
  then have e: "is_publication_eligible pin" and pub: "ss_published_score s = ss_dq_score s"
    by (simp_all add: determine_publication_status_def pin_def split: if_splits)
  have gates: "ss_quality_gate s \<notin> {GERROR, GINSUFFICIENT_EVIDENCE} \<longleftrightarrow> ss_quality_gate s \<in> {GFAIL, GWARN, GPASS}"
    by (cases "ss_quality_gate s") simp_all
  have req: "req \<subseteq> d_dimension ` {d \<in> set (ss_dimension_results s). d_dimension_score d \<noteq> None}"
    using e A(5) by (simp add: pin_def is_publication_eligible_def split: if_splits)
  have "dn \<in> dimension ` {r \<in> set rs. is_dimension_measured_rule r}"
    if "d_dimension_score (dimension_of_run uc rs ws dn) \<noteq> None" for dn ws
  proof -
    have "filter is_dimension_measured_rule (filter (\<lambda>r. dimension r = dn) rs) \<noteq> []"
    proof
      assume "filter is_dimension_measured_rule (filter (\<lambda>r. dimension r = dn) rs) = []"
      then have "d_dimension_score (dimension_of_run uc rs ws dn) = None"
        by (simp add: dimension_of_run_def compute_dimension_result_def Let_def del: filter_filter)
      with that show False by simp
    qed
    then show ?thesis by (auto simp: filter_empty_conv)
  qed
  with req have "req \<subseteq> dimension ` {r \<in> set rs. is_dimension_measured_rule r}"
    by (fastforce simp: A(4) all_dimension_results)
  with e show ?thesis
    by (auto simp: pin_def is_publication_eligible_def pub not_less A(6,7) gates [simplified] split: if_splits option.splits)
qed

theorem publication_sound_witness:
  "\<exists>s. aggregate no_table [measured_result ''r'' VALIDITY 1 100] default_policy
      (Some {dimension_value VALIDITY}) (run_value SUCCEEDED) = Inr s
    \<and> ss_published_score s = Some 100 \<and> ss_quality_gate s \<in> {GFAIL, GWARN, GPASS}"
proof -
  obtain s where s: "aggregate no_table [measured_result ''r'' VALIDITY 1 100] default_policy
      (Some {dimension_value VALIDITY}) (run_value SUCCEEDED) = Inr s"
    "ss_publication_status s = PUBLISHED" "ss_published_score s = Some (fdiv (fmul 1 100) 1)"
    by (rule single_run_aggregate [of 1 default_policy no_table "''r''" VALIDITY 100])
      (simp_all add: default_policy_def float_eval)
  have "fdiv (fmul 1 100) 1 = 100" by (simp add: fdiv_def fmul_def fl_hundred)
  with publication_sound [OF s(1,2)] s show ?thesis by auto
qed

text \<open>A withheld scorecard carries no published score, whatever was computed.\<close>

lemma withheld_no_score:
  assumes "aggregate uc rs policy req st = Inr s"
  shows "ss_publication_status s = WITHHELD \<longleftrightarrow> ss_published_score s = None"
  using aggregate_parts(8) [OF assms]
  by (cases "ss_publication_status s")
    (auto simp: determine_publication_status_def is_publication_eligible_def split: if_splits)

text \<open>When no unweighted rule is counted as evidence, a succeeded run with gate WARN or PASS is
  published: the evidence test of the gate and the eligibility test of publication agree.\<close>

theorem passing_gate_published:
  assumes "aggregate uc rs policy (Some req) (run_value SUCCEEDED) = Inr s" "floats_ok rs" "finite req"
    and "ss_quality_gate s \<in> {GWARN, GPASS}"
    and "\<forall>r \<in> set rs. is_gate_measured r \<longrightarrow> 0 < contribution_weight r"
  shows "ss_publication_status s = PUBLISHED \<and> ss_published_score s = ss_dq_score s"
proof -
  note A = aggregate_parts [OF assms(1), unfolded option.case]
  note suf = gate_sufficient [OF A(1) assms(4)]
  obtain c where c: "ss_coverage_ratio s = Some c" "coverage_threshold policy \<le> c"
    and um: "\<not> has_unmeasured_required rs" and req: "req \<subseteq> extract_measured_dimensions rs"
    using sufficient_parts [OF suf(3)] by (auto simp: run_gate_input_dataset A(3))
  have fail: "\<not> has_required_technical_failure rs" using suf(1) by (simp add: run_gate_input_dataset)
  obtain sc where sc: "ss_dq_score s = Some sc"
    using evidence_sufficient_score [OF suf(3)] A(2) by auto
  have "dn \<in> d_dimension ` {d \<in> set (ss_dimension_results s). d_dimension_score d \<noteq> None}" if "dn \<in> req" for dn
  proof -
    have "dn \<in> extract_measured_dimensions rs" using req that by blast
    then obtain r where r: "r \<in> set rs" "is_gate_measured r" "dimension r = dn"
      by (auto simp: extract_measured_dimensions_def)
    then have "is_dimension_measured_rule r"
      using assms(5) by (simp add: is_gate_measured_def is_dimension_measured_rule_def)
    moreover have "floats_ok (filter (\<lambda>r. dimension r = dn) rs)"
      using assms(2) length_filter_le [of "\<lambda>r. dimension r = dn" rs]
      by (auto simp: floats_ok_def simp del: length_filter_le)
    ultimately have "d_dimension_score (dimension_of_run uc rs (dimension_weights policy) dn) \<noteq> None"
      using r(1,3) by (subst dimension_of_run_def, subst dimension_score_measured) auto
    moreover have "dimension_of_run uc rs (dimension_weights policy) dn \<in> set (ss_dimension_results s)"
      using that assms(3) by (simp add: A(4) all_dimension_results)
    ultimately show ?thesis by (intro image_eqI [of _ _ "dimension_of_run uc rs (dimension_weights policy) dn"]) auto
  qed
  then have "ss_all_required_dimensions_measured s" using A(5) by blast
  moreover have nl: "\<not> c < coverage_threshold policy" using c(2) by simp
  ultimately have "(ss_publication_status s, ss_published_score s) = (PUBLISHED, ss_dq_score s)"
    unfolding A(8) using assms(4)
    by (auto simp: determine_publication_status_def is_publication_eligible_def A(6,7) fail um c(1) nl sc)
  then show ?thesis by simp
qed

theorem passing_gate_published_witness:
  "\<exists>s. aggregate no_table [measured_result ''r'' VALIDITY 1 100] default_policy
      (Some {dimension_value VALIDITY}) (run_value SUCCEEDED) = Inr s \<and> ss_publication_status s = PUBLISHED"
proof -
  have v: "fdiv (fmul 1 100) 1 = 100" by (simp add: fdiv_def fmul_def fl_hundred)
  obtain s where s: "aggregate no_table [measured_result ''r'' VALIDITY 1 100] default_policy
      (Some {dimension_value VALIDITY}) (run_value SUCCEEDED) = Inr s" "ss_quality_gate s \<in> {GWARN, GPASS}"
    by (rule single_run_aggregate [of 1 default_policy no_table "''r''" VALIDITY 100])
      (simp_all add: default_policy_def float_eval v)
  with passing_gate_published [OF s(1) _ _ s(2)] show ?thesis
    by (auto simp: floats_ok_def is_float_one)
qed



lemma neumaier_ints:
  assumes "\<forall>x \<in> set xs. \<exists>m. x = of_int m \<and> 0 \<le> m" "0 \<le> f" "of_int f + sum_list xs \<le> 2 ^ 53"
  shows "neumaier (of_int f) 0 xs = of_int f + sum_list xs"
  using assms
proof (induction xs arbitrary: f)
  case Nil
  then show ?case by simp
next
  case (Cons x xs)
  obtain m where m: "x = of_int m" "0 \<le> m" using Cons.prems(1) by auto
  have nn: "0 \<le> sum_list xs" using Cons.prems(1) by (intro sum_list_nonneg) force
  have "(of_int (f + m) :: rat) \<le> of_int (2 ^ 53)" using Cons.prems(3) nn m by simp
  then have le: "f + m \<le> 2 ^ 53" by (simp only: of_int_le_iff)
  have t: "fadd (of_int f) x = of_int (f + m)"
    using fl_of_int [of "f + m"] le Cons.prems(2) m by (simp add: fadd_def)
  have e1: "fadd (fsub (of_int f) (of_int (f + m))) x = 0"
    using fl_of_int [of "- m"] le Cons.prems(2) m by (simp add: fadd_def fsub_def)
  have e2: "fadd (fsub x (of_int (f + m))) (of_int f) = 0"
    using fl_of_int [of "- f"] le Cons.prems(2) m by (simp add: fadd_def fsub_def)
  have z: "fadd 0 0 = 0" by (simp add: fadd_def)
  have "neumaier (of_int f) 0 (x # xs) = neumaier (of_int (f + m)) 0 xs"
    using z by (simp add: Let_def t e1 e2 del: of_int_add)
  also have "\<dots> = of_int (f + m) + sum_list xs"
    using Cons.prems m by (intro Cons.IH) (auto simp: algebra_simps)
  finally show ?case using m by simp
qed

lemma fsum_const:
  assumes "0 \<le> m" "int (length xs) * m \<le> 2 ^ 53"
  shows "fsum (map (\<lambda>r. of_int m) xs) = of_int (int (length xs) * m)"
proof (cases xs)
  case (Cons y ys)
  have sl: "sum_list (map (\<lambda>r. of_int m) ys) = (of_int (int (length ys) * m) :: rat)"
    by (simp add: sum_list_triv)
  have "(of_int (int (length xs) * m) :: rat) \<le> of_int (2 ^ 53)" using assms(2) by (simp only: of_int_le_iff)
  then have "of_int m + sum_list (map (\<lambda>r. of_int m) ys) \<le> (2 ^ 53 :: rat)"
    using Cons by (simp add: sum_list_triv algebra_simps)
  then have "neumaier (of_int m) 0 (map (\<lambda>r. of_int m) ys) = of_int m + sum_list (map (\<lambda>r. of_int m) ys)"
    using assms(1) by (intro neumaier_ints) auto
  then show ?thesis using Cons sl by (simp add: algebra_simps)
qed simp

text \<open>Equal weights are exact: when every measured rule of a dimension has weight 1 and score 100,
  the dimension scores exactly 100.\<close>

theorem unit_weights_exact:
  assumes "\<forall>r \<in> set (di_rules inp). is_dimension_measured_rule r \<longrightarrow>
      contribution_weight r = 1 \<and> computed_score r = Some 100"
    and "\<exists>r \<in> set (di_rules inp). is_dimension_measured_rule r" "length (di_rules inp) \<le> 2 ^ 40"
  shows "d_dimension_score (compute_dimension_result inp) = Some 100"
proof -
  define ms where "ms = filter is_dimension_measured_rule (di_rules inp)"
  have ne: "0 < length ms" using assms(2) by (auto simp: ms_def filter_empty_conv)
  have "length ms \<le> length (di_rules inp)" unfolding ms_def by (rule length_filter_le)
  then have len: "length ms \<le> 2 ^ 40" using assms(3) by simp
  have h: "fmul 1 100 = 100" by (simp add: fmul_def fl_hundred)
  have w: "map contribution_weight ms = map (\<lambda>r. of_int 1) ms"
    and p: "map (\<lambda>r. fmul (contribution_weight r) (or_zero (computed_score r))) ms = map (\<lambda>r. of_int 100) ms"
    using assms(1) h by (auto simp: ms_def)
  have "fsum (map (\<lambda>r. of_int 1) ms) = (of_int (int (length ms) * 1) :: rat)"
    and "fsum (map (\<lambda>r. of_int 100) ms) = (of_int (int (length ms) * 100) :: rat)"
    using len by (intro fsum_const; simp)+
  then show ?thesis
    using ne unfolding compute_dimension_result_def ms_def [symmetric] Let_def w p
    by (simp add: fdiv_def fl_hundred)
qed

theorem unit_weights_exact_witness:
  "d_dimension_score (compute_dimension_result \<lparr>di_dimension = u ''VALIDITY'',
     di_rules = [measured_result ''a'' VALIDITY 1 100, measured_result ''b'' VALIDITY 1 100],
     di_dimension_weight = 1\<rparr>) = Some 100"
  by (rule unit_weights_exact) (simp_all add: measured_result_measured)

text \<open>Fractional weights are not: a run whose only rule passes on every record, with weight 0.17,
  scores below 100, so a policy that demands 100 for PASS reports WARN on perfect data; with weight
  0.69 the score of the same run exceeds 100.\<close>

theorem fractional_weight_drift:
  "\<exists>a b x. aggregate no_table [measured_result ''r'' VALIDITY (fl (17 / 100)) (percentage 10 10)] strict_policy
       (Some {dimension_value VALIDITY}) (run_value SUCCEEDED) = Inr a \<and> ss_quality_gate a = GWARN
   \<and> aggregate no_table [measured_result ''r'' VALIDITY (fl (69 / 100)) (percentage 10 10)] strict_policy
       (Some {dimension_value VALIDITY}) (run_value SUCCEEDED) = Inr b \<and> ss_published_score b = Some x \<and> 100 < x"
proof -
  have p: "percentage 10 10 = 100" by (simp add: percentage_full)
  have pol: "dimension_weights strict_policy = []" "publication_threshold strict_policy \<le> 1"
    "pass_min strict_policy = 100" "warn_min strict_policy = 60"
    by (simp_all add: strict_policy_def default_policy_def float_eval)
  have w: "0 < fl (17 / 100)" "0 < fl (69 / 100)" by simp_all
  have lo: "fdiv (fmul (fl (17 / 100)) 100) (fl (17 / 100)) < 100"
    "60 \<le> fdiv (fmul (fl (17 / 100)) 100) (fl (17 / 100))"
    by (simp_all add: fdiv_def fmul_def float_eval)
  have hi: "100 < fdiv (fmul (fl (69 / 100)) 100) (fl (69 / 100))"
    by (simp add: fdiv_def fmul_def float_eval)
  obtain a where a: "aggregate no_table [measured_result ''r'' VALIDITY (fl (17 / 100)) 100] strict_policy
       (Some {dimension_value VALIDITY}) (run_value SUCCEEDED) = Inr a" "ss_quality_gate a = GWARN"
    by (rule single_run_aggregate [OF w(1) pol(1,2), of no_table "''r''" VALIDITY 100])
      (use lo pol in \<open>simp add: not_less\<close>)
  obtain b where b: "aggregate no_table [measured_result ''r'' VALIDITY (fl (69 / 100)) 100] strict_policy
       (Some {dimension_value VALIDITY}) (run_value SUCCEEDED) = Inr b"
    "ss_published_score b = Some (fdiv (fmul (fl (69 / 100)) 100) (fl (69 / 100)))"
    by (rule single_run_aggregate [OF w(2) pol(1,2), of no_table "''r''" VALIDITY 100])
  show ?thesis unfolding p using a b hi by blast
qed

lemma less_u: "u ''ACCURACY'' < u ''VALIDITY''"
  by (simp add: u_simps)

lemma zero_weight_dims:
  "distinct_dims zero_weight_run {dimension_value ACCURACY, dimension_value VALIDITY} = [dimension_value ACCURACY, dimension_value VALIDITY]"
  by (rule sorted_distinct_set_unique)
    (auto simp: zero_weight_run_def measured_result_def less_u less_imp_le)

lemma zero_weight_results:
  "compute_all_dimension_results uc zero_weight_run {dimension_value ACCURACY, dimension_value VALIDITY} [] =
   map (dimension_of_run uc zero_weight_run []) [dimension_value ACCURACY, dimension_value VALIDITY]"
  by (simp only: all_dimension_results zero_weight_dims)

lemma zw_acc: "d_dimension_score (dimension_of_run uc zero_weight_run [] (dimension_value ACCURACY)) = None"
  "d_coverage_ratio (dimension_of_run uc zero_weight_run [] (dimension_value ACCURACY)) = Some 0"
  "d_dimension_score (dimension_of_run uc zero_weight_run [] (dimension_value VALIDITY)) = Some 100"
  "d_coverage_ratio (dimension_of_run uc zero_weight_run [] (dimension_value VALIDITY)) = Some 1"
  by (simp_all add: dimension_of_run_def compute_dimension_result_def zero_weight_run_def measured_result_def
    is_dimension_measured_rule_def is_dimension_expected_rule_def fmul_def fdiv_def fl_one fl_hundred)

lemma zw_totals:
  "ds_dq_score (run_dataset uc zero_weight_run lenient_policy {dimension_value ACCURACY, dimension_value VALIDITY}) = Some 100"
  "ds_coverage_ratio (run_dataset uc zero_weight_run lenient_policy {dimension_value ACCURACY, dimension_value VALIDITY}) = Some (1 / 2)"
proof -
  have ew: "effective_weight [] d = 1" for d by (simp add: effective_weight_def dict_get_def)
  have pol: "dimension_weights lenient_policy = []" by (simp add: lenient_policy_def default_policy_def)
  have half: "fl (1 / 2) = 1 / 2" "fl 2 = 2" "fl 0 = 0" "fl (- 1) = - 1"
    by (simp_all add: fl_neg fl_one float_eval)
  show "ds_dq_score (run_dataset uc zero_weight_run lenient_policy {dimension_value ACCURACY, dimension_value VALIDITY}) = Some 100"
  "ds_coverage_ratio (run_dataset uc zero_weight_run lenient_policy {dimension_value ACCURACY, dimension_value VALIDITY}) = Some (1 / 2)"
    unfolding run_dataset_def pol zero_weight_results
    by (simp_all add: compute_dataset_score_weights ew zw_acc Let_def fmul_def fdiv_def fl_one fl_hundred fadd_def fsub_def half del: dimension_value.simps)
qed

lemma incomplete_not_eligible: "\<not> p_all_required_dimensions_measured inp \<Longrightarrow> \<not> is_publication_eligible inp"
  by (simp add: is_publication_eligible_def)

lemma zw_flags:
  "\<not> has_required_technical_failure zero_weight_run" "\<not> has_unmeasured_required zero_weight_run"
  "\<not> any_of (\<lambda>r. is_critical_violated r p) zero_weight_run"
  "extract_measured_dimensions zero_weight_run = {dimension_value ACCURACY, dimension_value VALIDITY}"
  by (auto simp: zero_weight_run_def measured_result_def has_required_technical_failure_def
      has_unmeasured_required_def is_critical_violated_def extract_measured_dimensions_def is_gate_measured_def)

text \<open>The gate counts a measured rule of weight 0 as evidence for its dimension, the score does not: a
  run can pass the gate and still be withheld because a required dimension has no weighted score.\<close>

theorem zero_weight_pass_withheld:
  "\<exists>s. aggregate no_table zero_weight_run lenient_policy (Some (required_dimensions zero_weight_run))
       (run_value SUCCEEDED) = Inr s \<and> ss_quality_gate s = GPASS \<and> ss_publication_status s = WITHHELD"
proof -
  let ?rq = "{dimension_value ACCURACY, dimension_value VALIDITY}"
  have req: "required_dimensions zero_weight_run = ?rq"
    by (auto simp: required_dimensions_def zero_weight_run_def measured_result_def is_dimension_expected_rule_def)
  obtain s where s: "aggregate no_table zero_weight_run lenient_policy (Some ?rq) (run_value SUCCEEDED) = Inr s"
    using aggregate_total by blast
  note A = aggregate_parts [OF s, unfolded option.case]
  have pol: "dimension_weights lenient_policy = []" "warn_min lenient_policy = 60" "pass_min lenient_policy = 80"
    "publication_threshold lenient_policy = 1 / 2"
    by (simp_all add: lenient_policy_def default_policy_def)
  have "evaluate_quality_gate (run_gate_input no_table zero_weight_run lenient_policy ?rq) = Inr GPASS"
    by (simp add: run_gate_input_dataset zw_totals evaluate_quality_gate_def is_evidence_insufficient_def
        zw_flags pol del: dimension_value.simps)
  then have gate: "ss_quality_gate s = GPASS" using A(1) by simp
  have "\<not> ss_all_required_dimensions_measured s"
  proof
    assume "ss_all_required_dimensions_measured s"
    then have "dimension_value ACCURACY \<in> d_dimension `
        {d \<in> set (map (dimension_of_run no_table zero_weight_run []) [dimension_value ACCURACY, dimension_value VALIDITY]).
          d_dimension_score d \<noteq> None}"
      unfolding A(5) A(4) pol(1) zero_weight_results by blast
    then obtain dn where "dimension_value ACCURACY = dn"
      "d_dimension_score (dimension_of_run no_table zero_weight_run [] dn) \<noteq> None"
      by (fastforce simp del: dimension_value.simps)
    with zw_acc(1) [of no_table] show False by blast
  qed
  then have "ss_publication_status s = WITHHELD"
    using A(8) by (simp add: determine_publication_status_def incomplete_not_eligible)
  with s gate show ?thesis unfolding req by blast
qed

subsection \<open>Rule scores\<close>

text \<open>A rule scores 100 exactly when every record its null policy counts has passed: rounding never
  lifts an imperfect rule to a perfect score (up to $2^{53}$ records).\<close>

theorem perfect_score_iff:
  assumes "compute_rule_score (default_scoring_input c p) = Inr (st, Some s)" "counts_nonneg c"
    and "calculate_denominator c p = Inr d" "d \<le> 2 ^ 53"
  shows "s = 100 \<longleftrightarrow> passed c = d"
proof -
  have s: "s = percentage (passed c) d" and "d \<noteq> 0"
    using assms(1,3) by (auto simp: compute_rule_score_def default_scoring_input_def percentage_def split: if_splits)
  moreover have "0 \<le> d" "passed c \<le> d" using denominator_bounds [OF assms(2,3)] by simp_all
  moreover have "0 \<le> passed c" using assms(2) by (simp add: counts_nonneg_def)
  ultimately show ?thesis
    using percentage_full [of d] percentage_less_hundred [of "passed c" d] assms(4) by fastforce
qed

definition demo_counts :: rule_counts where
  "demo_counts = \<lparr>passed = 8, failed = 1, missing = 1, miscast = 0, not_applicable = 0, total_observed = 10\<rparr>"

theorem perfect_score_iff_witness:
  "percentage 8 10 \<noteq> 100"
proof -
  have c: "compute_rule_score (default_scoring_input demo_counts (u ''fail'')) =
      Inr (measurement_value MEASURED, Some (percentage 8 10))" "calculate_denominator demo_counts (u ''fail'') = Inr 10"
    by (simp_all add: compute_rule_score_def default_scoring_input_def calculate_denominator_def demo_counts_def
        percentage_def)
  have "percentage 8 10 = 100 \<longleftrightarrow> passed demo_counts = 10"
    by (rule perfect_score_iff [OF c(1) _ c(2)]) (simp_all add: demo_counts_def counts_nonneg_def)
  then show ?thesis by (simp add: demo_counts_def)
qed

text \<open>A verified partition makes the two denominators differ by the missing records: under "fail" they
  count as unsuccessful, under the other policies they leave the denominator, so the score never drops.\<close>

theorem null_policy_monotone:
  assumes "counts_nonneg c" "verify_partition_identity c" "p \<in> {u ''ignore'', u ''separate'', u ''not_applicable''}"
    and "compute_rule_score (default_scoring_input c (u ''fail'')) = Inr (st, Some s)"
    and "compute_rule_score (default_scoring_input c p) = Inr (st', Some s')"
  shows "calculate_denominator c (u ''fail'') = Inr (total_observed c - not_applicable c) \<and> s \<le> s'"
proof -
  have d: "calculate_denominator c (u ''fail'') = Inr (total_observed c - not_applicable c)"
    using assms(2) by (auto simp: calculate_denominator_def verify_partition_identity_def)
  let ?d = "passed c + failed c + miscast c + missing c" and ?e = "passed c + failed c + miscast c"
  have s: "s = percentage (passed c) ?d" "?d \<noteq> 0" and s': "s' = percentage (passed c) ?e" "?e \<noteq> 0"
    using assms(3-5) by (auto simp: compute_rule_score_def default_scoring_input_def calculate_denominator_def
        percentage_def split: if_splits)
  have nn: "0 \<le> passed c" "0 < ?e" "?e \<le> ?d" "0 \<le> ?e"
    using assms(1) s'(2) by (simp_all add: counts_nonneg_def)
  have "(of_int (passed c) / of_int ?d :: rat) \<le> of_int (passed c) / of_int ?e"
    using nn by (intro divide_left_mono mult_pos_pos) (simp_all only: of_int_le_iff of_int_0_le_iff of_int_0_less_iff)
  then have "s \<le> s'"
    unfolding s s' percentage_def fmul_def fdiv_def by (intro fl_mono mult_right_mono) simp_all
  with d show ?thesis by simp
qed

theorem null_policy_monotone_witness:
  "calculate_denominator demo_counts (u ''fail'') = Inr 10 \<and> percentage 8 10 \<le> percentage 8 9"
proof -
  have c: "compute_rule_score (default_scoring_input demo_counts (u ''fail'')) =
      Inr (measurement_value MEASURED, Some (percentage 8 10))"
    "compute_rule_score (default_scoring_input demo_counts (u ''ignore'')) =
      Inr (measurement_value MEASURED, Some (percentage 8 9))"
    by (simp_all add: compute_rule_score_def default_scoring_input_def calculate_denominator_def demo_counts_def
        percentage_def)
  have "counts_nonneg demo_counts" "verify_partition_identity demo_counts"
    by (simp_all add: demo_counts_def counts_nonneg_def verify_partition_identity_def)
  from null_policy_monotone [OF this _ c] show ?thesis by (simp add: demo_counts_def)
qed

text \<open>C0 witness of the isolation of advisories.\<close>

theorem advisory_isolation_witness:
  "\<exists>a b. aggregate no_table [measured_result ''r'' VALIDITY 1 100] default_policy (Some {dimension_value VALIDITY})
       (run_value SUCCEEDED) = Inr a
     \<and> aggregate no_table ([measured_result ''r'' VALIDITY 1 100] @ [build_outlier_advisory_result
          \<lparr>ori_column_name = u ''x'', ori_total_evaluated = 10, ori_iqr = 1, ori_outlier_count = 4, ori_is_all_null = False\<rparr>])
       default_policy (Some {dimension_value VALIDITY}) (run_value SUCCEEDED) = Inr b
     \<and> ss_dq_score b = ss_dq_score a \<and> ss_publication_status b = ss_publication_status a"
  (is "\<exists>a b. aggregate no_table ?rs ?p ?q ?st = Inr a \<and> aggregate no_table (?rs @ ?ex) ?p ?q ?st = Inr b \<and> _ a b")
proof -
  obtain a where a: "aggregate no_table ?rs ?p ?q ?st = Inr a" using aggregate_total by blast
  obtain b where b: "aggregate no_table (?rs @ ?ex) ?p ?q ?st = Inr b" using aggregate_total by blast
  have "\<forall>r \<in> set ?ex. inert_result r" by simp
  from advisory_isolation [OF _ this a b] a b show ?thesis by blast
qed

end
