(* ===== verification/JsonText.thy ===== *)
theory JsonText
  imports Models
begin

text \<open>
  \<open>json.dumps(..., ensure_ascii=False, default=str)\<close> as the code calls it, UTF-8 sizes, and
  \<open>common/hash_utils.py\<close>. The text of floats and decimals (\<open>repr\<close>, \<open>str\<close>) and SHA-256 are parameters.
\<close>

record number_text =
  float_repr :: "pyfloat \<Rightarrow> ustr"
  decimal_str :: "bool \<Rightarrow> nat \<Rightarrow> int \<Rightarrow> ustr"

fun nat_text :: "nat \<Rightarrow> ustr" where
  "nat_text n = (if n < 10 then [48 + n] else nat_text (n div 10) @ [48 + n mod 10])"

declare nat_text.simps [simp del]

definition int_text :: "int \<Rightarrow> ustr" where
  "int_text i = (if i < 0 then 45 # nat_text (nat (- i)) else nat_text (nat i))"

text \<open>A string literal: only quotes, backslashes and control characters below 32 are escaped.\<close>

definition escape_cp :: "nat \<Rightarrow> ustr" where
  "escape_cp c =
     (if c = 34 then [92, 34] else if c = 92 then [92, 92]
      else if c = 10 then [92, 110] else if c = 13 then [92, 114] else if c = 9 then [92, 116]
      else if c = 12 then [92, 102] else if c = 8 then [92, 98]
      else if c < 32 then [92, 117] @ hex_digits 4 c else [c])"

definition quote :: "ustr \<Rightarrow> ustr" where
  "quote s = [34] @ concat (map escape_cp s) @ [34]"

fun join :: "ustr \<Rightarrow> ustr list \<Rightarrow> ustr" where
  "join sep [] = []"
| "join sep [x] = x"
| "join sep (x # y # ys) = x @ sep @ join sep (y # ys)"

fun dumps :: "number_text \<Rightarrow> bool \<Rightarrow> ustr \<Rightarrow> ustr \<Rightarrow> json \<Rightarrow> ustr" where
  "dumps nt sk isep ksep JNull = u ''null''"
| "dumps nt sk isep ksep (JBool b) = (if b then u ''true'' else u ''false'')"
| "dumps nt sk isep ksep (JInt i) = int_text i"
| "dumps nt sk isep ksep (JDec s c e) = quote (decimal_str nt s c e)"
| "dumps nt sk isep ksep (JFloat x) = float_repr nt x"
| "dumps nt sk isep ksep (JStr s) = quote s"
| "dumps nt sk isep ksep (JArr xs) = [91] @ join isep (map (dumps nt sk isep ksep) xs) @ [93]"
| "dumps nt sk isep ksep (JObj kvs) =
     (let ps = map (\<lambda>(k, v). (k, dumps nt sk isep ksep v)) kvs
      in [123] @ join isep (map (\<lambda>(k, t). quote k @ ksep @ t) (if sk then sort_key fst ps else ps)) @ [125])"

text \<open>The bytes of a text in UTF-8; a lone surrogate is a \<open>UnicodeEncodeError\<close>.\<close>

definition utf8_cp :: "nat \<Rightarrow> nat option" where
  "utf8_cp c = (if c < 128 then Some 1 else if c < 2048 then Some 2
     else if 55296 \<le> c \<and> c \<le> 57343 then None else if c < 65536 then Some 3 else Some 4)"

fun utf8_size :: "ustr \<Rightarrow> nat option" where
  "utf8_size [] = Some 0"
| "utf8_size (c # cs) = (case utf8_cp c of None \<Rightarrow> None
     | Some n \<Rightarrow> (case utf8_size cs of None \<Rightarrow> None | Some m \<Rightarrow> Some (n + m)))"

text \<open>\<open>compute_deterministic_hash\<close>: sorted keys, compact separators, UTF-8, SHA-256.\<close>

definition canonical_json :: "number_text \<Rightarrow> json \<Rightarrow> ustr" where
  "canonical_json nt v = dumps nt True [44] [58] v"

definition compute_deterministic_hash :: "number_text \<Rightarrow> (ustr \<Rightarrow> ustr) \<Rightarrow> json \<Rightarrow> string + ustr" where
  "compute_deterministic_hash nt sha v =
     (let t = canonical_json nt v
      in case utf8_size t of None \<Rightarrow> Inl ''UnicodeEncodeError'' | Some n \<Rightarrow> Inr (sha t))"

subsection \<open>Sizes\<close>

lemma utf8_size_append: "utf8_size (xs @ ys) = (case utf8_size xs of None \<Rightarrow> None
    | Some n \<Rightarrow> (case utf8_size ys of None \<Rightarrow> None | Some m \<Rightarrow> Some (n + m)))"
  by (induction xs) (auto split: option.splits)

lemma utf8_size_ge: "utf8_size xs = Some n \<Longrightarrow> length xs \<le> n"
  by (induction xs arbitrary: n) (force simp: utf8_cp_def split: option.splits if_splits)+

lemma utf8_size_ascii: "\<forall>c \<in> set xs. c < 128 \<Longrightarrow> utf8_size xs = Some (length xs)"
  by (induction xs) (auto simp: utf8_cp_def)

lemma utf8_size_none: "utf8_size xs = None \<longleftrightarrow> (\<exists>c \<in> set xs. 55296 \<le> c \<and> c \<le> 57343)"
  by (induction xs) (auto simp: utf8_cp_def split: option.splits if_splits)

lemma utf8_concat_none: "utf8_size (concat xss) = None \<longleftrightarrow> (\<exists>xs \<in> set xss. utf8_size xs = None)"
  by (auto simp: utf8_size_none)

subsection \<open>Key order\<close>

text \<open>Canonical text does not depend on the order in which an object's keys were inserted.\<close>

lemma canonical_json_permute:
  assumes "mset kvs = mset kvs'" "distinct (map fst kvs)"
  shows "canonical_json nt (JObj kvs) = canonical_json nt (JObj kvs')"
proof -
  let ?f = "\<lambda>(k, v). (k, dumps nt True [44] [58] v)"
  have "mset (map ?f kvs) = mset (map ?f kvs')" using assms(1) by simp
  moreover have "inj_on fst (set (map ?f kvs))"
  proof -
    have e: "fst \<circ> ?f = fst" by auto
    have "distinct (map fst (map ?f kvs))" unfolding map_map e by (rule assms(2))
    then show ?thesis unfolding distinct_map [of fst "map ?f kvs"] by (rule conjunct2)
  qed
  ultimately have "sort_key fst (map ?f kvs) = sort_key fst (map ?f kvs')" by (rule sort_key_mset_eq)
  then show ?thesis by (simp add: canonical_json_def)
qed

end
