(* ===== verification/PyRegex.thy ===== *)
theory PyRegex
  imports Prelude
begin

text \<open>
  The part of Python's \<open>re\<close> the code uses: a backtracking matcher that lists the end positions of a
  match in the order the engine tries them. Patterns are sequences, ordered alternatives and greedy
  repetitions of character classes, with anchors, word boundaries and negative lookahead.
\<close>

text \<open>
  What the code needs of the Unicode database beyond ASCII: decimal values (\<open>\d\<close>, \<open>int()\<close>), digits
  (\<open>isdigit\<close>), alphanumerics (\<open>\w\<close>) and the case tables.
\<close>

record unidata =
  ud_decimal :: "nat \<Rightarrow> nat option"
  ud_isdigit :: "nat \<Rightarrow> bool"
  ud_alnum :: "nat \<Rightarrow> bool"
  ud_lower :: case_table
  ud_upper :: case_table

definition decimal_value :: "unidata \<Rightarrow> nat \<Rightarrow> nat option" where
  "decimal_value ud c = (if c < 128 then (if 48 \<le> c \<and> c \<le> 57 then Some (c - 48) else None) else ud_decimal ud c)"

definition is_decimal :: "unidata \<Rightarrow> nat \<Rightarrow> bool" where
  "is_decimal ud c \<longleftrightarrow> decimal_value ud c \<noteq> None"

definition ascii_alnum :: "nat \<Rightarrow> bool" where
  "ascii_alnum c \<longleftrightarrow> (48 \<le> c \<and> c \<le> 57) \<or> (65 \<le> c \<and> c \<le> 90) \<or> (97 \<le> c \<and> c \<le> 122)"

definition word_char :: "unidata \<Rightarrow> nat \<Rightarrow> bool" where
  "word_char ud c \<longleftrightarrow> (if c < 128 then ascii_alnum c \<or> c = 95 else ud_alnum ud c)"

datatype rx =
    Eps
  | Cls "nat \<Rightarrow> bool"
  | Seq rx rx
  | Alt rx rx
  | Rep "nat \<Rightarrow> bool" nat "nat option"
  | Bol
  | Eol
  | WordB
  | NotAhead rx

text \<open>How many characters from position \<open>i\<close> on satisfy the class, at most \<open>m\<close>.\<close>

fun run_length :: "(nat \<Rightarrow> bool) \<Rightarrow> nat option \<Rightarrow> ustr \<Rightarrow> nat" where
  "run_length p m [] = 0"
| "run_length p m (c # cs) =
     (if p c \<and> m \<noteq> Some 0 then Suc (run_length p (map_option (\<lambda>k. k - 1) m) cs) else 0)"

definition at_word_boundary :: "unidata \<Rightarrow> ustr \<Rightarrow> nat \<Rightarrow> bool" where
  "at_word_boundary ud s i \<longleftrightarrow>
     (0 < i \<and> i \<le> length s \<and> word_char ud (s ! (i - 1))) \<noteq> (i < length s \<and> word_char ud (s ! i))"

fun ends :: "unidata \<Rightarrow> rx \<Rightarrow> ustr \<Rightarrow> nat \<Rightarrow> nat list" where
  "ends ud Eps s i = [i]"
| "ends ud (Cls p) s i = (if i < length s \<and> p (s ! i) then [i + 1] else [])"
| "ends ud (Seq a b) s i = concat (map (ends ud b s) (ends ud a s i))"
| "ends ud (Alt a b) s i = ends ud a s i @ ends ud b s i"
| "ends ud (Rep p lo hi) s i =
     (let n = run_length p hi (drop i s) in map (\<lambda>k. i + k) (rev [lo..<Suc n]))"
| "ends ud Bol s i = (if i = 0 then [i] else [])"
| "ends ud Eol s i = (if i = length s \<or> (i + 1 = length s \<and> s ! i = 10) then [i] else [])"
| "ends ud WordB s i = (if at_word_boundary ud s i then [i] else [])"
| "ends ud (NotAhead a) s i = (if ends ud a s i = [] then [i] else [])"

text \<open>\<open>match\<close> (anchored at the start), \<open>search\<close> and \<open>sub\<close>; an empty match is not replaced here.\<close>

definition rx_match :: "unidata \<Rightarrow> rx \<Rightarrow> ustr \<Rightarrow> bool" where
  "rx_match ud r s \<longleftrightarrow> ends ud r s 0 \<noteq> []"

definition rx_search :: "unidata \<Rightarrow> rx \<Rightarrow> ustr \<Rightarrow> bool" where
  "rx_search ud r s \<longleftrightarrow> any_of (\<lambda>i. ends ud r s i \<noteq> []) [0..<Suc (length s)]"

fun rx_sub_from :: "unidata \<Rightarrow> rx \<Rightarrow> ustr \<Rightarrow> ustr \<Rightarrow> nat \<Rightarrow> nat \<Rightarrow> ustr" where
  "rx_sub_from ud r by s i 0 = []"
| "rx_sub_from ud r by s i (Suc fuel) =
     (if length s \<le> i then []
      else case ends ud r s i of
        j # _ \<Rightarrow> if i < j then by @ rx_sub_from ud r by s j fuel
                 else s ! i # rx_sub_from ud r by s (Suc i) fuel
      | [] \<Rightarrow> s ! i # rx_sub_from ud r by s (Suc i) fuel)"

definition rx_sub :: "unidata \<Rightarrow> rx \<Rightarrow> ustr \<Rightarrow> ustr \<Rightarrow> ustr" where
  "rx_sub ud r by s = rx_sub_from ud r by s 0 (length s)"

text \<open>Removing every character of a class: \<open>re.sub("[...]", "", s)\<close>.\<close>

definition remove_class :: "(nat \<Rightarrow> bool) \<Rightarrow> ustr \<Rightarrow> ustr" where
  "remove_class p s = filter (\<lambda>c. \<not> p c) s"

fun seqs :: "rx list \<Rightarrow> rx" where
  "seqs [] = Eps"
| "seqs [r] = r"
| "seqs (r # r' # rs) = Seq r (seqs (r' # rs))"

fun alts :: "rx list \<Rightarrow> rx" where
  "alts [] = Cls (\<lambda>c. False)"
| "alts [r] = r"
| "alts (r # r' # rs) = Alt r (alts (r' # rs))"

definition opt :: "rx \<Rightarrow> rx" where "opt r = Alt r Eps"
definition lit :: "nat \<Rightarrow> rx" where "lit c = Cls (\<lambda>d. d = c)"
definition lits :: "string \<Rightarrow> rx" where "lits s = seqs (map lit (u s))"
definition one_of :: "string \<Rightarrow> nat \<Rightarrow> bool" where "one_of s c \<longleftrightarrow> c \<in> set (u s)"
definition digits :: "unidata \<Rightarrow> nat \<Rightarrow> rx" where "digits ud n = Rep (is_decimal ud) n (Some n)"

subsection \<open>Matches stay inside the text\<close>

lemma run_length_le: "run_length p m s \<le> length s"
  by (induction s arbitrary: m) auto

lemma run_length_hi: "run_length p (Some k) s \<le> k"
  by (induction s arbitrary: k) (auto simp: Suc_le_eq split: if_splits, metis Suc_pred le_imp_less_Suc neq0_conv)

lemma ends_bounds: "j \<in> set (ends ud r s i) \<Longrightarrow> i \<le> length s \<Longrightarrow> i \<le> j \<and> j \<le> length s"
proof (induction r arbitrary: i j)
  case (Seq a b)
  then show ?case by (fastforce intro: order_trans)
next
  case (Rep p lo hi)
  have "run_length p hi (drop i s) \<le> length s - i" using run_length_le [of p hi "drop i s"] by simp
  with Rep show ?case by (auto simp: Let_def)
qed (auto split: if_splits)

lemma rx_sub_fuel:
  assumes "length s \<le> i + f"
  shows "rx_sub_from ud r by s i (f + k) = rx_sub_from ud r by s i f"
  using assms
proof (induction f arbitrary: i)
  case 0
  then show ?case by (cases k) auto
next
  case (Suc f)
  show ?case
  proof (cases "length s \<le> i")
    case False
    have "rx_sub_from ud r by s j (f + k) = rx_sub_from ud r by s j f" if "i < j" for j
      using that Suc.prems by (intro Suc.IH) simp
    then show ?thesis using False by (simp split: list.split)
  qed simp
qed

text \<open>The equations of the loop: the fuel never runs out.\<close>

lemma rx_sub_steps:
  "length s \<le> i \<Longrightarrow> rx_sub_from ud r by s i (length s - i) = []"
  "i < length s \<Longrightarrow> ends ud r s i = [] \<Longrightarrow>
     rx_sub_from ud r by s i (length s - i) = s ! i # rx_sub_from ud r by s (Suc i) (length s - Suc i)"
  "i < length s \<Longrightarrow> ends ud r s i = j # js \<Longrightarrow> i < j \<Longrightarrow>
     rx_sub_from ud r by s i (length s - i) = by @ rx_sub_from ud r by s j (length s - j)"
proof -
  show "length s \<le> i \<Longrightarrow> rx_sub_from ud r by s i (length s - i) = []" by simp
  show "i < length s \<Longrightarrow> ends ud r s i = [] \<Longrightarrow>
     rx_sub_from ud r by s i (length s - i) = s ! i # rx_sub_from ud r by s (Suc i) (length s - Suc i)"
    by (subst Suc_diff_Suc [symmetric]) simp_all
  assume i: "i < length s" "ends ud r s i = j # js" "i < j"
  have "rx_sub_from ud r by s i (length s - i) = by @ rx_sub_from ud r by s j (length s - Suc i)"
    using i by (subst Suc_diff_Suc [symmetric]) simp_all
  also have "rx_sub_from ud r by s j (length s - Suc i) = rx_sub_from ud r by s j (length s - j)"
  proof -
    have "j \<le> length s" using ends_bounds [of j ud r s i] i by simp
    then have "length s - Suc i = (length s - j) + (j - Suc i)" using i by simp
    then show ?thesis using rx_sub_fuel [of s j "length s - j"] by simp
  qed
  finally show "rx_sub_from ud r by s i (length s - i) = by @ rx_sub_from ud r by s j (length s - j)" .
qed

lemma rx_sub_none:
  assumes "\<And>i. i < length s \<Longrightarrow> ends ud r s i = []"
  shows "rx_sub ud r by s = s"
proof -
  have "rx_sub_from ud r by s i (length s - i) = drop i s" if "i \<le> length s" for i
    using that
  proof (induction "length s - i" arbitrary: i)
    case 0
    then show ?case by simp
  next
    case (Suc n)
    then have "i < length s" by simp
    then show ?case using Suc.hyps assms by (simp add: rx_sub_steps(2) Cons_nth_drop_Suc)
  qed
  from this [of 0] show ?thesis by (simp add: rx_sub_def)
qed

end
