(* ===== verification/Redaction.thy ===== *)
theory Redaction
  imports JsonText PyRegex
begin

text \<open>
  \<open>common/redaction_utils.py\<close>: pattern redaction of text, masking of name and address columns, and
  the evidence payload that is cut down until its JSON text fits a byte budget. \<open>Inl\<close> is the
  \<open>UnicodeEncodeError\<close> of measuring text with lone surrogates.
\<close>

definition MAX_EVIDENCE_ROWS_PER_RESULT :: nat where "MAX_EVIDENCE_ROWS_PER_RESULT = 50"
definition MAX_ASSESSMENT_EVIDENCE_BYTES :: int where "MAX_ASSESSMENT_EVIDENCE_BYTES = 500 * 1024"
definition MAX_RESULT_EVIDENCE_BYTES :: int where "MAX_RESULT_EVIDENCE_BYTES = 500 * 1024"

subsection \<open>Text\<close>

definition EMAIL_PATTERN :: rx where
  "EMAIL_PATTERN = seqs [WordB, Rep (\<lambda>c. ascii_alnum c \<or> one_of ''._%+-'' c) 1 None, lit 64,
     Rep (\<lambda>c. ascii_alnum c \<or> one_of ''.-'' c) 1 None, lit 46,
     Rep (\<lambda>c. (65 \<le> c \<and> c \<le> 90) \<or> (97 \<le> c \<and> c \<le> 122)) 2 None, WordB]"

definition SSN_PATTERN :: "unidata \<Rightarrow> rx" where
  "SSN_PATTERN ud = seqs [WordB, digits ud 3, lit 45, digits ud 2, lit 45, digits ud 4, WordB]"

definition dash_or_space :: rx where "dash_or_space = opt (Cls (\<lambda>c. c = 45 \<or> is_space c))"
definition phone_sep :: rx where "phone_sep = opt (Cls (\<lambda>c. c = 45 \<or> c = 46 \<or> is_space c))"

definition CREDIT_CARD_PATTERN :: "unidata \<Rightarrow> rx" where
  "CREDIT_CARD_PATTERN ud = (let g = Seq (digits ud 4) dash_or_space
     in seqs [WordB, g, g, g, Rep (is_decimal ud) 1 (Some 4), WordB])"

definition PHONE_PATTERN :: "unidata \<Rightarrow> rx" where
  "PHONE_PATTERN ud = seqs [opt (seqs [opt (lit 43), Rep (is_decimal ud) 1 (Some 3), phone_sep]),
     opt (lit 40), digits ud 3, opt (lit 41), phone_sep, digits ud 3, phone_sep, digits ud 4]"

definition redact_text :: "unidata \<Rightarrow> ustr \<Rightarrow> ustr" where
  "redact_text ud text =
     (let t1 = rx_sub ud EMAIL_PATTERN (u ''[REDACTED_EMAIL]'') text;
          t2 = rx_sub ud (SSN_PATTERN ud) (u ''[REDACTED_SSN]'') t1;
          t3 = rx_sub ud (CREDIT_CARD_PATTERN ud) (u ''[REDACTED_CARD]'') t2
      in rx_sub ud (PHONE_PATTERN ud) (u ''[REDACTED_PHONE]'') t3)"

fun redact_value :: "unidata \<Rightarrow> json \<Rightarrow> json" where
  "redact_value ud (JStr s) = JStr (redact_text ud s)"
| "redact_value ud (JObj kvs) = JObj (map (\<lambda>(k, v). (k, redact_value ud v)) kvs)"
| "redact_value ud (JArr xs) = JArr (map (redact_value ud) xs)"
| "redact_value ud v = v"

subsection \<open>Columns\<close>

definition NAME_COLUMN_TOKENS :: "ustr list" where
  "NAME_COLUMN_TOKENS = map u [''name'', ''firstname'', ''lastname'', ''fullname'', ''surname'', ''givenname'',
     ''middlename'', ''forename'']"

definition ADDRESS_COLUMN_TOKENS :: "ustr list" where
  "ADDRESS_COLUMN_TOKENS = map u [''address'', ''addr'', ''street'', ''postcode'', ''postal'', ''zip'', ''zipcode'']"

definition lower_or_digit :: "nat \<Rightarrow> bool" where
  "lower_or_digit c \<longleftrightarrow> (48 \<le> c \<and> c \<le> 57) \<or> (97 \<le> c \<and> c \<le> 122)"

text \<open>\<open>_CAMEL_BOUNDARY.sub("_", column)\<close>: an underscore between a lower case letter or digit and a capital.\<close>

fun camel_split :: "ustr \<Rightarrow> ustr" where
  "camel_split (c # d # cs) =
     (if lower_or_digit c \<and> 65 \<le> d \<and> d \<le> 90 then c # 95 # camel_split (d # cs) else c # camel_split (d # cs))"
| "camel_split cs = cs"

text \<open>\<open>findall("[a-z0-9]+")\<close>.\<close>

fun tokens_from :: "ustr \<Rightarrow> ustr \<Rightarrow> ustr list" where
  "tokens_from acc [] = (if acc = [] then [] else [acc])"
| "tokens_from acc (c # cs) =
     (if lower_or_digit c then tokens_from (acc @ [c]) cs
      else (if acc = [] then [] else [acc]) @ tokens_from [] cs)"

definition sensitive_column_marker :: "unidata \<Rightarrow> ustr \<Rightarrow> ustr option" where
  "sensitive_column_marker ud column =
     (let tokens = tokens_from [] (py_lower (ud_lower ud) (camel_split column))
      in if any_of (\<lambda>t. t \<in> set NAME_COLUMN_TOKENS) tokens then Some (u ''[REDACTED_NAME]'')
         else if any_of (\<lambda>t. t \<in> set ADDRESS_COLUMN_TOKENS) tokens then Some (u ''[REDACTED_ADDRESS]'')
         else None)"

definition empty_value :: "json \<Rightarrow> bool" where
  "empty_value v = (case v of JNull \<Rightarrow> True | JStr s \<Rightarrow> py_strip s = [] | _ \<Rightarrow> False)"

definition redact_cell :: "unidata \<Rightarrow> ustr \<Rightarrow> json \<Rightarrow> json" where
  "redact_cell ud key value =
     (if empty_value value then value
      else case sensitive_column_marker ud key of Some m \<Rightarrow> JStr m | None \<Rightarrow> redact_value ud value)"

definition redact_sample_row :: "unidata \<Rightarrow> jdict \<Rightarrow> jdict" where
  "redact_sample_row ud row = map (\<lambda>(k, v). (k, redact_cell ud k v)) row"

definition redact_evidence_samples :: "unidata \<Rightarrow> jdict list option \<Rightarrow> nat \<Rightarrow> jdict list" where
  "redact_evidence_samples ud samples max_rows =
     (case samples of None \<Rightarrow> [] | Some xs \<Rightarrow> map (redact_sample_row ud) (take max_rows xs))"

subsection \<open>The bounded payload\<close>

record evidence_payload =
  ep_error_message :: "ustr option"
  ep_samples :: "jdict list option"

definition payload_json :: "evidence_payload \<Rightarrow> json" where
  "payload_json p = JObj ((case ep_error_message p of None \<Rightarrow> [] | Some m \<Rightarrow> [(u ''error_message'', JStr m)])
     @ (case ep_samples p of None \<Rightarrow> [] | Some xs \<Rightarrow> [(u ''evidence_samples'', JArr (map JObj xs))]))"

definition encoded_size :: "number_text \<Rightarrow> evidence_payload \<Rightarrow> nat option" where
  "encoded_size nt p = utf8_size (dumps nt False (u '', '') (u '': '') (payload_json p))"

text \<open>The loop that pops sample rows while the payload is too large.\<close>

function drop_to_fit :: "number_text \<Rightarrow> int \<Rightarrow> ustr option \<Rightarrow> jdict list \<Rightarrow> string + jdict list" where
  "drop_to_fit nt max_bytes err xs =
     (if xs = [] then Inr []
      else case encoded_size nt \<lparr>ep_error_message = err, ep_samples = Some xs\<rparr> of
        None \<Rightarrow> Inl ''UnicodeEncodeError''
      | Some n \<Rightarrow> if int n > max_bytes then drop_to_fit nt max_bytes err (butlast xs) else Inr xs)"
  by pat_completeness auto
termination by (relation "measure (\<lambda>(nt, b, e, xs). length xs)") auto

declare drop_to_fit.simps [simp del]

definition truncated_suffix :: ustr where "truncated_suffix = u ''... [TRUNCATED]''"

definition suffix_size :: nat where
  "suffix_size = length (dumps \<lparr>float_repr = (\<lambda>x. []), decimal_str = (\<lambda>s c e. [])\<rparr> False (u '', '') (u '': '')
     (JObj [(u ''error_message'', JStr truncated_suffix)]))"

text \<open>\<open>for slice_len in range(n, -1, -5)\<close>: the first cut of the message that fits; None drops the message.\<close>

fun try_slices :: "number_text \<Rightarrow> int \<Rightarrow> jdict list option \<Rightarrow> ustr \<Rightarrow> nat \<Rightarrow> string + ustr option" where
  "try_slices nt max_bytes samples msg n =
     (case encoded_size nt \<lparr>ep_error_message = Some (take n msg @ truncated_suffix), ep_samples = samples\<rparr> of
        None \<Rightarrow> Inl ''UnicodeEncodeError''
      | Some k \<Rightarrow> if int k \<le> max_bytes then Inr (Some (take n msg @ truncated_suffix))
                  else if n < 5 then Inr None else try_slices nt max_bytes samples msg (n - 5))"

declare try_slices.simps [simp del]

definition fit_error :: "number_text \<Rightarrow> int \<Rightarrow> evidence_payload \<Rightarrow> string + evidence_payload" where
  "fit_error nt max_bytes p =
     (case encoded_size nt p of
        None \<Rightarrow> Inl ''UnicodeEncodeError''
      | Some n \<Rightarrow>
          (case ep_error_message p of
             None \<Rightarrow> Inr p
           | Some msg \<Rightarrow>
               if int n \<le> max_bytes then Inr p
               else if int suffix_size > max_bytes then Inr (p\<lparr>ep_error_message := None\<rparr>)
               else (case try_slices nt max_bytes (ep_samples p) msg
                       (min (length msg) (nat (max_bytes - int suffix_size))) of
                       Inl e \<Rightarrow> Inl e
                     | Inr m \<Rightarrow> Inr (p\<lparr>ep_error_message := m\<rparr>))))"

definition prepare_bounded_evidence_payload ::
  "unidata \<Rightarrow> number_text \<Rightarrow> jdict list option \<Rightarrow> ustr option \<Rightarrow> nat \<Rightarrow> int \<Rightarrow> string + evidence_payload" where
  "prepare_bounded_evidence_payload ud nt samples message max_rows max_bytes =
     (if max_bytes < 2 then Inr \<lparr>ep_error_message = None, ep_samples = None\<rparr>
      else let err = (case message of None \<Rightarrow> None | Some m \<Rightarrow> if m = [] then None else Some (redact_text ud m));
               xs = (case samples of None \<Rightarrow> None | Some ys \<Rightarrow>
                       if ys = [] then None else Some (redact_evidence_samples ud samples max_rows))
           in case (case xs of
                      None \<Rightarrow> Inr \<lparr>ep_error_message = err, ep_samples = None\<rparr>
                    | Some ys \<Rightarrow>
                        if ys = [] then Inr \<lparr>ep_error_message = err, ep_samples = Some []\<rparr>
                        else (case drop_to_fit nt max_bytes err ys of
                                Inl e \<Rightarrow> Inl e
                              | Inr zs \<Rightarrow> Inr \<lparr>ep_error_message = err,
                                                ep_samples = (if zs = [] then None else Some zs)\<rparr>)) of
                Inl e \<Rightarrow> Inl e
              | Inr p \<Rightarrow> fit_error nt max_bytes p)"

subsection \<open>The loops\<close>

lemma drop_to_fit_result:
  "drop_to_fit nt b err xs = Inr zs \<Longrightarrow>
    (\<exists>ys. xs = zs @ ys) \<and>
    (zs = [] \<or> (\<exists>n. encoded_size nt \<lparr>ep_error_message = err, ep_samples = Some zs\<rparr> = Some n \<and> int n \<le> b))"
proof (induction nt b err xs rule: drop_to_fit.induct)
  case (1 nt b err xs)
  show ?case
  proof (cases "xs = []")
    case True
    with "1.prems" show ?thesis by (simp add: drop_to_fit.simps)
  next
    case False
    then obtain n where n: "encoded_size nt \<lparr>ep_error_message = err, ep_samples = Some xs\<rparr> = Some n"
      using "1.prems" by (cases "encoded_size nt \<lparr>ep_error_message = err, ep_samples = Some xs\<rparr>")
        (simp_all add: drop_to_fit.simps)
    show ?thesis
    proof (cases "int n > b")
      case True
      then have "drop_to_fit nt b err (butlast xs) = Inr zs"
        using "1.prems" False n by (subst (asm) drop_to_fit.simps) simp
      from "1.IH" [OF False n True this] False show ?thesis
        by (metis append_assoc append_butlast_last_id)
    next
      case False': False
      then have "zs = xs" using "1.prems" False n by (subst (asm) drop_to_fit.simps) simp
      with n False' show ?thesis by auto
    qed
  qed
qed

lemma try_slices_fits:
  "try_slices nt b xs msg n = Inr (Some m) \<Longrightarrow>
    \<exists>k. encoded_size nt \<lparr>ep_error_message = Some m, ep_samples = xs\<rparr> = Some k \<and> int k \<le> b"
proof (induction nt b xs msg n rule: try_slices.induct)
  case (1 nt b xs msg n)
  then show ?case
    by (subst (asm) (2) try_slices.simps) (auto split: option.splits if_splits)
qed

lemma encoded_size_empty: "encoded_size nt \<lparr>ep_error_message = None, ep_samples = None\<rparr> = Some 2"
  by (simp add: encoded_size_def payload_json_def utf8_cp_def)

text \<open>A payload that holds samples was already cut to size, so cutting the message keeps it in bounds.\<close>

lemma fit_error_bounded:
  assumes "fit_error nt b p = Inr q" "2 \<le> b"
    and "ep_samples p = None \<or> (\<exists>n. encoded_size nt p = Some n \<and> int n \<le> b)"
  shows "\<exists>n. encoded_size nt q = Some n \<and> int n \<le> b"
proof -
  obtain n where n: "encoded_size nt p = Some n" using assms(1) by (auto simp: fit_error_def split: option.splits)
  have none: "\<lparr>ep_error_message = None, ep_samples = None\<rparr> = p\<lparr>ep_error_message := None\<rparr>" if "ep_samples p = None"
    using that by simp
  show ?thesis
  proof (cases "int n \<le> b")
    case True
    then show ?thesis using assms(1) n by (auto simp: fit_error_def split: option.splits)
  next
    case False
    then have s: "ep_samples p = None" using assms(3) n by auto
    show ?thesis
    proof (cases "ep_error_message p")
      case None
      with s have "p = \<lparr>ep_error_message = None, ep_samples = None\<rparr>" by simp
      then show ?thesis using n False assms(2) encoded_size_empty [of nt] by simp
    next
      case (Some msg)
      have small: "\<exists>n. encoded_size nt (p\<lparr>ep_error_message := None\<rparr>) = Some n \<and> int n \<le> b"
        unfolding none [OF s, symmetric] encoded_size_empty using assms(2) by simp
      have upd: "p\<lparr>ep_error_message := m\<rparr> = \<lparr>ep_error_message = m, ep_samples = ep_samples p\<rparr>" for m by simp
      show ?thesis
        using assms(1) n False Some small
        by (auto simp: fit_error_def upd split: if_splits sum.splits option.splits)
          (metis option.exhaust small try_slices_fits upd)
    qed
  qed
qed

lemma prepare_cases:
  assumes "prepare_bounded_evidence_payload ud nt samples msg rows b = Inr p" "\<not> b < 2" "0 < rows"
  obtains p0 where "fit_error nt b p0 = Inr p" "ep_samples p0 = None"
  | p0 xs ys rest n where "fit_error nt b p0 = Inr p" "samples = Some xs" "ep_samples p0 = Some ys"
      "map (redact_sample_row ud) (take rows xs) = ys @ rest" "encoded_size nt p0 = Some n" "int n \<le> b"
proof -
  define err where "err = (case msg of None \<Rightarrow> None | Some m \<Rightarrow> if m = [] then None else Some (redact_text ud m))"
  show thesis
  proof (cases "samples = None \<or> samples = Some []")
    case True
    then have "fit_error nt b \<lparr>ep_error_message = err, ep_samples = None\<rparr> = Inr p"
      using assms(1,2) by (auto simp: prepare_bounded_evidence_payload_def err_def Let_def)
    with that(1) show thesis by simp
  next
    case False
    then obtain xs where xs: "samples = Some xs" "xs \<noteq> []" by (cases samples) auto
    define ys where "ys = map (redact_sample_row ud) (take rows xs)"
    have ys: "redact_evidence_samples ud samples rows = ys" "ys \<noteq> []"
      using xs assms(3) by (simp_all add: redact_evidence_samples_def ys_def)
    obtain zs where zs: "drop_to_fit nt b err ys = Inr zs"
      and f: "fit_error nt b \<lparr>ep_error_message = err, ep_samples = (if zs = [] then None else Some zs)\<rparr> = Inr p"
      using assms(1,2) ys xs
      by (simp add: prepare_bounded_evidence_payload_def err_def [symmetric] Let_def split: sum.splits)
    show thesis
    proof (cases "zs = []")
      case True
      with f that(1) show thesis by simp
    next
      case nz: False
      with drop_to_fit_result [OF zs] obtain rest n where "ys = zs @ rest"
        "encoded_size nt \<lparr>ep_error_message = err, ep_samples = Some zs\<rparr> = Some n" "int n \<le> b" by auto
      with that(2) [OF f xs(1)] nz show thesis by (simp add: ys_def)
    qed
  qed
qed

subsection \<open>Properties\<close>

text \<open>C20: Evidence is bounded: whatever samples and message a rule produced, the JSON text of the payload
  that is stored takes at most \<open>max_bytes\<close> bytes (two bytes for the empty object).\<close>

theorem evidence_bounded:
  assumes "prepare_bounded_evidence_payload ud nt samples msg rows max_bytes = Inr p" "0 < rows"
  shows "\<exists>n. encoded_size nt p = Some n \<and> int n \<le> max 2 max_bytes"
proof (cases "max_bytes < 2")
  case True
  then show ?thesis using assms by (auto simp: prepare_bounded_evidence_payload_def encoded_size_empty)
next
  case False
  from assms(1) False assms(2) show ?thesis
  proof (cases rule: prepare_cases)
    case (1 p0)
    with fit_error_bounded [of nt max_bytes p0 p] False show ?thesis by auto
  next
    case (2 p0 xs ys rest n)
    with fit_error_bounded [of nt max_bytes p0 p] False show ?thesis by auto
  qed
qed

definition plain_unidata :: unidata where
  "plain_unidata = \<lparr>ud_decimal = (\<lambda>c. None), ud_isdigit = (\<lambda>c. False), ud_alnum = (\<lambda>c. False),
     ud_lower = (\<lambda>c. [c]), ud_upper = (\<lambda>c. [c])\<rparr>"

definition plain_numbers :: number_text where
  "plain_numbers = \<lparr>float_repr = (\<lambda>x. u ''0.0''), decimal_str = (\<lambda>s c e. nat_text c)\<rparr>"

lemma demo_payload:
  "prepare_bounded_evidence_payload plain_unidata plain_numbers (Some [[(u ''name'', JStr (u ''Ann''))]]) None 50 100 =
    Inr \<lparr>ep_error_message = None, ep_samples = Some [[(u ''name'', JStr (u ''[REDACTED_NAME]''))]]\<rparr>"
proof -
  have m: "sensitive_column_marker plain_unidata (u ''name'') = Some (u ''[REDACTED_NAME]'')"
    by (simp add: sensitive_column_marker_def u_def lower_or_digit_def py_lower_def lower_cp_def NAME_COLUMN_TOKENS_def)
  have r: "redact_evidence_samples plain_unidata (Some [[(u ''name'', JStr (u ''Ann''))]]) 50 =
      [[(u ''name'', JStr (u ''[REDACTED_NAME]''))]]"
    using m by (simp add: redact_evidence_samples_def redact_sample_row_def redact_cell_def empty_value_def
        py_strip_def strip_by_def lstrip_by_def rstrip_by_def is_space_def u_def)
  have e: "encoded_size plain_numbers \<lparr>ep_error_message = None, ep_samples = Some [[(u ''name'', JStr (u ''[REDACTED_NAME]''))]]\<rparr> = Some 51"
    by (simp add: encoded_size_def payload_json_def quote_def escape_cp_def utf8_cp_def u_def)
  show ?thesis
    by (simp add: prepare_bounded_evidence_payload_def r drop_to_fit.simps e fit_error_def)
qed

theorem evidence_bounded_witness:
  "\<exists>n. encoded_size plain_numbers \<lparr>ep_error_message = None, ep_samples = Some [[(u ''name'', JStr (u ''[REDACTED_NAME]''))]]\<rparr>
     = Some n \<and> int n \<le> max 2 100"
  by (rule evidence_bounded [OF demo_payload]) simp

lemma redact_sample_row_keys: "map fst (redact_sample_row ud row) = map fst row"
  by (simp add: redact_sample_row_def comp_def case_prod_beta)

lemma fit_error_samples: "fit_error nt b p = Inr q \<Longrightarrow> ep_samples q = ep_samples p"
  by (auto simp: fit_error_def split: option.splits if_splits sum.splits)

text \<open>C5: Evidence is masked: the samples of a payload are a prefix of at most 50 of the rule's sample rows,
  every row keeps its keys, and every nonempty cell of a name or address column shows a marker only.\<close>

theorem evidence_masked:
  assumes "prepare_bounded_evidence_payload ud nt samples msg 50 max_bytes = Inr p" "ep_samples p = Some zs"
  shows "\<exists>xs. samples = Some xs \<and> length zs \<le> 50 \<and> length zs \<le> length xs
    \<and> (\<forall>i < length zs. map fst (zs ! i) = map fst (xs ! i)
         \<and> (\<forall>j < length (xs ! i). \<forall>m. sensitive_column_marker ud (fst (xs ! i ! j)) = Some m
              \<and> \<not> empty_value (snd (xs ! i ! j)) \<longrightarrow> snd (zs ! i ! j) = JStr m))"
proof -
  have "\<not> max_bytes < 2" using assms by (auto simp: prepare_bounded_evidence_payload_def)
  with assms(1) obtain xs rest where xs: "samples = Some xs"
    and pre: "map (redact_sample_row ud) (take 50 xs) = zs @ rest"
    by (cases rule: prepare_cases) (use assms(2) fit_error_samples in \<open>fastforce+\<close>)
  from pre have len: "length zs \<le> length (take 50 xs)" by (metis length_append length_map le_add1)
  have nth: "zs ! i = redact_sample_row ud (xs ! i)" if "i < length zs" for i
  proof -
    have "zs ! i = (zs @ rest) ! i" using that by (simp add: nth_append)
    also have "\<dots> = redact_sample_row ud (take 50 xs ! i)" unfolding pre [symmetric] using that len by simp
    finally show ?thesis using that len by simp
  qed
  have "snd (redact_sample_row ud row ! j) = JStr m"
    if "j < length row" "sensitive_column_marker ud (fst (row ! j)) = Some m" "\<not> empty_value (snd (row ! j))" for row j m
    using that by (simp add: redact_sample_row_def redact_cell_def case_prod_beta)
  with xs(1) len nth show ?thesis by (auto simp: redact_sample_row_keys)
qed

theorem evidence_masked_witness:
  "snd ([[(u ''name'', JStr (u ''[REDACTED_NAME]''))]] ! 0 ! 0) = JStr (u ''[REDACTED_NAME]'')
   \<and> (\<exists>xs. Some [[(u ''name'', JStr (u ''Ann''))]] = Some xs \<and> length [[(u ''name'', JStr (u ''[REDACTED_NAME]''))]] \<le> length xs)"
  using evidence_masked [OF demo_payload] by auto

end
