(* ===== verification/Validation.thy ===== *)
theory Validation
  imports ScoreProperties
begin

text \<open>
  \<open>services/validation_service.py\<close>: from the outputs of the compute engine to one scored result
  per rule. \<open>Inl\<close> is an exception that aborts the run: the \<open>ValueError\<close> of an unknown null policy, or
  the validation error of \<open>QualityRuleResult\<close> when the target column is not text.
\<close>

text \<open>\<open>rule.parameters.get("target_column") or rule.parameters.get("column")\<close>, kept only when it is text.\<close>

definition result_target :: "quality_rule \<Rightarrow> string + ustr option" where
  "result_target rule =
     (case py_or (jget_null (q_parameters rule) ''target_column'') (jget_null (q_parameters rule) ''column'') of
        JNull \<Rightarrow> Inr None
      | JStr s \<Rightarrow> Inr (Some s)
      | _ \<Rightarrow> Inl ''ValidationError: target_column'')"

definition samples_or_none :: "jdict list \<Rightarrow> jdict list option" where
  "samples_or_none xs = (if xs = [] then None else Some xs)"

text \<open>The keyword arguments every constructor call of the service shares.\<close>

definition rule_result_of ::
  "quality_rule \<Rightarrow> ident \<Rightarrow> pyfloat option \<Rightarrow> int \<Rightarrow> rule_execution_output \<Rightarrow> ustr option \<Rightarrow> ustr option
    \<Rightarrow> quality_rule_result" where
  "rule_result_of rule status score violations out err target =
     \<lparr>rule_id = uuid_str (q_rule_id rule), dimension = q_dimension rule, measurement = status,
      is_critical = q_is_critical rule, is_advisory = False, is_required = q_is_required rule,
      gate_enabled = q_gate_enabled rule, score_enabled = q_score_enabled rule,
      conflict_group = q_conflict_group rule, is_primary_scoring_rule = q_is_primary_scoring_rule rule,
      contribution_weight = q_contribution_weight rule, acceptance_threshold = q_acceptance_threshold rule,
      confidence = None, computed_score = score, violations_count = violations, counts = Some (o_counts out),
      evidence_samples = samples_or_none (o_evidence_samples out), error_message = err,
      source_kind = u ''RULE'', target_column = target, rule_config_hash = None\<rparr>"

definition build_technical_failure_result :: "quality_rule \<Rightarrow> rule_execution_output \<Rightarrow> string + quality_rule_result" where
  "build_technical_failure_result rule out =
     (case result_target rule of Inl e \<Rightarrow> Inl e
      | Inr target \<Rightarrow> Inr (rule_result_of rule (measurement_value FAILED_TO_MEASURE) None 0 out (o_error_message out) target))"

definition build_unscored_result :: "quality_rule \<Rightarrow> measurement_status \<Rightarrow> rule_execution_output \<Rightarrow> string + quality_rule_result" where
  "build_unscored_result rule status out =
     (case result_target rule of Inl e \<Rightarrow> Inl e
      | Inr target \<Rightarrow> Inr (rule_result_of rule (measurement_value status) None 0 out (o_error_message out) target))"

definition partition_message :: ustr where
  "partition_message = u ''Partition identity check failed: sum of mutually exclusive counts does not match total_observed''"

definition process_rule_result :: "quality_rule \<Rightarrow> rule_execution_output \<Rightarrow> string + quality_rule_result" where
  "process_rule_result rule out =
     (let c = o_counts out;
          violations = failed c + miscast c + (if q_null_policy rule = u ''fail'' then missing c else 0)
      in if o_status out = FAILED_TO_MEASURE then build_technical_failure_result rule out
         else if o_status out \<noteq> MEASURED then build_unscored_result rule (o_status out) out
         else if \<not> verify_partition_identity c then
           (case result_target rule of Inl e \<Rightarrow> Inl e
            | Inr target \<Rightarrow> Inr (rule_result_of rule (measurement_value FAILED_TO_MEASURE) None violations out
                (case o_error_message out of None \<Rightarrow> Some partition_message
                 | Some m \<Rightarrow> if m = [] then Some partition_message else Some m) target))
         else case compute_rule_score (default_scoring_input c (q_null_policy rule)) of
           Inl e \<Rightarrow> Inl e
         | Inr (status, score) \<Rightarrow>
             (case result_target rule of Inl e \<Rightarrow> Inl e
              | Inr target \<Rightarrow> Inr (rule_result_of rule status score violations out (o_error_message out) target)))"

definition missing_output :: "quality_rule \<Rightarrow> rule_execution_output" where
  "missing_output rule = \<lparr>o_rule_id = q_rule_id rule, o_counts = zero_counts, o_status = NOT_MEASURABLE,
     o_evidence_samples = [], o_error_message = None\<rparr>"

fun process_all :: "(uuid \<times> rule_execution_output) list \<Rightarrow> quality_rule list \<Rightarrow> string + quality_rule_result list" where
  "process_all output_map [] = Inr []"
| "process_all output_map (rule # rules) =
     (case process_rule_result rule (dict_get output_map (q_rule_id rule) (missing_output rule)) of
        Inl e \<Rightarrow> Inl e
      | Inr r \<Rightarrow> (case process_all output_map rules of Inl e \<Rightarrow> Inl e | Inr rs \<Rightarrow> Inr (r # rs)))"

text \<open>
  The compute port's \<open>execute_rules\<close> is an argument: it may itself fail (\<open>Inl\<close>) and returns outputs in
  any order, of which the last one for a rule wins.
\<close>

type_synonym rule_executor = "dataset_snapshot \<Rightarrow> quality_rule list \<Rightarrow> int \<Rightarrow> string + rule_execution_output list"

definition output_map_of :: "rule_execution_output list \<Rightarrow> (uuid \<times> rule_execution_output) list" where
  "output_map_of outs = dict_of (map (\<lambda>o'. (o_rule_id o', o')) outs)"

definition validate_ruleset ::
  "rule_executor \<Rightarrow> dataset_snapshot \<Rightarrow> quality_rule list \<Rightarrow> int \<Rightarrow> string + quality_rule_result list" where
  "validate_ruleset execute snapshot rules sample_limit =
     (case execute snapshot rules sample_limit of Inl e \<Rightarrow> Inl e
      | Inr outputs \<Rightarrow> process_all (output_map_of outputs) rules)"

declare result_target_def [scoring_defs] build_technical_failure_result_def [scoring_defs]
  build_unscored_result_def [scoring_defs] process_rule_result_def [scoring_defs]
  validate_ruleset_def [scoring_defs]

subsection \<open>One rule\<close>

lemma rule_result_of_simps [simp]:
  "rule_id (rule_result_of rule st sc v out e t) = uuid_str (q_rule_id rule)"
  "dimension (rule_result_of rule st sc v out e t) = q_dimension rule"
  "measurement (rule_result_of rule st sc v out e t) = st"
  "computed_score (rule_result_of rule st sc v out e t) = sc"
  "violations_count (rule_result_of rule st sc v out e t) = v"
  "contribution_weight (rule_result_of rule st sc v out e t) = q_contribution_weight rule"
  "is_required (rule_result_of rule st sc v out e t) = q_is_required rule"
  "is_critical (rule_result_of rule st sc v out e t) = q_is_critical rule"
  "is_advisory (rule_result_of rule st sc v out e t) = False"
  "score_enabled (rule_result_of rule st sc v out e t) = q_score_enabled rule"
  "gate_enabled (rule_result_of rule st sc v out e t) = q_gate_enabled rule"
  "acceptance_threshold (rule_result_of rule st sc v out e t) = q_acceptance_threshold rule"
  "confidence (rule_result_of rule st sc v out e t) = None"
  "counts (rule_result_of rule st sc v out e t) = Some (o_counts out)"
  by (simp_all add: rule_result_of_def)

lemma process_rule_shape:
  assumes "process_rule_result rule out = Inr r"
  obtains st sc v e t where "r = rule_result_of rule st sc v out e t"
    "sc \<noteq> None \<Longrightarrow> o_status out = MEASURED \<and> verify_partition_identity (o_counts out)
        \<and> compute_rule_score (default_scoring_input (o_counts out) (q_null_policy rule)) = Inr (st, sc)"
    "sc = None \<Longrightarrow> st \<noteq> measurement_value MEASURED"
proof -
  obtain target where t: "result_target rule = Inr target"
    using assms by (auto simp: process_rule_result_def build_technical_failure_result_def
        build_unscored_result_def Let_def split: if_splits sum.splits)
  show thesis
  proof (cases "o_status out = MEASURED \<and> verify_partition_identity (o_counts out)")
    case False
    have ex: "\<exists>st. (\<exists>v e. r = rule_result_of rule st None v out e target) \<and> st \<noteq> measurement_value MEASURED"
      if "rule_result_of rule (measurement_value x) None v out e target = r" "x \<noteq> MEASURED" for x v e
      using that measurement_value_inj by metis
    have "\<exists>st. (\<exists>v e. r = rule_result_of rule st None v out e target) \<and> st \<noteq> measurement_value MEASURED"
      using assms False by (simp add: process_rule_result_def build_technical_failure_result_def
          build_unscored_result_def Let_def t del: measurement_value.simps split: if_splits)
          (erule ex; simp)+
    then show thesis using that by blast
  next
    case True
    then obtain st sc where c: "compute_rule_score (default_scoring_input (o_counts out) (q_null_policy rule)) = Inr (st, sc)"
      and r: "\<exists>v e. r = rule_result_of rule st sc v out e target"
      using assms by (auto simp: process_rule_result_def Let_def t split: sum.splits prod.splits)
    have "st \<noteq> measurement_value MEASURED" if "sc = None"
      using c that by (auto simp: compute_rule_score_def default_scoring_input_def split: sum.splits if_splits)
    then show thesis using r c that True by blast
  qed
qed

lemma process_rule_score_range:
  assumes "process_rule_result rule out = Inr r" "computed_score r = Some s" "counts_nonneg (o_counts out)"
  shows "0 \<le> s \<and> s \<le> 100"
proof -
  obtain st where "compute_rule_score (default_scoring_input (o_counts out) (q_null_policy rule)) = Inr (st, Some s)"
    using process_rule_shape [OF assms(1)] assms(2) by (metis option.distinct(1) rule_result_of_simps(4))
  from rule_score_range [OF this] assms(3) show ?thesis by (simp add: default_scoring_input_def)
qed

lemma process_rule_measured_iff:
  assumes "process_rule_result rule out = Inr r"
  shows "measurement r = measurement_value MEASURED \<longleftrightarrow> computed_score r \<noteq> None"
proof -
  obtain st sc v e t where r: "r = rule_result_of rule st sc v out e t"
    and sc: "sc \<noteq> None \<Longrightarrow> compute_rule_score (default_scoring_input (o_counts out) (q_null_policy rule)) = Inr (st, sc)"
    and st: "sc = None \<Longrightarrow> st \<noteq> measurement_value MEASURED"
    using process_rule_shape [OF assms] by metis
  have "sc \<noteq> None \<Longrightarrow> st = measurement_value MEASURED"
    using sc by (auto simp: compute_rule_score_def split: sum.splits if_splits)
  with st show ?thesis by (auto simp: r)
qed

subsection \<open>The whole ruleset\<close>

lemma process_all_Inr:
  "process_all m rules = Inr rs \<longleftrightarrow>
    list_all2 (\<lambda>rule r. process_rule_result rule (dict_get m (q_rule_id rule) (missing_output rule)) = Inr r) rules rs"
proof (induction rules arbitrary: rs)
  case (Cons rule rules)
  then show ?case
    by (cases "process_rule_result rule (dict_get m (q_rule_id rule) (missing_output rule))";
        cases "process_all m rules") (auto simp: list_all2_Cons1)
qed auto

lemma process_all_Inl:
  "process_all m rules = Inl e \<Longrightarrow>
    \<exists>rule \<in> set rules. process_rule_result rule (dict_get m (q_rule_id rule) (missing_output rule)) = Inl e"
  by (induction rules) (auto split: sum.splits)

lemma output_map_cases:
  obtains "dict_get (output_map_of outs) i d = d" "\<forall>x \<in> set outs. o_rule_id x \<noteq> i"
  | x where "x \<in> set outs" "o_rule_id x = i" "dict_get (output_map_of outs) i d = x"
proof -
  have m: "map_of (output_map_of outs) i = map_of (rev (map (\<lambda>o'. (o_rule_id o', o')) outs)) i"
    by (simp add: output_map_of_def map_of_dict_of)
  show thesis
  proof (cases "map_of (output_map_of outs) i")
    case None
    then have "i \<notin> fst ` set (rev (map (\<lambda>o'. (o_rule_id o', o')) outs))"
      unfolding m by (simp add: map_of_eq_None_iff)
    then have "\<forall>x \<in> set outs. o_rule_id x \<noteq> i" by force
    with that(1) None show thesis by simp
  next
    case (Some x)
    then have "(i, x) \<in> set (rev (map (\<lambda>o'. (o_rule_id o', o')) outs))"
      unfolding m by (rule map_of_SomeD)
    with that(2) [of x] Some show thesis by auto
  qed
qed

definition outputs_ok :: "rule_execution_output list \<Rightarrow> bool" where
  "outputs_ok outs \<longleftrightarrow> (\<forall>x \<in> set outs. counts_nonneg (o_counts x))"

lemma output_counts_ok:
  "outputs_ok outs \<Longrightarrow> counts_nonneg (o_counts (dict_get (output_map_of outs) i (missing_output rule)))"
  by (rule output_map_cases [of outs i "missing_output rule"])
    (auto simp: outputs_ok_def missing_output_def counts_nonneg_def zero_counts_def)

lemma validated_scores_ok:
  assumes "process_all (output_map_of outs) rules = Inr rs" "outputs_ok outs"
  shows "scores_ok rs"
  using assms(1) output_counts_ok [OF assms(2)]
  by (fastforce simp: process_all_Inr scores_ok_def list_all2_conv_all_nth in_set_conv_nth
      dest: process_rule_score_range)

lemma process_rule_fields:
  assumes "process_rule_result rule out = Inr r"
  shows "rule_id r = uuid_str (q_rule_id rule)" "dimension r = q_dimension rule"
    "contribution_weight r = q_contribution_weight rule" "\<not> is_advisory r"
    "is_required r = q_is_required rule" "is_critical r = q_is_critical rule"
    "score_enabled r = q_score_enabled rule" "gate_enabled r = q_gate_enabled rule"
  using process_rule_shape [OF assms] by (metis rule_result_of_simps)+

lemma validated_floats_ok:
  assumes "process_all m rules = Inr rs" "\<forall>q \<in> set rules. is_float (q_contribution_weight q)" "length rules \<le> 2 ^ 16"
  shows "floats_ok rs"
  using assms by (fastforce simp: process_all_Inr floats_ok_def list_all2_conv_all_nth in_set_conv_nth
      process_rule_fields)

subsection \<open>Properties\<close>

definition demo_rule :: quality_rule where
  "demo_rule = \<lparr>q_rule_id = 11, q_rule_code = u ''R1'', q_dimension = dimension_value VALIDITY,
     q_rule_type = u ''NON_NULL'', q_parameters = [(u ''column'', JStr (u ''age''))], q_null_policy = u ''fail'',
     q_is_required = False, q_is_critical = True, q_gate_enabled = True, q_score_enabled = True,
     q_conflict_group = None, q_is_primary_scoring_rule = True, q_contribution_weight = 1,
     q_acceptance_threshold = None, q_is_advisory = True, q_ruleset_id = None\<rparr>"

definition demo_output :: rule_execution_output where
  "demo_output = \<lparr>o_rule_id = 11, o_counts = demo_counts, o_status = MEASURED, o_evidence_samples = [],
     o_error_message = None\<rparr>"

definition demo_engine :: rule_executor where
  "demo_engine snap rules n = Inr [demo_output]"

lemma demo_process: "process_rule_result demo_rule demo_output =
    Inr (rule_result_of demo_rule (measurement_value MEASURED) (Some (percentage 8 10)) 2 demo_output None (Some (u ''age'')))"
  by (simp add: process_rule_result_def demo_rule_def demo_output_def demo_counts_def verify_partition_identity_def
      compute_rule_score_def default_scoring_input_def calculate_denominator_def percentage_def result_target_def
      jget_null_def jget_def py_or_def Let_def)

lemma demo_validated: "validate_ruleset demo_engine snap [demo_rule] 50 =
    Inr [rule_result_of demo_rule (measurement_value MEASURED) (Some (percentage 8 10)) 2 demo_output None (Some (u ''age''))]"
proof -
  have "dict_get (output_map_of [demo_output]) (q_rule_id demo_rule) (missing_output demo_rule) = demo_output"
    by (simp add: output_map_of_def dict_of_def dict_get_def demo_rule_def demo_output_def)
  then show ?thesis by (simp add: validate_ruleset_def demo_engine_def demo_process)
qed

text \<open>Validation answers for every rule, in order: result k carries the id and the dimension of rule k,
  and it has a score exactly when its status is MEASURED; such a score lies between 0 and 100 whenever
  the engine's counts are nonnegative.\<close>

theorem validation_complete:
  assumes "validate_ruleset ex snap rules n = Inr rs"
    and "\<And>outs. ex snap rules n = Inr outs \<Longrightarrow> outputs_ok outs"
  shows "map rule_id rs = map (\<lambda>q. uuid_str (q_rule_id q)) rules \<and> map dimension rs = map q_dimension rules
    \<and> (\<forall>r \<in> set rs. measurement r = measurement_value MEASURED \<longleftrightarrow> computed_score r \<noteq> None) \<and> scores_ok rs"
proof -
  obtain outs where o: "ex snap rules n = Inr outs" "process_all (output_map_of outs) rules = Inr rs"
    using assms(1) by (auto simp: validate_ruleset_def split: sum.splits)
  have all: "list_all2 (\<lambda>rule r. process_rule_result rule
      (dict_get (output_map_of outs) (q_rule_id rule) (missing_output rule)) = Inr r) rules rs"
    using o(2) by (simp add: process_all_Inr)
  then have "list_all2 (\<lambda>rule r. rule_id r = uuid_str (q_rule_id rule) \<and> dimension r = q_dimension rule
      \<and> (measurement r = measurement_value MEASURED \<longleftrightarrow> computed_score r \<noteq> None)) rules rs"
    by (rule list_all2_mono) (metis process_rule_fields(1,2) process_rule_measured_iff)
  then have "map rule_id rs = map (\<lambda>q. uuid_str (q_rule_id q)) rules" "map dimension rs = map q_dimension rules"
    "\<forall>r \<in> set rs. measurement r = measurement_value MEASURED \<longleftrightarrow> computed_score r \<noteq> None"
    by (induction rule: list_all2_induct) (simp_all del: measurement_value.simps)
  moreover have "scores_ok rs" using o assms(2) by (blast intro: validated_scores_ok)
  ultimately show ?thesis by blast
qed

theorem validation_complete_witness:
  "map rule_id [rule_result_of demo_rule (measurement_value MEASURED) (Some (percentage 8 10)) 2 demo_output None (Some (u ''age''))] =
    [uuid_str 11] \<and> scores_ok [rule_result_of demo_rule (measurement_value MEASURED) (Some (percentage 8 10)) 2 demo_output None (Some (u ''age''))]"
proof -
  have "outputs_ok [demo_output]" by (simp add: outputs_ok_def demo_output_def counts_nonneg_def demo_counts_def)
  then have "\<And>outs. demo_engine demo_snap [demo_rule] 50 = Inr outs \<Longrightarrow> outputs_ok outs" for demo_snap
    by (simp add: demo_engine_def)
  from validation_complete [OF demo_validated this] show ?thesis by (simp add: demo_rule_def)
qed


end
