(* ===== verification/Queue.thy ===== *)
theory Queue
  imports Models "HOL-Library.State_Monad"
begin

text \<open>
  \<open>ports/queue_port.py\<close> and \<open>adapters/queue/in_memory_queue.py\<close>: the coordination port of the
  evaluation workers as a locale, what a client can rely on under it (a superseded lease is rejected
  for ever), and the in-memory adapter as its first provider. Clocks are arguments (microseconds).
\<close>

subsection \<open>Calls of the port\<close>

datatype queue_op =
    OpEnqueue timestamp run_spec ident
  | OpClaim timestamp ident int "uuid option"
  | OpHeartbeat timestamp uuid int "int option" "uuid option"
  | OpComplete timestamp uuid int run_status "ustr option" "uuid option"

type_synonym 'q enqueue_op = "timestamp \<Rightarrow> run_spec \<Rightarrow> ident \<Rightarrow> 'q \<Rightarrow> (string + uuid) \<times> 'q"
type_synonym 'q claim_op = "timestamp \<Rightarrow> ident \<Rightarrow> int \<Rightarrow> uuid option \<Rightarrow> 'q \<Rightarrow> leased_run option \<times> 'q"
type_synonym 'q heartbeat_op = "timestamp \<Rightarrow> uuid \<Rightarrow> int \<Rightarrow> int option \<Rightarrow> uuid option \<Rightarrow> 'q \<Rightarrow> bool \<times> 'q"
type_synonym 'q complete_op =
  "timestamp \<Rightarrow> uuid \<Rightarrow> int \<Rightarrow> run_status \<Rightarrow> ustr option \<Rightarrow> uuid option \<Rightarrow> 'q \<Rightarrow> bool \<times> 'q"

fun queue_step :: "'q enqueue_op \<Rightarrow> 'q claim_op \<Rightarrow> 'q heartbeat_op \<Rightarrow> 'q complete_op \<Rightarrow> queue_op \<Rightarrow> 'q \<Rightarrow> 'q" where
  "queue_step enq cl hb co (OpEnqueue now spec key) q = snd (enq now spec key q)"
| "queue_step enq cl hb co (OpClaim now w t r) q = snd (cl now w t r q)"
| "queue_step enq cl hb co (OpHeartbeat now r g t ten) q = snd (hb now r g t ten q)"
| "queue_step enq cl hb co (OpComplete now r g st e ten) q = snd (co now r g st e ten q)"

text \<open>A call is proper when it does not enqueue a run id that is already known (they are fresh UUIDs).\<close>

fun proper_ops :: "('q \<Rightarrow> uuid \<Rightarrow> int option) \<Rightarrow> (queue_op \<Rightarrow> 'q \<Rightarrow> 'q) \<Rightarrow> queue_op list \<Rightarrow> 'q \<Rightarrow> bool" where
  "proper_ops gen step [] q = True"
| "proper_ops gen step (op # ops) q =
     ((case op of OpEnqueue now spec key \<Rightarrow> gen q (rs_run_id spec) = None | _ \<Rightarrow> True)
      \<and> proper_ops gen step ops (step op q))"

locale lease_queue =
  fixes enq :: "'q enqueue_op" and cl :: "'q claim_op" and hb :: "'q heartbeat_op" and co :: "'q complete_op"
    and gen :: "'q \<Rightarrow> uuid \<Rightarrow> int option" and ok :: "'q \<Rightarrow> bool"
  assumes enq_ok: "ok q \<Longrightarrow> gen q (rs_run_id spec) = None \<Longrightarrow> ok (snd (enq now spec key q))"
    and cl_ok: "ok q \<Longrightarrow> ok (snd (cl now w t ro q))"
    and hb_ok: "ok q \<Longrightarrow> ok (snd (hb now r g t' ten q))"
    and co_ok: "ok q \<Longrightarrow> ok (snd (co now r g st e ten q))"
    and enq_gen: "ok q \<Longrightarrow> gen q (rs_run_id spec) = None \<Longrightarrow> gen q i = Some n \<Longrightarrow> gen (snd (enq now spec key q)) i = Some n"
    and cl_gen: "ok q \<Longrightarrow> gen q i = Some n \<Longrightarrow> \<exists>m. gen (snd (cl now w t ro q)) i = Some m \<and> n \<le> m"
    and cl_new: "ok q \<Longrightarrow> fst (cl now w t ro q) = Some l \<Longrightarrow>
      gen (snd (cl now w t ro q)) (lr_run_id l) = Some (lr_lease_generation l)
      \<and> (\<forall>n. gen q (lr_run_id l) = Some n \<longrightarrow> n < lr_lease_generation l)"
    and hb_gen: "ok q \<Longrightarrow> gen q i = Some n \<Longrightarrow> \<exists>m. gen (snd (hb now r g t' ten q)) i = Some m \<and> n \<le> m"
    and co_gen: "ok q \<Longrightarrow> gen q i = Some n \<Longrightarrow> \<exists>m. gen (snd (co now r g st e ten q)) i = Some m \<and> n \<le> m"
    and hb_stale: "ok q \<Longrightarrow> gen q r = Some n \<Longrightarrow> g < n \<Longrightarrow> hb now r g t' ten q = (False, q)"
    and co_stale: "ok q \<Longrightarrow> gen q r = Some n \<Longrightarrow> g < n \<Longrightarrow> co now r g st e ten q = (False, q)"
begin

abbreviation step :: "queue_op \<Rightarrow> 'q \<Rightarrow> 'q" where "step \<equiv> queue_step enq cl hb co"

lemma step_ok:
  assumes "ok q" "case op of OpEnqueue now spec key \<Rightarrow> gen q (rs_run_id spec) = None | _ \<Rightarrow> True"
  shows "ok (step op q)"
  using assms by (cases op) (simp_all add: enq_ok cl_ok hb_ok co_ok)

lemma step_gen:
  assumes "ok q" "case op of OpEnqueue now spec key \<Rightarrow> gen q (rs_run_id spec) = None | _ \<Rightarrow> True"
    and "gen q i = Some n"
  shows "\<exists>m. gen (step op q) i = Some m \<and> n \<le> m"
  using assms by (cases op) (auto simp: enq_gen cl_gen hb_gen co_gen)

lemma ops_gen:
  assumes "ok q" "proper_ops gen step ops q" "gen q i = Some n"
  shows "ok (fold step ops q) \<and> (\<exists>m. gen (fold step ops q) i = Some m \<and> n \<le> m)"
  using assms
proof (induction ops arbitrary: q n)
  case (Cons op ops)
  obtain m where m: "gen (step op q) i = Some m" "n \<le> m"
    using step_gen [of q op i n] Cons.prems by (auto split: queue_op.splits)
  have "ok (step op q)" using step_ok [of q op] Cons.prems by (simp split: queue_op.splits)
  with Cons.IH [of "step op q" m] Cons.prems m show ?case
    by (fastforce intro: order_trans)
qed simp

lemma stale_rejected:
  assumes "ok q" "proper_ops gen step ops q" "gen q r = Some n" "g < n"
  shows "hb now r g t' ten (fold step ops q) = (False, fold step ops q)"
    and "co now r g st e ten (fold step ops q) = (False, fold step ops q)"
proof -
  obtain m where m: "ok (fold step ops q)" "gen (fold step ops q) r = Some m" "n \<le> m"
    using ops_gen [OF assms(1-3)] by auto
  then have "g < m" using assms(4) by simp
  with m show "hb now r g t' ten (fold step ops q) = (False, fold step ops q)"
    and "co now r g st e ten (fold step ops q) = (False, fold step ops q)"
    by (simp_all add: hb_stale co_stale)
qed

text \<open>Fencing: once a second lease on a run has been handed out, the first is rejected for ever.\<close>

lemma superseded_lease_rejected:
  assumes "ok q" "fst (cl now1 w1 t1 r1 q) = Some a"
    and "proper_ops gen step ops1 (snd (cl now1 w1 t1 r1 q))"
    and q2: "q2 = fold step ops1 (snd (cl now1 w1 t1 r1 q))"
    and "fst (cl now2 w2 t2 r2 q2) = Some b" "lr_run_id b = lr_run_id a"
    and "proper_ops gen step ops2 (snd (cl now2 w2 t2 r2 q2))"
    and q3: "q3 = fold step ops2 (snd (cl now2 w2 t2 r2 q2))"
  shows "lr_lease_generation a < lr_lease_generation b
    \<and> hb now (lr_run_id a) (lr_lease_generation a) t' ten q3 = (False, q3)
    \<and> co now (lr_run_id a) (lr_lease_generation a) st e ten q3 = (False, q3)"
proof -
  have ok1: "ok (snd (cl now1 w1 t1 r1 q))" using assms(1) by (rule cl_ok)
  have g1: "gen (snd (cl now1 w1 t1 r1 q)) (lr_run_id a) = Some (lr_lease_generation a)"
    using cl_new [OF assms(1,2)] by simp
  obtain m where m: "ok q2" "gen q2 (lr_run_id a) = Some m" "lr_lease_generation a \<le> m"
    using ops_gen [OF ok1 assms(3) g1] q2 by auto
  have b: "gen (snd (cl now2 w2 t2 r2 q2)) (lr_run_id a) = Some (lr_lease_generation b)" "m < lr_lease_generation b"
    using cl_new [OF m(1) assms(5)] assms(6) m(2) by auto
  then have lt: "lr_lease_generation a < lr_lease_generation b" using m(3) by simp
  show ?thesis
    using stale_rejected [OF cl_ok [OF m(1)] assms(7) b(1) lt] lt by (simp add: q3)
qed

end

subsection \<open>The in-memory adapter\<close>

record mem_queue =
  mq_runs :: "uuid \<Rightarrow> run_spec option"
  mq_statuses :: "uuid \<Rightarrow> run_status option"
  mq_idempotency :: "ident \<Rightarrow> uuid option"
  mq_generations :: "uuid \<Rightarrow> int option"
  mq_queue :: "uuid list"
  mq_leases :: "uuid \<Rightarrow> leased_run option"

definition mq_empty :: mem_queue where
  "mq_empty = \<lparr>mq_runs = Map.empty, mq_statuses = Map.empty, mq_idempotency = Map.empty,
     mq_generations = Map.empty, mq_queue = [], mq_leases = Map.empty\<rparr>"

definition seconds :: "int \<Rightarrow> timestamp" where
  "seconds n = 1000000 * n"

definition mq_enqueue :: "mem_queue enqueue_op" where
  "mq_enqueue now spec key q =
     (case mq_idempotency q key of
        Some r \<Rightarrow> (Inr r, q)
      | None \<Rightarrow>
          (Inr (rs_run_id spec),
           q\<lparr>mq_runs := (mq_runs q)(rs_run_id spec \<mapsto> spec),
             mq_statuses := (mq_statuses q)(rs_run_id spec \<mapsto> QUEUED),
             mq_generations := (mq_generations q)(rs_run_id spec \<mapsto> 0),
             mq_idempotency := (mq_idempotency q)(key \<mapsto> rs_run_id spec),
             mq_queue := mq_queue q @ [rs_run_id spec]\<rparr>))"

text \<open>Which run is dequeued: the head of the queue, or exactly the requested run.\<close>

definition mq_dequeue :: "uuid option \<Rightarrow> mem_queue \<Rightarrow> (uuid \<times> mem_queue) option" where
  "mq_dequeue r q =
     (case r of
        None \<Rightarrow> (case mq_queue q of [] \<Rightarrow> None | x # xs \<Rightarrow> Some (x, q\<lparr>mq_queue := xs\<rparr>))
      | Some x \<Rightarrow> if x \<in> set (mq_queue q) then Some (x, q\<lparr>mq_queue := remove1 x (mq_queue q)\<rparr>) else None)"

text \<open>A queued id without a spec would be a \<open>KeyError\<close>; \<open>mq_ok\<close> below excludes it.\<close>

definition mq_claim :: "mem_queue claim_op" where
  "mq_claim now worker timeout r q =
     (case mq_dequeue r q of
        None \<Rightarrow> (None, q)
      | Some (x, q1) \<Rightarrow>
          (case mq_runs q1 x of
             None \<Rightarrow> (None, q1)
           | Some spec \<Rightarrow>
               (let g = (case mq_generations q1 x of None \<Rightarrow> 0 | Some n \<Rightarrow> n) + 1;
                    leased = \<lparr>lr_run_id = x, lr_worker_id = worker, lr_lease_generation = g,
                              lr_claimed_at = now, lr_lease_expires_at = now + seconds timeout, lr_spec = spec\<rparr>
                in (Some leased,
                    q1\<lparr>mq_generations := (mq_generations q1)(x \<mapsto> g),
                       mq_statuses := (mq_statuses q1)(x \<mapsto> RUNNING),
                       mq_leases := (mq_leases q1)(x \<mapsto> leased)\<rparr>))))"

definition mq_wrong_tenant :: "mem_queue \<Rightarrow> uuid \<Rightarrow> uuid option \<Rightarrow> bool" where
  "mq_wrong_tenant q r ten =
     (case ten of None \<Rightarrow> False
      | Some t \<Rightarrow> (case mq_runs q r of None \<Rightarrow> False | Some spec \<Rightarrow> rs_tenant_id spec \<noteq> t))"

text \<open>The generation a caller is checked against; an unknown or newer one without lease is adopted.\<close>

definition mq_adopt :: "uuid \<Rightarrow> int \<Rightarrow> mem_queue \<Rightarrow> int \<times> mem_queue" where
  "mq_adopt r g q =
     (case mq_generations q r of
        None \<Rightarrow> (g, q\<lparr>mq_generations := (mq_generations q)(r \<mapsto> g)\<rparr>)
      | Some n \<Rightarrow>
          if n < g \<and> mq_leases q r = None then (g, q\<lparr>mq_generations := (mq_generations q)(r \<mapsto> g)\<rparr>)
          else (n, q))"

definition mq_heartbeat :: "mem_queue heartbeat_op" where
  "mq_heartbeat now r g timeout ten q =
     (if mq_wrong_tenant q r ten then (False, q)
      else let (current, q1) = mq_adopt r g q
           in if current \<noteq> g then (False, q1)
              else case mq_leases q1 r of
                None \<Rightarrow> (True, q1)
              | Some leased \<Rightarrow>
                  if lr_lease_expires_at leased \<le> now then (False, q1)
                  else (True, q1\<lparr>mq_leases := (mq_leases q1)(r \<mapsto>
                          leased\<lparr>lr_lease_expires_at :=
                             now + seconds (case timeout of None \<Rightarrow> 300 | Some t \<Rightarrow> t)\<rparr>)\<rparr>))"

definition mq_complete :: "mem_queue complete_op" where
  "mq_complete now r g st err ten q =
     (if mq_wrong_tenant q r ten then (False, q)
      else let (current, q1) = mq_adopt r g q
           in if current \<noteq> g then (False, q1)
              else (True, q1\<lparr>mq_statuses := (mq_statuses q1)(r \<mapsto> st), mq_leases := (mq_leases q1)(r := None)\<rparr>))"

definition mq_get_status :: "uuid \<Rightarrow> uuid option \<Rightarrow> mem_queue \<Rightarrow> run_status option" where
  "mq_get_status r ten q = (if mq_wrong_tenant q r ten then None else mq_statuses q r)"

declare mq_enqueue_def [step_defs] mq_dequeue_def [step_defs] mq_claim_def [step_defs]
  mq_adopt_def [step_defs] mq_heartbeat_def [step_defs] mq_complete_def [step_defs]

text \<open>Every queued id has a spec and a generation, every lease belongs to the current generation.\<close>

definition mq_ok :: "mem_queue \<Rightarrow> bool" where
  "mq_ok q \<longleftrightarrow> set (mq_queue q) \<subseteq> dom (mq_runs q) \<and> dom (mq_runs q) \<subseteq> dom (mq_generations q)
     \<and> (\<forall>r l. mq_leases q r = Some l \<longrightarrow> lr_run_id l = r \<and> mq_generations q r = Some (lr_lease_generation l))"

lemma mq_ok_empty [simp]: "mq_ok mq_empty"
  by (simp add: mq_ok_def mq_empty_def)

lemma mq_adopt_cases:
  obtains "mq_adopt r g q = (g, q\<lparr>mq_generations := (mq_generations q)(r \<mapsto> g)\<rparr>)"
      "\<forall>n. mq_generations q r = Some n \<longrightarrow> n < g \<and> mq_leases q r = None"
  | n where "mq_adopt r g q = (n, q)" "mq_generations q r = Some n"
proof (cases "mq_generations q r")
  case None
  with that(1) show thesis by (simp add: mq_adopt_def)
next
  case (Some n)
  with that show thesis by (cases "n < g \<and> mq_leases q r = None") (auto simp: mq_adopt_def)
qed

lemma mq_ok_lease:
  "mq_ok q \<Longrightarrow> lr_run_id l = r \<Longrightarrow> mq_generations q r = Some (lr_lease_generation l) \<Longrightarrow>
    mq_ok (q\<lparr>mq_leases := (mq_leases q)(r \<mapsto> l)\<rparr>)"
  by (simp add: mq_ok_def)

lemma mq_ok_drop: "mq_ok q \<Longrightarrow> mq_ok (q\<lparr>mq_statuses := s, mq_leases := (mq_leases q)(r := None)\<rparr>)"
  by (simp add: mq_ok_def)

lemma mq_ok_lease_of:
  "mq_ok q \<Longrightarrow> mq_leases q r = Some l \<Longrightarrow> lr_run_id l = r \<and> mq_generations q r = Some (lr_lease_generation l)"
  by (simp add: mq_ok_def)

lemma mq_ok_claim:
  assumes "mq_ok q" "set xs \<subseteq> set (mq_queue q)" "lr_run_id l = x" "lr_lease_generation l = g"
  shows "mq_ok (q\<lparr>mq_queue := xs, mq_generations := (mq_generations q)(x \<mapsto> g), mq_statuses := s,
    mq_leases := (mq_leases q)(x \<mapsto> l)\<rparr>)"
  using assms by (auto simp: mq_ok_def)

lemma mq_adopt_ok: "mq_ok q \<Longrightarrow> mq_ok (snd (mq_adopt r g q))"
  by (rule mq_adopt_cases [of r g q]) (auto simp: mq_ok_def split: if_splits)

lemma mq_adopt_gen:
  "mq_generations q i = Some n \<Longrightarrow> \<exists>m. mq_generations (snd (mq_adopt r g q)) i = Some m \<and> n \<le> m"
  by (rule mq_adopt_cases [of r g q]) auto

lemma mq_adopt_stale: "mq_generations q r = Some n \<Longrightarrow> g < n \<Longrightarrow> mq_adopt r g q = (n, q)"
  by (simp add: mq_adopt_def)

lemma mq_dequeue_cases:
  assumes "mq_dequeue r q = Some (x, q1)"
  obtains xs where "x \<in> set (mq_queue q)" "q1 = q\<lparr>mq_queue := xs\<rparr>" "set xs \<subseteq> set (mq_queue q)"
    "r \<noteq> None \<Longrightarrow> r = Some x"
  using assms set_remove1_subset [of x "mq_queue q"]
  by (auto simp: mq_dequeue_def split: option.splits list.splits if_splits)

lemma mq_claim_cases:
  assumes "mq_ok q"
  obtains "mq_claim now w t r q = (None, q)"
  | x xs spec g l where "x \<in> set (mq_queue q)" "mq_runs q x = Some spec" "set xs \<subseteq> set (mq_queue q)"
      "mq_generations q x = Some g" "lr_run_id l = x" "lr_lease_generation l = g + 1" "lr_spec l = spec"
      "lr_worker_id l = w" "lr_lease_expires_at l = now + seconds t" "r \<noteq> None \<Longrightarrow> r = Some x"
      "mq_claim now w t r q = (Some l,
         q\<lparr>mq_queue := xs, mq_generations := (mq_generations q)(x \<mapsto> g + 1),
           mq_statuses := (mq_statuses q)(x \<mapsto> RUNNING), mq_leases := (mq_leases q)(x \<mapsto> l)\<rparr>)"
proof (cases "mq_dequeue r q")
  case None
  with that(1) show thesis by (simp add: mq_claim_def)
next
  case (Some p)
  obtain x q1 where p: "p = (x, q1)" by fastforce
  obtain xs where xs: "x \<in> set (mq_queue q)" "q1 = q\<lparr>mq_queue := xs\<rparr>" "set xs \<subseteq> set (mq_queue q)"
    "r \<noteq> None \<Longrightarrow> r = Some x"
    by (rule mq_dequeue_cases [OF Some [unfolded p]]) blast
  obtain spec g where sg: "mq_runs q x = Some spec" "mq_generations q x = Some g"
    using assms xs(1) unfolding mq_ok_def by (meson domD subsetD)
  show thesis
    by (rule that(2) [OF xs(1) sg(1) xs(3) sg(2), where l = "\<lparr>lr_run_id = x, lr_worker_id = w,
          lr_lease_generation = g + 1, lr_claimed_at = now, lr_lease_expires_at = now + seconds t, lr_spec = spec\<rparr>"])
      (simp_all add: mq_claim_def Some p xs sg Let_def xs(4))
qed

interpretation mem: lease_queue mq_enqueue mq_claim mq_heartbeat mq_complete mq_generations mq_ok
proof (unfold_locales, goal_cases)
  case (1 q spec now key)
  then show ?case by (auto simp: mq_ok_def mq_enqueue_def split: option.splits)
next
  case (2 q now w t r)
  then show ?case
    by (rule mq_claim_cases [of q now w t r]) (simp_all add: 2 mq_ok_claim)
next
  case (3 q now r g t' ten)
  then have "mq_ok (snd (mq_adopt r g q))" by (rule mq_adopt_ok)
  with 3 mq_ok_lease_of show ?case
    by (auto simp: mq_heartbeat_def split: prod.splits option.split intro!: mq_ok_lease)
next
  case (4 q now r g st e ten)
  then have "mq_ok (snd (mq_adopt r g q))" by (rule mq_adopt_ok)
  with 4 show ?case
    by (auto simp: mq_complete_def mq_ok_drop split: prod.splits)
next
  case (5 q spec i n now key)
  then show ?case by (auto simp: mq_enqueue_def split: option.splits)
next
  case (6 q i n now w t r)
  show ?case by (rule mq_claim_cases [OF 6(1), of now w t r]) (use 6 in auto)
next
  case (7 q now w t r l)
  show ?case by (rule mq_claim_cases [OF 7(1), of now w t r]) (use 7 in auto)
next
  case (8 q i n now r g t' ten)
  then show ?case using mq_adopt_gen [of q i n r g]
    by (auto simp: mq_heartbeat_def split: prod.splits option.splits)
next
  case (9 q i n now r g st e ten)
  then show ?case using mq_adopt_gen [of q i n r g]
    by (auto simp: mq_complete_def split: prod.splits)
next
  case (10 q r n g now t' ten)
  then show ?case by (simp add: mq_heartbeat_def mq_adopt_stale)
next
  case (11 q r n g now st e ten)
  then show ?case by (simp add: mq_complete_def mq_adopt_stale)
qed

end
