(* ===== verification/PgQueue.thy ===== *)
theory PgQueue
  imports Queue
begin

text \<open>
  \<open>adapters/queue/postgres_queue.py\<close>: the queue on the tables \<open>evaluation_runs\<close> and \<open>run_events\<close>. A
  table is the list of its rows, a statement is a function on it, an adapter call is one transaction
  (an exception leaves the tables as they were), \<open>now()\<close> is an argument. Row level security is the
  predicate of the migrations over the transaction's tenant setting and the role of the connection.
  Foreign keys are not modelled; the primary key, the idempotency key and the profile check are.
\<close>

record run_row =
  rr_run_id :: uuid
  rr_tenant_id :: uuid
  rr_snapshot_id :: uuid
  rr_ruleset_id :: uuid
  rr_policy_id :: uuid
  rr_execution_profile :: ident
  rr_outlier_columns :: "ident list"
  rr_spec :: "run_spec option"
  rr_priority :: int
  rr_status :: run_status
  rr_attempt_count :: int
  rr_lease_generation :: int
  rr_lease_owner :: "ident option"
  rr_lease_expires_at :: "timestamp option"
  rr_heartbeat_at :: "timestamp option"
  rr_started_at :: "timestamp option"
  rr_completed_at :: "timestamp option"
  rr_execution_error :: "ustr option"
  rr_idempotency_key :: ident
  rr_created_by :: uuid
  rr_created_at :: timestamp

record run_event =
  ev_tenant_id :: uuid
  ev_run_id :: uuid
  ev_type :: ident
  ev_attempt_count :: int
  ev_lease_generation :: int
  ev_payload :: jdict
  ev_created_at :: timestamp

text \<open>The tables the fallback \<open>_reconstruct_spec\<close> reads.\<close>

record rule_row =
  qr_tenant_id :: uuid
  qr_ruleset_id :: uuid
  qr_rule :: quality_rule
  qr_null_policy :: ident
  qr_severity :: ident

record policy_row =
  pr_tenant_id :: uuid
  pr_policy_id :: uuid
  pr_dimension_weights :: "(ident \<times> pyfloat) list option"
  pr_publication_threshold :: pyfloat
  pr_gate_rules :: "(ident \<times> pyfloat option) list option"

record pg_db =
  db_runs :: "run_row list"
  db_events :: "run_event list"
  db_snapshots :: "dataset_snapshot list"
  db_rules :: "rule_row list"
  db_policies :: "policy_row list"

subsection \<open>Row level security\<close>

text \<open>The transaction's \<open>app.current_tenant_id\<close> and whether the role inherits \<open>dq_dispatcher_role\<close>.\<close>

record session =
  ctx_tenant :: "uuid option"
  is_dispatcher :: bool

definition can_select :: "session \<Rightarrow> run_row \<Rightarrow> bool" where
  "can_select se r \<longleftrightarrow> ctx_tenant se = Some (rr_tenant_id r)
     \<or> (is_dispatcher se \<and> rr_status r \<in> {QUEUED, LEASED, RUNNING})"

definition lease_expired :: "timestamp \<Rightarrow> run_row \<Rightarrow> bool" where
  "lease_expired now r \<longleftrightarrow> (case rr_lease_expires_at r of None \<Rightarrow> False | Some e \<Rightarrow> e < now)"

definition can_update :: "session \<Rightarrow> timestamp \<Rightarrow> run_row \<Rightarrow> bool" where
  "can_update se now r \<longleftrightarrow> can_select se r \<and>
     (ctx_tenant se = Some (rr_tenant_id r)
      \<or> (is_dispatcher se \<and> (rr_status r = QUEUED \<or> (rr_status r \<in> {LEASED, RUNNING} \<and> lease_expired now r))))"

definition fetch_run :: "session \<Rightarrow> uuid \<Rightarrow> pg_db \<Rightarrow> run_row option" where
  "fetch_run se i db = List.find (\<lambda>r. rr_run_id r = i \<and> can_select se r) (db_runs db)"

text \<open>\<open>UPDATE evaluation_runs SET f WHERE p\<close>, with the row count.\<close>

definition update_runs :: "(run_row \<Rightarrow> bool) \<Rightarrow> (run_row \<Rightarrow> run_row) \<Rightarrow> pg_db \<Rightarrow> nat \<times> pg_db" where
  "update_runs p f db = (length (filter p (db_runs db)), db\<lparr>db_runs := map (\<lambda>r. if p r then f r else r) (db_runs db)\<rparr>)"

definition insert_event :: "run_event \<Rightarrow> pg_db \<Rightarrow> pg_db" where
  "insert_event e db = db\<lparr>db_events := db_events db @ [e]\<rparr>"

text \<open>Both handlers enter the given tenant, or the tenant of the run when none is given.\<close>

definition enter_tenant :: "bool \<Rightarrow> uuid option \<Rightarrow> uuid \<Rightarrow> pg_db \<Rightarrow> session" where
  "enter_tenant disp ten i db =
     (let s0 = \<lparr>ctx_tenant = None, is_dispatcher = disp\<rparr>
      in case ten of
           Some t \<Rightarrow> s0\<lparr>ctx_tenant := Some t\<rparr>
         | None \<Rightarrow> (case fetch_run s0 i db of None \<Rightarrow> s0 | Some r \<Rightarrow> s0\<lparr>ctx_tenant := Some (rr_tenant_id r)\<rparr>))"

subsection \<open>Policy mapping and reconstruction\<close>

definition opt_or :: "'a option \<Rightarrow> 'a option \<Rightarrow> 'a option" where
  "opt_or a b = (case a of None \<Rightarrow> b | Some x \<Rightarrow> Some x)"

text \<open>\<open>rules.get(key, default)\<close> where the stored value may itself be null.\<close>

definition rule_number :: "(ident \<times> pyfloat option) list \<Rightarrow> string \<Rightarrow> pyfloat option \<Rightarrow> pyfloat option" where
  "rule_number rules key dflt = (case map_of rules (u key) of None \<Rightarrow> dflt | Some v \<Rightarrow> v)"

definition scoring_policy_from_row ::
  "uuid \<Rightarrow> (ident \<times> pyfloat) list option \<Rightarrow> pyfloat \<Rightarrow> (ident \<times> pyfloat option) list option \<Rightarrow> string + scoring_policy" where
  "scoring_policy_from_row pid weights threshold gate_rules =
     (let rules = (case gate_rules of None \<Rightarrow> [] | Some g \<Rightarrow> g);
          fail = rule_number rules ''gate_fail_threshold'' (rule_number rules ''warn_min'' None);
          warn = rule_number rules ''gate_warn_threshold'' (rule_number rules ''pass_min'' None);
          crit = rule_number rules ''critical_acceptance_threshold'' None
      in check_scoring_policy (default_policy
           \<lparr>policy_id := Some pid,
            dimension_weights := (case weights of None \<Rightarrow> [] | Some w \<Rightarrow> w),
            publication_threshold := threshold,
            warn_min := (case fail of None \<Rightarrow> warn_min default_policy | Some x \<Rightarrow> x),
            pass_min := (case warn of None \<Rightarrow> pass_min default_policy | Some x \<Rightarrow> x),
            critical_acceptance_threshold := crit\<rparr>))"

definition rule_of_row :: "case_table \<Rightarrow> uuid \<Rightarrow> rule_row \<Rightarrow> quality_rule" where
  "rule_of_row lc rsid r = (qr_rule r)\<lparr>q_null_policy := py_lower lc (qr_null_policy r),
     q_is_critical := (qr_severity r = u ''CRITICAL''), q_ruleset_id := Some rsid\<rparr>"

definition reconstruct_spec :: "case_table \<Rightarrow> run_row \<Rightarrow> pg_db \<Rightarrow> string + run_spec" where
  "reconstruct_spec lc row db =
     (case List.find (\<lambda>s. sn_tenant_id s = rr_tenant_id row \<and> sn_snapshot_id s = rr_snapshot_id row) (db_snapshots db) of
        None \<Rightarrow> Inl ''AssertionError: Snapshot not found''
      | Some snapshot \<Rightarrow>
          (let rules = map (rule_of_row lc (rr_ruleset_id row))
                 (filter (\<lambda>q. qr_tenant_id q = rr_tenant_id row \<and> qr_ruleset_id q = rr_ruleset_id row) (db_rules db))
           in case List.find (\<lambda>p. pr_tenant_id p = rr_tenant_id row \<and> pr_policy_id p = rr_policy_id row) (db_policies db) of
                None \<Rightarrow> Inl ''AssertionError: Policy not found''
              | Some p \<Rightarrow>
                  (case scoring_policy_from_row (rr_policy_id row) (pr_dimension_weights p)
                          (pr_publication_threshold p) (pr_gate_rules p) of
                     Inl e \<Rightarrow> Inl e
                   | Inr policy \<Rightarrow> Inr \<lparr>rs_run_id = rr_run_id row, rs_tenant_id = rr_tenant_id row,
                       rs_snapshot = snapshot, rs_rules = rules, rs_policy = policy,
                       rs_execution_profile = rr_execution_profile row,
                       rs_outlier_columns = rr_outlier_columns row,
                       rs_ruleset_id = Some (rr_ruleset_id row), rs_policy_id = Some (rr_policy_id row),
                       rs_created_by = None\<rparr>)))"

subsection \<open>Operations\<close>

definition stored_profile :: "case_table \<Rightarrow> ident \<Rightarrow> ident" where
  "stored_profile uc p =
     (if py_upper uc p \<in> {u ''SPARK_K3S'', u ''STANDARD''} then u ''SPARK_K3S''
      else if p = [] then u ''SPARK_K3S'' else p)"

definition find_key :: "uuid \<Rightarrow> ident \<Rightarrow> run_row list \<Rightarrow> run_row option" where
  "find_key ten key rows = List.find (\<lambda>r. rr_tenant_id r = ten \<and> rr_idempotency_key r = key) rows"

definition queued_row :: "case_table \<Rightarrow> timestamp \<Rightarrow> run_spec \<Rightarrow> uuid \<Rightarrow> uuid \<Rightarrow> uuid \<Rightarrow> ident \<Rightarrow> run_row" where
  "queued_row uc now spec rsid pid usr key =
     \<lparr>rr_run_id = rs_run_id spec, rr_tenant_id = rs_tenant_id spec,
      rr_snapshot_id = sn_snapshot_id (rs_snapshot spec), rr_ruleset_id = rsid, rr_policy_id = pid,
      rr_execution_profile = stored_profile uc (rs_execution_profile spec),
      rr_outlier_columns = rs_outlier_columns spec, rr_spec = Some spec, rr_priority = 5, rr_status = QUEUED,
      rr_attempt_count = 0, rr_lease_generation = 0, rr_lease_owner = None, rr_lease_expires_at = None,
      rr_heartbeat_at = None, rr_started_at = None, rr_completed_at = None, rr_execution_error = None,
      rr_idempotency_key = key, rr_created_by = usr, rr_created_at = now\<rparr>"

text \<open>
  \<open>raced\<close> are the rows that concurrent transactions commit between the SELECT and the INSERT, which
  the \<open>ON CONFLICT DO NOTHING\<close> is there for.
\<close>

definition pg_enqueue :: "case_table \<Rightarrow> run_row list \<Rightarrow> pg_db enqueue_op" where
  "pg_enqueue uc raced now spec key db =
     (case (rs_ruleset_id spec, rs_policy_id spec, rs_created_by spec) of
        (Some rsid, Some pid, Some usr) \<Rightarrow>
          (case find_key (rs_tenant_id spec) key (db_runs db) of
             Some r \<Rightarrow> (Inr (rr_run_id r), db\<lparr>db_runs := db_runs db @ raced\<rparr>)
           | None \<Rightarrow>
               (let db1 = db\<lparr>db_runs := db_runs db @ raced\<rparr>; row = queued_row uc now spec rsid pid usr key
                in if rr_execution_profile row \<noteq> u ''SPARK_K3S'' then (Inl ''CheckViolation'', db1)
                   else case find_key (rs_tenant_id spec) key (db_runs db1) of
                     Some r \<Rightarrow> (Inr (rr_run_id r), db1)
                   | None \<Rightarrow>
                       if rs_run_id spec \<in> rr_run_id ` set (db_runs db1) then (Inl ''UniqueViolation'', db1)
                       else (Inr (rs_run_id spec),
                             insert_event \<lparr>ev_tenant_id = rs_tenant_id spec, ev_run_id = rs_run_id spec,
                                 ev_type = u ''RUN_QUEUED'', ev_attempt_count = 0, ev_lease_generation = 0,
                                 ev_payload = [], ev_created_at = now\<rparr>
                               (db1\<lparr>db_runs := db_runs db1 @ [row]\<rparr>))))
      | _ \<Rightarrow> (Inl ''ValueError'', db\<lparr>db_runs := db_runs db @ raced\<rparr>))"

definition claimable :: "timestamp \<Rightarrow> run_row \<Rightarrow> bool" where
  "claimable now r \<longleftrightarrow> rr_status r = QUEUED \<or> (rr_status r \<in> {LEASED, RUNNING} \<and> lease_expired now r)"

text \<open>
  The row the common table expression picks: unlocked, by priority and age. Rows that tie are taken in
  table order, which SQL leaves open. \<open>locked\<close> are the rows other transactions hold (SKIP LOCKED).
\<close>

definition next_run :: "bool \<Rightarrow> uuid set \<Rightarrow> timestamp \<Rightarrow> uuid option \<Rightarrow> pg_db \<Rightarrow> run_row option" where
  "next_run disp locked now i db =
     (let se = \<lparr>ctx_tenant = None, is_dispatcher = disp\<rparr>;
          ok = (\<lambda>r. claimable now r \<and> (case i of None \<Rightarrow> True | Some x \<Rightarrow> rr_run_id r = x)
                    \<and> rr_run_id r \<notin> locked \<and> can_update se now r)
      in case sort_key (\<lambda>r. (rr_priority r, rr_created_at r)) (filter ok (db_runs db)) of
           [] \<Rightarrow> None | r # _ \<Rightarrow> Some r)"

definition leased_row :: "timestamp \<Rightarrow> ident \<Rightarrow> int \<Rightarrow> run_row \<Rightarrow> run_row" where
  "leased_row now worker timeout r =
     r\<lparr>rr_status := LEASED, rr_lease_owner := Some worker, rr_lease_generation := rr_lease_generation r + 1,
       rr_lease_expires_at := Some (now + seconds timeout),
       rr_started_at := (case rr_started_at r of None \<Rightarrow> Some now | Some t \<Rightarrow> Some t),
       rr_heartbeat_at := Some now, rr_attempt_count := rr_attempt_count r + 1\<rparr>"

definition pg_claim_next_run ::
  "case_table \<Rightarrow> bool \<Rightarrow> uuid set \<Rightarrow> timestamp \<Rightarrow> ident \<Rightarrow> int \<Rightarrow> uuid option \<Rightarrow> pg_db \<Rightarrow> (string + leased_run option) \<times> pg_db" where
  "pg_claim_next_run lc disp locked now worker timeout i db =
     (case next_run disp locked now i db of
        None \<Rightarrow> (Inr None, db)
      | Some r \<Rightarrow>
          (let row = leased_row now worker timeout r;
               db1 = snd (update_runs (\<lambda>x. rr_run_id x = rr_run_id r) (leased_row now worker timeout) db);
               db2 = insert_event \<lparr>ev_tenant_id = rr_tenant_id row, ev_run_id = rr_run_id row,
                   ev_type = u ''RUN_CLAIMED'', ev_attempt_count = rr_attempt_count row,
                   ev_lease_generation = rr_lease_generation row,
                   ev_payload = [(u ''worker_id'', JStr worker)], ev_created_at = now\<rparr> db1
           in case (case rr_spec row of Some s \<Rightarrow> Inr s | None \<Rightarrow> reconstruct_spec lc row db2) of
                Inl e \<Rightarrow> (Inl e, db)
              | Inr spec \<Rightarrow>
                  (Inr (Some \<lparr>lr_run_id = rr_run_id row, lr_worker_id = worker,
                       lr_lease_generation = rr_lease_generation row,
                       lr_claimed_at = (case rr_started_at row of None \<Rightarrow> now | Some t \<Rightarrow> t),
                       lr_lease_expires_at = (case rr_lease_expires_at row of None \<Rightarrow> now | Some t \<Rightarrow> t),
                       lr_spec = spec\<rparr>), db2)))"

definition holds_lease :: "timestamp \<Rightarrow> uuid \<Rightarrow> int \<Rightarrow> run_row \<Rightarrow> bool" where
  "holds_lease now i g r \<longleftrightarrow> rr_run_id r = i \<and> rr_lease_generation r = g \<and> rr_status r \<in> {LEASED, RUNNING}
     \<and> (case rr_lease_expires_at r of None \<Rightarrow> False | Some e \<Rightarrow> now < e)"

definition pg_heartbeat :: "bool \<Rightarrow> int \<Rightarrow> pg_db heartbeat_op" where
  "pg_heartbeat disp lease_timeout now i g timeout ten db =
     (let t = (case timeout of None \<Rightarrow> lease_timeout | Some t \<Rightarrow> t);
          se = enter_tenant disp ten i db;
          (n, db1) = update_runs (\<lambda>r. holds_lease now i g r \<and> can_update se now r)
            (\<lambda>r. r\<lparr>rr_heartbeat_at := Some now, rr_lease_expires_at := Some (now + seconds t)\<rparr>) db
      in (n = 1, db1))"

definition may_complete :: "timestamp \<Rightarrow> uuid \<Rightarrow> int \<Rightarrow> run_row \<Rightarrow> bool" where
  "may_complete now i g r \<longleftrightarrow> rr_run_id r = i \<and> rr_lease_generation r = g \<and> rr_status r \<in> {LEASED, RUNNING}
     \<and> (case rr_lease_expires_at r of None \<Rightarrow> True | Some e \<Rightarrow> now < e)"

definition completion_event :: "timestamp \<Rightarrow> run_row \<Rightarrow> int \<Rightarrow> run_status \<Rightarrow> ustr option \<Rightarrow> run_event" where
  "completion_event now row g st err =
     \<lparr>ev_tenant_id = rr_tenant_id row, ev_run_id = rr_run_id row, ev_type = u ''RUN_'' @ run_value st,
      ev_attempt_count = rr_attempt_count row, ev_lease_generation = g,
      ev_payload = (case err of None \<Rightarrow> [] | Some m \<Rightarrow> if m = [] then [] else [(u ''error'', JStr m)]),
      ev_created_at = now\<rparr>"

definition pg_complete :: "bool \<Rightarrow> pg_db complete_op" where
  "pg_complete disp now i g st err ten db =
     (let se = enter_tenant disp ten i db;
          (n, db1) = update_runs (\<lambda>r. may_complete now i g r \<and> can_update se now r)
            (\<lambda>r. r\<lparr>rr_status := st, rr_completed_at := Some now, rr_execution_error := err\<rparr>) db
      in if n = 1 then
           (True, case fetch_run se i db1 of
              None \<Rightarrow> db1
            | Some row \<Rightarrow> insert_event (completion_event now row g st err) db1)
         else (case fetch_run se i db1 of
                 None \<Rightarrow> (False, db1)
               | Some row \<Rightarrow> (rr_status row = st \<and> rr_lease_generation row = g, db1)))"

definition pg_get_run_status :: "bool \<Rightarrow> uuid \<Rightarrow> uuid option \<Rightarrow> pg_db \<Rightarrow> run_status option" where
  "pg_get_run_status disp i ten db =
     (let se = \<lparr>ctx_tenant = ten, is_dispatcher = disp\<rparr>
      in map_option rr_status (List.find (\<lambda>r. rr_run_id r = i \<and> can_select se r
           \<and> (case ten of None \<Rightarrow> True | Some t \<Rightarrow> rr_tenant_id r = t)) (db_runs db)))"

end
