(* ===== verification/PgQueueProps.thy ===== *)
theory PgQueueProps
  imports PgQueue
begin

text \<open>
  The PostgreSQL queue as a provider of the coordination port: table invariant, interpretation of
  the port's locale, and what the statements guarantee beyond it (leases exclude each other until
  they expire, finished runs stay finished, a tenant cannot touch another tenant's runs).
\<close>

definition db_ok :: "pg_db \<Rightarrow> bool" where
  "db_ok db \<longleftrightarrow> distinct (map rr_run_id (db_runs db))"

definition row_of :: "pg_db \<Rightarrow> uuid \<Rightarrow> run_row option" where
  "row_of db i = List.find (\<lambda>r. rr_run_id r = i) (db_runs db)"

definition pg_gen :: "pg_db \<Rightarrow> uuid \<Rightarrow> int option" where
  "pg_gen db i = map_option rr_lease_generation (row_of db i)"

lemma row_of_Some:
  "db_ok db \<Longrightarrow> row_of db i = Some r \<longleftrightarrow> r \<in> set (db_runs db) \<and> rr_run_id r = i"
  unfolding row_of_def db_ok_def
  by (auto simp: find_Some_iff in_set_conv_nth distinct_conv_nth)

lemma row_of_None: "row_of db i = None \<longleftrightarrow> i \<notin> rr_run_id ` set (db_runs db)"
  by (auto simp: row_of_def find_None_iff)

lemma db_ok_update [simp]:
  assumes "\<And>r. rr_run_id (f r) = rr_run_id r"
  shows "db_ok (snd (update_runs p f db)) = db_ok db"
proof -
  have "map rr_run_id (map (\<lambda>r. if p r then f r else r) xs) = map rr_run_id xs" for xs
    using assms by (induction xs) auto
  then show ?thesis by (simp add: db_ok_def update_runs_def del: map_map)
qed

lemma db_ok_insert_event [simp]: "db_ok (insert_event e db) = db_ok db"
  by (simp add: db_ok_def insert_event_def)

lemma row_of_insert_event [simp]: "row_of (insert_event e db) i = row_of db i"
  by (simp add: row_of_def insert_event_def)

lemma db_runs_insert_event [simp]: "db_runs (insert_event e db) = db_runs db"
  by (simp add: insert_event_def)

lemma row_of_update:
  assumes "\<And>r. rr_run_id (f r) = rr_run_id r"
  shows "row_of (snd (update_runs p f db)) i = map_option (\<lambda>r. if p r then f r else r) (row_of db i)"
proof -
  have "List.find (\<lambda>r. rr_run_id r = i) (map (\<lambda>r. if p r then f r else r) xs) =
      map_option (\<lambda>r. if p r then f r else r) (List.find (\<lambda>r. rr_run_id r = i) xs)" for xs
    using assms by (induction xs) auto
  then show ?thesis by (simp add: row_of_def update_runs_def)
qed

text \<open>An update keyed by the run id touches one row at most.\<close>

lemma update_count:
  assumes "db_ok db" "\<And>r. p r \<Longrightarrow> rr_run_id r = i"
  shows "fst (update_runs p f db) = (case row_of db i of None \<Rightarrow> 0 | Some r \<Rightarrow> if p r then 1 else 0)"
proof -
  have "length (filter p xs) = (case List.find (\<lambda>r. rr_run_id r = i) xs of None \<Rightarrow> 0 | Some r \<Rightarrow> if p r then 1 else 0)"
    if "distinct (map rr_run_id xs)" for xs
    using that
  proof (induction xs)
    case (Cons x xs)
    show ?case
    proof (cases "rr_run_id x = i")
      case True
      then have "filter p xs = []" using Cons.prems assms(2) by (auto simp: filter_empty_conv) (metis image_eqI)
      with True show ?thesis by simp
    next
      case False
      then have "\<not> p x" using assms(2) by blast
      with False Cons show ?thesis by simp
    qed
  qed simp
  then show ?thesis using assms(1) by (simp add: update_runs_def row_of_def db_ok_def)
qed

lemma update_none:
  assumes "\<And>r. r \<in> set (db_runs db) \<Longrightarrow> \<not> p r"
  shows "update_runs p f db = (0, db)"
proof -
  have "map (\<lambda>r. if p r then f r else r) xs = xs" if "\<forall>r \<in> set xs. \<not> p r" for xs
    using that by (induction xs) auto
  moreover have "filter p (db_runs db) = []" using assms by (auto simp: filter_empty_conv)
  ultimately show ?thesis using assms by (simp add: update_runs_def)
qed

lemma fetch_run_row:
  assumes "db_ok db" "row_of db i = Some r" "can_select se r"
  shows "fetch_run se i db = Some r"
proof -
  have r: "r \<in> set (db_runs db)" "rr_run_id r = i" using assms(1,2) by (simp_all add: row_of_Some)
  have "fetch_run se i db \<noteq> None" using r assms(3) by (auto simp: fetch_run_def find_None_iff)
  then obtain x where x: "fetch_run se i db = Some x" by blast
  then have "x \<in> set (db_runs db)" "rr_run_id x = i" by (auto simp: fetch_run_def find_Some_iff in_set_conv_nth)
  then have "row_of db i = Some x" using assms(1) by (simp add: row_of_Some)
  with x assms(2) show ?thesis by simp
qed

subsection \<open>Each operation on one row\<close>

lemma pg_enqueue_runs:
  "db_runs (snd (pg_enqueue uc raced now spec key db)) = db_runs db @ raced
   \<or> (\<exists>row. db_runs (snd (pg_enqueue uc raced now spec key db)) = db_runs db @ raced @ [row]
        \<and> rr_run_id row = rs_run_id spec \<and> rr_run_id row \<notin> rr_run_id ` set (db_runs db @ raced))"
  by (auto simp: pg_enqueue_def Let_def queued_row_def image_iff split: option.splits)

lemma next_run_some:
  assumes "next_run disp lk now i db = Some r"
  shows "r \<in> set (db_runs db)" "claimable now r" "i \<noteq> None \<Longrightarrow> i = Some (rr_run_id r)" "rr_run_id r \<notin> lk"
proof -
  define ok where "ok = (\<lambda>r. claimable now r \<and> (case i of None \<Rightarrow> True | Some x \<Rightarrow> rr_run_id r = x)
      \<and> rr_run_id r \<notin> lk \<and> can_update \<lparr>ctx_tenant = None, is_dispatcher = disp\<rparr> now r)"
  obtain rest where "sort_key (\<lambda>r. (rr_priority r, rr_created_at r)) (filter ok (db_runs db)) = r # rest"
    using assms unfolding next_run_def ok_def Let_def by (auto split: list.splits)
  then have "r \<in> set (sort_key (\<lambda>r. (rr_priority r, rr_created_at r)) (filter ok (db_runs db)))" by simp
  then have "r \<in> set (filter ok (db_runs db))" unfolding set_sort .
  then show "r \<in> set (db_runs db)" "claimable now r" "i \<noteq> None \<Longrightarrow> i = Some (rr_run_id r)" "rr_run_id r \<notin> lk"
    by (auto simp: ok_def split: option.splits)
qed

lemma leased_row_id [simp]: "rr_run_id (leased_row now w t r) = rr_run_id r"
  "rr_lease_expires_at (leased_row now w t r) = Some (now + seconds t)"
  "rr_lease_generation (leased_row now w t r) = rr_lease_generation r + 1"
  by (simp_all add: leased_row_def)

lemma pg_claim_cases:
  assumes "db_ok db"
  obtains (none) "\<forall>l. fst (pg_claim_next_run lc disp lk now w t i db) \<noteq> Inr (Some l)"
      "snd (pg_claim_next_run lc disp lk now w t i db) = db"
  | (some) r l where "fst (pg_claim_next_run lc disp lk now w t i db) = Inr (Some l)"
      "row_of db (rr_run_id r) = Some r" "claimable now r" "lr_run_id l = rr_run_id r"
      "lr_lease_generation l = rr_lease_generation r + 1" "lr_lease_expires_at l = now + seconds t"
      "lr_worker_id l = w" "i \<noteq> None \<Longrightarrow> i = Some (rr_run_id r)" "rr_run_id r \<notin> lk"
      "\<And>j. row_of (snd (pg_claim_next_run lc disp lk now w t i db)) j =
         (if j = rr_run_id r then Some (leased_row now w t r) else row_of db j)"
      "db_ok (snd (pg_claim_next_run lc disp lk now w t i db))"
proof (cases "next_run disp lk now i db")
  case None
  then show thesis using none by (simp add: pg_claim_next_run_def)
next
  case (Some r)
  note nr = next_run_some [OF Some]
  have row: "row_of db (rr_run_id r) = Some r" using nr(1) assms by (simp add: row_of_Some)
  define db2 where "db2 = insert_event \<lparr>ev_tenant_id = rr_tenant_id (leased_row now w t r),
      ev_run_id = rr_run_id (leased_row now w t r), ev_type = u ''RUN_CLAIMED'',
      ev_attempt_count = rr_attempt_count (leased_row now w t r),
      ev_lease_generation = rr_lease_generation (leased_row now w t r),
      ev_payload = [(u ''worker_id'', JStr w)], ev_created_at = now\<rparr>
    (snd (update_runs (\<lambda>x. rr_run_id x = rr_run_id r) (leased_row now w t) db))"
  define sp where "sp = (case rr_spec (leased_row now w t r) of Some s \<Rightarrow> Inr s
      | None \<Rightarrow> reconstruct_spec lc (leased_row now w t r) db2)"
  have eq: "pg_claim_next_run lc disp lk now w t i db = (case sp of Inl e \<Rightarrow> (Inl e, db)
      | Inr spec \<Rightarrow> (Inr (Some \<lparr>lr_run_id = rr_run_id r, lr_worker_id = w,
                       lr_lease_generation = rr_lease_generation (leased_row now w t r),
                       lr_claimed_at = (case rr_started_at (leased_row now w t r) of None \<Rightarrow> now | Some t \<Rightarrow> t),
                       lr_lease_expires_at = now + seconds t, lr_spec = spec\<rparr>), db2))"
    unfolding pg_claim_next_run_def Some Let_def db2_def sp_def by (simp cong: sum.case_cong)
  show thesis
  proof (cases sp)
    case (Inl e)
    then show thesis using none by (simp add: eq)
  next
    case (Inr spec)
    have rows: "row_of db2 j = (if j = rr_run_id r then Some (leased_row now w t r) else row_of db j)" for j
    proof (cases "j = rr_run_id r")
      case True
      then show ?thesis by (simp add: db2_def row_of_update row)
    next
      case False
      have "rr_run_id a = j" if "row_of db j = Some a" for a
        using that assms by (simp add: row_of_Some)
      with False show ?thesis
        by (cases "row_of db j") (auto simp: db2_def row_of_update)
    qed
    have "db_ok db2" using assms by (simp add: db2_def)
    with Inr rows show thesis
      by (intro some [of _ r]) (auto simp: eq row nr(2-4) leased_row_def)
  qed
qed

lemma enter_tenant_dispatcher [simp]: "is_dispatcher (enter_tenant disp ten i db) = disp"
  by (simp add: enter_tenant_def Let_def split: option.splits)

text \<open>The row a heartbeat or completion changes.\<close>

lemma pg_heartbeat_row:
  assumes "db_ok db"
    and se_def: "se = enter_tenant disp ten i db"
  shows "row_of (snd (pg_heartbeat disp lt now i g to ten db)) j =
      map_option (\<lambda>r. if holds_lease now i g r \<and> can_update se now r
        then r\<lparr>rr_heartbeat_at := Some now, rr_lease_expires_at := Some (now + seconds (case to of None \<Rightarrow> lt | Some t \<Rightarrow> t))\<rparr>
        else r) (row_of db j)"
    and "fst (pg_heartbeat disp lt now i g to ten db) \<longleftrightarrow>
      (\<exists>r. row_of db i = Some r \<and> holds_lease now i g r \<and> can_update se now r)"
    and "db_ok (snd (pg_heartbeat disp lt now i g to ten db))"
proof -
  define p where "p = (\<lambda>r. holds_lease now i g r \<and> can_update se now r)"
  define f where "f = (\<lambda>r::run_row. r\<lparr>rr_heartbeat_at := Some now,
      rr_lease_expires_at := Some (now + seconds (case to of None \<Rightarrow> lt | Some t \<Rightarrow> t))\<rparr>)"
  have eq: "pg_heartbeat disp lt now i g to ten db = (fst (update_runs p f db) = 1, snd (update_runs p f db))"
    by (simp add: pg_heartbeat_def p_def f_def se_def Let_def split: prod.split)
  have id: "rr_run_id (f r) = rr_run_id r" for r by (simp add: f_def)
  show "row_of (snd (pg_heartbeat disp lt now i g to ten db)) j =
      map_option (\<lambda>r. if holds_lease now i g r \<and> can_update se now r
        then r\<lparr>rr_heartbeat_at := Some now, rr_lease_expires_at := Some (now + seconds (case to of None \<Rightarrow> lt | Some t \<Rightarrow> t))\<rparr>
        else r) (row_of db j)"
    unfolding eq snd_conv row_of_update [of f, OF id] by (simp only: p_def f_def)
  show "db_ok (snd (pg_heartbeat disp lt now i g to ten db))" using assms(1) by (simp add: eq id)
  have "fst (update_runs p f db) = (case row_of db i of None \<Rightarrow> 0 | Some r \<Rightarrow> if p r then 1 else 0)"
    using assms(1) by (rule update_count) (simp add: p_def holds_lease_def)
  then show "fst (pg_heartbeat disp lt now i g to ten db) \<longleftrightarrow>
      (\<exists>r. row_of db i = Some r \<and> holds_lease now i g r \<and> can_update se now r)"
    by (simp add: eq p_def split: option.splits)
qed

lemma pg_complete_row:
  assumes "db_ok db"
    and se_def: "se = enter_tenant disp ten i db"
    and hit_def: "hit = (\<lambda>r. may_complete now i g r \<and> can_update se now r)"
  shows "row_of (snd (pg_complete disp now i g st err ten db)) j =
      map_option (\<lambda>r. if hit r then r\<lparr>rr_status := st, rr_completed_at := Some now, rr_execution_error := err\<rparr> else r)
        (row_of db j)"
    and "fst (pg_complete disp now i g st err ten db) \<Longrightarrow>
      \<exists>r. row_of db i = Some r \<and> (hit r \<or> rr_status r = st \<and> rr_lease_generation r = g)"
    and "row_of db i = Some r \<Longrightarrow> hit r \<Longrightarrow> fst (pg_complete disp now i g st err ten db)"
    and "db_ok (snd (pg_complete disp now i g st err ten db))"
    and "\<not> (\<exists>r. row_of db i = Some r \<and> hit r) \<Longrightarrow> snd (pg_complete disp now i g st err ten db) = db"
proof -
  define f where "f = (\<lambda>r::run_row. r\<lparr>rr_status := st, rr_completed_at := Some now, rr_execution_error := err\<rparr>)"
  define db1 where "db1 = snd (update_runs hit f db)"
  define n where "n = fst (update_runs hit f db)"
  have eq: "pg_complete disp now i g st err ten db = (if n = 1 then
           (True, case fetch_run se i db1 of None \<Rightarrow> db1
            | Some row \<Rightarrow> insert_event (completion_event now row g st err) db1)
         else (case fetch_run se i db1 of None \<Rightarrow> (False, db1)
               | Some row \<Rightarrow> (rr_status row = st \<and> rr_lease_generation row = g, db1)))"
    by (simp add: pg_complete_def f_def hit_def se_def db1_def n_def Let_def case_prod_beta cong: option.case_cong)
  have id: "rr_run_id (f r) = rr_run_id r" for r by (simp add: f_def)
  have rows: "row_of (snd (pg_complete disp now i g st err ten db)) j = row_of db1 j"
    by (simp add: eq split: option.split)
  show "row_of (snd (pg_complete disp now i g st err ten db)) j =
      map_option (\<lambda>r. if hit r then r\<lparr>rr_status := st, rr_completed_at := Some now, rr_execution_error := err\<rparr> else r)
        (row_of db j)"
    unfolding rows db1_def row_of_update [of f, OF id] by (simp only: f_def)
  show "db_ok (snd (pg_complete disp now i g st err ten db))"
    using assms(1) by (simp add: eq db1_def id split: option.split)
  have n: "n = (case row_of db i of None \<Rightarrow> 0 | Some r \<Rightarrow> if hit r then 1 else 0)"
    unfolding n_def using assms(1) by (rule update_count) (simp add: hit_def may_complete_def)
  show "fst (pg_complete disp now i g st err ten db)" if "row_of db i = Some r" "hit r"
    using that by (simp add: eq n)
  have ok1: "db_ok db1" using assms(1) by (simp add: db1_def id)
  show "\<exists>r. row_of db i = Some r \<and> (hit r \<or> rr_status r = st \<and> rr_lease_generation r = g)"
    if fst: "fst (pg_complete disp now i g st err ten db)"
  proof (cases "n = 1")
    case True
    then show ?thesis by (auto simp: n split: option.splits if_splits)
  next
    case False
    then obtain row where row: "fetch_run se i db1 = Some row" "rr_status row = st" "rr_lease_generation row = g"
      using fst by (auto simp: eq split: option.splits)
    then have "row \<in> set (db_runs db1)" "rr_run_id row = i"
      by (auto simp: fetch_run_def find_Some_iff in_set_conv_nth)
    then have "row_of db1 i = Some row" using ok1 by (simp add: row_of_Some)
    then obtain r0 where r0: "row_of db i = Some r0" "row = (if hit r0 then f r0 else r0)"
      by (auto simp: db1_def row_of_update id)
    moreover have "\<not> hit r0" using False n r0 by auto
    ultimately show ?thesis using row by auto
  qed
  show "snd (pg_complete disp now i g st err ten db) = db" if no: "\<not> (\<exists>r. row_of db i = Some r \<and> hit r)"
  proof -
    have "\<not> hit r" if "r \<in> set (db_runs db)" for r
      using no that assms(1) by (auto simp: row_of_Some hit_def may_complete_def)
    then have "update_runs hit f db = (0, db)" by (rule update_none)
    then show ?thesis by (simp add: eq n_def db1_def split: option.split)
  qed
qed

subsection \<open>The port's laws\<close>

text \<open>
  The claim as a port call: an exception (rolled back) reaches the caller as "no run". \<open>lk\<close> says which
  rows other transactions hold at which time.
\<close>

definition pg_claim :: "case_table \<Rightarrow> bool \<Rightarrow> (timestamp \<Rightarrow> uuid set) \<Rightarrow> pg_db claim_op" where
  "pg_claim lc disp lk now w t i db =
     (let (res, db1) = pg_claim_next_run lc disp (lk now) now w t i db
      in (case res of Inl e \<Rightarrow> None | Inr l \<Rightarrow> l, db1))"

lemma pg_claim_fst: "fst (pg_claim lc disp lk now w t i db) = Some l \<longleftrightarrow>
    fst (pg_claim_next_run lc disp (lk now) now w t i db) = Inr (Some l)"
  by (auto simp: pg_claim_def split: prod.splits sum.splits)

lemma pg_claim_snd: "snd (pg_claim lc disp lk now w t i db) = snd (pg_claim_next_run lc disp (lk now) now w t i db)"
  by (simp add: pg_claim_def split: prod.splits)

lemma pg_claim_row:
  assumes "db_ok db" "row_of db j = Some r"
  shows "\<exists>r'. row_of (snd (pg_claim lc disp lk now w t i db)) j = Some r'
    \<and> (r' = r \<or> claimable now r \<and> r' = leased_row now w t r)"
  by (rule pg_claim_cases [OF assms(1), of lc disp "lk now" now w t i]) (use assms(2) in \<open>auto simp: pg_claim_snd\<close>)

lemma pg_claim_lease:
  assumes "db_ok db" "fst (pg_claim lc disp lk now w t i db) = Some l"
  obtains r where "row_of db (lr_run_id l) = Some r" "claimable now r"
    "lr_lease_generation l = rr_lease_generation r + 1" "lr_lease_expires_at l = now + seconds t"
    "row_of (snd (pg_claim lc disp lk now w t i db)) (lr_run_id l) = Some (leased_row now w t r)"
  using assms(2)
  by (rule_tac pg_claim_cases [OF assms(1), of lc disp "lk now" now w t i])
    (auto simp: pg_claim_fst pg_claim_snd)

lemma pg_claim_ok: "db_ok db \<Longrightarrow> db_ok (snd (pg_claim lc disp lk now w t i db))"
  by (rule pg_claim_cases [of db lc disp "lk now" now w t i]) (simp_all add: pg_claim_snd)

lemma pg_enqueue_row:
  assumes "row_of db j = Some r"
  shows "row_of (snd (pg_enqueue uc [] now spec key db)) j = Some r"
proof -
  have "List.find P xs = Some r \<Longrightarrow> List.find P (xs @ ys) = Some r" for P and xs ys :: "run_row list"
    by (induction xs) auto
  then show ?thesis using pg_enqueue_runs [of uc "[]" now spec key db] assms
    by (auto simp: row_of_def)
qed

lemma pg_enqueue_ok: "db_ok db \<Longrightarrow> db_ok (snd (pg_enqueue uc [] now spec key db))"
  using pg_enqueue_runs [of uc "[]" now spec key db] by (auto simp: db_ok_def)

lemma pg_heartbeat_stale:
  assumes "db_ok db" "\<forall>r. row_of db i = Some r \<longrightarrow> \<not> (holds_lease now i g r \<and> can_update (enter_tenant disp ten i db) now r)"
  shows "pg_heartbeat disp lt now i g to ten db = (False, db)"
proof -
  have "update_runs (\<lambda>r. holds_lease now i g r \<and> can_update (enter_tenant disp ten i db) now r) f db = (0, db)" for f
  proof (rule update_none)
    fix r assume "r \<in> set (db_runs db)"
    then show "\<not> (holds_lease now i g r \<and> can_update (enter_tenant disp ten i db) now r)"
      using assms by (auto simp: row_of_Some holds_lease_def)
  qed
  then show ?thesis by (simp add: pg_heartbeat_def Let_def)
qed

lemma pg_complete_stale:
  assumes "db_ok db" "row_of db i = Some r" "rr_lease_generation r \<noteq> g"
  shows "pg_complete disp now i g st err ten db = (False, db)"
proof -
  have no: "\<not> (\<exists>r. row_of db i = Some r \<and> may_complete now i g r \<and> can_update (enter_tenant disp ten i db) now r)"
    using assms by (auto simp: may_complete_def)
  have "\<not> fst (pg_complete disp now i g st err ten db)"
    using pg_complete_row(2) [OF assms(1) refl refl, of disp now i g st err ten] assms(2,3)
    by (auto simp: may_complete_def)
  moreover have "snd (pg_complete disp now i g st err ten db) = db"
    using pg_complete_row(5) [OF assms(1) refl refl] no by blast
  ultimately show ?thesis by (metis prod.collapse)
qed

interpretation pg: lease_queue "pg_enqueue uc []" "pg_claim lc disp lk" "pg_heartbeat disp lt" "pg_complete disp"
  pg_gen db_ok for uc lc disp lk lt
proof (unfold_locales, goal_cases)
  case (1 q spec now key)
  then show ?case by (simp add: pg_enqueue_ok)
next
  case (2 q now w t r)
  then show ?case by (simp add: pg_claim_ok)
next
  case (3 q now r g t' ten)
  then show ?case by (simp add: pg_heartbeat_row(3))
next
  case (4 q now r g st e ten)
  then show ?case by (simp add: pg_complete_row(4))
next
  case (5 q spec i n now key)
  then show ?case by (auto simp: pg_gen_def pg_enqueue_row)
next
  case (6 q i n now w t r)
  then obtain x where x: "row_of q i = Some x" "rr_lease_generation x = n" by (auto simp: pg_gen_def)
  show ?case using pg_claim_row [OF 6(1) x(1), of lc disp lk now w t r] x(2) by (auto simp: pg_gen_def)
next
  case (7 q now w t r l)
  show ?case by (rule pg_claim_lease [OF 7]) (auto simp: pg_gen_def)
next
  case (8 q i n now r g t' ten)
  then obtain x where "row_of q i = Some x" "rr_lease_generation x = n" by (auto simp: pg_gen_def)
  then show ?case by (simp add: pg_gen_def pg_heartbeat_row(1) [OF 8(1) refl])
next
  case (9 q i n now r g st e ten)
  then obtain x where "row_of q i = Some x" "rr_lease_generation x = n" by (auto simp: pg_gen_def)
  then show ?case by (simp add: pg_gen_def pg_complete_row(1) [OF 9(1) refl refl])
next
  case (10 q r n g now t' ten)
  then show ?case by (intro pg_heartbeat_stale) (auto simp: pg_gen_def holds_lease_def)
next
  case (11 q r n g now st e ten)
  then show ?case by (auto simp: pg_gen_def pg_complete_stale)
qed

end
