(* ===== verification/QueueProperties.thy ===== *)
theory QueueProperties
  imports PgQueueProps
begin

text \<open>
  What the two queues promise to the workers, with concrete queues on which the promises are used.
\<close>

subsection \<open>Concrete queues\<close>

definition demo_snapshot :: dataset_snapshot where
  "demo_snapshot = \<lparr>sn_snapshot_id = 3, sn_tenant_id = 1, sn_asset_id = 4, sn_source_kind = u ''OBJECT_FILE'',
     sn_source_descriptor = [], sn_schema_definition = [], sn_total_rows = 10, sn_total_columns = 2, sn_captured_at = 0\<rparr>"

definition demo_spec :: run_spec where
  "demo_spec = \<lparr>rs_run_id = 7, rs_tenant_id = 1, rs_snapshot = demo_snapshot, rs_rules = [],
     rs_policy = default_policy, rs_execution_profile = u ''SPARK_K3S'', rs_outlier_columns = [],
     rs_ruleset_id = Some 5, rs_policy_id = Some 6, rs_created_by = Some 8\<rparr>"

definition demo_row :: run_row where
  "demo_row = queued_row (\<lambda>c. [c]) 0 demo_spec 5 6 8 (u ''k'')"

definition demo_db :: pg_db where
  "demo_db = \<lparr>db_runs = [demo_row], db_events = [], db_snapshots = [], db_rules = [], db_policies = []\<rparr>"

abbreviation free_locks :: "timestamp \<Rightarrow> uuid set" where "free_locks \<equiv> \<lambda>t. {}"

lemma demo_db_ok: "db_ok demo_db"
  by (simp add: demo_db_def db_ok_def)

text \<open>A worker's claim on a table of one claimable row, whatever its generation.\<close>

lemma claim_single:
  assumes "db_runs db = [r]" "claimable now r" "rr_spec r = Some spec"
  shows "fst (pg_claim lc True free_locks now w t None db) =
      Some \<lparr>lr_run_id = rr_run_id r, lr_worker_id = w, lr_lease_generation = rr_lease_generation r + 1,
        lr_claimed_at = (case rr_started_at r of None \<Rightarrow> now | Some x \<Rightarrow> x),
        lr_lease_expires_at = now + seconds t, lr_spec = spec\<rparr>"
    and "db_runs (snd (pg_claim lc True free_locks now w t None db)) = [leased_row now w t r]"
proof -
  have "can_update \<lparr>ctx_tenant = None, is_dispatcher = True\<rparr> now r"
    using assms(2) by (auto simp: claimable_def can_update_def can_select_def)
  then have n: "next_run True {} now None db = Some r"
    using assms(1,2) by (simp add: next_run_def)
  have s: "rr_spec (leased_row now w t r) = Some spec" "rr_started_at (leased_row now w t r) =
      Some (case rr_started_at r of None \<Rightarrow> now | Some x \<Rightarrow> x)"
    using assms(3) by (simp_all add: leased_row_def split: option.split)
  show "fst (pg_claim lc True free_locks now w t None db) =
      Some \<lparr>lr_run_id = rr_run_id r, lr_worker_id = w, lr_lease_generation = rr_lease_generation r + 1,
        lr_claimed_at = (case rr_started_at r of None \<Rightarrow> now | Some x \<Rightarrow> x),
        lr_lease_expires_at = now + seconds t, lr_spec = spec\<rparr>"
    and "db_runs (snd (pg_claim lc True free_locks now w t None db)) = [leased_row now w t r]"
    using assms(1) by (simp_all add: pg_claim_def pg_claim_next_run_def n s Let_def update_runs_def)
qed

lemma demo_row_simps [simp]: "rr_run_id demo_row = 7" "rr_status demo_row = QUEUED" "rr_spec demo_row = Some demo_spec"
  "rr_lease_generation demo_row = 0" "rr_tenant_id demo_row = 1"
  by (simp_all add: demo_row_def queued_row_def demo_spec_def)

definition demo_db1 :: pg_db where
  "demo_db1 = snd (pg_claim (\<lambda>c. [c]) True free_locks 10 (u ''w1'') 300 None demo_db)"

definition demo_db2 :: pg_db where
  "demo_db2 = snd (pg_claim (\<lambda>c. [c]) True free_locks (seconds 400) (u ''w2'') 300 None demo_db1)"

lemma demo_claimed: "db_runs demo_db1 = [leased_row 10 (u ''w1'') 300 demo_row]"
  "\<exists>l. fst (pg_claim (\<lambda>c. [c]) True free_locks 10 (u ''w1'') 300 None demo_db) = Some l
     \<and> lr_run_id l = 7 \<and> lr_lease_generation l = 1"
proof -
  have r: "db_runs demo_db = [demo_row]" "claimable 10 demo_row"
    by (simp_all add: demo_db_def claimable_def)
  show "db_runs demo_db1 = [leased_row 10 (u ''w1'') 300 demo_row]"
    "\<exists>l. fst (pg_claim (\<lambda>c. [c]) True free_locks 10 (u ''w1'') 300 None demo_db) = Some l
     \<and> lr_run_id l = 7 \<and> lr_lease_generation l = 1"
    using claim_single [OF r demo_row_simps(3)] by (simp_all add: demo_db1_def)
qed

lemma demo_reclaimed:
  "\<exists>l. fst (pg_claim (\<lambda>c. [c]) True free_locks (seconds 400) (u ''w2'') 300 None demo_db1) = Some l
     \<and> lr_run_id l = 7 \<and> lr_lease_generation l = 2"
proof -
  have "claimable (seconds 400) (leased_row 10 (u ''w1'') 300 demo_row)"
    "rr_spec (leased_row 10 (u ''w1'') 300 demo_row) = Some demo_spec"
    by (simp_all add: claimable_def leased_row_def lease_expired_def seconds_def)
  from claim_single [OF demo_claimed(1) this] show ?thesis by simp
qed

subsection \<open>Fencing\<close>

text \<open>C4: Fencing in PostgreSQL: once a second lease on a run has been claimed, whatever calls follow, a
  heartbeat or completion with the first lease's generation is refused and changes nothing.\<close>

theorem pg_superseded_lease:
  assumes "db_ok db" "fst (pg_claim lc disp lk now1 w1 t1 r1 db) = Some a"
    and "proper_ops pg_gen (queue_step (pg_enqueue uc []) (pg_claim lc disp lk) (pg_heartbeat disp lt) (pg_complete disp))
      ops1 (snd (pg_claim lc disp lk now1 w1 t1 r1 db))"
    and "q2 = fold (queue_step (pg_enqueue uc []) (pg_claim lc disp lk) (pg_heartbeat disp lt) (pg_complete disp))
      ops1 (snd (pg_claim lc disp lk now1 w1 t1 r1 db))"
    and "fst (pg_claim lc disp lk now2 w2 t2 r2 q2) = Some b" "lr_run_id b = lr_run_id a"
    and "proper_ops pg_gen (queue_step (pg_enqueue uc []) (pg_claim lc disp lk) (pg_heartbeat disp lt) (pg_complete disp))
      ops2 (snd (pg_claim lc disp lk now2 w2 t2 r2 q2))"
    and "q3 = fold (queue_step (pg_enqueue uc []) (pg_claim lc disp lk) (pg_heartbeat disp lt) (pg_complete disp))
      ops2 (snd (pg_claim lc disp lk now2 w2 t2 r2 q2))"
  shows "lr_lease_generation a < lr_lease_generation b
    \<and> pg_heartbeat disp lt now (lr_run_id a) (lr_lease_generation a) to ten q3 = (False, q3)
    \<and> pg_complete disp now (lr_run_id a) (lr_lease_generation a) st e ten q3 = (False, q3)"
  using assms by (rule pg.superseded_lease_rejected)

theorem pg_superseded_lease_witness:
  "pg_heartbeat True 300 500 7 1 None None demo_db2 = (False, demo_db2)
   \<and> pg_complete True 500 7 1 SUCCEEDED None None demo_db2 = (False, demo_db2)"
proof -
  let ?st = "queue_step (pg_enqueue (\<lambda>c. [c]) []) (pg_claim (\<lambda>c. [c]) True free_locks) (pg_heartbeat True 300) (pg_complete True)"
  obtain a where a: "fst (pg_claim (\<lambda>c. [c]) True free_locks 10 (u ''w1'') 300 None demo_db) = Some a"
    "lr_run_id a = 7" "lr_lease_generation a = 1" using demo_claimed(2) by blast
  obtain b where b: "fst (pg_claim (\<lambda>c. [c]) True free_locks (seconds 400) (u ''w2'') 300 None demo_db1) = Some b"
    "lr_run_id b = 7" using demo_reclaimed by blast
  have p: "proper_ops pg_gen ?st [] x" for x by simp
  have e: "demo_db1 = fold ?st [] (snd (pg_claim (\<lambda>c. [c]) True free_locks 10 (u ''w1'') 300 None demo_db))"
    "demo_db2 = fold ?st [] (snd (pg_claim (\<lambda>c. [c]) True free_locks (seconds 400) (u ''w2'') 300 None demo_db1))"
    by (simp_all add: demo_db1_def demo_db2_def)
  from pg_superseded_lease [OF demo_db_ok a(1) p e(1) b(1) _ p e(2), of 500 None None SUCCEEDED None] a b
  show ?thesis by simp
qed

subsection \<open>What a stored run goes through\<close>

abbreviation pg_step :: "case_table \<Rightarrow> case_table \<Rightarrow> bool \<Rightarrow> (timestamp \<Rightarrow> uuid set) \<Rightarrow> int \<Rightarrow> queue_op \<Rightarrow> pg_db \<Rightarrow> pg_db" where
  "pg_step uc lc disp lk lt \<equiv>
     queue_step (pg_enqueue uc []) (pg_claim lc disp lk) (pg_heartbeat disp lt) (pg_complete disp)"

definition finished :: "run_status \<Rightarrow> bool" where
  "finished st \<longleftrightarrow> st \<in> {SUCCEEDED, FAILED, CANCELLED}"

lemma finished_simps [simp]: "\<not> finished QUEUED" "\<not> finished LEASED" "\<not> finished RUNNING"
  "finished SUCCEEDED" "finished FAILED" "finished CANCELLED"
  by (simp_all add: finished_def)

fun op_time :: "queue_op \<Rightarrow> timestamp" where
  "op_time (OpEnqueue now spec key) = now"
| "op_time (OpClaim now w t i) = now"
| "op_time (OpHeartbeat now i g t ten) = now"
| "op_time (OpComplete now i g st e ten) = now"

fun by_holder :: "uuid \<Rightarrow> int \<Rightarrow> queue_op \<Rightarrow> bool" where
  "by_holder i g (OpHeartbeat now j h t ten) = (j = i \<and> h = g)"
| "by_holder i g (OpComplete now j h st e ten) = (j = i \<and> h = g)"
| "by_holder i g op = False"

text \<open>A call leaves a row alone when the row is neither claimable nor held by the caller.\<close>

lemma step_keeps_row:
  assumes "db_ok db" "row_of db i = Some r" "\<not> claimable (op_time op) r"
    and "finished (rr_status r) \<or> \<not> by_holder i (rr_lease_generation r) op"
  shows "row_of (pg_step uc lc disp lk lt op db) i = Some r"
proof (cases op)
  case (OpEnqueue now spec key)
  then show ?thesis by (simp add: pg_enqueue_row assms(2))
next
  case (OpClaim now w t j)
  then show ?thesis using pg_claim_row [OF assms(1,2), of lc disp lk now w t j] assms(3) by auto
next
  case (OpHeartbeat now j g t ten)
  have "rr_run_id r = i" using assms(1,2) by (simp add: row_of_Some)
  then have "\<not> holds_lease now j g r" using assms(4) OpHeartbeat by (auto simp: holds_lease_def finished_def)
  then show ?thesis by (simp add: OpHeartbeat pg_heartbeat_row(1) [OF assms(1) refl] assms(2))
next
  case (OpComplete now j g st e ten)
  have "rr_run_id r = i" using assms(1,2) by (simp add: row_of_Some)
  then have "\<not> may_complete now j g r" using assms(4) OpComplete by (auto simp: may_complete_def finished_def)
  then show ?thesis by (simp add: OpComplete pg_complete_row(1) [OF assms(1) refl refl] assms(2))
qed

lemma ops_keep_row:
  assumes "db_ok db" "proper_ops pg_gen (pg_step uc lc disp lk lt) ops db" "row_of db i = Some r"
    and "\<forall>op \<in> set ops. \<not> claimable (op_time op) r \<and> (finished (rr_status r) \<or> \<not> by_holder i (rr_lease_generation r) op)"
  shows "row_of (fold (pg_step uc lc disp lk lt) ops db) i = Some r"
  using assms
proof (induction ops arbitrary: db)
  case (Cons op ops)
  have "db_ok (pg_step uc lc disp lk lt op db)"
    using Cons.prems by (intro pg.step_ok) auto
  moreover have "row_of (pg_step uc lc disp lk lt op db) i = Some r"
    using Cons.prems by (intro step_keeps_row) auto
  ultimately show ?case using Cons by auto
qed simp

text \<open>C18: A finished run is final: whatever calls follow, from whichever workers, its row never changes.\<close>

theorem pg_finished_final:
  assumes "db_ok db" "proper_ops pg_gen (pg_step uc lc disp lk lt) ops db"
    and "row_of db i = Some r" "finished (rr_status r)"
  shows "row_of (fold (pg_step uc lc disp lk lt) ops db) i = Some r"
  using assms(4) by (intro ops_keep_row [OF assms(1-3)]) (auto simp: claimable_def finished_def)

definition demo_done :: pg_db where
  "demo_done = demo_db\<lparr>db_runs := [demo_row\<lparr>rr_status := SUCCEEDED, rr_lease_generation := 1\<rparr>]\<rparr>"

lemma demo_done_row: "row_of demo_done 7 = Some (demo_row\<lparr>rr_status := SUCCEEDED, rr_lease_generation := 1\<rparr>)"
  and demo_done_ok: "db_ok demo_done"
  by (simp_all add: demo_done_def demo_db_def row_of_def db_ok_def)

theorem pg_finished_final_witness:
  "row_of (fold (pg_step (\<lambda>c. [c]) (\<lambda>c. [c]) True free_locks 300)
     [OpComplete 10 7 1 FAILED None None, OpClaim (seconds 1000) (u ''w'') 300 None] demo_done) 7 =
   Some (demo_row\<lparr>rr_status := SUCCEEDED, rr_lease_generation := 1\<rparr>)"
  by (rule pg_finished_final [OF demo_done_ok _ demo_done_row]) simp_all

text \<open>C17: Mutual exclusion: until a lease expires, calls other than its holder's own heartbeats and
  completion leave the run's row as it is; in particular no other worker can claim it.\<close>

theorem pg_lease_exclusive:
  assumes "db_ok db" "proper_ops pg_gen (pg_step uc lc disp lk lt) ops db"
    and "row_of db i = Some r" "rr_status r \<in> {LEASED, RUNNING}" "rr_lease_expires_at r = Some e"
    and "\<forall>op \<in> set ops. op_time op \<le> e \<and> \<not> by_holder i (rr_lease_generation r) op"
  shows "row_of (fold (pg_step uc lc disp lk lt) ops db) i = Some r"
  using assms(4-6) by (intro ops_keep_row [OF assms(1-3)]) (auto simp: claimable_def lease_expired_def)

theorem pg_lease_exclusive_witness:
  "row_of (fold (pg_step (\<lambda>c. [c]) (\<lambda>c. [c]) True free_locks 300)
     [OpClaim (seconds 300) (u ''w2'') 300 None, OpHeartbeat 20 7 0 None None] demo_db1) 7 =
   Some (leased_row 10 (u ''w1'') 300 demo_row)"
proof (rule pg_lease_exclusive)
  show "db_ok demo_db1" by (simp add: db_ok_def demo_claimed(1))
  show "row_of demo_db1 7 = Some (leased_row 10 (u ''w1'') 300 demo_row)"
    by (simp add: row_of_def demo_claimed(1))
  show "rr_lease_expires_at (leased_row 10 (u ''w1'') 300 demo_row) = Some (10 + seconds 300)" by simp
qed (simp_all add: leased_row_def seconds_def)

text \<open>Tenant isolation by row level security: a heartbeat or completion issued under a tenant other
  than the run's changes no row and writes no event; the heartbeat is refused.\<close>

theorem pg_tenant_isolation:
  assumes "db_ok db" "row_of db i = Some r" "rr_tenant_id r \<noteq> t"
  shows "pg_heartbeat disp lt now i g to (Some t) db = (False, db)
    \<and> snd (pg_complete disp now i g st e (Some t) db) = db"
proof -
  have no: "\<not> (holds_lease now i g x \<and> can_update (enter_tenant disp (Some t) i db) now x)"
    "\<not> (may_complete now i g x \<and> rr_lease_expires_at x \<noteq> None \<and> can_update (enter_tenant disp (Some t) i db) now x)"
    if "row_of db i = Some x" for x
    using that assms(2,3)
    by (auto simp: enter_tenant_def holds_lease_def may_complete_def can_update_def lease_expired_def split: option.splits)
  have nolease: "\<not> (may_complete now i g x \<and> can_update (enter_tenant disp (Some t) i db) now x)" if "row_of db i = Some x" for x
    using that assms(2,3)
    by (auto simp: enter_tenant_def may_complete_def can_update_def lease_expired_def split: option.splits)
  show ?thesis
    using no(1) nolease by (auto intro!: pg_heartbeat_stale [OF assms(1)] pg_complete_row(5) [OF assms(1) refl refl])
qed

theorem pg_tenant_isolation_witness:
  "pg_heartbeat True 300 20 7 1 None (Some 2) demo_db1 = (False, demo_db1)
   \<and> snd (pg_complete True 20 7 1 SUCCEEDED None (Some 2) demo_db1) = demo_db1"
proof (rule pg_tenant_isolation)
  show "db_ok demo_db1" by (simp add: db_ok_def demo_claimed(1))
  show "row_of demo_db1 7 = Some (leased_row 10 (u ''w1'') 300 demo_row)"
    by (simp add: row_of_def demo_claimed(1))
  show "rr_tenant_id (leased_row 10 (u ''w1'') 300 demo_row) \<noteq> 2" by (simp add: leased_row_def)
qed

text \<open>Enqueueing is idempotent per tenant and key, also when a concurrent request commits between the
  lookup and the insert: every later call with the key returns the same run and stores no row.\<close>

theorem pg_enqueue_idempotent:
  assumes "fst (pg_enqueue uc raced now spec key db) = Inr i"
    and "rs_tenant_id spec2 = rs_tenant_id spec" "rs_ruleset_id spec2 \<noteq> None" "rs_policy_id spec2 \<noteq> None"
    and "rs_created_by spec2 \<noteq> None"
    and "db2 = snd (pg_enqueue uc raced now spec key db)"
  shows "pg_enqueue uc [] now2 spec2 key db2 = (Inr i, db2)"
proof -
  have find_app: "List.find P (xs @ ys) = (case List.find P xs of None \<Rightarrow> List.find P ys | Some r \<Rightarrow> Some r)"
    for P and xs ys :: "run_row list" by (induction xs) auto
  have "\<exists>r. find_key (rs_tenant_id spec) key (db_runs db2) = Some r \<and> rr_run_id r = i"
    using assms(1)
    by (auto simp: assms(6) pg_enqueue_def Let_def find_key_def insert_event_def queued_row_def find_app
        split: option.splits if_splits)
  then show ?thesis using assms(2-5) by (auto simp: pg_enqueue_def)
qed

theorem pg_enqueue_idempotent_witness:
  "pg_enqueue (\<lambda>c. [c]) [] 5 demo_spec (u ''k'')
     (snd (pg_enqueue (\<lambda>c. [c]) [demo_row] 0 (demo_spec\<lparr>rs_run_id := 9\<rparr>) (u ''k'') (demo_db\<lparr>db_runs := []\<rparr>))) =
   (Inr 7, snd (pg_enqueue (\<lambda>c. [c]) [demo_row] 0 (demo_spec\<lparr>rs_run_id := 9\<rparr>) (u ''k'') (demo_db\<lparr>db_runs := []\<rparr>)))"
  by (rule pg_enqueue_idempotent [OF _ _ _ _ _ refl])
    (simp_all add: pg_enqueue_def demo_spec_def demo_db_def find_key_def demo_row_def queued_row_def
      stored_profile_def py_upper_def upper_cp_def u_def Let_def)

text \<open>Completion is idempotent: repeating a finishing call that succeeded, under the run's tenant and at
  any later time, succeeds again and changes nothing.\<close>

theorem pg_complete_idempotent:
  assumes "db_ok db" "fst (pg_complete disp now i g st e (Some t) db)" "finished st"
    and "row_of db i = Some r" "rr_tenant_id r = t"
    and "db2 = snd (pg_complete disp now i g st e (Some t) db)"
  shows "pg_complete disp now2 i g st e2 (Some t) db2 = (True, db2)"
proof -
  define se where "se = enter_tenant disp (Some t) i db2"
  have se: "ctx_tenant se = Some t" by (simp add: se_def enter_tenant_def)
  have ok: "db_ok db2" unfolding assms(6) by (rule pg_complete_row(4) [OF assms(1) refl refl])
  obtain r2 where r2: "row_of db2 i = Some r2" "rr_status r2 = st" "rr_lease_generation r2 = g" "rr_tenant_id r2 = t"
    using pg_complete_row(1) [OF assms(1) refl refl, of disp now i g st e "Some t" i]
      pg_complete_row(2) [OF assms(1) refl refl assms(2)] assms(4,5)
    by (auto simp: assms(6) may_complete_def split: if_splits)
  have no: "\<not> may_complete now2 i g r2" using assms(3) r2(2) by (auto simp: may_complete_def finished_def)
  have none: "\<not> (\<exists>r. row_of db2 i = Some r \<and> may_complete now2 i g r \<and> can_update se now2 r)"
    using no r2(1) by auto
  have upd: "update_runs (\<lambda>r. may_complete now2 i g r \<and> can_update se now2 r) f db2 = (0, db2)" for f
    by (rule update_none) (use none ok in \<open>auto simp: row_of_Some may_complete_def\<close>)
  have "fetch_run se i db2 = Some r2"
    using ok r2(1) by (rule fetch_run_row) (simp add: can_select_def se r2(4))
  then show ?thesis by (simp add: pg_complete_def se_def [symmetric] upd Let_def r2)
qed

theorem pg_complete_idempotent_witness:
  "pg_complete True 50 7 1 SUCCEEDED None (Some 1) (snd (pg_complete True 20 7 1 SUCCEEDED None (Some 1) demo_db1)) =
    (True, snd (pg_complete True 20 7 1 SUCCEEDED None (Some 1) demo_db1))"
proof (rule pg_complete_idempotent [OF _ _ _ _ _ refl])
  show ok: "db_ok demo_db1" by (simp add: db_ok_def demo_claimed(1))
  show row: "row_of demo_db1 7 = Some (leased_row 10 (u ''w1'') 300 demo_row)"
    by (simp add: row_of_def demo_claimed(1))
  show "rr_tenant_id (leased_row 10 (u ''w1'') 300 demo_row) = 1" by (simp add: leased_row_def)
  show "fst (pg_complete True 20 7 1 SUCCEEDED None (Some 1) demo_db1)"
    by (rule pg_complete_row(3) [OF ok refl refl row])
      (simp add: may_complete_def leased_row_def seconds_def can_update_def can_select_def enter_tenant_def)
qed simp

subsection \<open>The in-memory adapter\<close>

text \<open>The in-memory queue fences under the same contract: after a claim handed out generation n, a
  heartbeat or completion with an older generation is refused for ever and changes nothing.\<close>

theorem mem_stale_lease:
  assumes "mq_ok q" "fst (mq_claim now1 w1 t1 r1 q) = Some a"
    and "proper_ops mq_generations (queue_step mq_enqueue mq_claim mq_heartbeat mq_complete) ops
      (snd (mq_claim now1 w1 t1 r1 q))"
    and "q2 = fold (queue_step mq_enqueue mq_claim mq_heartbeat mq_complete) ops (snd (mq_claim now1 w1 t1 r1 q))"
    and "g < lr_lease_generation a"
  shows "mq_heartbeat now (lr_run_id a) g to ten q2 = (False, q2)
    \<and> mq_complete now (lr_run_id a) g st e ten q2 = (False, q2)"
proof -
  have "mq_generations (snd (mq_claim now1 w1 t1 r1 q)) (lr_run_id a) = Some (lr_lease_generation a)"
    using mem.cl_new [OF assms(1,2)] by simp
  from mem.stale_rejected [OF mem.cl_ok [OF assms(1)] assms(3) this assms(5)] show ?thesis
    by (simp add: assms(4))
qed

definition demo_mem :: mem_queue where
  "demo_mem = snd (mq_enqueue 0 demo_spec (u ''k'') mq_empty)"

lemma demo_mem_ok: "mq_ok demo_mem"
  unfolding demo_mem_def by (rule mem.enq_ok [OF mq_ok_empty]) (simp add: mq_empty_def)

theorem mem_stale_lease_witness:
  "mq_complete 40 7 0 FAILED None None (snd (mq_heartbeat 20 7 1 None None (snd (mq_claim 10 (u ''w'') 300 None demo_mem)))) =
    (False, snd (mq_heartbeat 20 7 1 None None (snd (mq_claim 10 (u ''w'') 300 None demo_mem))))"
proof -
  obtain a where a: "fst (mq_claim 10 (u ''w'') 300 None demo_mem) = Some a" "lr_run_id a = 7" "lr_lease_generation a = 1"
    by (simp add: demo_mem_def mq_claim_def mq_dequeue_def mq_enqueue_def mq_empty_def demo_spec_def Let_def)
  from mem_stale_lease [OF demo_mem_ok a(1), of "[OpHeartbeat 20 7 1 None None]", OF _ refl, of 0 40 None None FAILED None]
  show ?thesis by (simp add: a)
qed

text \<open>The in-memory adapter adopts a generation nobody was given: a completion of a queued run with an
  invented generation succeeds, and the run is still dequeued and started afterwards.\<close>

theorem mem_forged_generation:
  "fst (mq_complete 5 7 99 SUCCEEDED None None demo_mem)
   \<and> mq_get_status 7 None (snd (mq_complete 5 7 99 SUCCEEDED None None demo_mem)) = Some SUCCEEDED
   \<and> mq_get_status 7 None (snd (mq_claim 10 (u ''w'') 300 None (snd (mq_complete 5 7 99 SUCCEEDED None None demo_mem))))
      = Some RUNNING"
  by (simp add: demo_mem_def mq_complete_def mq_adopt_def mq_get_status_def mq_wrong_tenant_def mq_claim_def
      mq_dequeue_def mq_enqueue_def mq_empty_def demo_spec_def Let_def)

end
