(* ===== verification/AssessStore.thy ===== *)
theory AssessStore
  imports Redaction Validation QueueProperties
begin

text \<open>
  \<open>ports/assessment_store.py\<close>, \<open>adapters/db/in_memory_assessment_store.py\<close> and
  \<open>adapters/db/postgres_assessment_store.py\<close>: publishing an assessment under lease fencing and reading it
  back. The PostgreSQL tables carry the CHECK and UNIQUE constraints of the schema that the inserts can
  hit; foreign keys are not modelled. \<open>real4\<close> is what a REAL column keeps of a double.
\<close>

subsection \<open>The in-memory store\<close>

record mem_store =
  ms_assessments :: "uuid \<Rightarrow> immutable_assessment option"
  ms_rule_results :: "uuid \<Rightarrow> quality_rule_result list option"
  ms_run_to_assessment :: "uuid \<Rightarrow> uuid option"
  ms_last_lease_gen :: "uuid \<Rightarrow> int option"

definition ms_empty :: mem_store where
  "ms_empty = \<lparr>ms_assessments = Map.empty, ms_rule_results = Map.empty, ms_run_to_assessment = Map.empty,
     ms_last_lease_gen = Map.empty\<rparr>"

definition ms_save :: "immutable_assessment \<Rightarrow> quality_rule_result list \<Rightarrow> int \<Rightarrow> mem_store \<Rightarrow> (string + unit) \<times> mem_store" where
  "ms_save a rs g st =
     (let current = (case ms_last_lease_gen st (a_run_id a) of None \<Rightarrow> 0 | Some n \<Rightarrow> n)
      in if g < current then (Inl ''PermissionError'', st)
         else (Inr (), st\<lparr>ms_last_lease_gen := (ms_last_lease_gen st)(a_run_id a \<mapsto> g),
                 ms_assessments := (ms_assessments st)(a_assessment_id a \<mapsto> a),
                 ms_rule_results := (ms_rule_results st)(a_assessment_id a \<mapsto> rs),
                 ms_run_to_assessment := (ms_run_to_assessment st)(a_run_id a \<mapsto> a_assessment_id a)\<rparr>))"

definition ms_get :: "uuid \<Rightarrow> uuid option \<Rightarrow> mem_store \<Rightarrow> immutable_assessment option" where
  "ms_get aid ten st =
     (case ms_assessments st aid of
        None \<Rightarrow> None
      | Some a \<Rightarrow> (case ten of None \<Rightarrow> Some a | Some t \<Rightarrow> if a_tenant_id a \<noteq> t then None else Some a))"

definition ms_get_by_run :: "uuid \<Rightarrow> uuid option \<Rightarrow> mem_store \<Rightarrow> immutable_assessment option" where
  "ms_get_by_run r ten st = (case ms_run_to_assessment st r of None \<Rightarrow> None | Some aid \<Rightarrow> ms_get aid ten st)"

definition ms_get_rule_results :: "uuid \<Rightarrow> uuid option \<Rightarrow> mem_store \<Rightarrow> quality_rule_result list" where
  "ms_get_rule_results aid ten st =
     (if ten \<noteq> None \<and> ms_get aid ten st = None then []
      else case ms_rule_results st aid of None \<Rightarrow> [] | Some rs \<Rightarrow> rs)"

subsection \<open>Tables\<close>

record assessment_row =
  ar_assessment_id :: uuid
  ar_tenant_id :: uuid
  ar_run_id :: uuid
  ar_snapshot_id :: uuid
  ar_dq_score :: "pyfloat option"
  ar_publication_status :: publication_status
  ar_coverage_ratio :: "pyfloat option"
  ar_confidence_status :: ident
  ar_quality_gate :: quality_gate_status
  ar_config_hashes :: "(ident \<times> ustr) list"
  ar_assessment_hash :: ident
  ar_published_at :: timestamp

record dimension_row =
  dr_tenant_id :: uuid
  dr_assessment_id :: uuid
  dr_dimension :: ident
  dr_measurement_status :: ident
  dr_dimension_score :: "pyfloat option"
  dr_dimension_weight :: pyfloat
  dr_total_rules :: int
  dr_measured_rules :: int
  dr_coverage_ratio :: "pyfloat option"

record result_row =
  cr_tenant_id :: uuid
  cr_run_id :: uuid
  cr_rule_id :: "uuid option"
  cr_ruleset_id :: "uuid option"
  cr_rule_config_hash :: ident
  cr_source_kind :: ident
  cr_target_column :: ustr
  cr_dimension :: ident
  cr_measurement_status :: ident
  cr_counts :: rule_counts
  cr_computed_score :: "pyfloat option"
  cr_is_advisory :: bool
  cr_is_required :: bool
  cr_gate_enabled :: bool
  cr_score_enabled :: bool
  cr_evidence :: "evidence_payload option"
  cr_violations_count :: int

record outbox_row =
  ob_tenant_id :: uuid
  ob_assessment_id :: uuid
  ob_destination :: ident
  ob_payload :: jdict
  ob_status :: ident
  ob_created_at :: timestamp

record store_db =
  st_pg :: pg_db
  st_assessments :: "assessment_row list"
  st_dimensions :: "dimension_row list"
  st_results :: "result_row list"
  st_outbox :: "outbox_row list"

text \<open>What the environment contributes: Unicode data, number texts, SHA-256, REAL columns, stored hashes.\<close>

record store_env =
  en_ud :: unidata
  en_nt :: number_text
  en_sha :: "ustr \<Rightarrow> ustr"
  en_real4 :: "pyfloat \<Rightarrow> pyfloat"
  en_config_hashes :: "uuid \<Rightarrow> (ident \<times> ustr) list"

definition standard_dimensions :: "ident list" where
  "standard_dimensions = map dimension_value [COMPLETENESS, ACCURACY, CONSISTENCY, TIMELINESS, UNIQUENESS, VALIDITY]"

definition measurement_statuses :: "ident list" where
  "measurement_statuses = map measurement_value
     [MEASURED, NOT_APPLICABLE, NOT_MEASURABLE, INSUFFICIENT_DATA, SKIPPED_BY_BUDGET, FAILED_TO_MEASURE]"

definition score_in :: "pyfloat \<Rightarrow> pyfloat option \<Rightarrow> bool" where
  "score_in hi s \<longleftrightarrow> (case s of None \<Rightarrow> True | Some x \<Rightarrow> 0 \<le> x \<and> x \<le> hi)"

definition assessment_row_ok :: "assessment_row list \<Rightarrow> assessment_row \<Rightarrow> bool" where
  "assessment_row_ok rows r \<longleftrightarrow>
     ar_assessment_id r \<notin> ar_assessment_id ` set rows \<and> ar_run_id r \<notin> ar_run_id ` set rows
     \<and> score_in 100 (ar_dq_score r) \<and> score_in 1 (ar_coverage_ratio r)
     \<and> (ar_publication_status r = PUBLISHED \<longleftrightarrow> ar_dq_score r \<noteq> None)"

definition dimension_row_ok :: "dimension_row list \<Rightarrow> dimension_row \<Rightarrow> bool" where
  "dimension_row_ok rows r \<longleftrightarrow>
     dr_dimension r \<in> set standard_dimensions \<and> score_in 100 (dr_dimension_score r) \<and> score_in 1 (dr_coverage_ratio r)
     \<and> 0 \<le> dr_dimension_weight r
     \<and> (dr_tenant_id r, dr_assessment_id r, dr_dimension r)
         \<notin> (\<lambda>x. (dr_tenant_id x, dr_assessment_id x, dr_dimension x)) ` set rows"

definition result_row_ok :: "result_row \<Rightarrow> bool" where
  "result_row_ok r \<longleftrightarrow>
     cr_source_kind r \<in> {u ''RULE'', u ''OUTLIER'', u ''DRIFT''} \<and> cr_dimension r \<in> set standard_dimensions
     \<and> cr_measurement_status r \<in> set measurement_statuses \<and> counts_nonneg (cr_counts r)
     \<and> score_in 100 (cr_computed_score r) \<and> verify_partition_identity (cr_counts r)
     \<and> 0 \<le> cr_violations_count r"

subsection \<open>Publishing\<close>

definition fence_run :: "timestamp \<Rightarrow> uuid \<Rightarrow> uuid \<Rightarrow> int \<Rightarrow> pg_db \<Rightarrow> nat \<times> pg_db" where
  "fence_run now ten i g db =
     update_runs (\<lambda>r. may_complete now i g r \<and> can_update \<lparr>ctx_tenant = Some ten, is_dispatcher = False\<rparr> now r)
       (\<lambda>r. r\<lparr>rr_status := SUCCEEDED, rr_completed_at := Some now\<rparr>) db"

definition assessment_row_of :: "store_env \<Rightarrow> immutable_assessment \<Rightarrow> assessment_row" where
  "assessment_row_of en a =
     \<lparr>ar_assessment_id = a_assessment_id a, ar_tenant_id = a_tenant_id a, ar_run_id = a_run_id a,
      ar_snapshot_id = a_snapshot_id a, ar_dq_score = map_option (en_real4 en) (a_dq_score a),
      ar_publication_status = a_publication_status a,
      ar_coverage_ratio = map_option (en_real4 en) (a_coverage_ratio a),
      ar_confidence_status = a_confidence_status a, ar_quality_gate = a_quality_gate a,
      ar_config_hashes = en_config_hashes en (a_run_id a), ar_assessment_hash = a_assessment_hash a,
      ar_published_at = a_created_at a\<rparr>"

definition dimension_row_of :: "store_env \<Rightarrow> immutable_assessment \<Rightarrow> dimension_result \<Rightarrow> dimension_row" where
  "dimension_row_of en a d =
     \<lparr>dr_tenant_id = a_tenant_id a, dr_assessment_id = a_assessment_id a,
      dr_dimension = py_upper (ud_upper (en_ud en)) (d_dimension d),
      dr_measurement_status = (if d_dimension_score d \<noteq> None then u ''MEASURED'' else u ''NOT_MEASURABLE''),
      dr_dimension_score = map_option (en_real4 en) (d_dimension_score d),
      dr_dimension_weight = en_real4 en (d_dimension_weight d),
      dr_total_rules = int (length (d_rule_results d)),
      dr_measured_rules = int (length (filter (\<lambda>r. measurement r = measurement_value MEASURED) (d_rule_results d))),
      dr_coverage_ratio = map_option (en_real4 en) (d_coverage_ratio d)\<rparr>"

definition result_counts :: "quality_rule_result \<Rightarrow> rule_counts" where
  "result_counts r =
     (case counts r of
        Some c \<Rightarrow> c
      | None \<Rightarrow> if violations_count r > 0
                then zero_counts\<lparr>failed := violations_count r, total_observed := violations_count r\<rparr> else zero_counts)"

definition stored_source_kind :: "quality_rule_result \<Rightarrow> ident" where
  "stored_source_kind r =
     (if source_kind r \<noteq> [] then source_kind r else if is_advisory r then u ''OUTLIER'' else u ''RULE'')"

text \<open>\<open>UUID(str(rule_id))\<close> on the canonical text form, which is the only one the services write.\<close>

definition hex_value :: "nat \<Rightarrow> nat option" where
  "hex_value c = (if 48 \<le> c \<and> c \<le> 57 then Some (c - 48) else if 97 \<le> c \<and> c \<le> 102 then Some (c - 87)
     else if 65 \<le> c \<and> c \<le> 70 then Some (c - 55) else None)"

fun hex_read :: "nat \<Rightarrow> ustr \<Rightarrow> nat option" where
  "hex_read acc [] = Some acc"
| "hex_read acc (c # cs) = (case hex_value c of None \<Rightarrow> None | Some d \<Rightarrow> hex_read (16 * acc + d) cs)"

definition uuid_of_str :: "ustr \<Rightarrow> uuid option" where
  "uuid_of_str s = (let h = filter (\<lambda>c. c \<noteq> 45) s in if length h = 32 then hex_read 0 h else None)"

definition outlier_prefix :: ustr where "outlier_prefix = u ''outlier_iqr_''"

definition stored_target_column :: "quality_rule_result \<Rightarrow> ustr" where
  "stored_target_column r =
     (case target_column r of
        Some (c # cs) \<Rightarrow> c # cs
      | _ \<Rightarrow> if is_prefix outlier_prefix (rule_id r) then drop (length outlier_prefix) (rule_id r) else u ''column'')"

definition stored_config_hash :: "store_env \<Rightarrow> quality_rule_result \<Rightarrow> ident" where
  "stored_config_hash en r =
     (case rule_config_hash r of
        Some (c # cs) \<Rightarrow> c # cs
      | _ \<Rightarrow> if stored_source_kind r = u ''OUTLIER'' then en_sha en (u ''OUTLIER:'' @ stored_target_column r)
             else en_sha en (rule_id r @ [58] @ stored_target_column r @ [58] @ dimension r))"

definition result_row_of ::
  "store_env \<Rightarrow> immutable_assessment \<Rightarrow> uuid option \<Rightarrow> quality_rule_result \<Rightarrow> evidence_payload \<Rightarrow> result_row" where
  "result_row_of en a rsid r ev =
     \<lparr>cr_tenant_id = a_tenant_id a, cr_run_id = a_run_id a,
      cr_rule_id = (if stored_source_kind r = u ''RULE'' then uuid_of_str (rule_id r) else None),
      cr_ruleset_id = (if stored_source_kind r = u ''RULE'' then rsid else None),
      cr_rule_config_hash = stored_config_hash en r, cr_source_kind = stored_source_kind r,
      cr_target_column = stored_target_column r, cr_dimension = py_upper (ud_upper (en_ud en)) (dimension r),
      cr_measurement_status = py_upper (ud_upper (en_ud en)) (measurement r), cr_counts = result_counts r,
      cr_computed_score = map_option (en_real4 en) (computed_score r), cr_is_advisory = is_advisory r,
      cr_is_required = is_required r, cr_gate_enabled = gate_enabled r, cr_score_enabled = score_enabled r,
      cr_evidence = (if ep_error_message ev = None \<and> ep_samples ev = None then None else Some ev),
      cr_violations_count = violations_count r\<rparr>"

fun insert_quality_results ::
  "store_env \<Rightarrow> immutable_assessment \<Rightarrow> uuid option \<Rightarrow> int \<Rightarrow> quality_rule_result list \<Rightarrow> string + result_row list" where
  "insert_quality_results en a rsid tot [] = Inr []"
| "insert_quality_results en a rsid tot (r # rs) =
     (let budget = max 0 (MAX_ASSESSMENT_EVIDENCE_BYTES - tot)
      in case prepare_bounded_evidence_payload (en_ud en) (en_nt en) (evidence_samples r) (error_message r)
                MAX_EVIDENCE_ROWS_PER_RESULT (min MAX_RESULT_EVIDENCE_BYTES budget) of
           Inl e \<Rightarrow> Inl e
         | Inr ev \<Rightarrow>
             (case encoded_size (en_nt en) ev of
                None \<Rightarrow> Inl ''UnicodeEncodeError''
              | Some n \<Rightarrow>
                  if \<not> result_row_ok (result_row_of en a rsid r ev) then Inl ''CheckViolation''
                  else (case insert_quality_results en a rsid (tot + int n) rs of
                          Inl e \<Rightarrow> Inl e
                        | Inr rows \<Rightarrow> Inr (result_row_of en a rsid r ev # rows))))"

fun insert_dimensions :: "store_env \<Rightarrow> immutable_assessment \<Rightarrow> dimension_row list \<Rightarrow> dimension_result list \<Rightarrow> string + dimension_row list" where
  "insert_dimensions en a rows [] = Inr rows"
| "insert_dimensions en a rows (d # ds) =
     (if dimension_row_ok rows (dimension_row_of en a d)
      then insert_dimensions en a (rows @ [dimension_row_of en a d]) ds else Inl ''CheckViolation'')"

definition outbox_of :: "timestamp \<Rightarrow> immutable_assessment \<Rightarrow> outbox_row" where
  "outbox_of now a =
     \<lparr>ob_tenant_id = a_tenant_id a, ob_assessment_id = a_assessment_id a, ob_destination = u ''LAKEHOUSE_DELTA'',
      ob_payload = [(u ''assessment_id'', JStr (uuid_str (a_assessment_id a))),
        (u ''tenant_id'', JStr (uuid_str (a_tenant_id a))), (u ''run_id'', JStr (uuid_str (a_run_id a))),
        (u ''dq_score'', case a_dq_score a of None \<Rightarrow> JNull | Some x \<Rightarrow> JFloat x),
        (u ''publication_status'', JStr (publication_value (a_publication_status a))),
        (u ''quality_gate'', JStr (gate_value (a_quality_gate a))),
        (u ''assessment_hash'', JStr (a_assessment_hash a))],
      ob_status = u ''PENDING'', ob_created_at = now\<rparr>"

definition succeeded_event :: "timestamp \<Rightarrow> immutable_assessment \<Rightarrow> int \<Rightarrow> int \<Rightarrow> run_event" where
  "succeeded_event now a attempts g =
     \<lparr>ev_tenant_id = a_tenant_id a, ev_run_id = a_run_id a, ev_type = u ''RUN_SUCCEEDED'',
      ev_attempt_count = attempts, ev_lease_generation = g,
      ev_payload = [(u ''assessment_id'', JStr (uuid_str (a_assessment_id a)))], ev_created_at = now\<rparr>"

definition save_assessment_atomic ::
  "store_env \<Rightarrow> timestamp \<Rightarrow> immutable_assessment \<Rightarrow> quality_rule_result list \<Rightarrow> int \<Rightarrow> store_db \<Rightarrow> (string + unit) \<times> store_db" where
  "save_assessment_atomic en now a rs g db =
     (let (n, pg1) = fence_run now (a_tenant_id a) (a_run_id a) g (st_pg db);
          row = assessment_row_of en a;
          se = \<lparr>ctx_tenant = Some (a_tenant_id a), is_dispatcher = False\<rparr>;
          run = fetch_run se (a_run_id a) pg1
      in if n = 0 then (Inl ''PermissionError'', db)
         else if \<not> assessment_row_ok (st_assessments db) row then (Inl ''CheckViolation'', db)
         else case insert_dimensions en a (st_dimensions db) (a_dimension_results a) of
           Inl e \<Rightarrow> (Inl e, db)
         | Inr dims \<Rightarrow>
             (case insert_quality_results en a (map_option rr_ruleset_id run) 0 rs of
                Inl e \<Rightarrow> (Inl e, db)
              | Inr rows \<Rightarrow>
                  (Inr (), db\<lparr>st_pg := insert_event (succeeded_event now a
                                   (case run of None \<Rightarrow> 1 | Some r \<Rightarrow> rr_attempt_count r) g) pg1,
                     st_assessments := st_assessments db @ [row], st_dimensions := dims,
                     st_results := st_results db @ rows, st_outbox := st_outbox db @ [outbox_of now a]\<rparr>)))"

subsection \<open>Reading back\<close>

text \<open>Rows of the publication tables are visible to their tenant only, or to a role that bypasses policies.\<close>

definition tenant_visible :: "bool \<Rightarrow> uuid option \<Rightarrow> uuid \<Rightarrow> bool" where
  "tenant_visible bypass ctx t \<longleftrightarrow> bypass \<or> ctx = Some t"

definition find_assessment :: "bool \<Rightarrow> uuid option \<Rightarrow> (assessment_row \<Rightarrow> bool) \<Rightarrow> store_db \<Rightarrow> assessment_row option" where
  "find_assessment bypass ten p db =
     List.find (\<lambda>r. p r \<and> tenant_visible bypass ten (ar_tenant_id r)
        \<and> (case ten of None \<Rightarrow> True | Some t \<Rightarrow> ar_tenant_id r = t)) (st_assessments db)"

definition loaded_rule_id :: "result_row \<Rightarrow> ident" where
  "loaded_rule_id r =
     (case cr_rule_id r of
        Some i \<Rightarrow> uuid_str i
      | None \<Rightarrow> if cr_source_kind r = u ''OUTLIER'' \<and> cr_target_column r \<noteq> [] then outlier_prefix @ cr_target_column r
                else u ''unknown'')"

definition loaded_result :: "result_row \<Rightarrow> quality_rule_result" where
  "loaded_result r =
     \<lparr>rule_id = loaded_rule_id r, dimension = cr_dimension r, measurement = cr_measurement_status r,
      is_critical = False, is_advisory = cr_is_advisory r, is_required = cr_is_required r,
      gate_enabled = cr_gate_enabled r, score_enabled = cr_score_enabled r, conflict_group = None,
      is_primary_scoring_rule = True, contribution_weight = 1, acceptance_threshold = None, confidence = None,
      computed_score = cr_computed_score r,
      violations_count = failed (cr_counts r) + miscast (cr_counts r), counts = Some (cr_counts r),
      evidence_samples = (case cr_evidence r of None \<Rightarrow> None | Some p \<Rightarrow> ep_samples p),
      error_message = (case cr_evidence r of None \<Rightarrow> None | Some p \<Rightarrow> ep_error_message p),
      source_kind = (if cr_source_kind r = [] then u ''RULE'' else cr_source_kind r),
      target_column = Some (cr_target_column r), rule_config_hash = Some (cr_rule_config_hash r)\<rparr>"

definition get_rule_results :: "bool \<Rightarrow> uuid \<Rightarrow> uuid option \<Rightarrow> store_db \<Rightarrow> quality_rule_result list" where
  "get_rule_results bypass aid ten db =
     (case find_assessment bypass ten (\<lambda>r. ar_assessment_id r = aid) db of
        None \<Rightarrow> []
      | Some a \<Rightarrow> map loaded_result
          (filter (\<lambda>r. cr_run_id r = ar_run_id a \<and> tenant_visible bypass (Some (ar_tenant_id a)) (cr_tenant_id r)) (st_results db)))"

definition get_assessment :: "case_table \<Rightarrow> bool \<Rightarrow> uuid \<Rightarrow> uuid option \<Rightarrow> store_db \<Rightarrow> immutable_assessment option" where
  "get_assessment uc bypass aid ten db =
     (case find_assessment bypass ten (\<lambda>r. ar_assessment_id r = aid) db of
        None \<Rightarrow> None
      | Some a \<Rightarrow>
          (let rs = get_rule_results bypass aid (Some (ar_tenant_id a)) db;
               drows = filter (\<lambda>d. dr_assessment_id d = aid \<and> tenant_visible bypass (Some (ar_tenant_id a)) (dr_tenant_id d))
                 (st_dimensions db)
           in Some \<lparr>a_assessment_id = ar_assessment_id a, a_tenant_id = ar_tenant_id a, a_run_id = ar_run_id a,
                a_snapshot_id = ar_snapshot_id a, a_dq_score = ar_dq_score a,
                a_publication_status = ar_publication_status a, a_coverage_ratio = ar_coverage_ratio a,
                a_quality_gate = ar_quality_gate a,
                a_dimension_results = map (\<lambda>d. \<lparr>d_dimension = dr_dimension d,
                    d_dimension_score = dr_dimension_score d, d_coverage_ratio = ar_coverage_ratio a,
                    d_rule_results = filter (\<lambda>r. py_upper uc (dimension r) = py_upper uc (dr_dimension d)) rs,
                    d_dimension_weight = dr_dimension_weight d\<rparr>) drows,
                a_assessment_hash = ar_assessment_hash a, a_created_at = ar_published_at a,
                a_confidence_status = (if ar_confidence_status a = [] then u ''NOT_APPLICABLE''
                                       else ar_confidence_status a)\<rparr>))"

definition get_assessment_by_run :: "case_table \<Rightarrow> bool \<Rightarrow> uuid \<Rightarrow> uuid option \<Rightarrow> store_db \<Rightarrow> immutable_assessment option" where
  "get_assessment_by_run uc bypass i ten db =
     (case find_assessment bypass ten (\<lambda>r. ar_run_id r = i) db of
        None \<Rightarrow> None | Some a \<Rightarrow> get_assessment uc bypass (ar_assessment_id a) ten db)"

end
