(* ===== verification/StoreProperties.thy ===== *)
theory StoreProperties
  imports AssessStore
begin

text \<open>
  Publication: atomic, fenced, at most once per run and readable by its tenant only; and what reading
  an assessment back loses.
\<close>

subsection \<open>One save\<close>

lemma fence_run_rows:
  assumes "db_ok db"
  shows "fst (fence_run now t i g db) \<noteq> 0 \<longleftrightarrow>
      (\<exists>r. row_of db i = Some r \<and> may_complete now i g r \<and> rr_tenant_id r = t)"
    and "db_ok (snd (fence_run now t i g db))"
    and "row_of db i = Some r \<Longrightarrow> may_complete now i g r \<Longrightarrow> rr_tenant_id r = t \<Longrightarrow>
      row_of (snd (fence_run now t i g db)) i = Some (r\<lparr>rr_status := SUCCEEDED, rr_completed_at := Some now\<rparr>)"
proof -
  define p where "p = (\<lambda>r. may_complete now i g r \<and> can_update \<lparr>ctx_tenant = Some t, is_dispatcher = False\<rparr> now r)"
  define f where "f = (\<lambda>r::run_row. r\<lparr>rr_status := SUCCEEDED, rr_completed_at := Some now\<rparr>)"
  have eq: "fence_run now t i g db = update_runs p f db" by (simp add: fence_run_def p_def f_def)
  have id: "rr_run_id (f r) = rr_run_id r" for r by (simp add: f_def)
  have pt: "p r \<longleftrightarrow> may_complete now i g r \<and> rr_tenant_id r = t" for r
    by (auto simp: p_def can_update_def can_select_def)
  have "fst (update_runs p f db) = (case row_of db i of None \<Rightarrow> 0 | Some r \<Rightarrow> if p r then 1 else 0)"
    using assms by (rule update_count) (simp add: p_def may_complete_def)
  then show "fst (fence_run now t i g db) \<noteq> 0 \<longleftrightarrow>
      (\<exists>r. row_of db i = Some r \<and> may_complete now i g r \<and> rr_tenant_id r = t)"
    by (auto simp: eq pt split: option.splits if_splits)
  show "db_ok (snd (fence_run now t i g db))" using assms by (simp add: eq id)
  show "row_of db i = Some r \<Longrightarrow> may_complete now i g r \<Longrightarrow> rr_tenant_id r = t \<Longrightarrow>
      row_of (snd (fence_run now t i g db)) i = Some (r\<lparr>rr_status := SUCCEEDED, rr_completed_at := Some now\<rparr>)"
    unfolding eq row_of_update [of f, OF id] by (simp add: pt) (simp add: f_def)
qed

lemma save_cases:
  assumes "db_ok (st_pg db)"
  obtains (refused) e where "save_assessment_atomic en now a rs g db = (Inl e, db)"
  | (saved) r dims rows where "save_assessment_atomic en now a rs g db = (Inr (),
        db\<lparr>st_pg := insert_event (succeeded_event now a (rr_attempt_count r) g)
              (snd (fence_run now (a_tenant_id a) (a_run_id a) g (st_pg db))),
           st_assessments := st_assessments db @ [assessment_row_of en a], st_dimensions := dims,
           st_results := st_results db @ rows, st_outbox := st_outbox db @ [outbox_of now a]\<rparr>)"
      "row_of (st_pg db) (a_run_id a) = Some r" "may_complete now (a_run_id a) g r" "rr_tenant_id r = a_tenant_id a"
      "assessment_row_ok (st_assessments db) (assessment_row_of en a)"
      "insert_dimensions en a (st_dimensions db) (a_dimension_results a) = Inr dims"
      "insert_quality_results en a (Some (rr_ruleset_id r)) 0 rs = Inr rows"
proof (cases "\<exists>r. row_of (st_pg db) (a_run_id a) = Some r \<and> may_complete now (a_run_id a) g r \<and> rr_tenant_id r = a_tenant_id a")
  case False
  then have "fst (fence_run now (a_tenant_id a) (a_run_id a) g (st_pg db)) = 0"
    using fence_run_rows(1) [OF assms] by blast
  then show thesis using refused by (simp add: save_assessment_atomic_def Let_def case_prod_beta)
next
  case True
  then obtain r where r: "row_of (st_pg db) (a_run_id a) = Some r" "may_complete now (a_run_id a) g r"
    "rr_tenant_id r = a_tenant_id a" by blast
  define pg1 where "pg1 = snd (fence_run now (a_tenant_id a) (a_run_id a) g (st_pg db))"
  have n: "fst (fence_run now (a_tenant_id a) (a_run_id a) g (st_pg db)) \<noteq> 0"
    using fence_run_rows(1) [OF assms] r by blast
  define r1 where "r1 = r\<lparr>rr_status := SUCCEEDED, rr_completed_at := Some now\<rparr>"
  have r1: "row_of pg1 (a_run_id a) = Some r1" "db_ok pg1"
    unfolding pg1_def r1_def using fence_run_rows(2,3) [OF assms] r by auto
  have f: "fetch_run \<lparr>ctx_tenant = Some (a_tenant_id a), is_dispatcher = False\<rparr> (a_run_id a) pg1 = Some r1"
    using r1(2,1) by (rule fetch_run_row) (simp add: can_select_def r1_def r(3))
  have rs1: "rr_ruleset_id r1 = rr_ruleset_id r" "rr_attempt_count r1 = rr_attempt_count r" by (simp_all add: r1_def)
  note S = save_assessment_atomic_def [of en now a rs g db, unfolded Let_def case_prod_beta, folded pg1_def]
  show thesis
  proof (cases "assessment_row_ok (st_assessments db) (assessment_row_of en a)")
    case False
    then show thesis using refused n by (simp add: S)
  next
    case ok: True
    show thesis
    proof (cases "insert_dimensions en a (st_dimensions db) (a_dimension_results a)")
      case (Inl e)
      then show thesis using refused n ok by (simp add: S)
    next
      case dims: (Inr dims)
      show thesis
      proof (cases "insert_quality_results en a (Some (rr_ruleset_id r)) 0 rs")
        case (Inl e)
        then show thesis using refused n ok dims by (simp add: S f rs1)
      next
        case (Inr rows)
        show thesis
          by (rule saved [OF _ r ok dims Inr]) (use n ok dims Inr in \<open>simp add: S f rs1 pg1_def [symmetric]\<close>)
      qed
    qed
  qed
qed

lemma save_keeps_ok: "db_ok (st_pg db) \<Longrightarrow> db_ok (st_pg (snd (save_assessment_atomic en now a rs g db)))"
  by (rule save_cases [of db en now a rs g]) (simp_all add: fence_run_rows(2))

lemma insert_results_Inr:
  "insert_quality_results en a rsid tot rs = Inr rows \<Longrightarrow>
    list_all2 (\<lambda>r row. \<exists>ev. row = result_row_of en a rsid r ev) rs rows \<and> (\<forall>row \<in> set rows. result_row_ok row)"
proof (induction rs arbitrary: tot rows)
  case (Cons r rs)
  from Cons.prems obtain ev tot' rest where "result_row_ok (result_row_of en a rsid r ev)"
    "insert_quality_results en a rsid tot' rs = Inr rest" "rows = result_row_of en a rsid r ev # rest"
    by (auto simp: Let_def split: sum.splits option.splits if_splits)
  with Cons.IH [of tot' rest] show ?case by auto
qed simp

lemma insert_dimensions_Inr:
  "insert_dimensions en a rows ds = Inr rows' \<Longrightarrow> rows' = rows @ map (dimension_row_of en a) ds"
  by (induction ds arbitrary: rows) (fastforce split: if_splits)+

subsection \<open>Properties\<close>

text \<open>C2: Publication is atomic and fenced: a save either changes nothing at all or it finds the run leased,
  unexpired, with the caller's generation and tenant, turns it SUCCEEDED and adds exactly one assessment,
  one outbox message and one event.\<close>

theorem publication_atomic:
  assumes "db_ok (st_pg db)" "save_assessment_atomic en now a rs g db = (res, db')"
  shows "(\<exists>e. res = Inl e) \<and> db' = db
    \<or> res = Inr () \<and> (\<exists>r. row_of (st_pg db) (a_run_id a) = Some r \<and> may_complete now (a_run_id a) g r
        \<and> rr_tenant_id r = a_tenant_id a
        \<and> row_of (st_pg db') (a_run_id a) = Some (r\<lparr>rr_status := SUCCEEDED, rr_completed_at := Some now\<rparr>)
        \<and> st_assessments db' = st_assessments db @ [assessment_row_of en a]
        \<and> st_outbox db' = st_outbox db @ [outbox_of now a]
        \<and> db_events (st_pg db') = db_events (st_pg db) @ [succeeded_event now a (rr_attempt_count r) g])"
proof (rule save_cases [OF assms(1), of en now a rs g])
  fix e assume "save_assessment_atomic en now a rs g db = (Inl e, db)"
  with assms(2) have "res = Inl e" "db' = db" by simp_all
  then show ?thesis by simp
next
  fix r dims rows
  assume s: "save_assessment_atomic en now a rs g db = (Inr (),
        db\<lparr>st_pg := insert_event (succeeded_event now a (rr_attempt_count r) g)
              (snd (fence_run now (a_tenant_id a) (a_run_id a) g (st_pg db))),
           st_assessments := st_assessments db @ [assessment_row_of en a], st_dimensions := dims,
           st_results := st_results db @ rows, st_outbox := st_outbox db @ [outbox_of now a]\<rparr>)"
    and r: "row_of (st_pg db) (a_run_id a) = Some r" "may_complete now (a_run_id a) g r" "rr_tenant_id r = a_tenant_id a"
  have "db_events (snd (fence_run now (a_tenant_id a) (a_run_id a) g (st_pg db))) = db_events (st_pg db)"
    by (simp add: fence_run_def update_runs_def)
  with s r assms(2) fence_run_rows(3) [OF assms(1) r] show ?thesis
    by (auto simp: insert_event_def row_of_def)
qed

text \<open>C3: At most once: after a successful publication of a run, no later save for that run succeeds, whatever
  the generation, time or assessment, and whatever queue calls happen in between.\<close>

theorem publish_once:
  assumes "db_ok (st_pg db)" "save_assessment_atomic en now a rs g db = (Inr (), db1)"
    and "proper_ops pg_gen (pg_step uc lc disp lk lt) ops (st_pg db1)"
    and "a_run_id b = a_run_id a"
    and "db2 = db1\<lparr>st_pg := fold (pg_step uc lc disp lk lt) ops (st_pg db1)\<rparr>"
  shows "\<exists>e. save_assessment_atomic en2 now2 b rs2 g2 db2 = (Inl e, db2)"
proof -
  have ok1: "db_ok (st_pg db1)" using save_keeps_ok [OF assms(1), of en now a rs g] assms(2) by simp
  have "\<exists>r. row_of (st_pg db1) (a_run_id a) = Some r \<and> rr_status r = SUCCEEDED"
    by (rule save_cases [OF assms(1), of en now a rs g])
      (use assms(2) fence_run_rows(3) [OF assms(1)] in auto)
  then obtain r where r: "row_of (st_pg db1) (a_run_id a) = Some r" "rr_status r = SUCCEEDED" by blast
  have keep: "row_of (st_pg db2) (a_run_id a) = Some r"
    unfolding assms(5) by (simp, rule ops_keep_row [OF ok1 assms(3) r(1)]) (auto simp: r(2) claimable_def)
  have ok2: "db_ok (st_pg db2)"
    using pg.ops_gen [OF ok1 assms(3)] r(1) by (auto simp: assms(5) pg_gen_def)
  show ?thesis
    by (rule save_cases [OF ok2, of en2 now2 b rs2 g2]) (use keep r(2) assms(4) in \<open>auto simp: may_complete_def\<close>)
qed

text \<open>A result whose counts break the partition identity, which validation turns into a
  FAILED\_TO\_MEASURE result to be reported, can never be stored: the table's CHECK refuses the whole save.\<close>

theorem broken_partition_unstorable:
  assumes "db_ok (st_pg db)" "r \<in> set rs" "counts r = Some c" "\<not> verify_partition_identity c"
  shows "\<exists>e. save_assessment_atomic en now a rs g db = (Inl e, db)"
proof (rule save_cases [OF assms(1), of en now a rs g])
  fix q dims rows
  assume "insert_quality_results en a (Some (rr_ruleset_id q)) 0 rs = Inr rows"
  note ins = insert_results_Inr [OF this]
  obtain row ev where "row \<in> set rows" "row = result_row_of en a (Some (rr_ruleset_id q)) r ev"
    using list_all2_left [OF conjunct1 [OF ins] assms(2)] by blast
  moreover from this(1) have "result_row_ok row" using ins by blast
  ultimately have "verify_partition_identity c"
    using assms(3) by (auto simp: result_row_ok_def result_row_of_def result_counts_def)
  with assms(4) show ?thesis by contradiction
qed (rule exI)

subsection \<open>Concrete publications\<close>

definition demo_env :: store_env where
  "demo_env = \<lparr>en_ud = plain_unidata, en_nt = plain_numbers, en_sha = (\<lambda>s. s), en_real4 = (\<lambda>x. x),
     en_config_hashes = (\<lambda>i. [])\<rparr>"

definition demo_assessment :: immutable_assessment where
  "demo_assessment = \<lparr>a_assessment_id = 20, a_tenant_id = 1, a_run_id = 7, a_snapshot_id = 3, a_dq_score = None,
     a_publication_status = WITHHELD, a_coverage_ratio = None, a_quality_gate = GINSUFFICIENT_EVIDENCE,
     a_dimension_results = [], a_assessment_hash = u ''h'', a_created_at = 20,
     a_confidence_status = u ''NOT_APPLICABLE''\<rparr>"

definition demo_store :: store_db where
  "demo_store = \<lparr>st_pg = demo_db1, st_assessments = [], st_dimensions = [], st_results = [], st_outbox = []\<rparr>"

lemma demo_store_ok: "db_ok (st_pg demo_store)"
  by (simp add: demo_store_def db_ok_def demo_claimed(1))

lemma demo_store_row: "row_of (st_pg demo_store) 7 = Some (leased_row 10 (u ''w1'') 300 demo_row)"
  by (simp add: demo_store_def row_of_def demo_claimed(1))

lemma demo_save: "\<exists>db1. save_assessment_atomic demo_env 20 demo_assessment [] 1 demo_store = (Inr (), db1)"
proof (rule save_cases [OF demo_store_ok, of demo_env 20 demo_assessment "[]" 1])
  fix e assume refused: "save_assessment_atomic demo_env 20 demo_assessment [] 1 demo_store = (Inl e, demo_store)"
  have "fst (fence_run 20 1 7 1 (st_pg demo_store)) \<noteq> 0"
    by (subst fence_run_rows(1) [OF demo_store_ok], rule exI [of _ "leased_row 10 (u ''w1'') 300 demo_row"])
      (simp add: demo_store_row may_complete_def, simp add: leased_row_def seconds_def)
  then have "fst (save_assessment_atomic demo_env 20 demo_assessment [] 1 demo_store) = Inr ()"
    by (simp add: save_assessment_atomic_def Let_def case_prod_beta demo_assessment_def assessment_row_ok_def
        assessment_row_of_def score_in_def demo_store_def)
  with refused show ?thesis by simp
qed blast

theorem publication_atomic_witness:
  "\<exists>db'. save_assessment_atomic demo_env 20 demo_assessment [] 1 demo_store = (Inr (), db')
     \<and> st_assessments db' = [assessment_row_of demo_env demo_assessment]"
proof -
  obtain db' where s: "save_assessment_atomic demo_env 20 demo_assessment [] 1 demo_store = (Inr (), db')"
    using demo_save by blast
  from publication_atomic [OF demo_store_ok s] s show ?thesis by (auto simp: demo_store_def)
qed

theorem publish_once_witness:
  "\<exists>db1 e. save_assessment_atomic demo_env 20 demo_assessment [] 1 demo_store = (Inr (), db1)
     \<and> save_assessment_atomic demo_env 30 demo_assessment [] 1 db1 = (Inl e, db1)"
proof -
  obtain db1 where s: "save_assessment_atomic demo_env 20 demo_assessment [] 1 demo_store = (Inr (), db1)"
    using demo_save by blast
  have "db1 = db1\<lparr>st_pg := fold (pg_step no_table no_table True free_locks 300) [] (st_pg db1)\<rparr>" by simp
  from publish_once [OF demo_store_ok s _ refl this, of demo_env 30 "[]" 1] s show ?thesis by auto
qed

theorem broken_partition_unstorable_witness:
  "\<exists>e. save_assessment_atomic demo_env 20 demo_assessment
     [(measured_result ''r'' VALIDITY 1 100)\<lparr>counts := Some (zero_counts\<lparr>passed := 1\<rparr>)\<rparr>] 1 demo_store = (Inl e, demo_store)"
  by (rule broken_partition_unstorable [OF demo_store_ok, where c = "zero_counts\<lparr>passed := 1\<rparr>"])
    (auto simp: verify_partition_identity_def zero_counts_def)

subsection \<open>Reading back\<close>

text \<open>Every detail row belongs to a stored assessment.\<close>

definition store_ok :: "store_db \<Rightarrow> bool" where
  "store_ok db \<longleftrightarrow>
     (\<forall>r \<in> set (st_results db). cr_run_id r \<in> ar_run_id ` set (st_assessments db))
     \<and> (\<forall>d \<in> set (st_dimensions db). dr_assessment_id d \<in> ar_assessment_id ` set (st_assessments db))"

lemma result_row_of_simps [simp]:
  "cr_run_id (result_row_of en a i r ev) = a_run_id a" "cr_tenant_id (result_row_of en a i r ev) = a_tenant_id a"
  by (simp_all add: result_row_of_def)

lemma dimension_row_of_simps [simp]:
  "dr_assessment_id (dimension_row_of en a d) = a_assessment_id a" "dr_tenant_id (dimension_row_of en a d) = a_tenant_id a"
  by (simp_all add: dimension_row_of_def)

lemma assessment_row_of_simps [simp]:
  "ar_assessment_id (assessment_row_of en a) = a_assessment_id a" "ar_tenant_id (assessment_row_of en a) = a_tenant_id a"
  "ar_run_id (assessment_row_of en a) = a_run_id a"
  by (simp_all add: assessment_row_of_def)

lemma find_append: "List.find P (xs @ ys) = (case List.find P xs of None \<Rightarrow> List.find P ys | Some r \<Rightarrow> Some r)"
  by (induction xs) auto

lemma saved_parts:
  assumes "db_ok (st_pg db)" "store_ok db" "save_assessment_atomic en now a rs g db = (Inr (), db')"
  obtains rsid rows where
    "find_assessment False (Some (a_tenant_id a)) (\<lambda>r. ar_assessment_id r = a_assessment_id a) db' = Some (assessment_row_of en a)"
    "\<And>t. t \<noteq> a_tenant_id a \<Longrightarrow> find_assessment False (Some t) (\<lambda>r. ar_assessment_id r = a_assessment_id a) db' = None"
    "filter (\<lambda>r. cr_run_id r = a_run_id a \<and> cr_tenant_id r = a_tenant_id a) (st_results db') = rows"
    "list_all2 (\<lambda>r row. \<exists>ev. row = result_row_of en a rsid r ev) rs rows"
    "filter (\<lambda>d. dr_assessment_id d = a_assessment_id a \<and> dr_tenant_id d = a_tenant_id a) (st_dimensions db') =
      map (dimension_row_of en a) (a_dimension_results a)"
    "store_ok db'"
proof (rule save_cases [OF assms(1), of en now a rs g])
  fix e assume "save_assessment_atomic en now a rs g db = (Inl e, db)"
  with assms(3) show thesis by simp
next
  fix r dims rows
  assume s: "save_assessment_atomic en now a rs g db = (Inr (),
        db\<lparr>st_pg := insert_event (succeeded_event now a (rr_attempt_count r) g)
              (snd (fence_run now (a_tenant_id a) (a_run_id a) g (st_pg db))),
           st_assessments := st_assessments db @ [assessment_row_of en a], st_dimensions := dims,
           st_results := st_results db @ rows, st_outbox := st_outbox db @ [outbox_of now a]\<rparr>)"
    and new: "assessment_row_ok (st_assessments db) (assessment_row_of en a)"
    and d: "insert_dimensions en a (st_dimensions db) (a_dimension_results a) = Inr dims"
    and q: "insert_quality_results en a (Some (rr_ruleset_id r)) 0 rs = Inr rows"
  have db': "st_assessments db' = st_assessments db @ [assessment_row_of en a]" "st_dimensions db' = dims"
    "st_results db' = st_results db @ rows" using s assms(3) by auto
  have fresh: "a_assessment_id a \<notin> ar_assessment_id ` set (st_assessments db)"
    "a_run_id a \<notin> ar_run_id ` set (st_assessments db)"
    using new by (simp_all add: assessment_row_ok_def)
  have dims: "dims = st_dimensions db @ map (dimension_row_of en a) (a_dimension_results a)"
    using insert_dimensions_Inr [OF d] .
  note all = conjunct1 [OF insert_results_Inr [OF q]]
  have rows: "\<forall>row \<in> set rows. cr_run_id row = a_run_id a \<and> cr_tenant_id row = a_tenant_id a"
    using list_all2_right [OF all] by fastforce
  have no_old: "List.find (\<lambda>x. ar_assessment_id x = a_assessment_id a \<and> Q x) (st_assessments db) = None" for Q
    unfolding find_None_iff using fresh(1) by (metis image_eqI)
  have old_rows: "filter (\<lambda>x. cr_run_id x = a_run_id a \<and> cr_tenant_id x = a_tenant_id a) (st_results db) = []"
    unfolding filter_empty_conv using assms(2) fresh(2) by (metis store_ok_def)
  have old_dims: "filter (\<lambda>x. dr_assessment_id x = a_assessment_id a \<and> dr_tenant_id x = a_tenant_id a) (st_dimensions db) = []"
    unfolding filter_empty_conv using assms(2) fresh(1) by (metis store_ok_def)
  show thesis
  proof (rule that [OF _ _ _ all])
    show "find_assessment False (Some (a_tenant_id a)) (\<lambda>r. ar_assessment_id r = a_assessment_id a) db' = Some (assessment_row_of en a)"
      by (simp add: find_assessment_def db' find_append no_old tenant_visible_def)
    show "find_assessment False (Some t) (\<lambda>r. ar_assessment_id r = a_assessment_id a) db' = None" if "t \<noteq> a_tenant_id a" for t
      using that by (simp add: find_assessment_def db' find_append no_old tenant_visible_def)
    show "filter (\<lambda>r. cr_run_id r = a_run_id a \<and> cr_tenant_id r = a_tenant_id a) (st_results db') = rows"
      using rows by (simp add: db' old_rows)
    show "filter (\<lambda>d. dr_assessment_id d = a_assessment_id a \<and> dr_tenant_id d = a_tenant_id a) (st_dimensions db') =
      map (dimension_row_of en a) (a_dimension_results a)"
      by (simp add: db' dims old_dims)
    show "store_ok db'" using assms(2) rows by (auto simp: store_ok_def db' dims)
  qed
qed


lemma list_all2_filter_all: "\<forall>y \<in> set ys. P y \<Longrightarrow> filter P ys = ys"
  by (simp add: filter_id_conv)

lemma get_saved:
  assumes "db_ok (st_pg db)" "store_ok db" "save_assessment_atomic en now a rs g db = (Inr (), db')"
  obtains rsid rows b where
    "list_all2 (\<lambda>r row. \<exists>ev. row = result_row_of en a rsid r ev) rs rows"
    "get_rule_results False (a_assessment_id a) (Some (a_tenant_id a)) db' = map loaded_result rows"
    "get_assessment uc False (a_assessment_id a) (Some (a_tenant_id a)) db' = Some b"
    "(a_assessment_id b, a_tenant_id b, a_run_id b, a_snapshot_id b) =
       (a_assessment_id a, a_tenant_id a, a_run_id a, a_snapshot_id a)"
    "(a_publication_status b, a_quality_gate b, a_assessment_hash b) =
       (a_publication_status a, a_quality_gate a, a_assessment_hash a)"
    "a_dq_score b = map_option (en_real4 en) (a_dq_score a)"
    "a_coverage_ratio b = map_option (en_real4 en) (a_coverage_ratio a)"
    "map (\<lambda>d. (d_dimension d, d_dimension_score d, d_dimension_weight d, d_coverage_ratio d)) (a_dimension_results b) =
       map (\<lambda>d. (py_upper (ud_upper (en_ud en)) (d_dimension d), map_option (en_real4 en) (d_dimension_score d),
          en_real4 en (d_dimension_weight d), a_coverage_ratio b)) (a_dimension_results a)"
    "\<And>t. t \<noteq> a_tenant_id a \<Longrightarrow> get_assessment uc False (a_assessment_id a) (Some t) db' = None"
proof (rule saved_parts [OF assms])
  fix rsid rows
  assume f: "find_assessment False (Some (a_tenant_id a)) (\<lambda>r. ar_assessment_id r = a_assessment_id a) db' = Some (assessment_row_of en a)"
    and n: "\<And>t. t \<noteq> a_tenant_id a \<Longrightarrow> find_assessment False (Some t) (\<lambda>r. ar_assessment_id r = a_assessment_id a) db' = None"
    and r: "filter (\<lambda>r. cr_run_id r = a_run_id a \<and> cr_tenant_id r = a_tenant_id a) (st_results db') = rows"
    and l: "list_all2 (\<lambda>r row. \<exists>ev. row = result_row_of en a rsid r ev) rs rows"
    and d: "filter (\<lambda>d. dr_assessment_id d = a_assessment_id a \<and> dr_tenant_id d = a_tenant_id a) (st_dimensions db') =
      map (dimension_row_of en a) (a_dimension_results a)"
  have r': "filter (\<lambda>r. cr_run_id r = a_run_id a \<and> a_tenant_id a = cr_tenant_id r) (st_results db') = rows"
    using r by (simp add: eq_commute [of "a_tenant_id a"])
  have d': "filter (\<lambda>d. dr_assessment_id d = a_assessment_id a \<and> a_tenant_id a = dr_tenant_id d) (st_dimensions db') =
      map (dimension_row_of en a) (a_dimension_results a)"
    using d by (simp add: eq_commute [of "a_tenant_id a"])
  have g: "get_rule_results False (a_assessment_id a) (Some (a_tenant_id a)) db' = map loaded_result rows"
    by (simp add: get_rule_results_def f tenant_visible_def r')
  obtain b where b: "get_assessment uc False (a_assessment_id a) (Some (a_tenant_id a)) db' = Some b"
    by (simp add: get_assessment_def f Let_def)
  note def = b [unfolded get_assessment_def f Let_def option.case option.inject tenant_visible_def
      assessment_row_of_simps simp_thms option.inject d', symmetric]
  show thesis
    by (rule that [OF l g b], unfold def) (simp_all add: assessment_row_of_def dimension_row_of_def n get_assessment_def)
qed

text \<open>C21: Publishing and reading back under the same tenant returns the assessment that was computed: same
  identifiers, status, gate and hash, scores and weights as a REAL column keeps them, dimension names in
  upper case; every other tenant finds nothing.\<close>

theorem publication_roundtrip:
  assumes "db_ok (st_pg db)" "store_ok db" "save_assessment_atomic en now a rs g db = (Inr (), db')"
  shows "(\<exists>b. get_assessment uc False (a_assessment_id a) (Some (a_tenant_id a)) db' = Some b
       \<and> (a_assessment_id b, a_tenant_id b, a_run_id b, a_snapshot_id b) =
           (a_assessment_id a, a_tenant_id a, a_run_id a, a_snapshot_id a)
       \<and> (a_publication_status b, a_quality_gate b, a_assessment_hash b) =
           (a_publication_status a, a_quality_gate a, a_assessment_hash a)
       \<and> a_dq_score b = map_option (en_real4 en) (a_dq_score a)
       \<and> map (\<lambda>d. (d_dimension d, d_dimension_score d, d_dimension_weight d)) (a_dimension_results b) =
           map (\<lambda>d. (py_upper (ud_upper (en_ud en)) (d_dimension d), map_option (en_real4 en) (d_dimension_score d),
              en_real4 en (d_dimension_weight d))) (a_dimension_results a))
     \<and> (\<forall>t. t = a_tenant_id a \<or> get_assessment uc False (a_assessment_id a) (Some t) db' = None)"
proof (rule get_saved [OF assms])
  fix b :: immutable_assessment
  assume "map (\<lambda>d. (d_dimension d, d_dimension_score d, d_dimension_weight d, d_coverage_ratio d)) (a_dimension_results b) =
       map (\<lambda>d. (py_upper (ud_upper (en_ud en)) (d_dimension d), map_option (en_real4 en) (d_dimension_score d),
          en_real4 en (d_dimension_weight d), a_coverage_ratio b)) (a_dimension_results a)"
  from arg_cong [OF this, of "map (\<lambda>(n, s, w, c). (n, s, w))"]
  have m: "map (\<lambda>d. (d_dimension d, d_dimension_score d, d_dimension_weight d)) (a_dimension_results b) =
       map (\<lambda>d. (py_upper (ud_upper (en_ud en)) (d_dimension d), map_option (en_real4 en) (d_dimension_score d),
          en_real4 en (d_dimension_weight d))) (a_dimension_results a)"
    by (simp add: o_def)
  assume "get_assessment uc False (a_assessment_id a) (Some (a_tenant_id a)) db' = Some b"
    "(a_assessment_id b, a_tenant_id b, a_run_id b, a_snapshot_id b) =
       (a_assessment_id a, a_tenant_id a, a_run_id a, a_snapshot_id a)"
    "(a_publication_status b, a_quality_gate b, a_assessment_hash b) =
       (a_publication_status a, a_quality_gate a, a_assessment_hash a)"
    "a_dq_score b = map_option (en_real4 en) (a_dq_score a)"
    "\<And>t. t \<noteq> a_tenant_id a \<Longrightarrow> get_assessment uc False (a_assessment_id a) (Some t) db' = None"
  moreover from this(5) have "t = a_tenant_id a \<or> get_assessment uc False (a_assessment_id a) (Some t) db' = None" for t
    by (cases "t = a_tenant_id a") simp_all
  ultimately show ?thesis using m by (intro conjI exI [of _ b] allI)
qed

text \<open>What reading back loses: every dimension of the loaded assessment carries the coverage of the whole
  assessment, although the dimension table stores each dimension's own; and each loaded rule result counts
  failed plus miscast records as its violations, whatever count (missing records included) was computed.\<close>

theorem reload_losses:
  assumes "db_ok (st_pg db)" "store_ok db" "save_assessment_atomic en now a rs g db = (Inr (), db')"
  shows "(\<exists>b. get_assessment uc False (a_assessment_id a) (Some (a_tenant_id a)) db' = Some b
       \<and> map d_coverage_ratio (a_dimension_results b) =
           replicate (length (a_dimension_results a)) (map_option (en_real4 en) (a_coverage_ratio a)))
     \<and> map violations_count (get_rule_results False (a_assessment_id a) (Some (a_tenant_id a)) db') =
         map (\<lambda>r. failed (result_counts r) + miscast (result_counts r)) rs"
proof (rule get_saved [OF assms])
  fix rsid rows and b :: immutable_assessment
  assume m: "map (\<lambda>d. (d_dimension d, d_dimension_score d, d_dimension_weight d, d_coverage_ratio d)) (a_dimension_results b) =
       map (\<lambda>d. (py_upper (ud_upper (en_ud en)) (d_dimension d), map_option (en_real4 en) (d_dimension_score d),
          en_real4 en (d_dimension_weight d), a_coverage_ratio b)) (a_dimension_results a)"
  from arg_cong [OF m, of "map (\<lambda>(n, s, w, c). c)"]
  have c: "map d_coverage_ratio (a_dimension_results b) = replicate (length (a_dimension_results a)) (a_coverage_ratio b)"
    by (simp add: o_def map_replicate_const)
  assume "list_all2 (\<lambda>r row. \<exists>ev. row = result_row_of en a rsid r ev) rs rows"
  then have "map violations_count (map loaded_result rows) = map (\<lambda>r. failed (result_counts r) + miscast (result_counts r)) rs"
    by (induction rule: list_all2_induct) (auto simp: loaded_result_def result_row_of_def)
  moreover assume "get_rule_results False (a_assessment_id a) (Some (a_tenant_id a)) db' = map loaded_result rows"
    "get_assessment uc False (a_assessment_id a) (Some (a_tenant_id a)) db' = Some b"
    "a_coverage_ratio b = map_option (en_real4 en) (a_coverage_ratio a)"
  ultimately show ?thesis using c by simp
qed

lemma demo_store_ok': "store_ok demo_store"
  by (simp add: store_ok_def demo_store_def)

theorem publication_roundtrip_witness:
  "\<exists>db' b. save_assessment_atomic demo_env 20 demo_assessment [] 1 demo_store = (Inr (), db')
     \<and> get_assessment no_table False 20 (Some 1) db' = Some b \<and> a_quality_gate b = GINSUFFICIENT_EVIDENCE
     \<and> get_assessment no_table False 20 (Some 2) db' = None"
proof -
  obtain db' where s: "save_assessment_atomic demo_env 20 demo_assessment [] 1 demo_store = (Inr (), db')"
    using demo_save by blast
  have e: "a_assessment_id demo_assessment = 20" "a_tenant_id demo_assessment = 1"
    "a_quality_gate demo_assessment = GINSUFFICIENT_EVIDENCE" by (simp_all add: demo_assessment_def)
  have "(2::nat) \<noteq> 1" by simp
  with publication_roundtrip [OF demo_store_ok demo_store_ok' s, of no_table, unfolded e] s show ?thesis by blast
qed

theorem reload_losses_witness:
  "\<exists>db' b. save_assessment_atomic demo_env 20 demo_assessment [] 1 demo_store = (Inr (), db')
     \<and> get_assessment no_table False 20 (Some 1) db' = Some b \<and> map d_coverage_ratio (a_dimension_results b) = []"
proof -
  obtain db' where s: "save_assessment_atomic demo_env 20 demo_assessment [] 1 demo_store = (Inr (), db')"
    using demo_save by blast
  have e: "a_assessment_id demo_assessment = 20" "a_tenant_id demo_assessment = 1"
    "a_dimension_results demo_assessment = []" by (simp_all add: demo_assessment_def)
  from reload_losses [OF demo_store_ok demo_store_ok' s, of no_table, unfolded e] s show ?thesis by auto
qed

end
