(* ===== verification/Orchestrator.thy ===== *)
theory Orchestrator
  imports Validation JsonText
begin

text \<open>
  \<open>services/evaluation_orchestrator.py\<close> and \<open>services/replay_runner.py\<close>: the execution of one leased run
  over its ports. A call may raise, so a procedure returns \<open>Inl\<close> the exception or \<open>Inr\<close> its value, and the
  state of the world it leaves. The ports are a record of procedures; what they promise is the locale
  \<open>run_ports\<close>, under which the outcome of a run is decided once for all adapters.
\<close>

subsection \<open>Exceptions and procedures\<close>

datatype run_exn = PermissionErr | Aborted ustr | OtherExn string

type_synonym ('w, 'a) proc = "'w \<Rightarrow> (run_exn + 'a) \<times> 'w"

definition ret :: "'a \<Rightarrow> ('w, 'a) proc" where "ret x w = (Inr x, w)"

definition raise_exn :: "run_exn \<Rightarrow> ('w, 'a) proc" where "raise_exn e w = (Inl e, w)"

definition bnd :: "('w, 'a) proc \<Rightarrow> ('a \<Rightarrow> ('w, 'b) proc) \<Rightarrow> ('w, 'b) proc" where
  "bnd m f w = (case m w of (Inl e, w1) \<Rightarrow> (Inl e, w1) | (Inr x, w1) \<Rightarrow> f x w1)"

definition of_pure :: "string + 'a \<Rightarrow> ('w, 'a) proc" where
  "of_pure r = (case r of Inl e \<Rightarrow> raise_exn (OtherExn e) | Inr x \<Rightarrow> ret x)"

text \<open>\<open>finally\<close>: the cleanup always runs; if it raises, its exception replaces the outcome.\<close>

definition finally_do :: "('w, 'a) proc \<Rightarrow> ('w, unit) proc \<Rightarrow> ('w, 'a) proc" where
  "finally_do m c w = (case m w of (res, w1) \<Rightarrow> (case c w1 of (Inl e, w2) \<Rightarrow> (Inl e, w2) | (Inr x, w2) \<Rightarrow> (res, w2)))"

subsection \<open>Ports\<close>

record 'w ports =
  p_heartbeat :: "uuid \<Rightarrow> int \<Rightarrow> uuid \<Rightarrow> ('w, bool) proc"
  p_complete :: "uuid \<Rightarrow> int \<Rightarrow> run_status \<Rightarrow> ustr option \<Rightarrow> uuid \<Rightarrow> ('w, bool) proc"
  p_verify :: "dataset_snapshot \<Rightarrow> ('w, unit) proc"
  p_execute_rules :: "dataset_snapshot \<Rightarrow> quality_rule list \<Rightarrow> int \<Rightarrow> ('w, rule_execution_output list) proc"
  p_detect_outliers :: "dataset_snapshot \<Rightarrow> ident \<Rightarrow> ('w, outlier_execution_output) proc"
  p_release :: "dataset_snapshot \<Rightarrow> ('w, unit) proc"
  p_save :: "immutable_assessment \<Rightarrow> quality_rule_result list \<Rightarrow> int \<Rightarrow> ('w, unit) proc"

text \<open>What a run draws from its surroundings: the fresh id and the clock, number texts, SHA-256, case table.\<close>

record run_env =
  re_uc :: case_table
  re_nt :: number_text
  re_sha :: "ustr \<Rightarrow> ustr"
  re_id :: uuid
  re_now :: timestamp

subsection \<open>The assessment hash\<close>

definition opt_float :: "pyfloat option \<Rightarrow> json" where
  "opt_float x = (case x of None \<Rightarrow> JNull | Some v \<Rightarrow> JFloat v)"

definition dimension_payload :: "dimension_result \<Rightarrow> json" where
  "dimension_payload d = JObj [(u ''dimension'', JStr (d_dimension d)), (u ''dimension_score'', opt_float (d_dimension_score d)),
     (u ''coverage_ratio'', opt_float (d_coverage_ratio d)), (u ''rules_count'', JInt (int (length (d_rule_results d))))]"

definition rule_payload :: "quality_rule_result \<Rightarrow> json" where
  "rule_payload r = JObj [(u ''rule_id'', JStr (rule_id r)), (u ''dimension'', JStr (dimension r)),
     (u ''measurement_status'', JStr (measurement r)), (u ''computed_score'', opt_float (computed_score r)),
     (u ''violations_count'', JInt (violations_count r))]"

definition assessment_payload :: "leased_run \<Rightarrow> score_summary \<Rightarrow> quality_rule_result list \<Rightarrow> json" where
  "assessment_payload lr summary rule_results = JObj
     [(u ''snapshot_id'', JStr (uuid_str (sn_snapshot_id (rs_snapshot (lr_spec lr))))),
      (u ''dq_score'', opt_float (ss_published_score summary)),
      (u ''publication_status'', JStr (publication_value (ss_publication_status summary))),
      (u ''coverage_ratio'', opt_float (ss_coverage_ratio summary)),
      (u ''quality_gate'', JStr (gate_value (ss_quality_gate summary))),
      (u ''dimension_results'', JArr (map dimension_payload (sort_key d_dimension (ss_dimension_results summary)))),
      (u ''rule_results'', JArr (map rule_payload (sort_key rule_id rule_results)))]"

definition compute_assessment_hash ::
  "run_env \<Rightarrow> leased_run \<Rightarrow> score_summary \<Rightarrow> quality_rule_result list \<Rightarrow> string + ustr" where
  "compute_assessment_hash en lr summary rule_results =
     compute_deterministic_hash (re_nt en) (re_sha en) (assessment_payload lr summary rule_results)"

subsection \<open>Executing a run\<close>

definition GENERIC_RUN_FAILURE :: ustr where
  "GENERIC_RUN_FAILURE =
     u ''Evaluation failed due to an internal error. Contact an administrator with this run ID.''"

definition safe_run_error :: "run_exn \<Rightarrow> ustr" where
  "safe_run_error e = (case e of Aborted m \<Rightarrow> m | _ \<Rightarrow> GENERIC_RUN_FAILURE)"

definition outlier_input_of :: "ident \<Rightarrow> outlier_execution_output \<Rightarrow> outlier_result_input" where
  "outlier_input_of col out = \<lparr>ori_column_name = col, ori_total_evaluated = oo_total_evaluated out,
     ori_iqr = oo_iqr out, ori_outlier_count = oo_outlier_count out, ori_is_all_null = False\<rparr>"

fun run_outliers :: "'w ports \<Rightarrow> dataset_snapshot \<Rightarrow> ident list \<Rightarrow> quality_rule_result list \<Rightarrow> ('w, quality_rule_result list) proc" where
  "run_outliers P snap [] results = ret results"
| "run_outliers P snap (col # cols) results =
     bnd (p_detect_outliers P snap col) (\<lambda>out.
       run_outliers P snap cols (results @ [build_outlier_advisory_result (outlier_input_of col out)]))"

definition execute_rules_and_advisories :: "'w ports \<Rightarrow> leased_run \<Rightarrow> ('w, quality_rule_result list) proc" where
  "execute_rules_and_advisories P lr =
     bnd (p_execute_rules P (rs_snapshot (lr_spec lr)) (rs_rules (lr_spec lr)) 50) (\<lambda>outputs.
       bnd (of_pure (validate_ruleset (\<lambda>s r n. Inr outputs) (rs_snapshot (lr_spec lr)) (rs_rules (lr_spec lr)) 50)) (\<lambda>results.
         run_outliers P (rs_snapshot (lr_spec lr)) (rs_outlier_columns (lr_spec lr)) results))"

definition built_assessment :: "run_env \<Rightarrow> leased_run \<Rightarrow> score_summary \<Rightarrow> ustr \<Rightarrow> immutable_assessment" where
  "built_assessment en lr summary hash =
     \<lparr>a_assessment_id = re_id en, a_tenant_id = rs_tenant_id (lr_spec lr), a_run_id = lr_run_id lr,
      a_snapshot_id = sn_snapshot_id (rs_snapshot (lr_spec lr)), a_dq_score = ss_published_score summary,
      a_publication_status = ss_publication_status summary, a_coverage_ratio = ss_coverage_ratio summary,
      a_quality_gate = ss_quality_gate summary, a_dimension_results = ss_dimension_results summary,
      a_assessment_hash = hash, a_created_at = re_now en, a_confidence_status = u ''NOT_APPLICABLE''\<rparr>"

definition build_and_persist_assessment ::
  "'w ports \<Rightarrow> run_env \<Rightarrow> leased_run \<Rightarrow> score_summary \<Rightarrow> quality_rule_result list \<Rightarrow> ('w, immutable_assessment) proc" where
  "build_and_persist_assessment P en lr summary rule_results =
     bnd (of_pure (compute_assessment_hash en lr summary rule_results)) (\<lambda>hash.
       bnd (p_verify P (rs_snapshot (lr_spec lr))) (\<lambda>v.
         bnd (p_save P (built_assessment en lr summary hash) rule_results (lr_lease_generation lr)) (\<lambda>s.
           ret (built_assessment en lr summary hash))))"

text \<open>The body of the \<open>try\<close>.\<close>

definition run_body :: "'w ports \<Rightarrow> run_env \<Rightarrow> leased_run \<Rightarrow> ('w, immutable_assessment) proc" where
  "run_body P en lr =
     bnd (p_verify P (rs_snapshot (lr_spec lr))) (\<lambda>v.
       bnd (execute_rules_and_advisories P lr) (\<lambda>rule_results.
         bnd (of_pure (aggregate (re_uc en) rule_results (rs_policy (lr_spec lr))
                (Some (required_dimensions rule_results)) (run_value SUCCEEDED))) (\<lambda>summary.
           bnd (build_and_persist_assessment P en lr summary rule_results) (\<lambda>assessment.
             bnd (p_complete P (lr_run_id lr) (lr_lease_generation lr) SUCCEEDED None (rs_tenant_id (lr_spec lr))) (\<lambda>completed.
               if completed then ret assessment else raise_exn PermissionErr)))))"

text \<open>\<open>except PermissionError: raise; except Exception: complete_run(FAILED); raise\<close>.\<close>

definition fail_run :: "'w ports \<Rightarrow> leased_run \<Rightarrow> ('w, 'a) proc \<Rightarrow> ('w, 'a) proc" where
  "fail_run P lr m w =
     (case m w of
        (Inr x, w1) \<Rightarrow> (Inr x, w1)
      | (Inl PermissionErr, w1) \<Rightarrow> (Inl PermissionErr, w1)
      | (Inl e, w1) \<Rightarrow>
          bnd (p_complete P (lr_run_id lr) (lr_lease_generation lr) FAILED (Some (safe_run_error e)) (rs_tenant_id (lr_spec lr)))
            (\<lambda>done. raise_exn e) w1)"

definition execute_leased_run :: "'w ports \<Rightarrow> run_env \<Rightarrow> leased_run \<Rightarrow> ('w, immutable_assessment) proc" where
  "execute_leased_run P en lr =
     bnd (p_heartbeat P (lr_run_id lr) (lr_lease_generation lr) (rs_tenant_id (lr_spec lr))) (\<lambda>alive.
       if \<not> alive then raise_exn PermissionErr
       else finally_do (fail_run P lr (run_body P en lr)) (p_release P (rs_snapshot (lr_spec lr))))"

subsection \<open>Replay\<close>

record replay_result =
  rp_identical :: bool
  rp_expected_hash :: "ustr option"
  rp_actual_hash :: ustr
  rp_assessment :: immutable_assessment

definition replay :: "'w ports \<Rightarrow> run_env \<Rightarrow> leased_run \<Rightarrow> ustr option \<Rightarrow> ('w, replay_result) proc" where
  "replay P en lr expected =
     bnd (execute_leased_run P en lr) (\<lambda>a.
       ret \<lparr>rp_identical = (case expected of None \<Rightarrow> True | Some h \<Rightarrow> a_assessment_hash a = h),
            rp_expected_hash = expected, rp_actual_hash = a_assessment_hash a, rp_assessment = a\<rparr>)"

subsection \<open>Running procedures\<close>

named_theorems proc_defs "the sequencing of procedures"

declare ret_def [proc_defs] raise_exn_def [proc_defs] bnd_def [proc_defs]

lemma of_pure_simps [simp]: "of_pure (Inl e) = raise_exn (OtherExn e)" "of_pure (Inr x) = ret x"
  by (simp_all add: of_pure_def)

text \<open>
  Partial correctness with two postconditions: one for a returned value, one for a raised exception.
\<close>

definition proc_triple :: "('w \<Rightarrow> bool) \<Rightarrow> ('w, 'a) proc \<Rightarrow> ('a \<Rightarrow> 'w \<Rightarrow> bool) \<Rightarrow> ('w \<Rightarrow> bool) \<Rightarrow> bool" where
  "proc_triple I m Q E \<longleftrightarrow> (\<forall>w res w1. I w \<longrightarrow> m w = (res, w1) \<longrightarrow>
     (\<forall>e. res = Inl e \<longrightarrow> E w1) \<and> (\<forall>x. res = Inr x \<longrightarrow> Q x w1))"

abbreviation keeps :: "('w \<Rightarrow> bool) \<Rightarrow> ('w, 'a) proc \<Rightarrow> bool" where
  "keeps I m \<equiv> proc_triple I m (\<lambda>x. I) I"

lemma proc_tripleI:
  assumes "\<And>w e w1. I w \<Longrightarrow> m w = (Inl e, w1) \<Longrightarrow> E w1" "\<And>w x w1. I w \<Longrightarrow> m w = (Inr x, w1) \<Longrightarrow> Q x w1"
  shows "proc_triple I m Q E"
  using assms unfolding proc_triple_def by blast

lemma proc_tripleR:
  assumes "\<And>w res w1. I w \<Longrightarrow> m w = (res, w1) \<Longrightarrow> (\<forall>e. res = Inl e \<longrightarrow> E w1) \<and> (\<forall>x. res = Inr x \<longrightarrow> Q x w1)"
  shows "proc_triple I m Q E"
  using assms unfolding proc_triple_def by blast

lemma proc_tripleD:
  assumes "proc_triple I m Q E" "I w"
  shows "m w = (Inl e, w1) \<Longrightarrow> E w1" "m w = (Inr x, w1) \<Longrightarrow> Q x w1"
  using assms unfolding proc_triple_def by blast+

lemma triple_ret: "(\<And>w. I w \<Longrightarrow> Q x w) \<Longrightarrow> proc_triple I (ret x) Q E"
  and triple_raise: "(\<And>w. I w \<Longrightarrow> E w) \<Longrightarrow> proc_triple I (raise_exn e) Q E"
  by (simp_all add: proc_triple_def proc_defs)

lemma triple_of_pure: "keeps I (of_pure r)"
  by (cases r) (simp_all add: triple_ret triple_raise)

lemma triple_bnd:
  assumes "proc_triple I m R E" "\<And>x. proc_triple (R x) (f x) Q E"
  shows "proc_triple I (bnd m f) Q E"
proof (rule proc_tripleR)
  fix w res w1 assume w: "I w" and b: "bnd m f w = (res, w1)"
  obtain r w2 where m: "m w = (r, w2)" by fastforce
  show "(\<forall>e. res = Inl e \<longrightarrow> E w1) \<and> (\<forall>x. res = Inr x \<longrightarrow> Q x w1)"
  proof (cases r)
    case (Inl e)
    then have "res = Inl e" "w1 = w2" "E w2" using b m proc_tripleD(1) [OF assms(1) w] by (auto simp: bnd_def)
    then show ?thesis by simp
  next
    case (Inr x)
    then have "R x w2" "f x w2 = (res, w1)" using b m proc_tripleD(2) [OF assms(1) w] by (simp_all add: bnd_def)
    then show ?thesis using assms(2) [of x] unfolding proc_triple_def by blast
  qed
qed

lemma triple_outliers: "(\<And>c. keeps I (p_detect_outliers P snap c)) \<Longrightarrow> keeps I (run_outliers P snap cols rs)"
  by (induction cols arbitrary: rs) (auto intro: triple_ret triple_bnd)

subsection \<open>What the ports promise, and the outcome of a run\<close>

text \<open>Every call but the save keeps a property of the world.\<close>

definition quiet_ports :: "'w ports \<Rightarrow> ('w \<Rightarrow> bool) \<Rightarrow> bool" where
  "quiet_ports P I \<longleftrightarrow> (\<forall>i g t. keeps I (p_heartbeat P i g t)) \<and> (\<forall>i g st m t. keeps I (p_complete P i g st m t))
     \<and> (\<forall>sn. keeps I (p_verify P sn)) \<and> (\<forall>sn rules n. keeps I (p_execute_rules P sn rules n))
     \<and> (\<forall>sn c. keeps I (p_detect_outliers P sn c)) \<and> (\<forall>sn. keeps I (p_release P sn))"

locale run_ports =
  fixes P :: "'w ports" and absent :: "'w \<Rightarrow> bool" and published :: "immutable_assessment \<Rightarrow> int \<Rightarrow> 'w \<Rightarrow> bool"
  assumes absent_kept: "quiet_ports P absent"
    and published_kept: "quiet_ports P (published a g)"
    and saves: "proc_triple absent (p_save P a rs g) (\<lambda>x. published a g) absent"
    and completes: "published a g w \<Longrightarrow>
      fst (p_complete P (a_run_id a) g SUCCEEDED None (a_tenant_id a) w) = Inr True"
    and releases: "fst (p_release P sn w) = Inr ()"
begin

lemma persisted:
  "proc_triple absent (build_and_persist_assessment P en lr summary rs)
     (\<lambda>a w. published a (lr_lease_generation lr) w \<and> a_run_id a = lr_run_id lr
        \<and> a_tenant_id a = rs_tenant_id (lr_spec lr) \<and> a_assessment_id a = re_id en) absent"
  unfolding build_and_persist_assessment_def
proof (rule triple_bnd [OF triple_of_pure], rule triple_bnd)
  fix hash :: ustr
  show "keeps absent (p_verify P (rs_snapshot (lr_spec lr)))" using absent_kept by (simp add: quiet_ports_def)
  show "proc_triple absent (bnd (p_save P (built_assessment en lr summary hash) rs (lr_lease_generation lr))
      (\<lambda>s. ret (built_assessment en lr summary hash)))
     (\<lambda>a w. published a (lr_lease_generation lr) w \<and> a_run_id a = lr_run_id lr
        \<and> a_tenant_id a = rs_tenant_id (lr_spec lr) \<and> a_assessment_id a = re_id en) absent"
    by (rule triple_bnd [OF saves], rule triple_ret) (simp_all add: built_assessment_def)
qed

lemma completed:
  assumes "a_run_id a = i" "a_tenant_id a = t"
  shows "proc_triple (published a g)
    (bnd (p_complete P i g SUCCEEDED None t) (\<lambda>c. if c then ret a else raise_exn PermissionErr))
    (\<lambda>b w. b = a \<and> published a g w) E"
proof -
  have k: "keeps (published a g) (p_complete P i g SUCCEEDED None t)"
    using published_kept by (simp add: quiet_ports_def)
  show ?thesis
  proof (rule proc_tripleR)
    fix w res w1 assume w: "published a g w"
      and b: "bnd (p_complete P i g SUCCEEDED None t) (\<lambda>c. if c then ret a else raise_exn PermissionErr) w = (res, w1)"
    obtain w2 where c: "p_complete P i g SUCCEEDED None t w = (Inr True, w2)"
      using completes [OF w] assms by (metis prod.collapse)
    with b have r: "res = Inr a" "w1 = w2" by (simp_all add: proc_defs)
    moreover have "published a g w2" using proc_tripleD(2) [OF k w c] .
    ultimately show "(\<forall>e. res = Inl e \<longrightarrow> E w1) \<and> (\<forall>x. res = Inr x \<longrightarrow> x = a \<and> published a g w1)" by simp
  qed
qed

lemma body_outcome:
  "proc_triple absent (run_body P en lr)
     (\<lambda>a w. published a (lr_lease_generation lr) w \<and> a_run_id a = lr_run_id lr
        \<and> a_tenant_id a = rs_tenant_id (lr_spec lr) \<and> a_assessment_id a = re_id en) absent"
proof -
  note q = absent_kept [unfolded quiet_ports_def]
  have rules: "keeps absent (execute_rules_and_advisories P lr)"
    unfolding execute_rules_and_advisories_def
    by (rule triple_bnd [OF _ triple_bnd [OF triple_of_pure triple_outliers]]) (use q in blast)+
  have last: "proc_triple (\<lambda>w. published a (lr_lease_generation lr) w \<and> a_run_id a = lr_run_id lr
        \<and> a_tenant_id a = rs_tenant_id (lr_spec lr) \<and> a_assessment_id a = re_id en)
      (bnd (p_complete P (lr_run_id lr) (lr_lease_generation lr) SUCCEEDED None (rs_tenant_id (lr_spec lr)))
        (\<lambda>c. if c then ret a else raise_exn PermissionErr))
      (\<lambda>a w. published a (lr_lease_generation lr) w \<and> a_run_id a = lr_run_id lr
        \<and> a_tenant_id a = rs_tenant_id (lr_spec lr) \<and> a_assessment_id a = re_id en) absent" for a
    using completed [of a "lr_run_id lr" "rs_tenant_id (lr_spec lr)" "lr_lease_generation lr" absent]
    unfolding proc_triple_def by blast
  show ?thesis
    unfolding run_body_def
    by (rule triple_bnd [OF _ triple_bnd [OF rules triple_bnd [OF triple_of_pure triple_bnd [OF persisted last]]]])
      (use q in blast)
qed

text \<open>A run returns an assessment exactly when it is published; a run that raises has published nothing.\<close>

lemma run_outcome:
  "proc_triple absent (execute_leased_run P en lr)
     (\<lambda>a w. published a (lr_lease_generation lr) w \<and> a_run_id a = lr_run_id lr
        \<and> a_tenant_id a = rs_tenant_id (lr_spec lr) \<and> a_assessment_id a = re_id en) absent"
proof -
  define Q where "Q = (\<lambda>a w. published a (lr_lease_generation lr) w \<and> a_run_id a = lr_run_id lr
        \<and> a_tenant_id a = rs_tenant_id (lr_spec lr) \<and> a_assessment_id a = re_id en)"
  note q = absent_kept [unfolded quiet_ports_def]
  have f: "proc_triple absent (fail_run P lr (run_body P en lr)) Q absent"
  proof (rule proc_tripleR)
    fix w res w1 assume w: "absent w" and m: "fail_run P lr (run_body P en lr) w = (res, w1)"
    obtain r w2 where b: "run_body P en lr w = (r, w2)" by fastforce
    have ok: "r = Inl e \<Longrightarrow> absent w2" "r = Inr a \<Longrightarrow> Q a w2" for e a
      using proc_tripleD [OF body_outcome w, of en lr] b by (auto simp: Q_def)
    have k: "keeps absent (p_complete P (lr_run_id lr) (lr_lease_generation lr) FAILED m' (rs_tenant_id (lr_spec lr)))" for m'
      using q by blast
    have raised: "proc_triple absent (bnd (p_complete P (lr_run_id lr) (lr_lease_generation lr) FAILED m'
        (rs_tenant_id (lr_spec lr))) (\<lambda>d. raise_exn e)) Q absent" for m' e
      by (rule triple_bnd [OF k]) (rule triple_raise)
    show "(\<forall>e. res = Inl e \<longrightarrow> absent w1) \<and> (\<forall>a. res = Inr a \<longrightarrow> Q a w1)"
      using m b ok proc_tripleD [OF raised, of w2]
      by (auto simp: fail_run_def split: sum.splits run_exn.splits)
  qed
  have fin: "proc_triple absent (finally_do (fail_run P lr (run_body P en lr)) (p_release P sn)) Q absent" for sn
  proof (rule proc_tripleR)
    fix w res w1 assume w: "absent w" and m: "finally_do (fail_run P lr (run_body P en lr)) (p_release P sn) w = (res, w1)"
    obtain r w2 where b: "fail_run P lr (run_body P en lr) w = (r, w2)" by fastforce
    obtain w3 where c: "p_release P sn w2 = (Inr (), w3)" using releases [of sn w2] by (metis prod.collapse)
    from m b c have r: "res = r" "w1 = w3" by (simp_all add: finally_do_def)
    have k: "keeps absent (p_release P sn)" "keeps (published a g) (p_release P sn)" for a g
      using q published_kept by (simp_all add: quiet_ports_def)
    show "(\<forall>e. res = Inl e \<longrightarrow> absent w1) \<and> (\<forall>a. res = Inr a \<longrightarrow> Q a w1)"
      using proc_tripleD [OF f w] proc_tripleD(2) [OF k(1) _ c] proc_tripleD(2) [OF k(2) _ c] b
      by (auto simp: r Q_def)
  qed
  show ?thesis
    unfolding execute_leased_run_def Q_def [symmetric]
    by (rule triple_bnd [of _ _ "\<lambda>x. absent"]) (use q fin in \<open>auto intro: triple_raise\<close>)
qed

end

subsection \<open>The hash\<close>

text \<open>The assessment hash does not depend on the order in which the engine delivered the rule results or
  the aggregator the dimensions: the same results in any order give the same hash.\<close>

theorem hash_order_independent:
  assumes "mset rs = mset rs'" "distinct (map rule_id rs)"
    and "mset (ss_dimension_results s) = mset (ss_dimension_results s')" "distinct (map d_dimension (ss_dimension_results s))"
    and "ss_published_score s' = ss_published_score s" "ss_publication_status s' = ss_publication_status s"
    and "ss_coverage_ratio s' = ss_coverage_ratio s" "ss_quality_gate s' = ss_quality_gate s"
  shows "compute_assessment_hash en lr s' rs' = compute_assessment_hash en lr s rs"
proof -
  have "sort_key rule_id rs = sort_key rule_id rs'"
    using assms(1) assms(2) by (intro sort_key_mset_eq) (simp_all add: distinct_map)
  moreover have "sort_key d_dimension (ss_dimension_results s) = sort_key d_dimension (ss_dimension_results s')"
    using assms(3,4) by (intro sort_key_mset_eq) (simp_all add: distinct_map)
  ultimately show ?thesis
    using assms(5-8) by (simp add: compute_assessment_hash_def assessment_payload_def)
qed

subsection \<open>Internal error texts stay inside\<close>

text \<open>Two outcomes that differ at most in the text of an internal error.\<close>

definition same_but_text :: "run_exn + 'a \<Rightarrow> run_exn + 'a \<Rightarrow> bool" where
  "same_but_text x y \<longleftrightarrow> x = y \<or> (\<exists>s t. x = Inl (OtherExn s) \<and> y = Inl (OtherExn t))"

definition same_effect :: "('w, 'a) proc \<Rightarrow> ('w, 'a) proc \<Rightarrow> bool" where
  "same_effect m n \<longleftrightarrow> (\<forall>w. snd (m w) = snd (n w) \<and> same_but_text (fst (m w)) (fst (n w)))"

lemma same_effect_refl [simp]: "same_effect m m"
  by (simp add: same_effect_def same_but_text_def)

lemma same_effect_bnd:
  assumes "same_effect m n" "\<And>x. same_effect (f x) (g x)"
  shows "same_effect (bnd m f) (bnd n g)"
  unfolding same_effect_def
proof (intro allI)
  fix w
  obtain r w1 where m: "m w = (r, w1)" by fastforce
  moreover obtain r' where n: "n w = (r', w1)" using assms(1) m unfolding same_effect_def by (metis prod.collapse snd_conv)
  moreover have "same_but_text r r'" using assms(1) m n unfolding same_effect_def by (metis fst_conv)
  ultimately show "snd (bnd m f w) = snd (bnd n g w) \<and> same_but_text (fst (bnd m f w)) (fst (bnd n g w))"
    using assms(2) unfolding same_effect_def same_but_text_def bnd_def by (cases r) fastforce+
qed

definition same_ports :: "'w ports \<Rightarrow> 'w ports \<Rightarrow> bool" where
  "same_ports P Q \<longleftrightarrow> (\<forall>i g t. same_effect (p_heartbeat P i g t) (p_heartbeat Q i g t))
     \<and> (\<forall>i g st m t. same_effect (p_complete P i g st m t) (p_complete Q i g st m t))
     \<and> (\<forall>sn. same_effect (p_verify P sn) (p_verify Q sn))
     \<and> (\<forall>sn rules n. same_effect (p_execute_rules P sn rules n) (p_execute_rules Q sn rules n))
     \<and> (\<forall>sn c. same_effect (p_detect_outliers P sn c) (p_detect_outliers Q sn c))
     \<and> (\<forall>sn. same_effect (p_release P sn) (p_release Q sn))
     \<and> (\<forall>a rs g. same_effect (p_save P a rs g) (p_save Q a rs g))"

lemma same_effect_outliers:
  "same_ports P Q \<Longrightarrow> same_effect (run_outliers P sn cols rs) (run_outliers Q sn cols rs)"
  by (induction cols arbitrary: rs) (auto simp: same_ports_def intro!: same_effect_bnd)

lemma same_effect_body:
  assumes "same_ports P Q"
  shows "same_effect (run_body P en lr) (run_body Q en lr)"
  unfolding run_body_def execute_rules_and_advisories_def build_and_persist_assessment_def
  using assms same_effect_outliers [OF assms]
  by (intro same_effect_bnd) (auto simp: same_ports_def)

lemma same_effect_fail:
  assumes "same_ports P Q" "same_effect m n"
  shows "same_effect (fail_run P lr m) (fail_run Q lr n)"
  unfolding same_effect_def
proof (intro allI)
  fix w
  obtain r w1 where m: "m w = (r, w1)" by fastforce
  moreover obtain r' where n: "n w = (r', w1)" using assms(2) m unfolding same_effect_def by (metis prod.collapse snd_conv)
  moreover have sim: "same_but_text r r'" using assms(2) m n unfolding same_effect_def by (metis fst_conv)
  have b: "same_effect (bnd (p_complete P i g FAILED msg t) (\<lambda>d. raise_exn e) :: ('a, 'b) proc)
      (bnd (p_complete Q i g FAILED msg t) (\<lambda>d. raise_exn e'))"
    if "same_but_text (Inl e) (Inl e' :: run_exn + 'b)" for i g t msg e e'
    using assms(1) that by (intro same_effect_bnd) (auto simp: same_ports_def same_effect_def same_but_text_def proc_defs)
  show "snd (fail_run P lr m w) = snd (fail_run Q lr n w) \<and> same_but_text (fst (fail_run P lr m w)) (fst (fail_run Q lr n w))"
  proof (cases r)
    case (Inr x)
    then have "r' = Inr x" using sim by (auto simp: same_but_text_def)
    with Inr m n show ?thesis by (simp add: fail_run_def same_but_text_def)
  next
    case (Inl e)
    then obtain e' where e': "r' = Inl e'" "same_but_text (Inl e) (Inl e' :: run_exn + 'b)"
      using sim by (auto simp: same_but_text_def)
    then have s: "safe_run_error e' = safe_run_error e" "e = PermissionErr \<longleftrightarrow> e' = PermissionErr"
      by (auto simp: same_but_text_def safe_run_error_def)
    show ?thesis
    proof (cases "e = PermissionErr")
      case True
      with s m n Inl e' show ?thesis by (simp add: fail_run_def same_but_text_def)
    next
      case False
      define F where "F = (\<lambda>(R :: 'a ports) e. bnd (p_complete R (lr_run_id lr) (lr_lease_generation lr) FAILED (Some (safe_run_error e))
            (rs_tenant_id (lr_spec lr))) (\<lambda>d. raise_exn e) w1 :: (run_exn + 'b) \<times> 'a)"
      have "fail_run P lr m w = F P e" "fail_run Q lr n w = F Q e'"
        using False s(2) m n Inl e' by (cases e; cases e'; simp add: fail_run_def F_def)+
      with b [OF e'(2)] show ?thesis unfolding same_effect_def by (simp add: F_def s)
    qed
  qed
qed

lemma same_effect_finally:
  assumes "same_effect m n" "same_effect c d"
  shows "same_effect (finally_do m c) (finally_do n d)"
  unfolding same_effect_def
proof (intro allI)
  fix w
  obtain r w1 where m: "m w = (r, w1)" by fastforce
  moreover obtain r' where n: "n w = (r', w1)" using assms(1) m unfolding same_effect_def by (metis prod.collapse snd_conv)
  moreover have "same_but_text r r'" using assms(1) m n unfolding same_effect_def by (metis fst_conv)
  moreover obtain q w2 where c: "c w1 = (q, w2)" by fastforce
  moreover obtain q' where d: "d w1 = (q', w2)" using assms(2) c unfolding same_effect_def by (metis prod.collapse snd_conv)
  moreover have "same_but_text q q'" using assms(2) c d unfolding same_effect_def by (metis fst_conv)
  ultimately show "snd (finally_do m c w) = snd (finally_do n d w) \<and> same_but_text (fst (finally_do m c w)) (fst (finally_do n d w))"
    unfolding finally_do_def same_but_text_def by (cases q) auto
qed

text \<open>Internal error texts stay inside: whatever text an unexpected exception of a port carries, the
  state the run leaves (the error stored on the run included) is the same; only the message of a
  deliberate \<open>RunAbortedError\<close> is stored.\<close>

theorem error_text_confined:
  assumes "same_ports P Q"
  shows "snd (execute_leased_run P en lr w) = snd (execute_leased_run Q en lr w)"
proof -
  have "same_effect (execute_leased_run P en lr) (execute_leased_run Q en lr)"
    unfolding execute_leased_run_def
  proof (rule same_effect_bnd)
    show "same_effect (p_heartbeat P (lr_run_id lr) (lr_lease_generation lr) (rs_tenant_id (lr_spec lr)))
        (p_heartbeat Q (lr_run_id lr) (lr_lease_generation lr) (rs_tenant_id (lr_spec lr)))"
      using assms by (simp add: same_ports_def)
    have rel: "same_effect (p_release P sn) (p_release Q sn)" for sn using assms by (simp add: same_ports_def)
    show "same_effect (if \<not> alive then raise_exn PermissionErr else finally_do (fail_run P lr (run_body P en lr)) (p_release P (rs_snapshot (lr_spec lr))))
        (if \<not> alive then raise_exn PermissionErr else finally_do (fail_run Q lr (run_body Q en lr)) (p_release Q (rs_snapshot (lr_spec lr))))" for alive
      using same_effect_finally [OF same_effect_fail [OF assms same_effect_body [OF assms]] rel] by simp
  qed
  then show ?thesis by (simp add: same_effect_def)
qed

end
