(* ===== verification/RunOutcome.thy ===== *)
theory RunOutcome
  imports Orchestrator StoreProperties
begin

text \<open>
  The orchestrator on the PostgreSQL queue and store, with other workers' calls between its own: a run
  that returns has published its assessment, a run that raises has published nothing. The compute
  engine is a parameter; it does not touch the tables.
\<close>

subsection \<open>The PostgreSQL world\<close>

datatype other_call = QueueCall queue_op | SaveCall timestamp immutable_assessment "quality_rule_result list" int

record pg_config =
  cf_en :: store_env
  cf_uc :: case_table
  cf_lc :: case_table
  cf_disp :: bool
  cf_locks :: "timestamp \<Rightarrow> uuid set"
  cf_timeout :: int
  cf_clock :: "nat \<Rightarrow> timestamp"
  cf_others :: "nat \<Rightarrow> other_call list"
  cf_id :: uuid

record pg_world =
  w_db :: store_db
  w_tick :: nat

fun apply_call :: "pg_config \<Rightarrow> other_call \<Rightarrow> store_db \<Rightarrow> store_db" where
  "apply_call cf (QueueCall op) db =
     db\<lparr>st_pg := pg_step (cf_uc cf) (cf_lc cf) (cf_disp cf) (cf_locks cf) (cf_timeout cf) op (st_pg db)\<rparr>"
| "apply_call cf (SaveCall now a rs g) db = snd (save_assessment_atomic (cf_en cf) now a rs g db)"

text \<open>
  One call of this worker: first what the others did meanwhile, then the transaction at the time read.
  The id that \<open>uuid4()\<close> draws for this run's assessment, \<open>cf_id\<close>, is in nobody else's calls.
\<close>

definition foreign :: "uuid \<Rightarrow> other_call \<Rightarrow> bool" where
  "foreign x c = (case c of QueueCall op \<Rightarrow> True | SaveCall now a rs g \<Rightarrow> a_assessment_id a \<noteq> x)"

definition meanwhile :: "pg_config \<Rightarrow> nat \<Rightarrow> store_db \<Rightarrow> store_db" where
  "meanwhile cf n = fold (apply_call cf) (filter (foreign (cf_id cf)) (cf_others cf n))"

definition transact :: "pg_config \<Rightarrow> (timestamp \<Rightarrow> store_db \<Rightarrow> (run_exn + 'a) \<times> store_db) \<Rightarrow> (pg_world, 'a) proc" where
  "transact cf f w =
     (let db = meanwhile cf (w_tick w) (w_db w);
          (res, db') = f (cf_clock cf (w_tick w)) db
      in (res, \<lparr>w_db = db', w_tick = w_tick w + 1\<rparr>))"

definition on_queue :: "(pg_db \<Rightarrow> 'a \<times> pg_db) \<Rightarrow> store_db \<Rightarrow> (run_exn + 'a) \<times> store_db" where
  "on_queue f db = (case f (st_pg db) of (x, q) \<Rightarrow> (Inr x, db\<lparr>st_pg := q\<rparr>))"

definition save_error :: "string \<Rightarrow> run_exn" where
  "save_error e = (if e = ''PermissionError'' then PermissionErr else OtherExn e)"

definition on_store :: "(store_db \<Rightarrow> (string + unit) \<times> store_db) \<Rightarrow> store_db \<Rightarrow> (run_exn + unit) \<times> store_db" where
  "on_store f db = (case f db of (Inl e, db') \<Rightarrow> (Inl (save_error e), db') | (Inr x, db') \<Rightarrow> (Inr (), db'))"

text \<open>The compute engine: what it returns or raises, call by call.\<close>

record engine =
  eg_verify :: "dataset_snapshot \<Rightarrow> nat \<Rightarrow> run_exn + unit"
  eg_rules :: "dataset_snapshot \<Rightarrow> quality_rule list \<Rightarrow> int \<Rightarrow> run_exn + rule_execution_output list"
  eg_outliers :: "dataset_snapshot \<Rightarrow> ident \<Rightarrow> run_exn + outlier_execution_output"

definition pg_ports :: "pg_config \<Rightarrow> engine \<Rightarrow> pg_world ports" where
  "pg_ports cf eg =
     \<lparr>p_heartbeat = (\<lambda>i g t. transact cf (\<lambda>now. on_queue (pg_heartbeat (cf_disp cf) (cf_timeout cf) now i g None (Some t)))),
      p_complete = (\<lambda>i g st m t. transact cf (\<lambda>now. on_queue (pg_complete (cf_disp cf) now i g st m (Some t)))),
      p_verify = (\<lambda>sn w. transact cf (\<lambda>now db. (eg_verify eg sn (w_tick w), db)) w),
      p_execute_rules = (\<lambda>sn rules n. transact cf (\<lambda>now db. (eg_rules eg sn rules n, db))),
      p_detect_outliers = (\<lambda>sn c. transact cf (\<lambda>now db. (eg_outliers eg sn c, db))),
      p_release = (\<lambda>sn. transact cf (\<lambda>now db. (Inr (), db))),
      p_save = (\<lambda>a rs g. transact cf (\<lambda>now. on_store (save_assessment_atomic (cf_en cf) now a rs g)))\<rparr>"

subsection \<open>What every call keeps\<close>

definition has_assessment :: "uuid \<Rightarrow> store_db \<Rightarrow> bool" where
  "has_assessment x db \<longleftrightarrow> x \<in> ar_assessment_id ` set (st_assessments db)"

definition run_done :: "immutable_assessment \<Rightarrow> int \<Rightarrow> store_db \<Rightarrow> bool" where
  "run_done a g db \<longleftrightarrow> db_ok (st_pg db) \<and> has_assessment (a_assessment_id a) db
     \<and> (\<exists>r. row_of (st_pg db) (a_run_id a) = Some r \<and> rr_status r = SUCCEEDED
          \<and> rr_lease_generation r = g \<and> rr_tenant_id r = a_tenant_id a)"

definition not_yet :: "uuid \<Rightarrow> store_db \<Rightarrow> bool" where
  "not_yet x db \<longleftrightarrow> db_ok (st_pg db) \<and> \<not> has_assessment x db"

lemma pg_step_ok: "db_ok db \<Longrightarrow> db_ok (pg_step uc lc disp lk lt op db)"
  by (cases op) (simp_all add: pg_enqueue_ok pg_claim_ok pg_heartbeat_row(3) pg_complete_row(4))

lemma save_assessments:
  assumes "db_ok (st_pg db)"
  shows "has_assessment x (snd (save_assessment_atomic en now a rs g db)) \<longleftrightarrow>
    has_assessment x db \<or> (x = a_assessment_id a \<and> fst (save_assessment_atomic en now a rs g db) = Inr ())"
  by (rule save_cases [OF assms, of en now a rs g]) (auto simp: has_assessment_def assessment_row_of_def)

lemma save_keeps_finished:
  assumes "db_ok (st_pg db)" "row_of (st_pg db) i = Some r" "rr_status r = SUCCEEDED"
  shows "row_of (st_pg (snd (save_assessment_atomic en now a rs g db))) i = Some r"
proof -
  have "row_of (snd (fence_run now t j g (st_pg db))) i = Some r" for t j
    unfolding fence_run_def by (subst row_of_update) (use assms(2,3) in \<open>auto simp: may_complete_def\<close>)
  then show ?thesis
    by (rule_tac save_cases [OF assms(1), of en now a rs g]) (simp_all add: assms(2))
qed

lemma call_keeps:
  shows "not_yet x db \<Longrightarrow> foreign x c \<Longrightarrow> not_yet x (apply_call cf c db)"
    and "run_done a g db \<Longrightarrow> run_done a g (apply_call cf c db)"
proof -
  show "not_yet x (apply_call cf c db)" if "not_yet x db" "foreign x c"
  proof (cases c)
    case (QueueCall op)
    with that(1) show ?thesis by (simp add: not_yet_def has_assessment_def pg_step_ok)
  next
    case (SaveCall now b rs g')
    with that show ?thesis using save_assessments [of db x "cf_en cf" now b rs g']
      by (auto simp: not_yet_def save_keeps_ok foreign_def)
  qed
  show "run_done a g (apply_call cf c db)" if d: "run_done a g db"
  proof -
    obtain r where r: "db_ok (st_pg db)" "row_of (st_pg db) (a_run_id a) = Some r" "rr_status r = SUCCEEDED"
      "rr_lease_generation r = g" "rr_tenant_id r = a_tenant_id a" "has_assessment (a_assessment_id a) db"
      using d by (auto simp: run_done_def)
    show ?thesis
    proof (cases c)
      case (QueueCall op)
      have "row_of (pg_step (cf_uc cf) (cf_lc cf) (cf_disp cf) (cf_locks cf) (cf_timeout cf) op (st_pg db)) (a_run_id a) = Some r"
        by (rule step_keeps_row [OF r(1,2)]) (simp_all add: r(3) claimable_def finished_def)
      with r QueueCall show ?thesis by (auto simp: run_done_def has_assessment_def pg_step_ok)
    next
      case (SaveCall now b rs g')
      with r show ?thesis
        using save_keeps_finished [OF r(1-3), of "cf_en cf" now b rs g'] save_assessments [OF r(1), of _ "cf_en cf" now b rs g']
        by (auto simp: run_done_def save_keeps_ok)
    qed
  qed
qed

lemma meanwhile_keeps:
  shows "not_yet (cf_id cf) db \<Longrightarrow> not_yet (cf_id cf) (meanwhile cf n db)"
    and "run_done a g db \<Longrightarrow> run_done a g (meanwhile cf n db)"
proof -
  have "not_yet x db \<Longrightarrow> not_yet x (fold (apply_call cf) (filter (foreign x) cs) db)" for cs x
    by (induction cs arbitrary: db) (auto intro: call_keeps(1))
  then show "not_yet (cf_id cf) db \<Longrightarrow> not_yet (cf_id cf) (meanwhile cf n db)" by (simp add: meanwhile_def)
  have "run_done a g db \<Longrightarrow> run_done a g (fold (apply_call cf) cs db)" for cs
    by (induction cs arbitrary: db) (auto intro: call_keeps(2))
  then show "run_done a g db \<Longrightarrow> run_done a g (meanwhile cf n db)" by (simp add: meanwhile_def)
qed

lemma transact_triple:
  assumes "\<And>n db. I db \<Longrightarrow> I (meanwhile cf n db)"
    and "\<And>now db e db'. I db \<Longrightarrow> f now db = (Inl e, db') \<Longrightarrow> E db'"
    and "\<And>now db x db'. I db \<Longrightarrow> f now db = (Inr x, db') \<Longrightarrow> Q x db'"
  shows "proc_triple (\<lambda>w. I (w_db w)) (transact cf f) (\<lambda>x w. Q x (w_db w)) (\<lambda>w. E (w_db w))"
proof (rule proc_tripleR)
  fix w res w1 assume w: "I (w_db w)" and t: "transact cf f w = (res, w1)"
  obtain r db' where f: "f (cf_clock cf (w_tick w)) (meanwhile cf (w_tick w) (w_db w)) = (r, db')" by fastforce
  have "res = r" "w_db w1 = db'" using t f by (auto simp: transact_def Let_def)
  with assms(2,3) [OF assms(1) [OF w]] f
  show "(\<forall>e. res = Inl e \<longrightarrow> E (w_db w1)) \<and> (\<forall>x. res = Inr x \<longrightarrow> Q x (w_db w1))" by auto
qed

lemma transact_keeps:
  assumes "\<And>n db. I db \<Longrightarrow> I (meanwhile cf n db)" "\<And>now db. I db \<Longrightarrow> I (snd (f now db))"
  shows "keeps (\<lambda>w. I (w_db w)) (transact cf f)"
proof (rule transact_triple [where I = I and Q = "\<lambda>x. I" and E = I])
  fix now db db' assume "I db"
  then have "I (snd (f now db))" by (rule assms(2))
  then show "f now db = (Inl e, db') \<Longrightarrow> I db'" "f now db = (Inr x, db') \<Longrightarrow> I db'" for e x by simp_all
qed (rule assms(1))

text \<open>A queue call of this worker is one of the calls that were shown to keep things.\<close>

lemma own_queue_call:
  "snd (on_queue (pg_heartbeat (cf_disp cf) (cf_timeout cf) now i g to ten) db) = apply_call cf (QueueCall (OpHeartbeat now i g to ten)) db"
  "snd (on_queue (pg_complete (cf_disp cf) now i g st m ten) db) = apply_call cf (QueueCall (OpComplete now i g st m ten)) db"
  by (simp_all add: on_queue_def case_prod_beta)

lemma pg_ports_quiet:
  assumes "\<And>n db. I db \<Longrightarrow> I (meanwhile cf n db)" "\<And>op db. I db \<Longrightarrow> I (apply_call cf (QueueCall op) db)"
  shows "quiet_ports (pg_ports cf eg) (\<lambda>w. I (w_db w))"
proof -
  have pure: "keeps (\<lambda>w. I (w_db w)) (\<lambda>w. transact cf (\<lambda>now db. (h (w_tick w), db)) w)" for h :: "nat \<Rightarrow> run_exn + 'x"
    unfolding proc_triple_def transact_def by (auto simp: assms(1))
  show ?thesis
    unfolding quiet_ports_def pg_ports_def ports.simps
    by (intro conjI allI transact_keeps assms(1) pure)
      (simp_all only: own_queue_call assms(2) snd_conv)
qed

lemma done_completes:
  assumes "run_done a g db"
  shows "fst (pg_complete disp now (a_run_id a) g SUCCEEDED None (Some (a_tenant_id a)) (st_pg db))"
proof -
  obtain r where r: "db_ok (st_pg db)" "row_of (st_pg db) (a_run_id a) = Some r" "rr_status r = SUCCEEDED"
    "rr_lease_generation r = g" "rr_tenant_id r = a_tenant_id a" using assms by (auto simp: run_done_def)
  define se where "se = enter_tenant disp (Some (a_tenant_id a)) (a_run_id a) (st_pg db)"
  have se: "ctx_tenant se = Some (a_tenant_id a)" by (simp add: se_def enter_tenant_def)
  have "update_runs (\<lambda>r. may_complete now (a_run_id a) g r \<and> can_update se now r) f (st_pg db) = (0, st_pg db)" for f
  proof (rule update_none)
    fix q assume "q \<in> set (db_runs (st_pg db))"
    then have "rr_run_id q = a_run_id a \<Longrightarrow> q = r" using r(1,2) row_of_Some [of "st_pg db"] by (metis option.inject)
    then show "\<not> (may_complete now (a_run_id a) g q \<and> can_update se now q)"
      using r(3) by (auto simp: may_complete_def)
  qed
  moreover have "fetch_run se (a_run_id a) (st_pg db) = Some r"
    using r(1,2) by (rule fetch_run_row) (simp add: can_select_def se r(5))
  ultimately show ?thesis by (simp add: pg_complete_def Let_def se_def [symmetric] r(3,4))
qed

lemma save_done:
  assumes "not_yet x db"
  shows "on_store (save_assessment_atomic en now a rs g) db = (Inl e, db') \<Longrightarrow> not_yet x db'"
    and "on_store (save_assessment_atomic en now a rs g) db = (Inr v, db') \<Longrightarrow> run_done a g db'"
proof -
  have ok: "db_ok (st_pg db)" using assms by (simp add: not_yet_def)
  show "on_store (save_assessment_atomic en now a rs g) db = (Inl e, db') \<Longrightarrow> not_yet x db'"
    by (rule save_cases [OF ok, of en now a rs g]) (use assms in \<open>auto simp: on_store_def\<close>)
  assume r: "on_store (save_assessment_atomic en now a rs g) db = (Inr v, db')"
  show "run_done a g db'"
  proof (rule save_cases [OF ok, of en now a rs g])
    fix e assume "save_assessment_atomic en now a rs g db = (Inl e, db)"
    with r show ?thesis by (simp add: on_store_def)
  next
    fix q dims rows
    assume q: "row_of (st_pg db) (a_run_id a) = Some q" "may_complete now (a_run_id a) g q" "rr_tenant_id q = a_tenant_id a"
      and s: "save_assessment_atomic en now a rs g db = (Inr (),
        db\<lparr>st_pg := insert_event (succeeded_event now a (rr_attempt_count q) g)
              (snd (fence_run now (a_tenant_id a) (a_run_id a) g (st_pg db))),
           st_assessments := st_assessments db @ [assessment_row_of en a], st_dimensions := dims,
           st_results := st_results db @ rows, st_outbox := st_outbox db @ [outbox_of now a]\<rparr>)"
    then have "db_ok (st_pg db')" "has_assessment (a_assessment_id a) db'"
      "row_of (st_pg db') (a_run_id a) = Some (q\<lparr>rr_status := SUCCEEDED, rr_completed_at := Some now\<rparr>)"
      using r fence_run_rows(2,3) [OF ok] by (auto simp: on_store_def has_assessment_def)
    then show ?thesis using q by (simp add: run_done_def may_complete_def)
  qed
qed

interpretation pgrun: run_ports "pg_ports cf eg" "\<lambda>w. not_yet (cf_id cf) (w_db w)" "\<lambda>a g w. run_done a g (w_db w)"
  for cf eg
proof (unfold_locales, goal_cases)
  case 1
  show ?case by (rule pg_ports_quiet) (auto intro: meanwhile_keeps(1) call_keeps(1) simp: foreign_def simp del: apply_call.simps)
next
  case (2 a g)
  show ?case by (rule pg_ports_quiet) (auto intro: meanwhile_keeps(2) call_keeps(2) simp del: apply_call.simps)
next
  case (3 a rs g)
  show ?case
    unfolding pg_ports_def ports.simps
    by (rule transact_triple) (auto intro: meanwhile_keeps(1) save_done)
next
  case (4 a g w)
  then have "run_done a g (meanwhile cf (w_tick w) (w_db w))" by (rule meanwhile_keeps(2))
  from done_completes [OF this] show ?case
    by (simp add: pg_ports_def transact_def Let_def on_queue_def case_prod_beta)
next
  case (5 sn w)
  show ?case by (simp add: pg_ports_def transact_def Let_def)
qed

subsection \<open>The outcome\<close>


definition demo_config :: pg_config where
  "demo_config = \<lparr>cf_en = demo_env, cf_uc = no_table, cf_lc = no_table, cf_disp = True, cf_locks = free_locks,
     cf_timeout = 300, cf_clock = (\<lambda>n. 20 + int n), cf_others = (\<lambda>n. []), cf_id = 20\<rparr>"

definition idle_engine :: engine where
  "idle_engine = \<lparr>eg_verify = (\<lambda>sn n. Inr ()), eg_rules = (\<lambda>sn rules n. Inr []),
     eg_outliers = (\<lambda>sn c. Inl (OtherExn ''none''))\<rparr>"

definition demo_lease :: leased_run where
  "demo_lease = \<lparr>lr_run_id = 7, lr_worker_id = u ''w1'', lr_lease_generation = 1, lr_claimed_at = 10,
     lr_lease_expires_at = 10 + seconds 300, lr_spec = demo_spec\<rparr>"

definition demo_run_env :: run_env where
  "demo_run_env = \<lparr>re_uc = no_table, re_nt = plain_numbers, re_sha = (\<lambda>s. s), re_id = 20, re_now = 22\<rparr>"

lemma demo_run_returns:
  "case execute_leased_run (pg_ports demo_config idle_engine) demo_run_env demo_lease \<lparr>w_db = demo_store, w_tick = 0\<rparr> of
     (Inr a, w') \<Rightarrow> a_assessment_id a = 20 | _ \<Rightarrow> False"
  by code_simp


definition demo_summary :: score_summary where
  "demo_summary = \<lparr>ss_dq_score = None, ss_coverage_ratio = None, ss_quality_gate = GPASS, ss_publication_status = WITHHELD,
     ss_published_score = None, ss_dimension_results = [], ss_all_required_dimensions_measured = True,
     ss_has_failed_required_rules = False, ss_has_unmeasured_required_rules = False\<rparr>"

theorem hash_order_independent_witness:
  "compute_assessment_hash demo_run_env demo_lease demo_summary [measured_result ''b'' VALIDITY 1 100, measured_result ''a'' VALIDITY 1 50] =
   compute_assessment_hash demo_run_env demo_lease demo_summary [measured_result ''a'' VALIDITY 1 50, measured_result ''b'' VALIDITY 1 100]"
  by (rule hash_order_independent) (simp_all add: demo_summary_def measured_result_def add_mset_commute)

theorem error_text_confined_witness:
  "snd (execute_leased_run (pg_ports demo_config (idle_engine\<lparr>eg_verify := (\<lambda>sn n. Inl (OtherExn ''secret''))\<rparr>))
       demo_run_env demo_lease \<lparr>w_db = demo_store, w_tick = 0\<rparr>) =
   snd (execute_leased_run (pg_ports demo_config (idle_engine\<lparr>eg_verify := (\<lambda>sn n. Inl (OtherExn ''other''))\<rparr>))
       demo_run_env demo_lease \<lparr>w_db = demo_store, w_tick = 0\<rparr>)"
  by (rule error_text_confined)
    (auto simp: same_ports_def pg_ports_def same_effect_def transact_def same_but_text_def Let_def split: prod.split)

end
