(* ===== verification/Governance.thy ===== *)
theory Governance
  imports Models
begin

text \<open>
  \<open>presentation/api/governance.py\<close>: the approval workflow of rulesets, scoring policies and templates as a
  state machine over the rows of one governed table. \<open>Inl\<close> is the HTTP error; the transaction of a request
  that fails is rolled back. A column of the supersede scope may be NULL, which equals nothing.
\<close>

datatype gov_status = DRAFT | PENDING_APPROVAL | ACTIVE | DEPRECATED

datatype gov_error = NotFound | BadRequest | Forbidden | Conflict

record auth_user =
  au_user_id :: uuid
  au_tenant_id :: uuid
  au_role :: ident

record gov_row =
  gv_id :: uuid
  gv_tenant :: "uuid option"
  gv_status :: gov_status
  gv_created_by :: uuid
  gv_submitted_by :: "uuid option"
  gv_submitted_at :: "timestamp option"
  gv_approved_by :: "uuid option"
  gv_approved_at :: "timestamp option"
  gv_scope :: "ident option list"

definition APPROVER_ROLES :: "ident set" where
  "APPROVER_ROLES = {u ''DATA_OWNER'', u ''DATA_STEWARD'', u ''WORKSPACE_ADMIN''}"

subsection \<open>The two requests\<close>

definition gov_find :: "uuid \<Rightarrow> gov_row list \<Rightarrow> gov_row option" where
  "gov_find i rows = List.find (\<lambda>r. gv_id r = i) rows"

definition load_for_update :: "uuid \<Rightarrow> auth_user \<Rightarrow> gov_row list \<Rightarrow> gov_error + gov_row" where
  "load_for_update i user rows =
     (case gov_find i rows of
        None \<Rightarrow> Inl NotFound
      | Some r \<Rightarrow> if gv_tenant r \<noteq> Some (au_tenant_id user) then Inl NotFound else Inr r)"

definition gov_transition :: "uuid \<Rightarrow> gov_status \<Rightarrow> (gov_row \<Rightarrow> gov_row) \<Rightarrow> gov_row list \<Rightarrow> gov_error + gov_row list" where
  "gov_transition i expected assign rows =
     (if length (filter (\<lambda>r. gv_id r = i \<and> gv_status r = expected) rows) \<noteq> 1 then Inl Conflict
      else Inr (map (\<lambda>r. if gv_id r = i \<and> gv_status r = expected then assign r else r) rows))"

definition submit_for_approval :: "timestamp \<Rightarrow> uuid \<Rightarrow> auth_user \<Rightarrow> gov_row list \<Rightarrow> gov_error + gov_row list" where
  "submit_for_approval now i user rows =
     (case load_for_update i user rows of
        Inl e \<Rightarrow> Inl e
      | Inr r \<Rightarrow>
          if gv_status r \<noteq> DRAFT then Inl BadRequest
          else gov_transition i DRAFT
            (\<lambda>r. r\<lparr>gv_status := PENDING_APPROVAL, gv_submitted_by := Some (au_user_id user), gv_submitted_at := Some now\<rparr>) rows)"

definition same_scope :: "ident option list \<Rightarrow> ident option list \<Rightarrow> bool" where
  "same_scope a b = list_all2 (\<lambda>x y. x \<noteq> None \<and> x = y) a b"

definition supersede :: "ident option list \<Rightarrow> gov_row list \<Rightarrow> gov_row list" where
  "supersede scope rows =
     map (\<lambda>r. if gv_status r = ACTIVE \<and> same_scope (gv_scope r) scope then r\<lparr>gv_status := DEPRECATED\<rparr> else r) rows"

definition approve :: "timestamp \<Rightarrow> uuid \<Rightarrow> auth_user \<Rightarrow> gov_row list \<Rightarrow> gov_error + gov_row list" where
  "approve now i user rows =
     (case load_for_update i user rows of
        Inl e \<Rightarrow> Inl e
      | Inr r \<Rightarrow>
          if gv_status r = ACTIVE then Inl BadRequest
          else if gv_status r = DRAFT then Inl BadRequest
          else if gv_status r \<noteq> PENDING_APPROVAL then Inl BadRequest
          else if au_user_id user = gv_created_by r \<or> gv_submitted_by r = Some (au_user_id user) then Inl Forbidden
          else if au_role user \<notin> APPROVER_ROLES then Inl Forbidden
          else gov_transition i PENDING_APPROVAL
            (\<lambda>r. r\<lparr>gv_status := ACTIVE, gv_approved_by := Some (au_user_id user), gv_approved_at := Some now\<rparr>)
            (supersede (gv_scope r) rows))"

subsection \<open>The workflow as a state machine\<close>

text \<open>A new revision is a draft of its creator; anybody may send any request at any time.\<close>

inductive gov_step :: "gov_row list \<Rightarrow> gov_row list \<Rightarrow> bool" where
  draft: "gv_id r \<notin> gv_id ` set rows \<Longrightarrow> gv_status r = DRAFT \<Longrightarrow> gov_step rows (rows @ [r])"
| submit: "submit_for_approval now i user rows = Inr rows' \<Longrightarrow> gov_step rows rows'"
| approved: "approve now i user rows = Inr rows' \<Longrightarrow> gov_step rows rows'"

inductive gov_reachable :: "gov_row list \<Rightarrow> bool" where
  start: "gov_reachable []"
| step: "gov_reachable rows \<Longrightarrow> gov_step rows rows' \<Longrightarrow> gov_reachable rows'"

inductive_cases gov_stepE: "gov_step rows rows'"

text \<open>Ids are unique, at most one ACTIVE revision per scope, and every revision that ever became active was
  approved by somebody who neither created nor submitted it.\<close>

definition independently_approved :: "gov_row \<Rightarrow> bool" where
  "independently_approved r \<longleftrightarrow>
     (\<exists>a. gv_approved_by r = Some a \<and> a \<noteq> gv_created_by r \<and> gv_submitted_by r \<noteq> None \<and> gv_submitted_by r \<noteq> Some a)"

definition gov_ok :: "gov_row list \<Rightarrow> bool" where
  "gov_ok rows \<longleftrightarrow> distinct (map gv_id rows)
     \<and> (\<forall>r \<in> set rows. \<forall>q \<in> set rows. gv_status r = ACTIVE \<and> gv_status q = ACTIVE \<and> same_scope (gv_scope r) (gv_scope q)
          \<longrightarrow> gv_id r = gv_id q)
     \<and> (\<forall>r \<in> set rows. gv_status r \<in> {ACTIVE, DEPRECATED} \<longrightarrow> independently_approved r)
     \<and> (\<forall>r \<in> set rows. gv_status r = PENDING_APPROVAL \<longrightarrow> gv_submitted_by r \<noteq> None)"

lemma same_scope_iff: "same_scope a b \<longleftrightarrow> a = b \<and> None \<notin> set a"
proof (induction a arbitrary: b)
  case (Cons x a)
  then show ?case by (cases b; cases x) (auto simp: same_scope_def)
qed (auto simp: same_scope_def)

lemma same_scope_sym: "same_scope a b \<longleftrightarrow> same_scope b a"
  by (auto simp: same_scope_iff)

lemma gov_find_Some:
  "gov_find i rows = Some r \<Longrightarrow> r \<in> set rows \<and> gv_id r = i"
  by (auto simp: gov_find_def find_Some_iff in_set_conv_nth)

lemma load_Inr: "load_for_update i user rows = Inr r \<Longrightarrow>
    r \<in> set rows \<and> gv_id r = i \<and> gv_tenant r = Some (au_tenant_id user)"
  by (auto simp: load_for_update_def split: option.splits if_splits dest: gov_find_Some)

lemma transition_Inr: "gov_transition i st f rows = Inr rows' \<Longrightarrow>
    rows' = map (\<lambda>r. if gv_id r = i \<and> gv_status r = st then f r else r) rows"
  by (simp add: gov_transition_def split: if_splits)

lemma same_id: "distinct (map gv_id rows) \<Longrightarrow> r \<in> set rows \<Longrightarrow> q \<in> set rows \<Longrightarrow> gv_id r = gv_id q \<Longrightarrow> r = q"
  by (metis distinct_map inj_onD)

text \<open>A request that rewrites rows in place keeps the ids.\<close>

lemma map_ids: "(\<And>r. gv_id (f r) = gv_id r) \<Longrightarrow> map gv_id (map f rows) = map gv_id rows"
  by (induction rows) auto

lemma submit_ok:
  assumes "gov_ok rows" "submit_for_approval now i user rows = Inr rows'"
  shows "gov_ok rows'"
proof -
  define f where "f = (\<lambda>r :: gov_row. if gv_id r = i \<and> gv_status r = DRAFT
      then r\<lparr>gv_status := PENDING_APPROVAL, gv_submitted_by := Some (au_user_id user), gv_submitted_at := Some now\<rparr> else r)"
  have r: "rows' = map f rows"
    using assms(2) by (auto simp: submit_for_approval_def f_def split: sum.splits if_splits dest!: transition_Inr)
  have ids: "map gv_id (map f rows) = map gv_id rows" by (rule map_ids) (simp add: f_def)
  have f: "gv_id (f r) = gv_id r" "gv_scope (f r) = gv_scope r" "gv_status (f r) = ACTIVE \<longleftrightarrow> gv_status r = ACTIVE"
    "gv_status (f r) = DEPRECATED \<longleftrightarrow> gv_status r = DEPRECATED"
    "gv_status (f r) \<in> {ACTIVE, DEPRECATED} \<Longrightarrow> f r = r"
    "gv_status (f r) = PENDING_APPROVAL \<Longrightarrow> f r = r \<or> gv_submitted_by (f r) \<noteq> None" for r
    by (auto simp: f_def)
  have "distinct (map gv_id rows')" using assms(1) unfolding r ids by (simp add: gov_ok_def)
  moreover have "\<forall>r \<in> set rows'. gv_status r \<in> {ACTIVE, DEPRECATED} \<longrightarrow> independently_approved r"
    using assms(1) f(5) by (fastforce simp: r gov_ok_def)
  moreover have "\<forall>r \<in> set rows'. gv_status r = PENDING_APPROVAL \<longrightarrow> gv_submitted_by r \<noteq> None"
    using assms(1) f(6) by (fastforce simp: r gov_ok_def)
  ultimately show ?thesis using assms(1) unfolding gov_ok_def r set_map by (simp del: map_map add: f)
qed

lemma approve_Inr:
  assumes "approve now i user rows = Inr rows'"
  obtains r where "r \<in> set rows" "gv_id r = i" "gv_tenant r = Some (au_tenant_id user)" "gv_status r = PENDING_APPROVAL"
    "au_user_id user \<noteq> gv_created_by r" "gv_submitted_by r \<noteq> Some (au_user_id user)" "au_role user \<in> APPROVER_ROLES"
    "rows' = map (\<lambda>r. if gv_id r = i \<and> gv_status r = PENDING_APPROVAL
       then r\<lparr>gv_status := ACTIVE, gv_approved_by := Some (au_user_id user), gv_approved_at := Some now\<rparr> else r)
       (supersede (gv_scope r) rows)"
  using assms
  by (auto simp: approve_def split: sum.splits if_splits dest!: transition_Inr load_Inr)

lemma approve_ok:
  assumes ok: "gov_ok rows" and a: "approve now i user rows = Inr rows'"
  shows "gov_ok rows'"
proof (rule approve_Inr [OF a])
  fix p
  assume p: "p \<in> set rows" "gv_id p = i" "gv_status p = PENDING_APPROVAL"
    "au_user_id user \<noteq> gv_created_by p" "gv_submitted_by p \<noteq> Some (au_user_id user)"
  define s where "s = (\<lambda>r :: gov_row. if gv_status r = ACTIVE \<and> same_scope (gv_scope r) (gv_scope p) then r\<lparr>gv_status := DEPRECATED\<rparr> else r)"
  define g where "g = (\<lambda>r :: gov_row. if gv_id r = i \<and> gv_status r = PENDING_APPROVAL
       then r\<lparr>gv_status := ACTIVE, gv_approved_by := Some (au_user_id user), gv_approved_at := Some now\<rparr> else r)"
  define f where "f = (\<lambda>r. if r = p then g p else s r)"
  assume "rows' = map (\<lambda>r. if gv_id r = i \<and> gv_status r = PENDING_APPROVAL
       then r\<lparr>gv_status := ACTIVE, gv_approved_by := Some (au_user_id user), gv_approved_at := Some now\<rparr> else r)
       (supersede (gv_scope p) rows)"
  then have "rows' = map (\<lambda>r. g (s r)) rows" by (simp add: supersede_def s_def g_def o_def)
  moreover have "g (s r) = f r" if "r \<in> set rows" for r
  proof (cases "r = p")
    case True
    then show ?thesis using p(3) by (simp add: s_def f_def)
  next
    case False
    then have "gv_id r \<noteq> i" using that p(1,2) same_id [of rows r p] ok by (auto simp: gov_ok_def)
    then show ?thesis using False by (simp add: g_def f_def s_def)
  qed
  ultimately have r: "rows' = map f rows" by simp
  have ids: "map gv_id (map f rows) = map gv_id rows" by (rule map_ids) (simp add: f_def g_def s_def)
  have fp: "gv_status (f p) = ACTIVE" "independently_approved (f p)"
    using p ok by (auto simp: f_def g_def gov_ok_def independently_approved_def)
  have sc: "gv_scope (f r) = gv_scope r" "gv_id (f r) = gv_id r" for r by (simp_all add: f_def g_def s_def)
  have fs: "gv_status (f r) = ACTIVE \<longleftrightarrow> gv_status r = ACTIVE \<and> \<not> same_scope (gv_scope r) (gv_scope p)"
    "gv_status (f r) = DEPRECATED \<longrightarrow> gv_status r \<in> {ACTIVE, DEPRECATED}"
    "gv_status (f r) = PENDING_APPROVAL \<longleftrightarrow> gv_status r = PENDING_APPROVAL"
    "independently_approved (f r) = independently_approved r" "gv_submitted_by (f r) = gv_submitted_by r" if "r \<noteq> p" for r
    using that by (auto simp: f_def s_def independently_approved_def)
  have one: "gv_id r = gv_id q" if "r \<in> set rows" "q \<in> set rows" "gv_status (f r) = ACTIVE" "gv_status (f q) = ACTIVE"
    "same_scope (gv_scope r) (gv_scope q)" for r q
  proof (cases "r = p \<or> q = p")
    case True
    then show ?thesis using that fs(1) same_scope_sym by metis
  next
    case False
    then show ?thesis using that fs(1) ok by (auto simp: gov_ok_def)
  qed
  have ind: "independently_approved (f r)" if "r \<in> set rows" "gv_status (f r) \<in> {ACTIVE, DEPRECATED}" for r
    using that fp fs(1,2,4) [of r] ok by (cases "r = p") (auto simp: gov_ok_def)
  have sub: "gv_submitted_by (f r) \<noteq> None" if "r \<in> set rows" "gv_status (f r) = PENDING_APPROVAL" for r
    using that fp(1) fs(3,5) [of r] ok by (cases "r = p") (auto simp: gov_ok_def)
  have "distinct (map gv_id (map f rows))" using ok unfolding ids by (simp add: gov_ok_def)
  then show ?thesis
    unfolding gov_ok_def r
    using one ind sub by (simp del: map_map add: sc)
qed

lemma gov_step_ok: "gov_step rows rows' \<Longrightarrow> gov_ok rows \<Longrightarrow> gov_ok rows'"
proof (induction rule: gov_step.induct)
  case (draft r rows)
  then show ?case by (auto simp: gov_ok_def)
qed (blast intro: submit_ok approve_ok)+

lemma reachable_ok: "gov_reachable rows \<Longrightarrow> gov_ok rows"
  by (induction rule: gov_reachable.induct) (simp_all add: gov_ok_def [of "[]"] gov_step_ok)

subsection \<open>Properties\<close>

text \<open>C9: Four eyes and one active revision: in every table the workflow can reach, two active revisions of
  one scope are the same, and whatever is or was active was approved by somebody who neither created
  nor submitted it.\<close>

theorem governance_invariant:
  assumes "gov_reachable rows" "r \<in> set rows" "gv_status r \<in> {ACTIVE, DEPRECATED}"
  shows "independently_approved r
    \<and> (\<forall>q \<in> set rows. gv_status r = ACTIVE \<and> gv_status q = ACTIVE \<and> same_scope (gv_scope r) (gv_scope q) \<longrightarrow> q = r)"
proof -
  have ok: "gov_ok rows" using assms(1) by (rule reachable_ok)
  then have "distinct (map gv_id rows)" by (simp add: gov_ok_def)
  with ok assms(2,3) show ?thesis using same_id [of rows _ r] unfolding gov_ok_def by metis
qed

definition demo_draft :: gov_row where
  "demo_draft = \<lparr>gv_id = 1, gv_tenant = Some 9, gv_status = DRAFT, gv_created_by = 5, gv_submitted_by = None,
     gv_submitted_at = None, gv_approved_by = None, gv_approved_at = None, gv_scope = [Some (u ''t''), Some (u ''a'')]\<rparr>"

definition owner :: "uuid \<Rightarrow> auth_user" where
  "owner i = \<lparr>au_user_id = i, au_tenant_id = 9, au_role = u ''DATA_OWNER''\<rparr>"

definition demo_active :: gov_row where
  "demo_active = demo_draft\<lparr>gv_status := ACTIVE, gv_submitted_by := Some 5, gv_submitted_at := Some 1,
     gv_approved_by := Some 6, gv_approved_at := Some 2\<rparr>"

lemma demo_workflow: "gov_reachable [demo_active]"
proof -
  have a: "gov_reachable [demo_draft]"
    using gov_reachable.step [OF gov_reachable.start gov_step.draft [of demo_draft "[]"]] by (simp add: demo_draft_def)
  have "submit_for_approval 1 1 (owner 5) [demo_draft] =
      Inr [demo_draft\<lparr>gv_status := PENDING_APPROVAL, gv_submitted_by := Some 5, gv_submitted_at := Some 1\<rparr>]"
    by (simp add: submit_for_approval_def load_for_update_def gov_find_def gov_transition_def demo_draft_def owner_def)
  from gov_reachable.step [OF a gov_step.submit [OF this]]
  have b: "gov_reachable [demo_draft\<lparr>gv_status := PENDING_APPROVAL, gv_submitted_by := Some 5, gv_submitted_at := Some 1\<rparr>]" .
  have "approve 2 1 (owner 6) [demo_draft\<lparr>gv_status := PENDING_APPROVAL, gv_submitted_by := Some 5, gv_submitted_at := Some 1\<rparr>] =
      Inr [demo_active]"
    by (simp add: approve_def load_for_update_def gov_find_def gov_transition_def supersede_def demo_active_def
        demo_draft_def owner_def APPROVER_ROLES_def)
  from gov_reachable.step [OF b gov_step.approved [OF this]] show ?thesis .
qed

theorem governance_invariant_witness: "independently_approved demo_active"
  using governance_invariant [OF demo_workflow, of demo_active] by (simp add: demo_active_def)

end
