(* ===== verification/AuthTokens.thy ===== *)
theory AuthTokens
  imports Models
begin

text \<open>
  \<open>adapters/db/refresh_token_store.py\<close>, \<open>adapters/db/login_lockout.py\<close> and the login, refresh and logout
  requests of \<open>presentation/api/routes/auth_routes.py\<close>. SHA-256, Argon2 and SQL \<open>lower\<close> are parameters; the
  random token, the new family id and the clock are arguments. A response is returned, so what the request
  wrote is committed; a raised \<open>HTTPException\<close> rolls it back.
\<close>

subsection \<open>Tables\<close>

record refresh_row =
  rt_token_hash :: ustr
  rt_family_id :: uuid
  rt_user_id :: uuid
  rt_tenant_id :: uuid
  rt_issued_at :: timestamp
  rt_expires_at :: timestamp
  rt_used_at :: "timestamp option"
  rt_revoked_at :: "timestamp option"

record user_row =
  us_user_id :: uuid
  us_email :: ustr
  us_password_hash :: "ustr option"
  us_is_active :: bool
  us_failed_login_attempts :: int
  us_locked_until :: "timestamp option"

record member_row =
  mb_user_id :: uuid
  mb_tenant_id :: uuid
  mb_role :: ident
  mb_is_active :: bool
  mb_joined_at :: timestamp

record auth_db =
  au_tokens :: "refresh_row list"
  au_users :: "user_row list"
  au_members :: "member_row list"

datatype token_rejection = InvalidToken | RevokedToken | ReusedToken | ExpiredToken | InactiveAccount

record refreshed_identity =
  ri_user_id :: uuid
  ri_tenant_id :: uuid
  ri_email :: ustr
  ri_role :: ident

definition day :: timestamp where "day = 86400000000"
definition minute :: timestamp where "minute = 60000000"

subsection \<open>Refresh tokens\<close>

text \<open>A second row with the same hash violates the primary key; None is that error.\<close>

definition issue_refresh_token ::
  "(ustr \<Rightarrow> ustr) \<Rightarrow> timestamp \<Rightarrow> ustr \<Rightarrow> uuid \<Rightarrow> uuid \<Rightarrow> uuid \<Rightarrow> int \<Rightarrow> refresh_row list \<Rightarrow> refresh_row list option" where
  "issue_refresh_token sha now token fam usr ten days rows =
     (if sha token \<in> rt_token_hash ` set rows then None
      else Some (rows @ [\<lparr>rt_token_hash = sha token, rt_family_id = fam, rt_user_id = usr, rt_tenant_id = ten,
             rt_issued_at = now, rt_expires_at = now + days * day, rt_used_at = None, rt_revoked_at = None\<rparr>]))"

definition revoke_family :: "timestamp \<Rightarrow> uuid \<Rightarrow> refresh_row list \<Rightarrow> refresh_row list" where
  "revoke_family now fam rows =
     map (\<lambda>r. if rt_family_id r = fam \<and> rt_revoked_at r = None then r\<lparr>rt_revoked_at := Some now\<rparr> else r) rows"

definition find_token :: "(ustr \<Rightarrow> ustr) \<Rightarrow> ustr \<Rightarrow> refresh_row list \<Rightarrow> refresh_row option" where
  "find_token sha token rows = List.find (\<lambda>r. rt_token_hash r = sha token) rows"

definition mark_used :: "(ustr \<Rightarrow> ustr) \<Rightarrow> timestamp \<Rightarrow> ustr \<Rightarrow> refresh_row list \<Rightarrow> refresh_row list" where
  "mark_used sha now token rows = map (\<lambda>r. if rt_token_hash r = sha token then r\<lparr>rt_used_at := Some now\<rparr> else r) rows"

definition active_identity :: "user_row list \<Rightarrow> member_row list \<Rightarrow> uuid \<Rightarrow> uuid \<Rightarrow> (ustr \<times> ident) option" where
  "active_identity users members usr ten =
     (case (List.find (\<lambda>x. us_user_id x = usr \<and> us_is_active x) users,
            List.find (\<lambda>m. mb_user_id m = usr \<and> mb_tenant_id m = ten \<and> mb_is_active m) members) of
        (Some x, Some m) \<Rightarrow> Some (us_email x, mb_role m) | _ \<Rightarrow> None)"

text \<open>The result of a rotation: a rejection (committed), or the successor and the identity; None is a failed insert.\<close>

definition rotate_refresh_token ::
  "(ustr \<Rightarrow> ustr) \<Rightarrow> timestamp \<Rightarrow> ustr \<Rightarrow> int \<Rightarrow> ustr \<Rightarrow> auth_db
    \<Rightarrow> (token_rejection + ustr \<times> refreshed_identity) option \<times> auth_db" where
  "rotate_refresh_token sha now fresh days token db =
     (case find_token sha token (au_tokens db) of
        None \<Rightarrow> (Some (Inl InvalidToken), db)
      | Some r \<Rightarrow>
          if rt_revoked_at r \<noteq> None then (Some (Inl RevokedToken), db)
          else if rt_used_at r \<noteq> None
            then (Some (Inl ReusedToken), db\<lparr>au_tokens := revoke_family now (rt_family_id r) (au_tokens db)\<rparr>)
          else if rt_expires_at r < now then (Some (Inl ExpiredToken), db)
          else
            (let rows = mark_used sha now token (au_tokens db)
             in case active_identity (au_users db) (au_members db) (rt_user_id r) (rt_tenant_id r) of
               None \<Rightarrow> (Some (Inl InactiveAccount), db\<lparr>au_tokens := revoke_family now (rt_family_id r) rows\<rparr>)
             | Some (email, role) \<Rightarrow>
                 (case issue_refresh_token sha now fresh (rt_family_id r) (rt_user_id r) (rt_tenant_id r) days rows of
                    None \<Rightarrow> (None, db)
                  | Some rows' \<Rightarrow>
                      (Some (Inr (fresh, \<lparr>ri_user_id = rt_user_id r, ri_tenant_id = rt_tenant_id r,
                                          ri_email = email, ri_role = role\<rparr>)),
                       db\<lparr>au_tokens := rows'\<rparr>))))"

definition revoke_refresh_token :: "(ustr \<Rightarrow> ustr) \<Rightarrow> timestamp \<Rightarrow> ustr \<Rightarrow> auth_db \<Rightarrow> auth_db" where
  "revoke_refresh_token sha now token db =
     (case find_token sha token (au_tokens db) of
        None \<Rightarrow> db
      | Some r \<Rightarrow> db\<lparr>au_tokens := revoke_family now (rt_family_id r) (au_tokens db)\<rparr>)"

subsection \<open>Login and lockout\<close>

definition verify_password :: "(ustr \<Rightarrow> ustr \<Rightarrow> bool) \<Rightarrow> ustr \<Rightarrow> ustr option \<Rightarrow> ustr \<Rightarrow> bool" where
  "verify_password argon dummy hash password =
     (argon (case hash of Some (c # cs) \<Rightarrow> c # cs | _ \<Rightarrow> dummy) password \<and> hash \<noteq> None)"

definition failed_row :: "timestamp \<Rightarrow> int \<Rightarrow> int \<Rightarrow> user_row \<Rightarrow> user_row" where
  "failed_row now max_attempts mins r =
     (if us_failed_login_attempts r + 1 \<ge> max_attempts
      then r\<lparr>us_locked_until := Some (now + mins * minute), us_failed_login_attempts := 0\<rparr>
      else r\<lparr>us_failed_login_attempts := us_failed_login_attempts r + 1\<rparr>)"

definition update_user :: "uuid \<Rightarrow> (user_row \<Rightarrow> user_row) \<Rightarrow> user_row list \<Rightarrow> user_row list" where
  "update_user i f users = map (\<lambda>r. if us_user_id r = i then f r else r) users"

definition record_failed_login :: "timestamp \<Rightarrow> uuid \<Rightarrow> int \<Rightarrow> int \<Rightarrow> user_row list \<Rightarrow> timestamp option \<times> user_row list" where
  "record_failed_login now i max_attempts mins users =
     (let users' = update_user i (failed_row now max_attempts mins) users
      in (case List.find (\<lambda>r. us_user_id r = i) users' of
            None \<Rightarrow> None
          | Some r \<Rightarrow> if us_failed_login_attempts r = 0 then us_locked_until r else None, users'))"

definition reset_failed_logins :: "uuid \<Rightarrow> user_row list \<Rightarrow> user_row list" where
  "reset_failed_logins i users = update_user i (\<lambda>r. r\<lparr>us_failed_login_attempts := 0, us_locked_until := None\<rparr>) users"

datatype login_result =
    LInvalidCredentials
  | LLocked timestamp
  | LDeactivated
  | LNoMembership
  | LTokens uuid uuid ident ustr

record login_settings =
  ls_max_attempts :: int
  ls_lockout_minutes :: int
  ls_refresh_days :: int

definition select_membership :: "uuid \<Rightarrow> uuid option \<Rightarrow> member_row list \<Rightarrow> member_row option" where
  "select_membership usr ten members =
     (let own = filter (\<lambda>m. mb_user_id m = usr \<and> mb_is_active m) members
      in case ten of
        Some t \<Rightarrow> List.find (\<lambda>m. mb_tenant_id m = t) own
      | None \<Rightarrow> (case sort_key mb_joined_at own of [] \<Rightarrow> None | m # _ \<Rightarrow> Some m))"

definition account_locked :: "timestamp \<Rightarrow> user_row \<Rightarrow> bool" where
  "account_locked now r = (case us_locked_until r of None \<Rightarrow> False | Some t \<Rightarrow> now < t)"

definition login ::
  "(ustr \<Rightarrow> ustr) \<Rightarrow> (ustr \<Rightarrow> ustr) \<Rightarrow> (ustr option \<Rightarrow> ustr \<Rightarrow> bool) \<Rightarrow> login_settings \<Rightarrow> timestamp \<Rightarrow> ustr \<Rightarrow> uuid
    \<Rightarrow> ustr \<Rightarrow> ustr \<Rightarrow> uuid option \<Rightarrow> auth_db \<Rightarrow> login_result option \<times> auth_db" where
  "login sha lower verify cfg now fresh fam email password ten db =
     (case List.find (\<lambda>r. lower (us_email r) = lower email) (au_users db) of
        None \<Rightarrow> (Some LInvalidCredentials, db)
      | Some r \<Rightarrow>
          if account_locked now r then (Some (LLocked (the (us_locked_until r))), db)
          else
          if \<not> verify (us_password_hash r) password then
            (case record_failed_login now (us_user_id r) (ls_max_attempts cfg) (ls_lockout_minutes cfg) (au_users db) of
               (new_lock, users) \<Rightarrow>
                 (Some (case new_lock of Some t \<Rightarrow> LLocked t | None \<Rightarrow> LInvalidCredentials), db\<lparr>au_users := users\<rparr>))
          else if \<not> us_is_active r then (Some LDeactivated, db)
          else (case select_membership (us_user_id r) ten (au_members db) of
             None \<Rightarrow> (Some LNoMembership, db)
           | Some m \<Rightarrow>
               (case issue_refresh_token sha now fresh fam (us_user_id r) (mb_tenant_id m) (ls_refresh_days cfg) (au_tokens db) of
                  None \<Rightarrow> (None, db)
                | Some rows \<Rightarrow> (Some (LTokens (us_user_id r) (mb_tenant_id m) (mb_role m) fresh),
                    db\<lparr>au_tokens := rows, au_users := reset_failed_logins (us_user_id r) (au_users db)\<rparr>))))"

subsection \<open>Sessions of requests\<close>

datatype auth_op =
    OpLogin timestamp ustr uuid ustr ustr "uuid option"
  | OpRefresh timestamp ustr ustr
  | OpLogout timestamp ustr

fun auth_step ::
  "(ustr \<Rightarrow> ustr) \<Rightarrow> (ustr \<Rightarrow> ustr) \<Rightarrow> (ustr option \<Rightarrow> ustr \<Rightarrow> bool) \<Rightarrow> login_settings \<Rightarrow> auth_op \<Rightarrow> auth_db \<Rightarrow> auth_db" where
  "auth_step sha lower verify cfg (OpLogin now fresh fam email pw ten) db =
     snd (login sha lower verify cfg now fresh fam email pw ten db)"
| "auth_step sha lower verify cfg (OpRefresh now fresh token) db =
     snd (rotate_refresh_token sha now fresh (ls_refresh_days cfg) token db)"
| "auth_step sha lower verify cfg (OpLogout now token) db = revoke_refresh_token sha now token db"

text \<open>Every login draws a family id (\<open>uuid4()\<close>) that no stored token has.\<close>

fun fresh_families ::
  "(auth_op \<Rightarrow> auth_db \<Rightarrow> auth_db) \<Rightarrow> auth_op list \<Rightarrow> auth_db \<Rightarrow> bool" where
  "fresh_families step [] db = True"
| "fresh_families step (op # ops) db =
     ((case op of OpLogin now fresh fam email pw ten \<Rightarrow> fam \<notin> rt_family_id ` set (au_tokens db) | _ \<Rightarrow> True)
      \<and> fresh_families step ops (step op db))"

definition live :: "refresh_row \<Rightarrow> bool" where
  "live r \<longleftrightarrow> rt_used_at r = None \<and> rt_revoked_at r = None"

definition tokens_ok :: "refresh_row list \<Rightarrow> bool" where
  "tokens_ok rows \<longleftrightarrow> distinct (map rt_token_hash rows)
     \<and> (\<forall>r \<in> set rows. \<forall>q \<in> set rows. live r \<and> live q \<and> rt_family_id r = rt_family_id q \<longrightarrow> r = q)"

definition family_dead :: "uuid \<Rightarrow> refresh_row list \<Rightarrow> bool" where
  "family_dead f rows \<longleftrightarrow> f \<in> rt_family_id ` set rows \<and> (\<forall>r \<in> set rows. rt_family_id r = f \<longrightarrow> rt_revoked_at r \<noteq> None)"

lemma find_token_Some: "find_token sha t rows = Some r \<Longrightarrow> r \<in> set rows \<and> rt_token_hash r = sha t"
  by (auto simp: find_token_def find_Some_iff in_set_conv_nth)

text \<open>Rewriting rows in place so that hashes and families stay and none comes back to life.\<close>

lemma map_tokens_ok:
  assumes "tokens_ok rows" "\<And>r. rt_token_hash (f r) = rt_token_hash r" "\<And>r. rt_family_id (f r) = rt_family_id r"
    and "\<And>r. live (f r) \<Longrightarrow> live r"
  shows "tokens_ok (map f rows)"
proof -
  have "map rt_token_hash (map f rows) = map rt_token_hash rows" using assms(2) by (induction rows) auto
  then have "distinct (map rt_token_hash (map f rows))" using assms(1) by (simp only: tokens_ok_def)
  moreover have "f r = f q" if "r \<in> set rows" "q \<in> set rows" "live (f r)" "live (f q)" "rt_family_id (f r) = rt_family_id (f q)" for r q
  proof -
    have "live r" "live q" "rt_family_id r = rt_family_id q" using that(3-5) assms(3,4) by auto
    with assms(1) that(1,2) have "r = q" unfolding tokens_ok_def by blast
    then show ?thesis by simp
  qed
  ultimately show ?thesis unfolding tokens_ok_def set_map by blast
qed

lemma append_tokens_ok:
  assumes "tokens_ok rows" "rt_token_hash n \<notin> rt_token_hash ` set rows"
    and "\<forall>r \<in> set rows. rt_family_id r = rt_family_id n \<longrightarrow> \<not> live r"
  shows "tokens_ok (rows @ [n])"
  using assms unfolding tokens_ok_def by auto

lemma revoke_ok: "tokens_ok rows \<Longrightarrow> tokens_ok (revoke_family now f rows)"
  unfolding revoke_family_def by (rule map_tokens_ok) (auto simp: live_def split: if_splits)

lemma mark_used_ok: "tokens_ok rows \<Longrightarrow> tokens_ok (mark_used sha now t rows)"
  unfolding mark_used_def by (rule map_tokens_ok) (auto simp: live_def split: if_splits)

lemma same_families [simp]: "rt_family_id ` set (revoke_family now f rows) = rt_family_id ` set rows"
  "rt_family_id ` set (mark_used sha now t rows) = rt_family_id ` set rows"
  unfolding revoke_family_def mark_used_def set_map image_image by (rule image_cong; simp)+

lemma same_hashes [simp]: "rt_token_hash ` set (mark_used sha now t rows) = rt_token_hash ` set rows"
  unfolding mark_used_def set_map image_image by (rule image_cong; simp)

lemma revoke_dead: "f \<in> rt_family_id ` set rows \<Longrightarrow> family_dead f (revoke_family now f rows)"
  unfolding family_dead_def same_families by (auto simp: revoke_family_def)

lemma revoke_keeps_dead: "family_dead f rows \<Longrightarrow> family_dead f (revoke_family now g rows)"
  unfolding family_dead_def same_families by (auto simp: revoke_family_def)

lemma mark_keeps_dead: "family_dead f rows \<Longrightarrow> family_dead f (mark_used sha now t rows)"
  unfolding family_dead_def same_families by (auto simp: mark_used_def)

lemma issue_Some:
  assumes "issue_refresh_token sha now t fam usr ten days rows = Some rows'"
  obtains n where "rows' = rows @ [n]" "rt_token_hash n = sha t" "sha t \<notin> rt_token_hash ` set rows" "rt_family_id n = fam"
    "live n" "rt_revoked_at n = None"
  using assms unfolding issue_refresh_token_def live_def by (auto split: if_splits)

text \<open>The cases of a rotation.\<close>

lemma rotate_cases:
  obtains (same) "snd (rotate_refresh_token sha now fresh days t db) = db"
  | (reuse) r where "find_token sha t (au_tokens db) = Some r" "rt_revoked_at r = None"
      "fst (rotate_refresh_token sha now fresh days t db) = Some (Inl ReusedToken)"
      "snd (rotate_refresh_token sha now fresh days t db) = db\<lparr>au_tokens := revoke_family now (rt_family_id r) (au_tokens db)\<rparr>"
  | (inactive) r where "find_token sha t (au_tokens db) = Some r"
      "snd (rotate_refresh_token sha now fresh days t db) =
        db\<lparr>au_tokens := revoke_family now (rt_family_id r) (mark_used sha now t (au_tokens db))\<rparr>"
  | (rotated) r n where "find_token sha t (au_tokens db) = Some r" "live r"
      "snd (rotate_refresh_token sha now fresh days t db) = db\<lparr>au_tokens := mark_used sha now t (au_tokens db) @ [n]\<rparr>"
      "rt_token_hash n \<notin> rt_token_hash ` set (mark_used sha now t (au_tokens db))" "rt_family_id n = rt_family_id r"
proof (cases "find_token sha t (au_tokens db)")
  case None
  then show thesis using same by (simp add: rotate_refresh_token_def)
next
  case (Some r)
  consider (a) "rt_revoked_at r \<noteq> None \<or> (rt_used_at r = None \<and> rt_expires_at r < now)" | (b) "rt_revoked_at r = None" "rt_used_at r \<noteq> None"
    | (c) "live r" "\<not> rt_expires_at r < now" by (cases "rt_revoked_at r"; cases "rt_used_at r") (auto simp: live_def)
  then show thesis
  proof cases
    case a
    then show ?thesis using same Some by (auto simp: rotate_refresh_token_def)
  next
    case b
    then show ?thesis using reuse Some by (auto simp: rotate_refresh_token_def)
  next
    case c
    then have l: "rt_revoked_at r = None" "rt_used_at r = None" by (simp_all add: live_def)
    show ?thesis
    proof (cases "active_identity (au_users db) (au_members db) (rt_user_id r) (rt_tenant_id r)")
      case None
      then show ?thesis using inactive Some c(2) l by (simp add: rotate_refresh_token_def Let_def)
    next
      case id: (Some p)
      show ?thesis
      proof (cases "issue_refresh_token sha now fresh (rt_family_id r) (rt_user_id r) (rt_tenant_id r) days (mark_used sha now t (au_tokens db))")
        case None
        then show ?thesis using same Some c(2) l id by (simp add: rotate_refresh_token_def Let_def split: prod.splits)
      next
        case (Some rows)
        then show ?thesis
          using rotated [OF \<open>find_token sha t (au_tokens db) = Some r\<close> c(1)] \<open>find_token sha t (au_tokens db) = Some r\<close> c(2) l id
          by (auto simp: rotate_refresh_token_def Let_def split: prod.splits elim!: issue_Some)
      qed
    qed
  qed
qed

lemma rotate_ok:
  assumes "tokens_ok (au_tokens db)"
  shows "tokens_ok (au_tokens (snd (rotate_refresh_token sha now fresh days t db)))"
proof (rule rotate_cases [of sha now fresh days t db])
  fix r n
  assume r: "find_token sha t (au_tokens db) = Some r" "live r"
    and s: "snd (rotate_refresh_token sha now fresh days t db) = db\<lparr>au_tokens := mark_used sha now t (au_tokens db) @ [n]\<rparr>"
    and n: "rt_token_hash n \<notin> rt_token_hash ` set (mark_used sha now t (au_tokens db))" "rt_family_id n = rt_family_id r"
  have "\<not> live q" if "q \<in> set (mark_used sha now t (au_tokens db))" "rt_family_id q = rt_family_id r" for q
  proof -
    note q = that
    obtain p where p: "p \<in> set (au_tokens db)" "q = (if rt_token_hash p = sha t then p\<lparr>rt_used_at := Some now\<rparr> else p)"
      using q(1) unfolding mark_used_def set_map by blast
    have "live p \<Longrightarrow> rt_family_id p = rt_family_id r \<Longrightarrow> p = r"
      using assms p(1) r(2) find_token_Some [OF r(1)] by (auto simp: tokens_ok_def)
    moreover have "rt_token_hash p \<noteq> sha t" "q = p" if "live q"
      using p(2) that by (auto simp: live_def split: if_splits)
    ultimately show ?thesis using q(2) find_token_Some [OF r(1)] by auto
  qed
  with n have "tokens_ok (mark_used sha now t (au_tokens db) @ [n])"
    by (intro append_tokens_ok mark_used_ok [OF assms]) auto
  then show ?thesis by (simp add: s)
qed (simp_all add: assms revoke_ok mark_used_ok)

lemma rotate_keeps_dead:
  assumes "family_dead f (au_tokens db)"
  shows "family_dead f (au_tokens (snd (rotate_refresh_token sha now fresh days t db)))"
proof (rule rotate_cases [of sha now fresh days t db])
  fix r n
  assume r: "find_token sha t (au_tokens db) = Some r" "live r"
    and s: "snd (rotate_refresh_token sha now fresh days t db) = db\<lparr>au_tokens := mark_used sha now t (au_tokens db) @ [n]\<rparr>"
      "rt_family_id n = rt_family_id r"
  have "rt_family_id n \<noteq> f" using assms r find_token_Some [OF r(1)] s(2) by (auto simp: family_dead_def live_def)
  with mark_keeps_dead [OF assms, of sha now t] show ?thesis by (auto simp: family_dead_def s)
qed (simp_all add: assms revoke_keeps_dead mark_keeps_dead)

lemma login_tokens:
  obtains (same) "au_tokens (snd (login sha lower verify cfg now fresh fam email pw ten db)) = au_tokens db"
  | (new) n where "au_tokens (snd (login sha lower verify cfg now fresh fam email pw ten db)) = au_tokens db @ [n]"
      "rt_token_hash n \<notin> rt_token_hash ` set (au_tokens db)" "rt_family_id n = fam"
proof (cases "au_tokens (snd (login sha lower verify cfg now fresh fam email pw ten db)) = au_tokens db")
  case False
  then obtain usr t rows where "issue_refresh_token sha now fresh fam usr t (ls_refresh_days cfg) (au_tokens db) = Some rows"
    "au_tokens (snd (login sha lower verify cfg now fresh fam email pw ten db)) = rows"
    by (auto simp: login_def record_failed_login_def Let_def split: option.splits prod.splits if_splits)
  then show thesis using new by (auto elim!: issue_Some)
qed (rule same)

lemma auth_step_keeps:
  assumes "case op of OpLogin now fresh fam email pw ten \<Rightarrow> fam \<notin> rt_family_id ` set (au_tokens db) | _ \<Rightarrow> True"
  shows "tokens_ok (au_tokens db) \<Longrightarrow> tokens_ok (au_tokens (auth_step sha lower verify cfg op db))"
    and "family_dead f (au_tokens db) \<Longrightarrow> family_dead f (au_tokens (auth_step sha lower verify cfg op db))"
proof -
  show "tokens_ok (au_tokens (auth_step sha lower verify cfg op db))" if "tokens_ok (au_tokens db)"
  proof (cases op)
    case (OpLogin now fresh fam email pw ten)
    have "rt_family_id r \<noteq> fam" if "r \<in> set (au_tokens db)" for r using assms that by (auto simp: OpLogin)
    with that show ?thesis
      by (rule_tac login_tokens [of sha lower verify cfg now fresh fam email pw ten db])
        (simp_all add: OpLogin append_tokens_ok)
  qed (simp_all add: that rotate_ok revoke_refresh_token_def revoke_ok split: option.split)
  show "family_dead f (au_tokens (auth_step sha lower verify cfg op db))" if "family_dead f (au_tokens db)"
  proof (cases op)
    case (OpLogin now fresh fam email pw ten)
    show ?thesis
      by (rule login_tokens [of sha lower verify cfg now fresh fam email pw ten db])
        (use assms that in \<open>auto simp: OpLogin family_dead_def\<close>)
  qed (simp_all add: that rotate_keeps_dead revoke_refresh_token_def revoke_keeps_dead split: option.split)
qed

lemma auth_steps_keep:
  assumes "fresh_families (auth_step sha lower verify cfg) ops db"
  shows "tokens_ok (au_tokens db) \<Longrightarrow> tokens_ok (au_tokens (fold (auth_step sha lower verify cfg) ops db))"
    and "family_dead f (au_tokens db) \<Longrightarrow> family_dead f (au_tokens (fold (auth_step sha lower verify cfg) ops db))"
  using assms by (induction ops arbitrary: db) (auto simp: auth_step_keeps)

text \<open>A token that is not live stays so.\<close>

definition spent :: "ustr \<Rightarrow> refresh_row list \<Rightarrow> bool" where
  "spent h rows \<longleftrightarrow> h \<in> rt_token_hash ` set rows \<and> (\<forall>r \<in> set rows. rt_token_hash r = h \<longrightarrow> \<not> live r)"

lemma map_spent:
  assumes "spent h rows" "\<And>r. rt_token_hash (f r) = rt_token_hash r" "\<And>r. live (f r) \<Longrightarrow> live r"
  shows "spent h (map f rows)"
  using assms by (auto simp: spent_def image_image)

lemma revoke_spent: "spent h rows \<Longrightarrow> spent h (revoke_family now f rows)"
  unfolding revoke_family_def by (rule map_spent) (auto simp: live_def split: if_splits)

lemma mark_spent: "spent h rows \<Longrightarrow> spent h (mark_used sha now t rows)"
  unfolding mark_used_def by (rule map_spent) (auto simp: live_def split: if_splits)

lemma append_spent: "spent h rows \<Longrightarrow> rt_token_hash n \<notin> rt_token_hash ` set rows \<Longrightarrow> spent h (rows @ [n])"
  by (auto simp: spent_def)

lemma rotate_spent:
  assumes "spent h (au_tokens db)"
  shows "spent h (au_tokens (snd (rotate_refresh_token sha now fresh days t db)))"
  by (rule rotate_cases [of sha now fresh days t db])
    (simp_all add: assms revoke_spent mark_spent append_spent)

lemma auth_steps_spent:
  assumes "spent h (au_tokens db)"
  shows "spent h (au_tokens (fold (auth_step sha lower verify cfg) ops db))"
  using assms
proof (induction ops arbitrary: db)
  case (Cons op ops)
  have "spent h (au_tokens (auth_step sha lower verify cfg op db))"
  proof (cases op)
    case (OpLogin now fresh fam email pw ten)
    show ?thesis
      by (rule login_tokens [of sha lower verify cfg now fresh fam email pw ten db])
        (simp_all add: OpLogin Cons.prems append_spent)
  qed (simp_all add: Cons.prems rotate_spent revoke_refresh_token_def revoke_spent split: option.split)
  then show ?case using Cons.IH by simp
qed simp

lemma accepted_marks:
  assumes "fst (rotate_refresh_token sha now fresh days t db) = Some (Inr x)"
  shows "spent (sha t) (au_tokens (snd (rotate_refresh_token sha now fresh days t db)))"
proof -
  obtain r where r: "find_token sha t (au_tokens db) = Some r"
    using assms by (auto simp: rotate_refresh_token_def split: option.splits)
  obtain rows where i: "issue_refresh_token sha now fresh (rt_family_id r) (rt_user_id r) (rt_tenant_id r) days
      (mark_used sha now t (au_tokens db)) = Some rows"
    "snd (rotate_refresh_token sha now fresh days t db) = db\<lparr>au_tokens := rows\<rparr>"
    using assms r by (auto simp: rotate_refresh_token_def Let_def split: option.splits if_splits prod.splits)
  have "spent (sha t) (mark_used sha now t (au_tokens db))"
    unfolding spent_def same_hashes using find_token_Some [OF r] by (auto simp: mark_used_def live_def intro: rev_image_eqI)
  moreover obtain n where "rows = mark_used sha now t (au_tokens db) @ [n]"
    "rt_token_hash n \<notin> rt_token_hash ` set (mark_used sha now t (au_tokens db))"
    using i(1) by (auto elim!: issue_Some simp del: same_hashes)
  ultimately show ?thesis using i(2) append_spent by simp
qed

subsection \<open>Properties\<close>

text \<open>C10: A refresh token is accepted at most once: after it was rotated, whatever logins, rotations and logouts
  follow, presenting it again never yields another token.\<close>

theorem token_accepted_once:
  assumes "rotate_refresh_token sha now fresh days t db = (Some (Inr x), db1)"
    and "db2 = fold (auth_step sha lower verify cfg) ops db1"
  shows "fst (rotate_refresh_token sha now2 fresh2 days2 t db2) \<noteq> Some (Inr y)"
proof -
  have s: "spent (sha t) (au_tokens db2)"
    using accepted_marks [of sha now fresh days t db x] assms by (simp add: auth_steps_spent)
  have "find_token sha t (au_tokens db2) = Some r \<Longrightarrow> \<not> live r" for r
    using s find_token_Some [of sha t "au_tokens db2" r] by (auto simp: spent_def)
  then show ?thesis by (auto simp: rotate_refresh_token_def live_def split: option.splits)
qed

text \<open>C24: Reuse of a rotated token revokes its whole family for good: from then on no token of that family is
  accepted, whatever logins, rotations and logouts follow.\<close>

theorem reuse_revokes_family:
  assumes "rotate_refresh_token sha now fresh days t db = (Some (Inl ReusedToken), db1)"
    and "find_token sha t (au_tokens db) = Some r"
    and "fresh_families (auth_step sha lower verify cfg) ops db1"
    and "db2 = fold (auth_step sha lower verify cfg) ops db1"
    and "find_token sha t2 (au_tokens db2) = Some q" "rt_family_id q = rt_family_id r"
  shows "rotate_refresh_token sha now2 fresh2 days2 t2 db2 = (Some (Inl RevokedToken), db2)"
proof -
  have "db1 = db\<lparr>au_tokens := revoke_family now (rt_family_id r) (au_tokens db)\<rparr>"
    using assms(1,2) by (auto simp: rotate_refresh_token_def Let_def split: option.splits if_splits prod.splits)
  then have "family_dead (rt_family_id r) (au_tokens db1)"
    using find_token_Some [OF assms(2)] by (simp add: revoke_dead)
  then have "family_dead (rt_family_id r) (au_tokens db2)" using auth_steps_keep(2) [OF assms(3)] assms(4) by simp
  then have "rt_revoked_at q \<noteq> None" using find_token_Some [OF assms(5)] assms(6) by (simp add: family_dead_def)
  with assms(5) show ?thesis by (simp add: rotate_refresh_token_def)
qed

subsection \<open>Lockout\<close>

text \<open>A guess is a login attempt; it is evaluated when the account is not locked at its time.\<close>

definition guess_step :: "int \<Rightarrow> int \<Rightarrow> timestamp \<Rightarrow> user_row \<Rightarrow> user_row" where
  "guess_step max_attempts mins now r = (if account_locked now r then r else failed_row now max_attempts mins r)"

fun evaluated :: "int \<Rightarrow> int \<Rightarrow> timestamp list \<Rightarrow> user_row \<Rightarrow> nat" where
  "evaluated m k [] r = 0"
| "evaluated m k (t # ts) r = (if account_locked t r then 0 else 1) + evaluated m k ts (guess_step m k t r)"

text \<open>A wrong password changes exactly the account's row, by \<open>guess_step\<close>.\<close>

lemma wrong_password_step:
  assumes "List.find (\<lambda>r. lower (us_email r) = lower email) (au_users db) = Some r"
    and "\<not> verify (us_password_hash r) pw"
  shows "au_users (snd (login sha lower verify cfg now fresh fam email pw ten db)) =
    update_user (us_user_id r) (\<lambda>x. if account_locked now r then x
       else failed_row now (ls_max_attempts cfg) (ls_lockout_minutes cfg) x) (au_users db)"
proof (cases "account_locked now r")
  case True
  then show ?thesis using assms by (simp add: login_def update_user_def)
next
  case False
  then show ?thesis using assms by (simp add: login_def record_failed_login_def Let_def)
qed

lemma locked_evaluates_none:
  assumes "us_locked_until r = Some e" "\<forall>t \<in> set ts. t < e"
  shows "evaluated m k ts r = 0"
  using assms by (induction ts) (simp_all add: guess_step_def account_locked_def)

lemma evaluated_bound:
  assumes "us_failed_login_attempts r < m" "0 \<le> us_failed_login_attempts r"
    and "sorted ts" "\<forall>t \<in> set ts. \<forall>s \<in> set ts. t < s + k * minute"
  shows "int (evaluated m k ts r) \<le> m - us_failed_login_attempts r"
  using assms
proof (induction ts arbitrary: r)
  case (Cons t ts)
  show ?case
  proof (cases "account_locked t r")
    case True
    then show ?thesis using Cons.IH [of r] Cons.prems by (simp add: guess_step_def)
  next
    case False
    show ?thesis
    proof (cases "us_failed_login_attempts r + 1 \<ge> m")
      case True
      then have "us_locked_until (guess_step m k t r) = Some (t + k * minute)"
        using False by (simp add: guess_step_def failed_row_def)
      then have "evaluated m k ts (guess_step m k t r) = 0"
        by (rule locked_evaluates_none) (use Cons.prems(4) in simp)
      then show ?thesis using False Cons.prems(1) by simp
    next
      case lt: False
      then have "us_failed_login_attempts (guess_step m k t r) = us_failed_login_attempts r + 1"
        using False by (simp add: guess_step_def failed_row_def)
      with Cons.IH [of "guess_step m k t r"] Cons.prems lt show ?thesis using False by simp
    qed
  qed
qed simp


subsection \<open>Concrete sessions\<close>

definition demo_user :: user_row where
  "demo_user = \<lparr>us_user_id = 5, us_email = u ''a'', us_password_hash = Some (u ''h''), us_is_active = True,
     us_failed_login_attempts = 0, us_locked_until = None\<rparr>"

definition demo_auth :: auth_db where
  "demo_auth = \<lparr>au_tokens = [\<lparr>rt_token_hash = u ''t0'', rt_family_id = 1, rt_user_id = 5, rt_tenant_id = 9, rt_issued_at = 0,
      rt_expires_at = 100, rt_used_at = None, rt_revoked_at = None\<rparr>],
     au_users = [demo_user],
     au_members = [\<lparr>mb_user_id = 5, mb_tenant_id = 9, mb_role = u ''DATA_OWNER'', mb_is_active = True, mb_joined_at = 0\<rparr>]\<rparr>"

definition plain_sha :: "ustr \<Rightarrow> ustr" where "plain_sha s = s"

definition demo_rotated :: auth_db where
  "demo_rotated = snd (rotate_refresh_token plain_sha 10 (u ''t1'') 7 (u ''t0'') demo_auth)"

lemma demo_rotation: "fst (rotate_refresh_token plain_sha 10 (u ''t1'') 7 (u ''t0'') demo_auth) =
    Some (Inr (u ''t1'', \<lparr>ri_user_id = 5, ri_tenant_id = 9, ri_email = u ''a'', ri_role = u ''DATA_OWNER''\<rparr>))"
  by code_simp

lemma demo_reused:
  "fst (rotate_refresh_token plain_sha 20 (u ''t2'') 7 (u ''t0'') demo_rotated) = Some (Inl ReusedToken)"
  by code_simp

lemma demo_families:
  "map_option rt_family_id (find_token plain_sha (u ''t0'') (au_tokens demo_rotated)) = Some 1"
  "map_option rt_family_id (find_token plain_sha (u ''t1'')
     (au_tokens (snd (rotate_refresh_token plain_sha 20 (u ''t2'') 7 (u ''t0'') demo_rotated)))) = Some 1"
  by code_simp+

theorem token_accepted_once_witness:
  "fst (rotate_refresh_token plain_sha 20 (u ''t2'') 7 (u ''t0'') demo_rotated) \<noteq> Some (Inr (u ''t2'',
     \<lparr>ri_user_id = 5, ri_tenant_id = 9, ri_email = u ''a'', ri_role = u ''DATA_OWNER''\<rparr>))"
proof -
  have "rotate_refresh_token plain_sha 10 (u ''t1'') 7 (u ''t0'') demo_auth = (Some (Inr (u ''t1'',
      \<lparr>ri_user_id = 5, ri_tenant_id = 9, ri_email = u ''a'', ri_role = u ''DATA_OWNER''\<rparr>)), demo_rotated)"
    using demo_rotation by (simp add: demo_rotated_def prod_eq_iff)
  from token_accepted_once [OF this, of demo_rotated plain_sha "\<lambda>h p. False"
      "\<lparr>ls_max_attempts = 5, ls_lockout_minutes = 15, ls_refresh_days = 7\<rparr>" "[]"]
  show ?thesis by simp
qed

theorem reuse_revokes_family_witness:
  "fst (rotate_refresh_token plain_sha 30 (u ''t3'') 7 (u ''t1'')
     (snd (rotate_refresh_token plain_sha 20 (u ''t2'') 7 (u ''t0'') demo_rotated))) = Some (Inl RevokedToken)"
proof -
  define db1 where "db1 = snd (rotate_refresh_token plain_sha 20 (u ''t2'') 7 (u ''t0'') demo_rotated)"
  have e: "rotate_refresh_token plain_sha 20 (u ''t2'') 7 (u ''t0'') demo_rotated = (Some (Inl ReusedToken), db1)"
    using demo_reused by (simp add: db1_def prod_eq_iff)
  obtain r q where f: "find_token plain_sha (u ''t0'') (au_tokens demo_rotated) = Some r" "rt_family_id r = 1"
    "find_token plain_sha (u ''t1'') (au_tokens db1) = Some q" "rt_family_id q = 1"
    using demo_families by (auto simp: db1_def)
  from reuse_revokes_family [OF e f(1), of plain_sha "\<lambda>h p. False"
      "\<lparr>ls_max_attempts = 5, ls_lockout_minutes = 15, ls_refresh_days = 7\<rparr>" "[]" db1 "u ''t1''" q 30 "u ''t3''" 7] f
  show ?thesis by (simp add: db1_def)
qed


end
