(* ===== verification/Privacy.thy ===== *)
theory Privacy
  imports JsonText PyRegex
begin

text \<open>
  \<open>common/privacy_rules.py\<close> and \<open>common/privacy.py\<close>: detector rules, the streaming scanner that counts
  observed and matched cells per column and path, its report, and the masking of rows. The RE2 engine is
  a parameter: a pattern and its case flag compile to a matcher (full match or search) or are refused.
  \<open>Inl\<close> is an exception that ends the scan.
\<close>

subsection \<open>Detector rules\<close>

definition BUILTIN_RULE_CATEGORIES :: "(ident \<times> ident) list" where
  "BUILTIN_RULE_CATEGORIES = map (\<lambda>(a, b). (u a, u b))
     [(''EMAIL'', ''BASIC_PERSONAL_DATA''), (''PHONE'', ''BASIC_PERSONAL_DATA''),
      (''CARD'', ''CONFIDENTIAL_BUSINESS_DATA''), (''SSN'', ''SENSITIVE_PERSONAL_DATA''),
      (''VN_ID'', ''SENSITIVE_PERSONAL_DATA''), (''PERSON_NAME'', ''BASIC_PERSONAL_DATA''),
      (''ADDRESS'', ''BASIC_PERSONAL_DATA''), (''BANK_ACCOUNT'', ''CONFIDENTIAL_BUSINESS_DATA''),
      (''SECRET'', ''CONFIDENTIAL_BUSINESS_DATA'')]"

datatype rule_kind = KBuiltin | KColumnName | KValuePattern

record privacy_detector_rule =
  pr_rule_id :: uuid
  pr_revision :: int
  pr_code :: ident
  pr_kind :: rule_kind
  pr_category :: ident
  pr_enabled :: bool
  pr_builtin_code :: "ident option"
  pr_pattern :: "ustr option"
  pr_full :: bool
  pr_case_sensitive :: bool
  pr_columns :: "ident list"

type_synonym re2 = "ustr \<Rightarrow> bool \<Rightarrow> (bool \<Rightarrow> ustr \<Rightarrow> bool) option"

definition compile_pattern :: "re2 \<Rightarrow> ustr \<Rightarrow> bool \<Rightarrow> string + (bool \<Rightarrow> ustr \<Rightarrow> bool)" where
  "compile_pattern re p cs = (case re p cs of None \<Rightarrow> Inl ''INVALID_PRIVACY_PATTERN'' | Some m \<Rightarrow> Inr m)"

definition check_columns :: "ident list \<Rightarrow> string + unit" where
  "check_columns cols = (if length (remdups cols) \<noteq> length cols then Inl ''DUPLICATE_COLUMNS'' else Inr ())"

definition rule_shape :: "re2 \<Rightarrow> privacy_detector_rule \<Rightarrow> string + unit" where
  "rule_shape re r =
     (if pr_kind r = KBuiltin
      then if pr_builtin_code r = None \<or> pr_pattern r \<noteq> None then Inl ''INVALID_PRIVACY_RULE'' else check_columns (pr_columns r)
      else case pr_pattern r of
        None \<Rightarrow> Inl ''INVALID_PRIVACY_RULE''
      | Some p \<Rightarrow>
          if pr_builtin_code r \<noteq> None then Inl ''INVALID_PRIVACY_RULE''
          else case compile_pattern re p (pr_case_sensitive r) of Inl e \<Rightarrow> Inl e | Inr m \<Rightarrow> check_columns (pr_columns r))"

definition applies_to :: "privacy_detector_rule \<Rightarrow> ident \<Rightarrow> bool" where
  "applies_to r col \<longleftrightarrow> pr_columns r = [] \<or> col \<in> set (pr_columns r)"

record compiled_rule =
  cr_rule :: privacy_detector_rule
  cr_regex :: "bool \<Rightarrow> ustr \<Rightarrow> bool"
  cr_full :: bool

definition matches :: "compiled_rule \<Rightarrow> ustr \<Rightarrow> bool" where
  "matches c text = cr_regex c (cr_full c) text"

definition compile_rule :: "re2 \<Rightarrow> privacy_detector_rule \<Rightarrow> string + compiled_rule" where
  "compile_rule re r =
     (case pr_pattern r of
        None \<Rightarrow> Inl ''INVALID_PRIVACY_RULE''
      | Some p \<Rightarrow> (case compile_pattern re p (pr_case_sensitive r) of
          Inl e \<Rightarrow> Inl e | Inr m \<Rightarrow> Inr \<lparr>cr_rule = r, cr_regex = m, cr_full = pr_full r\<rparr>))"

text \<open>\<open>model_dump(mode="json")\<close> of a rule, the digest over a set of rules, and the pin.\<close>

definition opt_str :: "ustr option \<Rightarrow> json" where
  "opt_str s = (case s of None \<Rightarrow> JNull | Some t \<Rightarrow> JStr t)"

definition kind_value :: "rule_kind \<Rightarrow> ident" where
  "kind_value k = (case k of KBuiltin \<Rightarrow> u ''BUILTIN'' | KColumnName \<Rightarrow> u ''COLUMN_NAME'' | KValuePattern \<Rightarrow> u ''VALUE_PATTERN'')"

definition rule_json :: "privacy_detector_rule \<Rightarrow> json" where
  "rule_json r = JObj
     [(u ''rule_id'', JStr (uuid_str (pr_rule_id r))), (u ''revision'', JInt (pr_revision r)), (u ''code'', JStr (pr_code r)),
      (u ''kind'', JStr (kind_value (pr_kind r))), (u ''category'', JStr (pr_category r)), (u ''enabled'', JBool (pr_enabled r)),
      (u ''builtin_code'', opt_str (pr_builtin_code r)), (u ''pattern'', opt_str (pr_pattern r)),
      (u ''match_mode'', JStr (if pr_full r then u ''FULL'' else u ''SEARCH'')),
      (u ''case_sensitive'', JBool (pr_case_sensitive r)), (u ''columns'', JArr (map JStr (pr_columns r)))]"

definition by_rule_id :: "privacy_detector_rule list \<Rightarrow> privacy_detector_rule list" where
  "by_rule_id rs = sort_key (\<lambda>r. uuid_str (pr_rule_id r)) rs"

definition rules_digest :: "number_text \<Rightarrow> (ustr \<Rightarrow> ustr) \<Rightarrow> privacy_detector_rule list \<Rightarrow> string + ustr" where
  "rules_digest nt sha rs = compute_deterministic_hash nt sha (JObj [(u ''rules'', JArr (map rule_json (by_rule_id rs)))])"

record pinned_rules =
  pin_rules_of :: "privacy_detector_rule list"
  pin_config_version :: int
  pin_digest :: ustr

definition pin_rules :: "number_text \<Rightarrow> (ustr \<Rightarrow> ustr) \<Rightarrow> privacy_detector_rule list \<Rightarrow> int \<Rightarrow> string + pinned_rules" where
  "pin_rules nt sha rs version =
     (case rules_digest nt sha (by_rule_id rs) of
        Inl e \<Rightarrow> Inl e
      | Inr d \<Rightarrow> Inr \<lparr>pin_rules_of = by_rule_id rs, pin_config_version = version, pin_digest = d\<rparr>)"

subsection \<open>Built-in detectors\<close>

definition EMAIL_RE :: rx where
  "EMAIL_RE = seqs [Bol, Rep (\<lambda>c. ascii_alnum c \<or> one_of ''._%+-'' c) 1 None, lit 64,
     Rep (\<lambda>c. ascii_alnum c \<or> one_of ''.-'' c) 1 None, lit 46,
     Rep (\<lambda>c. (65 \<le> c \<and> c \<le> 90) \<or> (97 \<le> c \<and> c \<le> 122)) 2 None, Eol]"

definition SSN_RE :: "unidata \<Rightarrow> rx" where
  "SSN_RE ud = seqs [Bol, NotAhead (alts [lits ''000'', lits ''666'', Seq (lit 57) (digits ud 2)]), digits ud 3, lit 45,
     NotAhead (lits ''00''), digits ud 2, lit 45, NotAhead (lits ''0000''), digits ud 4, Eol]"

definition VN_PHONE_RE :: "unidata \<Rightarrow> rx" where
  "VN_PHONE_RE ud = seqs [Bol, alts [lits ''+84'', lit 48],
     alts [Seq (Cls (one_of ''35789'')) (digits ud 8), Seq (lit 50) (digits ud 9)], Eol]"

definition E164_PHONE_RE :: "unidata \<Rightarrow> rx" where
  "E164_PHONE_RE ud = seqs [Bol, lit 43, Cls (\<lambda>c. 49 \<le> c \<and> c \<le> 57), Rep (is_decimal ud) 6 (Some 14), Eol]"

definition VN_ID_RE :: "unidata \<Rightarrow> rx" where
  "VN_ID_RE ud = seqs [Bol, digits ud 12, Eol]"

definition NAME_MARKERS :: "ustr list" where
  "NAME_MARKERS = map u
     [''name'', ''fullname'', ''full_name'', ''firstname'', ''first_name'', ''lastname'', ''last_name'',
      ''customername'', ''customer_name'', ''hoten'', ''ho_ten'', ''ten'', ''hovaten'', ''ho_va_ten'',
      ''sendername'', ''sender_name'', ''recipientname'', ''recipient_name'', ''beneficiaryname'',
      ''beneficiary_name'', ''clientname'', ''client_name'', ''employeename'', ''employee_name'']"

definition ADDRESS_MARKERS :: "ustr list" where
  "ADDRESS_MARKERS = map u
     [''address'', ''street'', ''city'', ''postalcode'', ''postal_code'', ''zipcode'', ''zip_code'',
      ''diachi'', ''dia_chi'', ''billingaddress'', ''billing_address'', ''shippingaddress'', ''shipping_address'']"

definition BANK_MARKERS :: "ustr list" where
  "BANK_MARKERS = map u
     [''accountnumber'', ''account_number'', ''bankaccount'', ''bank_account'', ''sotaikhoan'', ''so_tai_khoan'',
      ''stk'', ''iban'', ''routingnumber'', ''routing_number'', ''swiftcode'', ''swift_code'']"

definition SECRET_MARKERS :: "ustr list" where
  "SECRET_MARKERS = map u
     [''password'', ''passwd'', ''token'', ''secret'', ''apikey'', ''api_key'', ''privatekey'', ''private_key'',
      ''matkhau'', ''mat_khau'']"

definition PHONE_COL_MARKERS :: "ustr list" where
  "PHONE_COL_MARKERS = map u [''phone'', ''tel'', ''mobile'', ''dienthoai'', ''dien_thoai'', ''sdt'', ''so_dien_thoai'']"

definition VN_ID_COL_MARKERS :: "ustr list" where
  "VN_ID_COL_MARKERS = map u [''cccd'', ''citizen_id'', ''national_id'', ''socccd'', ''so_cccd'', ''cmnd'', ''so_cmnd'']"

text \<open>\<open>isdigit()\<close> of a character, and \<open>int(d)\<close>: a digit that is not decimal (such as a superscript) is a \<open>ValueError\<close>.\<close>

definition is_digit :: "unidata \<Rightarrow> nat \<Rightarrow> bool" where
  "is_digit ud c \<longleftrightarrow> (if c < 128 then 48 \<le> c \<and> c \<le> 57 else ud_isdigit ud c)"

fun luhn_sum :: "nat list \<Rightarrow> bool \<Rightarrow> nat" where
  "luhn_sum [] dbl = 0"
| "luhn_sum (d # ds) dbl =
     (if dbl then (let doubled = d * 2 in if doubled > 9 then doubled - 9 else doubled) else d) + luhn_sum ds (\<not> dbl)"

fun luhn_ok :: "nat list \<Rightarrow> bool" where
  "luhn_ok [] = True"
| "luhn_ok (d # ds) = (luhn_sum (rev (d # ds)) False mod 10 = 0)"

lemma luhn_ok_iff: "luhn_ok ds = (luhn_sum (rev ds) False mod 10 = 0)"
  by (cases ds) simp_all

fun int_digits :: "unidata \<Rightarrow> ustr \<Rightarrow> string + nat list" where
  "int_digits ud [] = Inr []"
| "int_digits ud (c # cs) =
     (case decimal_value ud c of
        None \<Rightarrow> Inl ''ValueError''
      | Some d \<Rightarrow> (case int_digits ud cs of Inl e \<Rightarrow> Inl e | Inr ds \<Rightarrow> Inr (d # ds)))"

definition space_or_dash :: "nat \<Rightarrow> bool" where
  "space_or_dash c \<longleftrightarrow> is_space c \<or> c = 45"

definition is_valid_luhn :: "unidata \<Rightarrow> ustr \<Rightarrow> string + bool" where
  "is_valid_luhn ud card_number =
     (let clean = remove_class space_or_dash card_number
      in if clean = [] \<or> any_of (\<lambda>c. \<not> is_digit ud c) clean \<or> \<not> (13 \<le> length clean \<and> length clean \<le> 19) then Inr False
         else case int_digits ud clean of
           Inl e \<Rightarrow> Inl e
         | Inr ds \<Rightarrow> Inr (luhn_ok ds))"

definition normalize_identifier :: "unidata \<Rightarrow> ustr \<Rightarrow> ustr" where
  "normalize_identifier ud name = py_lower (ud_lower ud) (remove_class (\<lambda>c. c = 95 \<or> is_space c \<or> c = 45) name)"

definition ends_with :: "ustr \<Rightarrow> ustr \<Rightarrow> bool" where
  "ends_with s t \<longleftrightarrow> length t \<le> length s \<and> drop (length s - length t) s = t"

definition is_matching_marker :: "unidata \<Rightarrow> ustr \<Rightarrow> ustr list \<Rightarrow> bool" where
  "is_matching_marker ud col_name markers =
     (let norm = normalize_identifier ud col_name
      in any_of (\<lambda>m. norm = m \<or> ends_with norm (95 # m) \<or> ends_with norm m) markers)"

definition VALUE_CODES :: "ident list" where
  "VALUE_CODES = map u [''EMAIL'', ''PHONE'', ''CARD'', ''SSN'', ''VN_ID'']"

definition NAME_MARKERS_BY_CODE :: "(ident \<times> ustr list) list" where
  "NAME_MARKERS_BY_CODE = [(u ''PERSON_NAME'', NAME_MARKERS), (u ''ADDRESS'', ADDRESS_MARKERS),
     (u ''BANK_ACCOUNT'', BANK_MARKERS), (u ''SECRET'', SECRET_MARKERS)]"

definition builtin_method :: "ident \<Rightarrow> ident" where
  "builtin_method code = (if map_of NAME_MARKERS_BY_CODE code \<noteq> None then u ''COLUMN_NAME'' else u ''VALUE_PATTERN'')"

text \<open>RFC 6901 escaping of an object key in a path.\<close>

definition escape_pointer_key :: "ustr \<Rightarrow> ustr" where
  "escape_pointer_key k = concat (map (\<lambda>c. if c = 126 then [126, 48] else if c = 47 then [126, 49] else [c]) k)"

subsection \<open>The scanner\<close>

definition BUILTIN_DETECTOR_REVISION :: ident where "BUILTIN_DETECTOR_REVISION = u ''builtin-v1''"
definition MAX_DISTINCT_PATHS :: nat where "MAX_DISTINCT_PATHS = 10000"

record rule_meta =
  rm_rule :: "privacy_detector_rule option"
  rm_category :: ident
  rm_method :: ident
  rm_revision :: ident

record scanner =
  sc_sensitive :: "ident list"
  sc_seen :: "(ident \<times> ustr) list"
  sc_observed :: "((ident \<times> ustr) \<times> nat) list"
  sc_matched :: "((ident \<times> ustr \<times> ident) \<times> nat) list"
  sc_cols :: "ident list"
  sc_rows :: nat
  sc_meta :: "(ident \<times> rule_meta) list"
  sc_codes :: "(ident \<times> ident) list"
  sc_builtins :: "(ident \<times> (ident \<times> privacy_detector_rule option)) list"
  sc_value :: "(ident \<times> compiled_rule) list"
  sc_name :: "(ident \<times> compiled_rule) list"
  sc_scoped :: "privacy_detector_rule list"

definition register :: "ident \<Rightarrow> privacy_detector_rule option \<Rightarrow> ident \<Rightarrow> ident \<Rightarrow> ident \<Rightarrow> ident \<Rightarrow> scanner \<Rightarrow> scanner" where
  "register key rule category mth revision code sc =
     (let sc1 = sc\<lparr>sc_meta := AList.update key \<lparr>rm_rule = rule, rm_category = category, rm_method = mth,
                                  rm_revision = revision\<rparr> (sc_meta sc),
                   sc_codes := AList.update key code (sc_codes sc)\<rparr>
      in if (case rule of None \<Rightarrow> True | Some r \<Rightarrow> pr_kind r = KBuiltin)
         then sc1\<lparr>sc_builtins := AList.update code (key, rule) (sc_builtins sc)\<rparr> else sc1)"

definition custom_revision :: "privacy_detector_rule \<Rightarrow> ident" where
  "custom_revision r = u ''custom-v'' @ int_text (pr_revision r)"

definition register_rule :: "re2 \<Rightarrow> privacy_detector_rule \<Rightarrow> scanner \<Rightarrow> string + scanner" where
  "register_rule re r sc0 =
     (if \<not> pr_enabled r then Inr sc0
      else let key = uuid_str (pr_rule_id r);
               sc = (if pr_columns r \<noteq> [] then sc0\<lparr>sc_scoped := sc_scoped sc0 @ [r]\<rparr> else sc0)
        in case pr_kind r of
          KBuiltin \<Rightarrow>
            (let code = (case pr_builtin_code r of None \<Rightarrow> [] | Some c \<Rightarrow> c)
             in Inr (register key (Some r) (pr_category r) (builtin_method code) BUILTIN_DETECTOR_REVISION code sc))
        | KColumnName \<Rightarrow>
            (let sc1 = register key (Some r) (pr_category r) (u ''COLUMN_NAME'') (custom_revision r) (pr_code r) sc
             in case compile_rule re r of Inl e \<Rightarrow> Inl e | Inr c \<Rightarrow> Inr (sc1\<lparr>sc_name := sc_name sc @ [(key, c)]\<rparr>))
        | KValuePattern \<Rightarrow>
            (let sc1 = register key (Some r) (pr_category r) (u ''CUSTOM_PATTERN'') (custom_revision r) (pr_code r) sc
             in case compile_rule re r of Inl e \<Rightarrow> Inl e | Inr c \<Rightarrow> Inr (sc1\<lparr>sc_value := sc_value sc @ [(key, c)]\<rparr>)))"

fun register_rules :: "re2 \<Rightarrow> privacy_detector_rule list \<Rightarrow> scanner \<Rightarrow> string + scanner" where
  "register_rules re [] sc = Inr sc"
| "register_rules re (r # rs) sc =
     (case register_rule re r sc of Inl e \<Rightarrow> Inl e | Inr sc1 \<Rightarrow> register_rules re rs sc1)"

definition blank_scanner :: "ident list \<Rightarrow> ident list \<Rightarrow> scanner" where
  "blank_scanner columns extra = \<lparr>sc_sensitive = extra, sc_seen = [], sc_observed = [], sc_matched = [],
     sc_cols = filter (\<lambda>c. c \<noteq> []) columns, sc_rows = 0, sc_meta = [], sc_codes = [], sc_builtins = [], sc_value = [],
     sc_name = [], sc_scoped = []\<rparr>"

definition scanner_init :: "re2 \<Rightarrow> ident list \<Rightarrow> ident list \<Rightarrow> privacy_detector_rule list option \<Rightarrow> string + scanner" where
  "scanner_init re columns extra rules =
     (case rules of
        None \<Rightarrow> Inr (fold (\<lambda>(code, category). register code None category (builtin_method code) BUILTIN_DETECTOR_REVISION code)
                 BUILTIN_RULE_CATEGORIES (blank_scanner columns extra))
      | Some rs \<Rightarrow> register_rules re rs (blank_scanner columns extra))"

definition active_builtin :: "scanner \<Rightarrow> ident \<Rightarrow> ident \<Rightarrow> bool" where
  "active_builtin sc col code = (case map_of (sc_builtins sc) code of
       None \<Rightarrow> False
     | Some (key, None) \<Rightarrow> True
     | Some (key, Some r) \<Rightarrow> applies_to r col)"

definition plan :: "scanner \<Rightarrow> ident \<Rightarrow> ident list \<times> (ident \<times> compiled_rule) list" where
  "plan sc col = (filter (active_builtin sc col) VALUE_CODES, filter (\<lambda>(key, c). applies_to (cr_rule c) col) (sc_value sc))"

definition hit :: "ident \<Rightarrow> ustr \<Rightarrow> ident \<Rightarrow> scanner \<Rightarrow> scanner" where
  "hit col path key sc =
     sc\<lparr>sc_matched := AList.update (col, path, key) (dict_get (sc_matched sc) (col, path, key) 0 + 1) (sc_matched sc)\<rparr>"

definition builtin_key :: "scanner \<Rightarrow> ident \<Rightarrow> ident" where
  "builtin_key sc code = (case map_of (sc_builtins sc) code of None \<Rightarrow> [] | Some (key, r) \<Rightarrow> key)"

text \<open>The leaves of a value, in the order the explicit stack yields them (\<open>pop\<close> takes the last pushed).\<close>

fun jweight :: "json \<Rightarrow> nat" where
  "jweight (JArr xs) = Suc (sum_list (map jweight xs))"
| "jweight (JObj kvs) = Suc (sum_list (map (\<lambda>(k, v). jweight v) kvs))"
| "jweight v = 1"

fun pushed :: "ustr \<Rightarrow> json \<Rightarrow> (ustr \<times> json) list option" where
  "pushed path (JObj kvs) = Some (map (\<lambda>(k, v). (path @ [47] @ escape_pointer_key k, v)) (filter (\<lambda>(k, v). v \<noteq> JNull) kvs))"
| "pushed path (JArr xs) = Some (map (\<lambda>v. (path @ [47, 42], v)) (filter (\<lambda>v. v \<noteq> JNull) xs))"
| "pushed path v = None"

lemma jweight_filter: "sum_list (map jweight (filter P xs)) \<le> sum_list (map jweight xs)"
  by (induction xs) auto

lemma jweight_filter_values:
  "sum_list (map (\<lambda>(k, v). jweight v) (filter Q kvs)) \<le> sum_list (map (\<lambda>(k :: ustr, v). jweight v) kvs)"
  by (induction kvs) auto

lemma pushed_lighter:
  assumes "pushed p v = Some vs"
  shows "sum_list (map (\<lambda>(p, v). jweight v) vs) < jweight v"
proof (cases v)
  case (JArr xs)
  with assms jweight_filter [of "\<lambda>v. v \<noteq> JNull" xs] show ?thesis by (auto simp: o_def)
next
  case (JObj kvs)
  have e: "(\<lambda>x. case case x of (k, y) \<Rightarrow> (f k, y) of (p, v) \<Rightarrow> jweight v) = (\<lambda>(k, v). jweight v)" for f :: "ustr \<Rightarrow> ustr"
    by auto
  from JObj assms jweight_filter_values [of "\<lambda>(k, v). v \<noteq> JNull" kvs] show ?thesis by (auto simp: o_def e)
qed (use assms in auto)

function stack_leaves :: "(ustr \<times> json) list \<Rightarrow> (ustr \<times> json) list" where
  "stack_leaves [] = []"
| "stack_leaves ((path, v) # st) =
     (case pushed path v of None \<Rightarrow> (path, v) # stack_leaves st | Some vs \<Rightarrow> stack_leaves (rev vs @ st))"
  by pat_completeness auto
termination
proof (relation "measure (\<lambda>st. sum_list (map (\<lambda>(p, v). jweight v) st))")
  show "(st, (path, v) # st) \<in> measure (\<lambda>st. sum_list (map (\<lambda>(p, v). jweight v) st))" for st path v
    by (cases v) auto
  show "(rev vs @ st, (path, v) # st) \<in> measure (\<lambda>st. sum_list (map (\<lambda>(p, v). jweight v) st))"
    if "pushed path v = Some vs" for path v vs st
    using pushed_lighter [OF that] by (simp add: rev_map [symmetric])
qed simp

definition leaves :: "json \<Rightarrow> (ustr \<times> json) list" where
  "leaves v = stack_leaves [([], v)]"

subsection \<open>Feeding rows\<close>

text \<open>\<open>str(leaf)\<close>; the leaves of a row are the scalar JSON values.\<close>

fun leaf_text :: "number_text \<Rightarrow> json \<Rightarrow> ustr" where
  "leaf_text nt (JStr s) = s"
| "leaf_text nt (JBool b) = (if b then u ''True'' else u ''False'')"
| "leaf_text nt (JInt i) = int_text i"
| "leaf_text nt (JDec s c e) = decimal_str nt s c e"
| "leaf_text nt (JFloat x) = float_repr nt x"
| "leaf_text nt v = []"

definition looks_like_phone :: "unidata \<Rightarrow> ident \<Rightarrow> ustr \<Rightarrow> bool" where
  "looks_like_phone ud col sval \<longleftrightarrow>
     (is_matching_marker ud col PHONE_COL_MARKERS \<or> is_prefix [43] sval)
     \<and> (let clean_phone = remove_class (\<lambda>c. is_space c \<or> c = 46 \<or> c = 45) sval
        in rx_match ud (VN_PHONE_RE ud) clean_phone \<or> rx_match ud (E164_PHONE_RE ud) clean_phone)"

definition looks_like_card :: "unidata \<Rightarrow> ustr \<Rightarrow> string + bool" where
  "looks_like_card ud sval =
     (let clean_digits = remove_class space_or_dash sval
      in if 13 \<le> length clean_digits \<and> length clean_digits \<le> 19 then is_valid_luhn ud clean_digits else Inr False)"

definition hit_if :: "bool \<Rightarrow> ident \<Rightarrow> ident list \<Rightarrow> ident \<Rightarrow> ustr \<Rightarrow> scanner \<Rightarrow> scanner" where
  "hit_if b code codes col path sc = (if code \<in> set codes \<and> b then hit col path (builtin_key sc code) sc else sc)"

definition scan_builtin_leaf :: "unidata \<Rightarrow> ident \<Rightarrow> ustr \<Rightarrow> ustr \<Rightarrow> ident list \<Rightarrow> scanner \<Rightarrow> string + scanner" where
  "scan_builtin_leaf ud col path sval codes sc =
     (if sval = [] then Inr sc
      else let sc1 = hit_if (rx_match ud EMAIL_RE sval) (u ''EMAIL'') codes col path sc;
               sc2 = hit_if (looks_like_phone ud col sval) (u ''PHONE'') codes col path sc1
        in case (if u ''CARD'' \<in> set codes then looks_like_card ud sval else Inr False) of
             Inl e \<Rightarrow> Inl e
           | Inr is_card \<Rightarrow>
               (let sc3 = hit_if is_card (u ''CARD'') codes col path sc2;
                    sc4 = hit_if (rx_match ud (SSN_RE ud) sval) (u ''SSN'') codes col path sc3
                in Inr (hit_if (is_matching_marker ud col VN_ID_COL_MARKERS \<and> rx_match ud (VN_ID_RE ud) sval)
                          (u ''VN_ID'') codes col path sc4)))"

definition observe :: "ident \<Rightarrow> ustr \<Rightarrow> scanner \<Rightarrow> string + scanner" where
  "observe col path sc =
     (if (col, path) \<notin> set (sc_seen sc) \<and> MAX_DISTINCT_PATHS \<le> length (sc_seen sc)
      then Inl ''PrivacyScanLimitExceededException''
      else Inr (sc\<lparr>sc_seen := List.insert (col, path) (sc_seen sc),
                   sc_observed := AList.update (col, path) (dict_get (sc_observed sc) (col, path) 0 + 1) (sc_observed sc)\<rparr>))"

definition custom_hits :: "ident \<Rightarrow> ustr \<Rightarrow> json \<Rightarrow> (ident \<times> compiled_rule) list \<Rightarrow> scanner \<Rightarrow> scanner" where
  "custom_hits col path v customs sc =
     (case v of
        JStr s \<Rightarrow> fold (\<lambda>(key, c) sc. if matches c s then hit col path key sc else sc) customs sc
      | _ \<Rightarrow> sc)"

definition feed_leaf :: "unidata \<Rightarrow> number_text \<Rightarrow> ident \<Rightarrow> ident list \<Rightarrow> (ident \<times> compiled_rule) list \<Rightarrow>
    ustr \<times> json \<Rightarrow> scanner \<Rightarrow> string + scanner" where
  "feed_leaf ud nt col codes customs leaf sc =
     (case observe col (fst leaf) sc of
        Inl e \<Rightarrow> Inl e
      | Inr sc1 \<Rightarrow>
          (let sc2 = custom_hits col (fst leaf) (snd leaf) customs sc1
           in if codes = [] then Inr sc2
              else scan_builtin_leaf ud col (fst leaf) (py_strip (leaf_text nt (snd leaf))) codes sc2))"

fun feed_leaves :: "unidata \<Rightarrow> number_text \<Rightarrow> ident \<Rightarrow> ident list \<Rightarrow> (ident \<times> compiled_rule) list \<Rightarrow>
    (ustr \<times> json) list \<Rightarrow> scanner \<Rightarrow> string + scanner" where
  "feed_leaves ud nt col codes customs [] sc = Inr sc"
| "feed_leaves ud nt col codes customs (l # ls) sc =
     (case feed_leaf ud nt col codes customs l sc of
        Inl e \<Rightarrow> Inl e | Inr sc1 \<Rightarrow> feed_leaves ud nt col codes customs ls sc1)"

fun feed_cells :: "unidata \<Rightarrow> number_text \<Rightarrow> jdict \<Rightarrow> scanner \<Rightarrow> string + scanner" where
  "feed_cells ud nt [] sc = Inr sc"
| "feed_cells ud nt ((col, v) # cells) sc =
     (if v = JNull then feed_cells ud nt cells sc
      else case feed_leaves ud nt col (fst (plan sc col)) (snd (plan sc col)) (leaves v) sc of
        Inl e \<Rightarrow> Inl e | Inr sc1 \<Rightarrow> feed_cells ud nt cells sc1)"

definition feed_row :: "unidata \<Rightarrow> number_text \<Rightarrow> jdict \<Rightarrow> scanner \<Rightarrow> string + scanner" where
  "feed_row ud nt row sc =
     feed_cells ud nt row (sc\<lparr>sc_rows := Suc (sc_rows sc), sc_cols := sc_cols sc @ map fst row\<rparr>)"

subsection \<open>The report\<close>

record finding =
  fi_column_name :: ident
  fi_path :: ustr
  fi_category :: ident
  fi_detector_code :: ident
  fi_rule_id :: "ustr option"
  fi_rule_revision :: "int option"
  fi_matched_count :: nat
  fi_observed_count :: nat
  fi_method :: ident
  fi_detector_revision :: ident
  fi_confidence_score :: pyfloat

record scope_gap =
  sg_rule_id :: ustr
  sg_rule_revision :: int
  sg_detector_code :: ident
  sg_missing_columns :: "ident list"

record scan_report =
  sr_total_rows :: nat
  sr_findings :: "finding list"
  sr_sensitive_columns :: "ident list"
  sr_scope_missing :: "scope_gap list"

definition mark_column_match :: "ident \<Rightarrow> ident \<Rightarrow> scanner \<Rightarrow> scanner" where
  "mark_column_match col key sc =
     (let obs = dict_get (sc_observed sc) (col, []) (sc_rows sc)
      in sc\<lparr>sc_matched := AList.update (col, [], key) obs (sc_matched sc),
            sc_observed := AList.update (col, []) obs (sc_observed sc)\<rparr>)"

definition name_builtin :: "unidata \<Rightarrow> ident \<Rightarrow> ident \<times> ustr list \<Rightarrow> scanner \<Rightarrow> scanner" where
  "name_builtin ud col cm sc =
     (if active_builtin sc col (fst cm) \<and> is_matching_marker ud col (snd cm)
      then mark_column_match col (builtin_key sc (fst cm)) sc else sc)"

definition name_custom :: "ident \<Rightarrow> ident \<times> compiled_rule \<Rightarrow> scanner \<Rightarrow> scanner" where
  "name_custom col kc sc =
     (if applies_to (cr_rule (snd kc)) col \<and> matches (snd kc) col then mark_column_match col (fst kc) sc else sc)"

definition name_column :: "unidata \<Rightarrow> ident \<Rightarrow> scanner \<Rightarrow> scanner" where
  "name_column ud col sc = fold (name_custom col) (sc_name sc) (fold (name_builtin ud col) NAME_MARKERS_BY_CODE sc)"

text \<open>\<open>round(x, 4)\<close>: the exact value is rounded half to even at four decimals and then to the nearest float.\<close>

definition round4 :: "pyfloat \<Rightarrow> pyfloat" where
  "round4 x = fl (of_int (rhe (x * 10000)) / 10000)"

definition confidence :: "ident \<Rightarrow> nat \<Rightarrow> nat \<Rightarrow> pyfloat" where
  "confidence mth matched observed =
     (if mth = u ''COLUMN_NAME'' then 1 else round4 (min 1 (fdiv (of_nat matched) (of_nat (max 1 observed)))))"

definition finding_of :: "scanner \<Rightarrow> (ident \<times> ustr \<times> ident) \<times> nat \<Rightarrow> finding" where
  "finding_of sc m = (case m of ((col, path, key), matched) \<Rightarrow>
     (let meta = dict_get (sc_meta sc) key \<lparr>rm_rule = None, rm_category = [], rm_method = [], rm_revision = []\<rparr>;
          observed = dict_get (sc_observed sc) (col, path) matched
      in \<lparr>fi_column_name = col, fi_path = path, fi_category = rm_category meta,
          fi_detector_code = dict_get (sc_codes sc) key [],
          fi_rule_id = map_option (\<lambda>r. uuid_str (pr_rule_id r)) (rm_rule meta),
          fi_rule_revision = map_option pr_revision (rm_rule meta),
          fi_matched_count = matched, fi_observed_count = observed, fi_method = rm_method meta,
          fi_detector_revision = rm_revision meta, fi_confidence_score = confidence (rm_method meta) matched observed\<rparr>))"

definition scope_missing :: "scanner \<Rightarrow> scope_gap list" where
  "scope_missing sc =
     sort_key (\<lambda>g. (sg_detector_code g, sg_rule_id g))
       (map (\<lambda>(r, missing). \<lparr>sg_rule_id = uuid_str (pr_rule_id r), sg_rule_revision = pr_revision r,
               sg_detector_code = dict_get (sc_codes sc) (uuid_str (pr_rule_id r)) [], sg_missing_columns = missing\<rparr>)
         (filter (\<lambda>(r, missing). missing \<noteq> [])
           (map (\<lambda>r. (r, sorted_set (filter (\<lambda>c. c \<notin> set (sc_cols sc)) (pr_columns r)))) (sc_scoped sc))))"

definition finish :: "unidata \<Rightarrow> scanner \<Rightarrow> scan_report" where
  "finish ud sc0 =
     (let sc = fold (name_column ud) (remdups (sc_cols sc0)) sc0;
          ms = filter (\<lambda>m. 0 < snd m) (sort_key fst (sc_matched sc))
      in \<lparr>sr_total_rows = sc_rows sc, sr_findings = map (finding_of sc) ms,
          sr_sensitive_columns = sorted_set (sc_sensitive sc @ map (\<lambda>m. fst (fst m)) ms),
          sr_scope_missing = scope_missing sc\<rparr>)"

fun feed_rows :: "unidata \<Rightarrow> number_text \<Rightarrow> jdict list \<Rightarrow> scanner \<Rightarrow> string + scanner" where
  "feed_rows ud nt [] sc = Inr sc"
| "feed_rows ud nt (row # rows) sc =
     (case feed_row ud nt row sc of Inl e \<Rightarrow> Inl e | Inr sc1 \<Rightarrow> feed_rows ud nt rows sc1)"

definition scan_with :: "unidata \<Rightarrow> number_text \<Rightarrow> re2 \<Rightarrow> privacy_detector_rule list option \<Rightarrow> jdict list \<Rightarrow> ident list \<Rightarrow>
    ident list \<Rightarrow> string + scan_report" where
  "scan_with ud nt re rules rows columns extra =
     (case scanner_init re columns extra rules of
        Inl e \<Rightarrow> Inl e
      | Inr sc \<Rightarrow> (case feed_rows ud nt rows sc of Inl e \<Rightarrow> Inl e | Inr sc1 \<Rightarrow> Inr (finish ud sc1)))"

definition scan_rows :: "unidata \<Rightarrow> number_text \<Rightarrow> jdict list \<Rightarrow> ident list \<Rightarrow> ident list \<Rightarrow> string + scan_report" where
  "scan_rows ud nt rows columns extra = scan_with ud nt (\<lambda>p cs. None) None rows columns extra"

subsection \<open>Masking\<close>

definition REDACTED_SENTINEL :: ustr where "REDACTED_SENTINEL = u ''[REDACTED]''"

definition mask_value :: "json \<Rightarrow> json" where
  "mask_value v = (if v = JNull then JNull else if v = JStr [] then JStr [] else JStr REDACTED_SENTINEL)"

definition mask_row :: "jdict \<Rightarrow> ident set \<Rightarrow> jdict" where
  "mask_row row sensitive_columns =
     (if sensitive_columns = {} then row
      else map (\<lambda>(k, v). (k, if k \<in> sensitive_columns then mask_value v else v)) row)"

end
