(* ===== verification/PrivacyProperties.thy ===== *)
theory PrivacyProperties
  imports Privacy Redaction
begin

text \<open>
  What the privacy scanner promises: the card checksum finds every single wrong digit, the leaves of a value are all
  scanned, counts never contradict each other, and a column with a detected cell is masked in every row.
\<close>

subsection \<open>The card checksum\<close>

definition luhn_weight :: "bool \<Rightarrow> nat \<Rightarrow> nat" where
  "luhn_weight dbl d = (if dbl then (let doubled = d * 2 in if doubled > 9 then doubled - 9 else doubled) else d)"

lemma luhn_weight_less: "d < 10 \<Longrightarrow> luhn_weight dbl d < 10"
  by (auto simp: luhn_weight_def Let_def)

lemma luhn_weight_inj: "luhn_weight dbl d = luhn_weight dbl e \<Longrightarrow> d < 10 \<Longrightarrow> e < 10 \<Longrightarrow> d = e"
  by (cases dbl) (auto simp: luhn_weight_def Let_def split: if_splits, presburger+)

lemma luhn_sum_Cons: "luhn_sum (d # ds) dbl = luhn_weight dbl d + luhn_sum ds (\<not> dbl)"
  by (simp add: luhn_weight_def)

lemma luhn_sum_update:
  "i < length ds \<Longrightarrow> luhn_sum (ds[i := d]) dbl + luhn_weight (dbl \<noteq> odd i) (ds ! i)
     = luhn_sum ds dbl + luhn_weight (dbl \<noteq> odd i) d"
proof (induction ds arbitrary: i dbl)
  case (Cons x xs)
  show ?case
  proof (cases i)
    case (Suc j)
    then have "luhn_sum (xs[j := d]) (\<not> dbl) + luhn_weight ((\<not> dbl) \<noteq> odd j) (xs ! j)
        = luhn_sum xs (\<not> dbl) + luhn_weight ((\<not> dbl) \<noteq> odd j) d"
      using Cons.prems Suc by (intro Cons.IH) simp
    moreover have "((\<not> dbl) \<noteq> odd j) = (dbl \<noteq> odd i)" using Suc by auto
    ultimately show ?thesis using Suc by (simp add: luhn_sum_Cons)
  qed (simp add: luhn_sum_Cons del: luhn_sum.simps)
qed simp

lemma luhn_sum_changed:
  assumes "i < length ds" "ds ! i < 10" "d < 10" "d \<noteq> ds ! i" "luhn_sum ds dbl mod 10 = 0"
  shows "luhn_sum (ds[i := d]) dbl mod 10 \<noteq> 0"
proof
  assume "luhn_sum (ds[i := d]) dbl mod 10 = 0"
  moreover define w where "w = luhn_weight (dbl \<noteq> odd i)"
  ultimately have "w (ds ! i) mod 10 = w d mod 10"
    using luhn_sum_update [OF assms(1), of d dbl] assms(5) by (metis mod_add_left_eq add_0)
  moreover have "w (ds ! i) < 10" "w d < 10" using assms luhn_weight_less by (simp_all add: w_def)
  ultimately show False using luhn_weight_inj assms(2-4) by (metis mod_less w_def)
qed

abbreviation ascii_digit :: "nat \<Rightarrow> bool" where "ascii_digit c \<equiv> 48 \<le> c \<and> c \<le> 57"

lemma ascii_digit_facts: "ascii_digit c \<Longrightarrow> \<not> space_or_dash c \<and> is_digit ud c \<and> decimal_value ud c = Some (c - 48)"
  by (auto simp: space_or_dash_def is_space_def is_digit_def decimal_value_def)

lemma int_digits_ascii: "\<forall>c \<in> set s. ascii_digit c \<Longrightarrow> int_digits ud s = Inr (map (\<lambda>c. c - 48) s)"
  by (induction s) (auto simp: ascii_digit_facts)

lemma luhn_on_digits:
  assumes "\<forall>c \<in> set s. ascii_digit c"
  shows "is_valid_luhn ud s = Inr (13 \<le> length s \<and> length s \<le> 19 \<and> luhn_sum (rev (map (\<lambda>c. c - 48) s)) False mod 10 = 0)"
proof -
  have "remove_class space_or_dash s = s"
    unfolding remove_class_def by (rule filter_True) (use assms ascii_digit_facts in blast)
  moreover have "\<not> any_of (\<lambda>c. \<not> is_digit ud c) s" using assms ascii_digit_facts by (auto simp: any_of_iff)
  ultimately show ?thesis using assms by (auto simp: is_valid_luhn_def int_digits_ascii Let_def luhn_ok_iff)
qed

text \<open>The card check catches every single digit error: changing one digit of a number that passes makes it fail.\<close>

theorem luhn_detects_single_error:
  assumes "is_valid_luhn ud s = Inr True" "\<forall>c \<in> set s. 48 \<le> c \<and> c \<le> 57"
    and "i < length s" "48 \<le> d" "d \<le> 57" "d \<noteq> s ! i"
  shows "is_valid_luhn ud (s[i := d]) = Inr False"
proof -
  let ?f = "\<lambda>c :: nat. c - 48" and ?j = "length s - Suc i"
  have si: "ascii_digit (s ! i)" using assms(2,3) by (meson nth_mem)
  have all: "\<forall>c \<in> set (s[i := d]). ascii_digit c" using assms(2,4,5) set_update_subset_insert [of s i d] by blast
  have r: "rev (map ?f (s[i := d])) = (rev (map ?f s))[?j := d - 48]"
    using assms(3) by (simp add: map_update rev_update)
  have n: "rev (map ?f s) ! ?j = s ! i - 48" using assms(3) by (simp add: rev_nth)
  have l: "13 \<le> length s \<and> length s \<le> 19" and z: "luhn_sum (rev (map ?f s)) False mod 10 = 0"
    using assms(1) luhn_on_digits [OF assms(2), of ud] by simp_all
  have "luhn_sum ((rev (map ?f s))[?j := d - 48]) False mod 10 \<noteq> 0"
    by (rule luhn_sum_changed) (use assms(3-6) si n z in auto)
  then show ?thesis using luhn_on_digits [OF all, of ud] r by simp
qed

theorem luhn_detects_single_error_witness:
  "is_valid_luhn plain_unidata ([52, 49, 49, 49, 49, 49, 49, 49, 49, 49, 49, 49, 49, 49, 49, 49][3 := 50]) = Inr False"
proof (rule luhn_detects_single_error)
  show "is_valid_luhn plain_unidata [52, 49, 49, 49, 49, 49, 49, 49, 49, 49, 49, 49, 49, 49, 49, 49] = Inr True"
    by (subst luhn_on_digits) simp_all
qed simp_all

subsection \<open>Every leaf is scanned\<close>

text \<open>The strings of a value, by plain recursion; the explicit stack of the code reaches all of them.\<close>

fun strings_in :: "json \<Rightarrow> ustr list" where
  "strings_in (JStr s) = [s]"
| "strings_in (JArr xs) = concat (map strings_in xs)"
| "strings_in (JObj kvs) = concat (map (\<lambda>(k, v). strings_in v) kvs)"
| "strings_in v = []"

lemma pushed_strings:
  assumes "pushed p v = Some vs" "s \<in> set (strings_in v)"
  shows "\<exists>q w. (q, w) \<in> set vs \<and> s \<in> set (strings_in w)"
proof (cases v)
  case (JArr xs)
  with assms(2) obtain w where w: "w \<in> set xs" "s \<in> set (strings_in w)" by auto
  then have "w \<noteq> JNull" by auto
  with w JArr assms(1) show ?thesis by (intro exI [of _ "p @ [47, 42]"] exI [of _ w]) auto
next
  case (JObj kvs)
  with assms(2) obtain k w where w: "(k, w) \<in> set kvs" "s \<in> set (strings_in w)" by auto
  then have "w \<noteq> JNull" by auto
  with w JObj assms(1) show ?thesis by force
qed (use assms in auto)

lemma stack_leaves_strings:
  "(q, w) \<in> set st \<Longrightarrow> s \<in> set (strings_in w) \<Longrightarrow> \<exists>path. (path, JStr s) \<in> set (stack_leaves st)"
proof (induction st arbitrary: q w rule: stack_leaves.induct)
  case (2 path v st)
  show ?case
  proof (cases "pushed path v")
    case None
    show ?thesis
    proof (cases "(q, w) = (path, v)")
      case True
      with 2(4) None show ?thesis by (cases v) auto
    next
      case False
      with 2(1) [OF None, of q w] 2(3,4) None show ?thesis by auto
    qed
  next
    case (Some vs)
    show ?thesis
    proof (cases "(q, w) = (path, v)")
      case True
      with pushed_strings [OF Some, of s] 2(4) obtain q' w' where "(q', w') \<in> set vs" "s \<in> set (strings_in w')" by auto
      with 2(2) [OF Some, of q' w'] Some show ?thesis by simp
    next
      case False
      then have "(q, w) \<in> set (rev vs @ st)" using 2(3) by auto
      from 2(2) [OF Some this 2(4)] Some show ?thesis by simp
    qed
  qed
qed simp

lemma leaves_strings: "s \<in> set (strings_in v) \<Longrightarrow> \<exists>path. (path, JStr s) \<in> set (leaves v)"
  unfolding leaves_def by (rule stack_leaves_strings) simp_all

subsection \<open>Counts\<close>

definition matched_of :: "scanner \<Rightarrow> ident \<Rightarrow> ustr \<Rightarrow> ident \<Rightarrow> nat" where
  "matched_of sc col path key = dict_get (sc_matched sc) (col, path, key) 0"

definition observed_of :: "scanner \<Rightarrow> ident \<Rightarrow> ustr \<Rightarrow> nat" where
  "observed_of sc col path = dict_get (sc_observed sc) (col, path) 0"

definition counts_ok :: "scanner \<Rightarrow> bool" where
  "counts_ok sc \<longleftrightarrow> distinct (map fst (sc_matched sc))
     \<and> (\<forall>col path key. matched_of sc col path key \<le> observed_of sc col path)"

text \<open>Two scanners have the same detectors; a later one has seen at least as many matches.\<close>

definition same_detectors :: "scanner \<Rightarrow> scanner \<Rightarrow> bool" where
  "same_detectors sc sc' \<longleftrightarrow> sc_builtins sc' = sc_builtins sc \<and> sc_value sc' = sc_value sc \<and> sc_name sc' = sc_name sc"

definition later :: "scanner \<Rightarrow> scanner \<Rightarrow> bool" where
  "later sc sc' \<longleftrightarrow> same_detectors sc sc' \<and> (\<forall>col path key. matched_of sc col path key \<le> matched_of sc' col path key)"

lemma later_refl [simp]: "later sc sc"
  by (simp add: later_def same_detectors_def)

lemma later_trans: "later a b \<Longrightarrow> later b c \<Longrightarrow> later a c"
  unfolding later_def same_detectors_def by (metis order_trans)

lemma later_fold: "(\<And>x s. x \<in> set xs \<Longrightarrow> later s (f x s)) \<Longrightarrow> later s (fold f xs s)"
proof (induction xs arbitrary: s)
  case (Cons x xs)
  then have "later s (f x s)" "later (f x s) (fold f xs (f x s))" by simp_all
  then show ?case by (simp add: later_trans)
qed simp

text \<open>Room for a hit at a leaf: the keys outside \<open>K\<close> have not been counted there yet.\<close>

definition room :: "scanner \<Rightarrow> ident \<Rightarrow> ustr \<Rightarrow> ident set \<Rightarrow> bool" where
  "room sc col path K \<longleftrightarrow> counts_ok sc \<and> (\<forall>key. key \<notin> K \<longrightarrow> matched_of sc col path key < observed_of sc col path)"

lemma room_counts: "room sc col path K \<Longrightarrow> counts_ok sc"
  by (simp add: room_def)

lemma matched_hit: "matched_of (hit c p k sc) col path key = matched_of sc col path key + (if (col, path, key) = (c, p, k) then 1 else 0)"
  by (simp add: matched_of_def hit_def dict_get_update)

lemma observed_hit [simp]: "observed_of (hit c p k sc) = observed_of sc"
  by (simp add: observed_of_def hit_def fun_eq_iff)

lemma hit_same [simp]: "same_detectors sc (hit c p k sc)"
  by (simp add: same_detectors_def hit_def)

lemma hit_later [simp]: "later sc (hit c p k sc)"
  by (simp add: later_def matched_hit)

lemma hit_room: "room sc col path K \<Longrightarrow> k \<notin> K \<Longrightarrow> room (hit col path k sc) col path (insert k K)"
  by (auto simp: room_def counts_ok_def matched_hit distinct_update Suc_le_eq) (auto simp: hit_def distinct_update)

lemma observe_room:
  assumes "counts_ok sc" "observe col path sc = Inr sc'"
  shows "room sc' col path {}" "later sc sc'"
proof -
  have e: "sc' = sc\<lparr>sc_seen := List.insert (col, path) (sc_seen sc),
      sc_observed := AList.update (col, path) (dict_get (sc_observed sc) (col, path) 0 + 1) (sc_observed sc)\<rparr>"
    using assms(2) by (simp add: observe_def split: if_splits)
  then have m: "matched_of sc' = matched_of sc" by (simp add: matched_of_def fun_eq_iff)
  have o: "observed_of sc' c p = observed_of sc c p + (if (c, p) = (col, path) then 1 else 0)" for c p
    by (simp add: observed_of_def e dict_get_update)
  have d: "sc_matched sc' = sc_matched sc" by (simp add: e)
  show "room sc' col path {}"
    using assms(1) by (simp add: room_def counts_ok_def m o d less_Suc_eq_le le_SucI)
  show "later sc sc'" unfolding later_def m by (simp add: same_detectors_def e)
qed

lemma custom_room:
  "distinct (map fst cs) \<Longrightarrow> fst ` set cs \<inter> K = {} \<Longrightarrow> room sc col path K \<Longrightarrow>
   room (fold (\<lambda>(key, c) sc. if matches c s then hit col path key sc else sc) cs sc) col path (fst ` set cs \<union> K)"
proof (induction cs arbitrary: sc K)
  case (Cons kc cs)
  obtain key c where kc: "kc = (key, c)" by fastforce
  let ?sc = "if matches c s then hit col path key sc else sc"
  have "room (hit col path key sc) col path (insert key K)" using Cons.prems kc by (intro hit_room) auto
  then have "room ?sc col path (insert key K)" using Cons.prems(3) by (auto simp: room_def)
  moreover have "fst ` set cs \<inter> insert key K = {}" using Cons.prems kc by auto
  ultimately have "room (fold (\<lambda>(key, c) sc. if matches c s then hit col path key sc else sc) cs ?sc) col path
      (fst ` set cs \<union> insert key K)" using Cons.prems(1) by (intro Cons.IH) simp_all
  then show ?case by (simp add: kc)
qed simp

lemma custom_later: "later sc (custom_hits col path v cs sc)"
proof (cases v)
  case (JStr s)
  have "later sc (fold (\<lambda>(key, c) sc. if matches c s then hit col path key sc else sc) cs sc)"
    by (rule later_fold) (simp split: prod.splits)
  with JStr show ?thesis by (simp add: custom_hits_def)
qed (simp_all add: custom_hits_def)

lemma custom_hits_room:
  assumes "distinct (map fst cs)" "room sc col path {}"
  shows "room (custom_hits col path v cs sc) col path (fst ` set cs)"
proof (cases v)
  case (JStr s)
  with custom_room [of cs "{}" sc col path s] assms show ?thesis by (simp add: custom_hits_def)
qed (use assms in \<open>simp_all add: custom_hits_def room_def\<close>)

lemma hit_if_room:
  assumes "room sc col path (A \<union> builtin_key sc ` (D \<inter> set codes))" "code \<notin> D"
    and "inj_on (builtin_key sc) (set codes)" "builtin_key sc ` set codes \<inter> A = {}"
  shows "room (hit_if b code codes col path sc) col path (A \<union> builtin_key sc ` (insert code D \<inter> set codes))"
proof (cases "code \<in> set codes \<and> b")
  case True
  have "builtin_key sc code \<notin> A \<union> builtin_key sc ` (D \<inter> set codes)"
    using True assms(2-4) by (auto dest: inj_onD)
  from hit_room [OF assms(1) this] True show ?thesis by (simp add: hit_if_def)
next
  case False
  with assms(1) show ?thesis by (auto simp: hit_if_def room_def)
qed

lemma hit_if_later [simp]: "later sc (hit_if b code codes col path sc)"
  by (simp add: hit_if_def)

lemma builtin_key_later: "later sc sc' \<Longrightarrow> builtin_key sc' = builtin_key sc"
  by (simp add: builtin_key_def later_def same_detectors_def fun_eq_iff)

lemma hit_if_key [simp]: "builtin_key (hit_if b code codes col path sc) = builtin_key sc"
  by (rule builtin_key_later) simp

lemma scan_builtin_leaf_room:
  assumes "scan_builtin_leaf ud col path sval codes sc = Inr sc'" "room sc col path A"
    and "inj_on (builtin_key sc) (set codes)" "builtin_key sc ` set codes \<inter> A = {}"
  shows "counts_ok sc'" "later sc sc'"
proof -
  let ?h = "\<lambda>b code sc. hit_if b code codes col path sc"
  let ?K = "\<lambda>D. A \<union> builtin_key sc ` (D \<inter> set codes)"
  have step: "room (?h b code s) col path (?K (insert code D)) \<and> builtin_key (?h b code s) = builtin_key sc \<and> later sc (?h b code s)"
    if "room s col path (?K D) \<and> builtin_key s = builtin_key sc \<and> later sc s" "code \<notin> D" for b code s D
    using that assms(3,4) hit_if_room [of s col path A D codes code b] later_trans [OF _ hit_if_later] by simp
  have start: "room sc col path (?K {}) \<and> builtin_key sc = builtin_key sc \<and> later sc sc" using assms(2) by simp
  show "counts_ok sc'" "later sc sc'"
  proof (atomize (full), cases "sval = []")
    case True
    with assms(1,2) show "counts_ok sc' \<and> later sc sc'" by (simp add: scan_builtin_leaf_def room_def)
  next
    case False
    obtain is_card where e: "sc' = ?h (is_matching_marker ud col VN_ID_COL_MARKERS \<and> rx_match ud (VN_ID_RE ud) sval) (u ''VN_ID'')
      (?h (rx_match ud (SSN_RE ud) sval) (u ''SSN'') (?h is_card (u ''CARD'')
      (?h (looks_like_phone ud col sval) (u ''PHONE'') (?h (rx_match ud EMAIL_RE sval) (u ''EMAIL'') sc))))"
      using assms(1) False by (auto simp: scan_builtin_leaf_def Let_def split: sum.splits)
    have "\<exists>D. room sc' col path (?K D) \<and> builtin_key sc' = builtin_key sc \<and> later sc sc'"
      unfolding e by (rule exI, (rule step)+, rule start) simp_all
    then show "counts_ok sc' \<and> later sc sc'" by (auto simp: room_def)
  qed
qed

subsection \<open>Detector keys\<close>

definition known_keys :: "scanner \<Rightarrow> ident set" where
  "known_keys sc = fst ` set (sc_value sc) \<union> {k. \<exists>c r. map_of (sc_builtins sc) c = Some (k, r)}"

definition keys_ok :: "scanner \<Rightarrow> bool" where
  "keys_ok sc \<longleftrightarrow> distinct (map fst (sc_value sc))
     \<and> (\<forall>c d k r r'. map_of (sc_builtins sc) c = Some (k, r) \<and> map_of (sc_builtins sc) d = Some (k, r') \<longrightarrow> c = d)
     \<and> (\<forall>c k r. map_of (sc_builtins sc) c = Some (k, r) \<longrightarrow> k \<notin> fst ` set (sc_value sc))"

lemma keys_ok_same: "same_detectors sc sc' \<Longrightarrow> keys_ok sc' = keys_ok sc"
  by (simp add: same_detectors_def keys_ok_def)

lemma register_builtin:
  assumes "keys_ok sc" "key \<notin> known_keys sc" "rule = None \<or> (\<exists>r. rule = Some r \<and> pr_kind r = KBuiltin)"
  shows "keys_ok (register key rule cat mth rv code sc)" "known_keys (register key rule cat mth rv code sc) \<subseteq> insert key (known_keys sc)"
proof -
  let ?sc = "register key rule cat mth rv code sc"
  have b: "map_of (sc_builtins ?sc) = (map_of (sc_builtins sc))(code \<mapsto> (key, rule))" "sc_value ?sc = sc_value sc"
    using assms(3) by (auto simp: register_def Let_def update_conv')
  have new: "\<And>c r. map_of (sc_builtins sc) c \<noteq> Some (key, r)" "key \<notin> fst ` set (sc_value sc)"
    using assms(2) by (auto simp: known_keys_def)
  show "keys_ok ?sc" using assms(1) new unfolding keys_ok_def b by (auto split: if_splits)
  show "known_keys ?sc \<subseteq> insert key (known_keys sc)" unfolding known_keys_def b by auto
qed

lemma register_custom:
  assumes "keys_ok sc" "key \<notin> known_keys sc" "pr_kind r \<noteq> KBuiltin"
  shows "sc_builtins (register key (Some r) cat mth rv code sc) = sc_builtins sc"
    "sc_value (register key (Some r) cat mth rv code sc) = sc_value sc"
  using assms(3) by (simp_all add: register_def Let_def)

lemma register_rule_keys:
  assumes "register_rule re r sc = Inr sc'" "keys_ok sc" "pr_enabled r \<Longrightarrow> uuid_str (pr_rule_id r) \<notin> known_keys sc"
  shows "keys_ok sc'" "known_keys sc' \<subseteq> (if pr_enabled r then insert (uuid_str (pr_rule_id r)) (known_keys sc) else known_keys sc)"
proof -
  let ?key = "uuid_str (pr_rule_id r)"
  define s0 where "s0 = (if pr_columns r \<noteq> [] then sc\<lparr>sc_scoped := sc_scoped sc @ [r]\<rparr> else sc)"
  have s0: "keys_ok s0" "known_keys s0 = known_keys sc" "sc_builtins s0 = sc_builtins sc" "sc_value s0 = sc_value sc"
    using assms(2) by (simp_all add: s0_def keys_ok_def known_keys_def)
  show "keys_ok sc'" "known_keys sc' \<subseteq> (if pr_enabled r then insert ?key (known_keys sc) else known_keys sc)"
  proof (atomize (full), cases "pr_enabled r")
    case False
    with assms(1,2) show "keys_ok sc' \<and> known_keys sc' \<subseteq> (if pr_enabled r then insert ?key (known_keys sc) else known_keys sc)"
      by (simp add: register_rule_def)
  next
    case True
    note new = assms(3) [OF True]
    have e: "register_rule re r sc = (case pr_kind r of
          KBuiltin \<Rightarrow> (let code = (case pr_builtin_code r of None \<Rightarrow> [] | Some c \<Rightarrow> c)
             in Inr (register ?key (Some r) (pr_category r) (builtin_method code) BUILTIN_DETECTOR_REVISION code s0))
        | KColumnName \<Rightarrow> (let sc1 = register ?key (Some r) (pr_category r) (u ''COLUMN_NAME'') (custom_revision r) (pr_code r) s0
             in case compile_rule re r of Inl e \<Rightarrow> Inl e | Inr c \<Rightarrow> Inr (sc1\<lparr>sc_name := sc_name s0 @ [(?key, c)]\<rparr>))
        | KValuePattern \<Rightarrow> (let sc1 = register ?key (Some r) (pr_category r) (u ''CUSTOM_PATTERN'') (custom_revision r) (pr_code r) s0
             in case compile_rule re r of Inl e \<Rightarrow> Inl e | Inr c \<Rightarrow> Inr (sc1\<lparr>sc_value := sc_value s0 @ [(?key, c)]\<rparr>)))"
      using True unfolding register_rule_def Let_def s0_def [symmetric] by simp
    show "keys_ok sc' \<and> known_keys sc' \<subseteq> (if pr_enabled r then insert ?key (known_keys sc) else known_keys sc)"
    proof (cases "pr_kind r")
      case KBuiltin
      with assms(1) e obtain cat mth rv code where "sc' = register ?key (Some r) cat mth rv code s0" by (auto simp: Let_def)
      then show ?thesis using register_builtin [of s0 ?key "Some r" cat mth rv code] s0(1,2) new KBuiltin True by simp
    next
      case KColumnName
      with assms(1) e register_custom [of s0 ?key r] s0 new
      have "sc_builtins sc' = sc_builtins sc" "sc_value sc' = sc_value sc" by (auto simp: Let_def split: sum.splits)
      then show ?thesis using assms(2) True by (auto simp: keys_ok_def known_keys_def)
    next
      case KValuePattern
      with assms(1) e register_custom [of s0 ?key r] s0 new
      obtain c where "sc_builtins sc' = sc_builtins sc" "sc_value sc' = sc_value sc @ [(?key, c)]"
        by (auto simp: Let_def split: sum.splits)
      then show ?thesis using assms(2) True new by (auto simp: keys_ok_def known_keys_def)
    qed
  qed
qed

definition enabled_keys :: "privacy_detector_rule list \<Rightarrow> ident list" where
  "enabled_keys rs = map (\<lambda>r. uuid_str (pr_rule_id r)) (filter pr_enabled rs)"

lemma enabled_keys_Cons:
  "enabled_keys (r # rs) = (if pr_enabled r then uuid_str (pr_rule_id r) # enabled_keys rs else enabled_keys rs)"
  by (simp add: enabled_keys_def)

lemma register_rules_keys:
  "register_rules re rs sc = Inr sc' \<Longrightarrow> keys_ok sc \<Longrightarrow> distinct (enabled_keys rs) \<Longrightarrow>
   set (enabled_keys rs) \<inter> known_keys sc = {} \<Longrightarrow> keys_ok sc'"
proof (induction rs arbitrary: sc)
  case (Cons r rs)
  then obtain sc1 where sc1: "register_rule re r sc = Inr sc1" "register_rules re rs sc1 = Inr sc'"
    by (auto split: sum.splits)
  have "pr_enabled r \<Longrightarrow> uuid_str (pr_rule_id r) \<notin> known_keys sc" using Cons.prems(4) by (simp add: enabled_keys_Cons)
  note k = register_rule_keys [OF sc1(1) Cons.prems(2) this]
  show ?case
  proof (rule Cons.IH [OF sc1(2) k(1)])
    show "distinct (enabled_keys rs)" using Cons.prems(3) by (simp add: enabled_keys_Cons split: if_splits)
    show "set (enabled_keys rs) \<inter> known_keys sc1 = {}"
    proof (cases "pr_enabled r")
      case True
      with k(2) have "known_keys sc1 \<subseteq> insert (uuid_str (pr_rule_id r)) (known_keys sc)" by simp
      moreover have "uuid_str (pr_rule_id r) \<notin> set (enabled_keys rs)" "set (enabled_keys rs) \<inter> known_keys sc = {}"
        using Cons.prems(3,4) True by (simp_all add: enabled_keys_Cons)
      ultimately show ?thesis by blast
    next
      case False
      with k(2) Cons.prems(4) show ?thesis by (auto simp: enabled_keys_Cons)
    qed
  qed
qed simp

lemma fold_register_keys:
  "keys_ok sc \<Longrightarrow> distinct (map fst ps) \<Longrightarrow> fst ` set ps \<inter> known_keys sc = {} \<Longrightarrow>
   keys_ok (fold (\<lambda>(code, category). register code None category (m code) rv code) ps sc)"
proof (induction ps arbitrary: sc)
  case (Cons p ps)
  obtain code cat where p: "p = (code, cat)" by fastforce
  have "code \<notin> known_keys sc" using Cons.prems p by auto
  note k = register_builtin [OF Cons.prems(1) this, of None cat "m code" rv code]
  show ?case using Cons.prems p k by (simp, intro Cons.IH) auto
qed simp

lemma blank_ok: "keys_ok (blank_scanner cs ex)" "counts_ok (blank_scanner cs ex)" "known_keys (blank_scanner cs ex) = {}"
  by (simp_all add: blank_scanner_def keys_ok_def counts_ok_def matched_of_def known_keys_def)

lemma counts_ok_cong: "sc_matched sc' = sc_matched sc \<Longrightarrow> sc_observed sc' = sc_observed sc \<Longrightarrow> counts_ok sc' = counts_ok sc"
  by (simp add: counts_ok_def matched_of_def observed_of_def)

lemma register_same [simp]: "sc_matched (register k r c m v code sc) = sc_matched sc"
  "sc_observed (register k r c m v code sc) = sc_observed sc"
  by (simp_all add: register_def Let_def)

lemma register_rule_same:
  assumes "register_rule re r sc = Inr sc'"
  shows "sc_matched sc' = sc_matched sc \<and> sc_observed sc' = sc_observed sc"
  using assms by (cases "pr_kind r") (auto simp: register_rule_def Let_def split: sum.splits if_splits)

lemma register_rules_counts: "register_rules re rs sc = Inr sc' \<Longrightarrow> counts_ok sc \<Longrightarrow> counts_ok sc'"
proof (induction rs arbitrary: sc)
  case (Cons r rs)
  then obtain sc1 where sc1: "register_rule re r sc = Inr sc1" "register_rules re rs sc1 = Inr sc'"
    by (auto split: sum.splits)
  have "counts_ok sc1" using register_rule_same [OF sc1(1)] Cons.prems(2) counts_ok_cong [of sc1 sc] by simp
  then show ?case by (rule Cons.IH [OF sc1(2)])
qed simp

definition distinct_rules :: "privacy_detector_rule list option \<Rightarrow> bool" where
  "distinct_rules rules = (case rules of None \<Rightarrow> True | Some rs \<Rightarrow> distinct (enabled_keys rs))"

lemma scanner_init_ok:
  assumes "scanner_init re columns extra rules = Inr sc" "distinct_rules rules"
  shows "keys_ok sc \<and> counts_ok sc"
proof (cases rules)
  case None
  have d: "distinct (map fst BUILTIN_RULE_CATEGORIES)" by (simp add: BUILTIN_RULE_CATEGORIES_def)
  let ?g = "\<lambda>(code, category). register code None category (builtin_method code) BUILTIN_DETECTOR_REVISION code"
  have f: "counts_ok (fold ?g ps s) = counts_ok s" for ps s
    by (induction ps arbitrary: s) (auto intro!: counts_ok_cong)
  have k: "keys_ok (fold ?g BUILTIN_RULE_CATEGORIES (blank_scanner columns extra))"
    by (rule fold_register_keys) (simp_all add: d blank_ok)
  have "sc = fold ?g BUILTIN_RULE_CATEGORIES (blank_scanner columns extra)"
    using assms(1) None by (simp add: scanner_init_def)
  with k show ?thesis using f blank_ok(2) by simp
next
  case (Some rs)
  then show ?thesis
    using assms register_rules_keys [of re rs "blank_scanner columns extra" sc] blank_ok
      register_rules_counts [of re rs "blank_scanner columns extra" sc]
    by (simp add: scanner_init_def distinct_rules_def)
qed

subsection \<open>Feeding keeps the counts\<close>

lemma active_key: "active_builtin sc col code \<Longrightarrow> \<exists>r. map_of (sc_builtins sc) code = Some (builtin_key sc code, r)"
  by (auto simp: active_builtin_def builtin_key_def split: option.splits prod.splits)

lemma plan_codes: "code \<in> set (fst (plan sc col)) \<longleftrightarrow> code \<in> set VALUE_CODES \<and> active_builtin sc col code"
  by (auto simp: plan_def)

lemma plan_keys:
  assumes "keys_ok sc"
  shows "inj_on (builtin_key sc) (set (fst (plan sc col)))" "distinct (map fst (snd (plan sc col)))"
    "builtin_key sc ` set (fst (plan sc col)) \<inter> fst ` set (snd (plan sc col)) = {}"
proof -
  have k: "\<exists>r. map_of (sc_builtins sc) code = Some (builtin_key sc code, r)" if "code \<in> set (fst (plan sc col))" for code
    using that active_key [of sc col code] by (simp add: plan_codes)
  show "inj_on (builtin_key sc) (set (fst (plan sc col)))"
  proof (rule inj_onI)
    fix a b assume "a \<in> set (fst (plan sc col))" "b \<in> set (fst (plan sc col))" "builtin_key sc a = builtin_key sc b"
    then show "a = b" using k [of a] k [of b] assms unfolding keys_ok_def by metis
  qed
  show "distinct (map fst (snd (plan sc col)))"
    using assms by (simp add: plan_def keys_ok_def distinct_map_filter)
  have sub: "fst ` set (snd (plan sc col)) \<subseteq> fst ` set (sc_value sc)" by (auto simp: plan_def)
  have "builtin_key sc c \<notin> fst ` set (sc_value sc)" if "c \<in> set (fst (plan sc col))" for c
    using k [OF that] assms unfolding keys_ok_def by metis
  with sub show "builtin_key sc ` set (fst (plan sc col)) \<inter> fst ` set (snd (plan sc col)) = {}" by blast
qed

lemma plan_later: "later sc sc' \<Longrightarrow> plan sc' col = plan sc col"
  by (simp add: plan_def active_builtin_def later_def same_detectors_def cong: filter_cong)

text \<open>A scanner in use: its detectors are those of the start \<open>sc0\<close>, and the counts agree.\<close>

lemma feed_leaf_ok:
  assumes "feed_leaf ud nt col (fst (plan sc0 col)) (snd (plan sc0 col)) leaf sc = Inr sc'" "keys_ok sc0"
    and "later sc0 sc" "counts_ok sc"
  shows "counts_ok sc'" "later sc sc'"
proof -
  let ?codes = "fst (plan sc0 col)" and ?cs = "snd (plan sc0 col)"
  obtain sc1 where o: "observe col (fst leaf) sc = Inr sc1" using assms(1) by (auto simp: feed_leaf_def split: sum.splits)
  define sc2 where "sc2 = custom_hits col (fst leaf) (snd leaf) ?cs sc1"
  have r: "room sc2 col (fst leaf) (fst ` set ?cs)"
    unfolding sc2_def by (rule custom_hits_room) (rule plan_keys [OF assms(2)], rule observe_room [OF assms(4) o])
  have l: "later sc sc2"
    unfolding sc2_def using observe_room(2) [OF assms(4) o] custom_later by (rule later_trans)
  have b: "builtin_key sc2 = builtin_key sc0" by (rule builtin_key_later) (rule later_trans [OF assms(3) l])
  have e: "(if ?codes = [] then Inr sc2
      else scan_builtin_leaf ud col (fst leaf) (py_strip (leaf_text nt (snd leaf))) ?codes sc2) = Inr sc'"
    using assms(1) o unfolding feed_leaf_def sc2_def Let_def by simp
  show "counts_ok sc'" "later sc sc'"
  proof (atomize (full), cases "?codes = []")
    case True
    with e r l show "counts_ok sc' \<and> later sc sc'" by (simp add: room_def)
  next
    case False
    with e have s: "scan_builtin_leaf ud col (fst leaf) (py_strip (leaf_text nt (snd leaf))) ?codes sc2 = Inr sc'" by simp
    have "inj_on (builtin_key sc2) (set ?codes)" "builtin_key sc2 ` set ?codes \<inter> fst ` set ?cs = {}"
      unfolding b by (rule plan_keys [OF assms(2)])+
    from scan_builtin_leaf_room [OF s r this] l show "counts_ok sc' \<and> later sc sc'" using later_trans by blast
  qed
qed

lemma feed_leaves_ok:
  "feed_leaves ud nt col (fst (plan sc0 col)) (snd (plan sc0 col)) ls sc = Inr sc' \<Longrightarrow> keys_ok sc0 \<Longrightarrow>
   later sc0 sc \<Longrightarrow> counts_ok sc \<Longrightarrow> counts_ok sc' \<and> later sc sc'"
proof (induction ls arbitrary: sc)
  case (Cons l ls)
  then obtain sc1 where 1: "feed_leaf ud nt col (fst (plan sc0 col)) (snd (plan sc0 col)) l sc = Inr sc1"
      "feed_leaves ud nt col (fst (plan sc0 col)) (snd (plan sc0 col)) ls sc1 = Inr sc'" by (auto split: sum.splits)
  note s = feed_leaf_ok [OF 1(1) Cons.prems(2-4)]
  have "counts_ok sc' \<and> later sc1 sc'"
    using s later_trans [OF Cons.prems(3) s(2)] by (intro Cons.IH [OF 1(2) Cons.prems(2)]) simp_all
  then show ?case using s(2) later_trans by blast
qed simp

lemma feed_cells_ok:
  "feed_cells ud nt cells sc = Inr sc' \<Longrightarrow> keys_ok sc \<Longrightarrow> counts_ok sc \<Longrightarrow> counts_ok sc' \<and> later sc sc'"
proof (induction cells arbitrary: sc)
  case (Cons c cells)
  obtain col v where c: "c = (col, v)" by fastforce
  show ?case
  proof (cases "v = JNull")
    case True
    with Cons c show ?thesis by simp
  next
    case False
    with Cons.prems(1) c obtain sc1 where 1: "feed_leaves ud nt col (fst (plan sc col)) (snd (plan sc col)) (leaves v) sc = Inr sc1"
      "feed_cells ud nt cells sc1 = Inr sc'" by (auto split: sum.splits)
    from feed_leaves_ok [OF 1(1) Cons.prems(2) later_refl Cons.prems(3)] have s: "counts_ok sc1" "later sc sc1" by simp_all
    then have "keys_ok sc1" using Cons.prems(2) keys_ok_same [of sc sc1] by (simp add: later_def)
    from Cons.IH [OF 1(2) this s(1)] s(2) show ?thesis using later_trans by blast
  qed
qed simp

lemma feed_row_ok:
  assumes "feed_row ud nt row sc = Inr sc'" "keys_ok sc" "counts_ok sc"
  shows "counts_ok sc'" "later sc sc'" "keys_ok sc'"
proof -
  let ?sc = "sc\<lparr>sc_rows := Suc (sc_rows sc), sc_cols := sc_cols sc @ map fst row\<rparr>"
  have l: "later sc ?sc" by (simp add: later_def same_detectors_def matched_of_def)
  have "keys_ok ?sc" "counts_ok ?sc" using assms by (simp_all add: keys_ok_def counts_ok_def matched_of_def observed_of_def)
  with feed_cells_ok [of ud nt row ?sc sc'] assms(1) have s: "counts_ok sc'" "later ?sc sc'" by (simp_all add: feed_row_def)
  then show "counts_ok sc'" "later sc sc'" using l later_trans by blast+
  then show "keys_ok sc'" using assms(2) keys_ok_same [of sc sc'] by (simp add: later_def)
qed

lemma feed_rows_ok:
  "feed_rows ud nt rows sc = Inr sc' \<Longrightarrow> keys_ok sc \<Longrightarrow> counts_ok sc \<Longrightarrow> counts_ok sc' \<and> later sc sc' \<and> keys_ok sc'"
proof (induction rows arbitrary: sc)
  case (Cons row rows)
  then obtain sc1 where 1: "feed_row ud nt row sc = Inr sc1" "feed_rows ud nt rows sc1 = Inr sc'" by (auto split: sum.splits)
  note s = feed_row_ok [OF 1(1) Cons.prems(2,3)]
  from Cons.IH [OF 1(2) s(3,1)] s(2) show ?case using later_trans by blast
qed simp

lemma mark_column_ok:
  assumes "counts_ok sc"
  shows "counts_ok (mark_column_match col key sc)" "later sc (mark_column_match col key sc)"
proof -
  let ?sc = "mark_column_match col key sc" and ?obs = "dict_get (sc_observed sc) (col, []) (sc_rows sc)"
  have le: "observed_of sc col [] \<le> ?obs" by (simp add: observed_of_def dict_get_def split: option.split)
  have m: "matched_of ?sc c p k = (if (c, p, k) = (col, [], key) then ?obs else matched_of sc c p k)" for c p k
    by (simp add: matched_of_def mark_column_match_def Let_def dict_get_update)
  have o: "observed_of ?sc c p = (if (c, p) = (col, []) then ?obs else observed_of sc c p)" for c p
    by (simp add: observed_of_def mark_column_match_def Let_def dict_get_update)
  have d: "distinct (map fst (sc_matched ?sc))" using assms by (simp add: counts_ok_def mark_column_match_def Let_def distinct_update)
  have a: "matched_of sc c p k \<le> observed_of sc c p" for c p k using assms by (simp add: counts_ok_def)
  show "counts_ok ?sc" using d a le unfolding counts_ok_def m o by (auto intro: order_trans)
  show "later sc ?sc"
    using a [of col "[]" key] le unfolding later_def m by (auto simp: same_detectors_def mark_column_match_def Let_def)
qed

lemma fold_marks:
  assumes "counts_ok sc" "\<And>x s. x \<in> set xs \<Longrightarrow> counts_ok s \<Longrightarrow> counts_ok (f x s) \<and> later s (f x s)"
  shows "counts_ok (fold f xs sc) \<and> later sc (fold f xs sc)"
  using assms
proof (induction xs arbitrary: sc)
  case (Cons x xs)
  then have "counts_ok (f x sc) \<and> later sc (f x sc)" by simp
  with Cons.IH [of "f x sc"] Cons.prems(2) show ?case using later_trans by (simp, blast)
qed simp

lemma name_column_ok:
  assumes "counts_ok sc"
  shows "counts_ok (name_column ud col sc) \<and> later sc (name_column ud col sc)"
proof -
  have 1: "counts_ok (fold (name_builtin ud col) NAME_MARKERS_BY_CODE sc) \<and> later sc (fold (name_builtin ud col) NAME_MARKERS_BY_CODE sc)"
    by (rule fold_marks [OF assms]) (simp add: name_builtin_def mark_column_ok)
  have "counts_ok (fold (name_custom col) (sc_name sc) s) \<and> later s (fold (name_custom col) (sc_name sc) s)" if "counts_ok s" for s
    by (rule fold_marks [OF that]) (simp add: name_custom_def mark_column_ok)
  with 1 show ?thesis unfolding name_column_def using later_trans by blast
qed

subsection \<open>The report\<close>

lemma finish_scanner:
  assumes "counts_ok sc0"
  obtains sc where "counts_ok sc" "later sc0 sc"
    "sr_findings (finish ud sc0) = map (finding_of sc) (filter (\<lambda>m. 0 < snd m) (sort_key fst (sc_matched sc)))"
    "set (sr_sensitive_columns (finish ud sc0)) = set (sc_sensitive sc) \<union> {c. \<exists>p k m. ((c, p, k), m) \<in> set (sc_matched sc) \<and> 0 < m}"
proof
  let ?sc = "fold (name_column ud) (remdups (sc_cols sc0)) sc0"
  have "counts_ok ?sc \<and> later sc0 ?sc" by (rule fold_marks [OF assms]) (rule name_column_ok)
  then show "counts_ok ?sc" "later sc0 ?sc" by simp_all
  show "sr_findings (finish ud sc0) = map (finding_of ?sc) (filter (\<lambda>m. 0 < snd m) (sort_key fst (sc_matched ?sc)))"
    by (simp add: finish_def Let_def)
  show "set (sr_sensitive_columns (finish ud sc0)) =
      set (sc_sensitive ?sc) \<union> {c. \<exists>p k m. ((c, p, k), m) \<in> set (sc_matched ?sc) \<and> 0 < m}"
    by (force simp: finish_def Let_def)
qed

lemma scan_with_scanner:
  assumes "scan_with ud nt re rules rows columns extra = Inr rep" "distinct_rules rules"
  obtains sc0 sc where "scanner_init re columns extra rules = Inr sc0" "keys_ok sc0" "counts_ok sc0"
    "feed_rows ud nt rows sc0 = Inr sc" "counts_ok sc" "rep = finish ud sc"
proof -
  obtain sc0 sc where 1: "scanner_init re columns extra rules = Inr sc0" "feed_rows ud nt rows sc0 = Inr sc" "rep = finish ud sc"
    using assms(1) by (auto simp: scan_with_def split: sum.splits)
  with scanner_init_ok [OF 1(1) assms(2)] feed_rows_ok [OF 1(2)] that show ?thesis by blast
qed

lemma round4_bounds: "0 \<le> x \<Longrightarrow> x \<le> 1 \<Longrightarrow> 0 \<le> round4 x \<and> round4 x \<le> 1"
proof -
  assume x: "0 \<le> x" "x \<le> 1"
  have i: "0 \<le> rhe (x * 10000)" "rhe (x * 10000) \<le> 10000"
    using x rhe_ge [of 0 "x * 10000"] rhe_le [of "x * 10000" 10000] by simp_all
  then have "0 \<le> (of_int (rhe (x * 10000)) / 10000 :: rat)" "(of_int (rhe (x * 10000)) / 10000 :: rat) \<le> 1" by simp_all
  moreover have "fl 1 = 1" using fl_of_int [of 1] by simp
  ultimately show ?thesis using fl_mono [of _ 1] by (auto simp: round4_def)
qed

lemma confidence_bounds: "0 \<le> confidence mth m n \<and> confidence mth m n \<le> 1"
  using round4_bounds [of "min 1 (fdiv (of_nat m) (of_nat (max 1 n)))"] by (simp add: confidence_def fdiv_def)

text \<open>No finding claims more matches than observations: with distinct rule ids, every reported finding has at
  least one match, no more matches than observed values, and a confidence between 0 and 1.\<close>

theorem finding_counts:
  assumes "scan_with ud nt re rules rows columns extra = Inr rep" "distinct_rules rules" "f \<in> set (sr_findings rep)"
  shows "0 < fi_matched_count f \<and> fi_matched_count f \<le> fi_observed_count f
    \<and> 0 \<le> fi_confidence_score f \<and> fi_confidence_score f \<le> 1"
proof -
  obtain sc1 where 1: "counts_ok sc1" "rep = finish ud sc1" using scan_with_scanner [OF assms(1,2)] by metis
  obtain sc where sc: "counts_ok sc"
    "sr_findings rep = map (finding_of sc) (filter (\<lambda>m. 0 < snd m) (sort_key fst (sc_matched sc)))"
    by (rule finish_scanner [OF 1(1), of ud]) (simp add: 1(2))
  from sc(2) obtain c p k m where f: "f = finding_of sc ((c, p, k), m)" "((c, p, k), m) \<in> set (sc_matched sc)" "0 < m"
    using assms(3) by auto
  have "map_of (sc_matched sc) (c, p, k) = Some m" using f(2) sc(1) by (simp add: counts_ok_def)
  then have "m \<le> observed_of sc c p" using sc(1) unfolding counts_ok_def matched_of_def by (metis dict_get_map_of)
  then have "m \<le> dict_get (sc_observed sc) (c, p) m" by (auto simp: observed_of_def dict_get_def split: option.splits)
  with f(1,3) show ?thesis by (simp add: finding_of_def Let_def confidence_bounds)
qed

subsection \<open>Detected columns are masked\<close>

definition builtin_detects :: "unidata \<Rightarrow> ident \<Rightarrow> ustr \<Rightarrow> bool" where
  "builtin_detects ud col s \<longleftrightarrow>
     (let t = py_strip s
      in t \<noteq> [] \<and> (rx_match ud EMAIL_RE t \<or> looks_like_phone ud col t \<or> looks_like_card ud t = Inr True
        \<or> rx_match ud (SSN_RE ud) t \<or> (is_matching_marker ud col VN_ID_COL_MARKERS \<and> rx_match ud (VN_ID_RE ud) t)))"

definition counted :: "scanner \<Rightarrow> ident \<Rightarrow> bool" where
  "counted sc col \<longleftrightarrow> (\<exists>path key. 0 < matched_of sc col path key)"

lemma counted_later: "counted sc col \<Longrightarrow> later sc sc' \<Longrightarrow> counted sc' col"
  unfolding counted_def later_def by (metis le_zero_eq neq0_conv)

lemma hit_if_counted: "b \<Longrightarrow> code \<in> set codes \<Longrightarrow> counted (hit_if b code codes col path sc) col"
  by (auto simp: counted_def hit_if_def matched_hit)

lemma hit_if_keeps: "counted sc c \<Longrightarrow> counted (hit_if b code codes col path sc) c"
  by (erule counted_later) (rule hit_if_later)

lemma scan_builtin_leaf_counted:
  assumes "scan_builtin_leaf ud col path (py_strip s) codes sc = Inr sc'" "builtin_detects ud col s" "set VALUE_CODES \<subseteq> set codes"
  shows "counted sc' col"
proof -
  let ?h = "\<lambda>b code sc. hit_if b code codes col path sc" and ?t = "py_strip s"
  have c: "u ''EMAIL'' \<in> set codes" "u ''PHONE'' \<in> set codes" "u ''CARD'' \<in> set codes" "u ''SSN'' \<in> set codes"
    "u ''VN_ID'' \<in> set codes" using assms(3) by (simp_all add: VALUE_CODES_def)
  have t: "?t \<noteq> []" using assms(2) by (simp add: builtin_detects_def Let_def)
  with assms(1) c obtain is_card where k: "looks_like_card ud ?t = Inr is_card"
    and e: "sc' = ?h (is_matching_marker ud col VN_ID_COL_MARKERS \<and> rx_match ud (VN_ID_RE ud) ?t) (u ''VN_ID'')
      (?h (rx_match ud (SSN_RE ud) ?t) (u ''SSN'') (?h is_card (u ''CARD'')
      (?h (looks_like_phone ud col ?t) (u ''PHONE'') (?h (rx_match ud EMAIL_RE ?t) (u ''EMAIL'') sc))))"
    by (auto simp: scan_builtin_leaf_def Let_def split: sum.splits)
  have "rx_match ud EMAIL_RE ?t \<or> looks_like_phone ud col ?t \<or> is_card \<or> rx_match ud (SSN_RE ud) ?t
      \<or> (is_matching_marker ud col VN_ID_COL_MARKERS \<and> rx_match ud (VN_ID_RE ud) ?t)"
    using assms(2) k by (simp add: builtin_detects_def Let_def)
  then show ?thesis unfolding e using c by (elim disjE) (simp_all only: hit_if_counted hit_if_keeps)
qed

definition all_active :: "scanner \<Rightarrow> bool" where
  "all_active sc \<longleftrightarrow> (\<forall>col. set VALUE_CODES \<subseteq> set (fst (plan sc col)))"

lemma all_active_later: "later sc sc' \<Longrightarrow> all_active sc' = all_active sc"
  by (simp add: all_active_def plan_later)

lemma default_active: "scanner_init re columns extra None = Inr sc \<Longrightarrow> all_active sc"
  by (auto simp: scanner_init_def all_active_def plan_codes VALUE_CODES_def active_builtin_def BUILTIN_RULE_CATEGORIES_def
      register_def Let_def update_conv' blank_scanner_def)

lemma feed_leaf_counted:
  assumes "feed_leaf ud nt col (fst (plan sc0 col)) (snd (plan sc0 col)) (path, JStr s) sc = Inr sc'"
    and "builtin_detects ud col s" "all_active sc0"
  shows "counted sc' col"
proof -
  have a: "set VALUE_CODES \<subseteq> set (fst (plan sc0 col))" using assms(3) by (simp add: all_active_def)
  then have "fst (plan sc0 col) \<noteq> []" by (auto simp: VALUE_CODES_def)
  with assms(1) obtain sc2 where "scan_builtin_leaf ud col path (py_strip s) (fst (plan sc0 col)) sc2 = Inr sc'"
    by (auto simp: feed_leaf_def Let_def split: sum.splits)
  from scan_builtin_leaf_counted [OF this assms(2) a] show ?thesis .
qed

lemma feed_leaves_counted:
  "feed_leaves ud nt col (fst (plan sc0 col)) (snd (plan sc0 col)) ls sc = Inr sc' \<Longrightarrow> keys_ok sc0 \<Longrightarrow>
   later sc0 sc \<Longrightarrow> counts_ok sc \<Longrightarrow> all_active sc0 \<Longrightarrow> (path, JStr s) \<in> set ls \<Longrightarrow> builtin_detects ud col s \<Longrightarrow> counted sc' col"
proof (induction ls arbitrary: sc)
  case (Cons l ls)
  then obtain sc1 where 1: "feed_leaf ud nt col (fst (plan sc0 col)) (snd (plan sc0 col)) l sc = Inr sc1"
      "feed_leaves ud nt col (fst (plan sc0 col)) (snd (plan sc0 col)) ls sc1 = Inr sc'" by (auto split: sum.splits)
  note s = feed_leaf_ok [OF 1(1) Cons.prems(2-4)]
  have l: "later sc0 sc1" using Cons.prems(3) s(2) by (rule later_trans)
  show ?case
  proof (cases "l = (path, JStr s)")
    case True
    with 1(1) feed_leaf_counted Cons.prems(5,7) have "counted sc1 col" by blast
    then show ?thesis using feed_leaves_ok [OF 1(2) Cons.prems(2) l s(1)] counted_later by blast
  next
    case False
    with Cons.prems(6) have "(path, JStr s) \<in> set ls" by simp
    from Cons.IH [OF 1(2) Cons.prems(2) l s(1) Cons.prems(5) this Cons.prems(7)] show ?thesis .
  qed
qed simp

lemma feed_cells_counted:
  "feed_cells ud nt cells sc = Inr sc' \<Longrightarrow> keys_ok sc \<Longrightarrow> counts_ok sc \<Longrightarrow> all_active sc \<Longrightarrow> (col, v) \<in> set cells \<Longrightarrow>
   s \<in> set (strings_in v) \<Longrightarrow> builtin_detects ud col s \<Longrightarrow> counted sc' col"
proof (induction cells arbitrary: sc)
  case (Cons c cells)
  obtain c0 w where c: "c = (c0, w)" by fastforce
  show ?case
  proof (cases "w = JNull")
    case True
    with Cons c show ?thesis by auto
  next
    case False
    with Cons.prems(1) c obtain sc1 where 1: "feed_leaves ud nt c0 (fst (plan sc c0)) (snd (plan sc c0)) (leaves w) sc = Inr sc1"
      "feed_cells ud nt cells sc1 = Inr sc'" by (auto split: sum.splits)
    from feed_leaves_ok [OF 1(1) Cons.prems(2) later_refl Cons.prems(3)] have s: "counts_ok sc1" "later sc sc1" by simp_all
    then have k: "keys_ok sc1" "all_active sc1"
      using Cons.prems(2,4) keys_ok_same [of sc sc1] all_active_later [of sc sc1] by (simp_all add: later_def)
    show ?thesis
    proof (cases "(c0, w) = (col, v)")
      case True
      then obtain path where "(path, JStr s) \<in> set (leaves w)" using leaves_strings Cons.prems(6) by blast
      from feed_leaves_counted [OF 1(1) Cons.prems(2) later_refl Cons.prems(3,4) this] True Cons.prems(7)
      have "counted sc1 col" by simp
      then show ?thesis using feed_cells_ok [OF 1(2) k(1) s(1)] counted_later by blast
    next
      case False
      with Cons.prems(5) c have "(col, v) \<in> set cells" by auto
      from Cons.IH [OF 1(2) k(1) s(1) k(2) this Cons.prems(6,7)] show ?thesis .
    qed
  qed
qed simp

lemma feed_rows_counted:
  "feed_rows ud nt rows sc = Inr sc' \<Longrightarrow> keys_ok sc \<Longrightarrow> counts_ok sc \<Longrightarrow> all_active sc \<Longrightarrow> row \<in> set rows \<Longrightarrow> (col, v) \<in> set row \<Longrightarrow>
   s \<in> set (strings_in v) \<Longrightarrow> builtin_detects ud col s \<Longrightarrow> counted sc' col"
proof (induction rows arbitrary: sc)
  case (Cons r rows)
  then obtain sc1 where 1: "feed_row ud nt r sc = Inr sc1" "feed_rows ud nt rows sc1 = Inr sc'" by (auto split: sum.splits)
  note s = feed_row_ok [OF 1(1) Cons.prems(2,3)]
  have a: "all_active sc1" using all_active_later [OF s(2)] Cons.prems(4) by simp
  show ?case
  proof (cases "r = row")
    case True
    let ?sc = "sc\<lparr>sc_rows := Suc (sc_rows sc), sc_cols := sc_cols sc @ map fst r\<rparr>"
    have "keys_ok ?sc" "counts_ok ?sc" "all_active ?sc" using Cons.prems(2-4)
      by (simp_all add: keys_ok_def counts_ok_def matched_of_def observed_of_def all_active_def plan_def active_builtin_def
          cong: filter_cong)
    from feed_cells_counted [OF _ this, of ud nt r sc1 col v s] 1(1) True Cons.prems(6-8)
    have "counted sc1 col" by (simp add: feed_row_def)
    then show ?thesis using feed_rows_ok [OF 1(2) s(3,1)] counted_later by blast
  next
    case False
    with Cons.prems(5) have "row \<in> set rows" by simp
    from Cons.IH [OF 1(2) s(3,1) a this Cons.prems(6-8)] show ?thesis .
  qed
qed simp

lemma detected_reported:
  assumes "scan_rows ud nt rows columns extra = Inr rep" "row \<in> set rows" "(col, v) \<in> set row"
    and "s \<in> set (strings_in v)" "builtin_detects ud col s"
  shows "col \<in> set (sr_sensitive_columns rep)" "\<exists>f. f \<in> set (sr_findings rep)"
proof -
  obtain sc0 sc1 where 1: "scanner_init (\<lambda>p cs. None) columns extra None = Inr sc0" "keys_ok sc0" "counts_ok sc0"
    "feed_rows ud nt rows sc0 = Inr sc1" "counts_ok sc1" "rep = finish ud sc1"
    by (rule scan_with_scanner [OF assms(1) [unfolded scan_rows_def]]) (simp_all add: distinct_rules_def)
  have c: "counted sc1 col" by (rule feed_rows_counted [OF 1(4,2,3) default_active [OF 1(1)] assms(2-5)])
  obtain sc where sc: "later sc1 sc"
    "sr_findings rep = map (finding_of sc) (filter (\<lambda>m. 0 < snd m) (sort_key fst (sc_matched sc)))"
    "set (sr_sensitive_columns rep) = set (sc_sensitive sc) \<union> {c. \<exists>p k m. ((c, p, k), m) \<in> set (sc_matched sc) \<and> 0 < m}"
    by (rule finish_scanner [OF 1(5), of ud]) (simp add: 1(6))
  obtain p k where m: "0 < matched_of sc col p k" using counted_later [OF c sc(1)] by (auto simp: counted_def)
  then obtain n where n: "map_of (sc_matched sc) (col, p, k) = Some n" "0 < n"
    by (auto simp: matched_of_def dict_get_def split: option.splits)
  then show "col \<in> set (sr_sensitive_columns rep)" using sc(3) map_of_SomeD by fastforce
  have "finding_of sc ((col, p, k), n) \<in> set (sr_findings rep)" using map_of_SomeD [OF n(1)] n(2) by (simp add: sc(2))
  then show "\<exists>f. f \<in> set (sr_findings rep)" ..
qed

text \<open>C6: What a detector recognises is masked: when a built-in detector recognises a string anywhere inside a cell
  of a scanned column, then masking any row by the reported sensitive columns leaves nothing of that column but
  nulls, empty strings and the sentinel.\<close>

theorem detected_column_masked:
  assumes "scan_rows ud nt rows columns extra = Inr rep" "row \<in> set rows" "(col, v) \<in> set row"
    and "s \<in> set (strings_in v)" "builtin_detects ud col s"
    and "(col, w) \<in> set (mask_row row' (set (sr_sensitive_columns rep)))"
  shows "w \<in> {JNull, JStr [], JStr REDACTED_SENTINEL}"
  using detected_reported(1) [OF assms(1-5)] assms(6) by (auto simp: mask_row_def mask_value_def split: if_splits)

subsection \<open>A concrete scan\<close>

lemmas eval_text = py_strip_def strip_by_def rstrip_by_def lstrip_by_def is_space_def py_lower_def lower_cp_def remove_class_def
  space_or_dash_def u_simps is_prefix_def

lemmas eval_detectors = looks_like_phone_def looks_like_card_def is_valid_luhn_def is_digit_def normalize_identifier_def
  ends_with_def is_matching_marker_def PHONE_COL_MARKERS_def VN_ID_COL_MARKERS_def plain_unidata_def

definition demo_contact :: jdict where
  "demo_contact = [(u ''mail'', JArr [JStr (u ''ann@x.org'')])]"

lemma demo_email: "rx_match plain_unidata EMAIL_RE (u ''ann@x.org'')"
  by code_simp

lemma demo_stripped: "py_strip (u ''ann@x.org'') = u ''ann@x.org''"
  by (simp add: eval_text)

lemma demo_no_card: "looks_like_card plain_unidata (u ''ann@x.org'') = Inr False"
  by (simp add: eval_text eval_detectors Let_def)

lemma demo_scan: "\<exists>rep. scan_rows plain_unidata plain_numbers [demo_contact] [] [] = Inr rep"
proof -
  obtain sc where "scanner_init (\<lambda>p cs. None) [] [] None = Inr sc" "sc_seen sc = []"
    by (simp add: scanner_init_def BUILTIN_RULE_CATEGORIES_def register_def Let_def blank_scanner_def)
  then show ?thesis
    by (simp add: scan_rows_def scan_with_def feed_row_def demo_contact_def leaves_def feed_leaf_def observe_def
        MAX_DISTINCT_PATHS_def Let_def scan_builtin_leaf_def demo_stripped demo_no_card)
qed

lemma demo_detected: "builtin_detects plain_unidata (u ''mail'') (u ''ann@x.org'')"
  by (simp add: builtin_detects_def Let_def demo_stripped demo_email)

theorem finding_counts_witness:
  "\<exists>rep f. scan_rows plain_unidata plain_numbers [demo_contact] [] [] = Inr rep \<and> f \<in> set (sr_findings rep)
     \<and> 0 < fi_matched_count f \<and> fi_matched_count f \<le> fi_observed_count f"
proof -
  obtain rep where r: "scan_rows plain_unidata plain_numbers [demo_contact] [] [] = Inr rep" using demo_scan by blast
  from detected_reported(2) [OF r _ _ _ demo_detected] obtain f where f: "f \<in> set (sr_findings rep)"
    by (auto simp: demo_contact_def)
  from finding_counts [OF r [unfolded scan_rows_def] _ f] r f show ?thesis by (auto simp: distinct_rules_def)
qed

theorem detected_column_masked_witness:
  "\<exists>rep. scan_rows plain_unidata plain_numbers [demo_contact] [] [] = Inr rep
     \<and> map snd (mask_row demo_contact (set (sr_sensitive_columns rep))) \<noteq> map snd demo_contact"
proof -
  obtain rep where r: "scan_rows plain_unidata plain_numbers [demo_contact] [] [] = Inr rep" using demo_scan by blast
  have "(u ''mail'', snd (hd (mask_row demo_contact S))) \<in> set (mask_row demo_contact S)" for S
    by (simp add: demo_contact_def mask_row_def)
  from detected_column_masked [OF r _ _ _ demo_detected this, of demo_contact "JArr [JStr (u ''ann@x.org'')]"]
  have "snd (hd (mask_row demo_contact (set (sr_sensitive_columns rep)))) \<noteq> JArr [JStr (u ''ann@x.org'')]"
    by (auto simp: demo_contact_def)
  with r show ?thesis by (auto simp: demo_contact_def mask_row_def split: if_splits)
qed

subsection \<open>Two cells the scanner does not handle\<close>

text \<open>A column marker with an underscore is never recognised: names are compared after their underscores are removed.\<close>

lemma underscore_marker_dead:
  assumes "\<forall>c. 95 \<notin> set (ud_lower ud c)" "95 \<in> set m"
  shows "\<not> is_matching_marker ud col [m]"
proof -
  have n: "95 \<notin> set (normalize_identifier ud col)"
    using assms(1) by (auto simp: normalize_identifier_def py_lower_def lower_cp_def remove_class_def split: if_splits)
  have e: "95 \<notin> set ys" if "ends_with (normalize_identifier ud col) ys" for ys
  proof -
    have "set ys \<subseteq> set (normalize_identifier ud col)" using that set_drop_subset unfolding ends_with_def by metis
    with n show ?thesis by auto
  qed
  show ?thesis using n e [of m] e [of "95 # m"] assms(2) by (auto simp: is_matching_marker_def Let_def)
qed

text \<open>A citizen number is found in a column \<open>cccd\<close> and missed in a column \<open>citizen_id\<close>, although both names are
  listed as markers.\<close>

theorem citizen_id_undetected:
  "builtin_detects plain_unidata (u ''cccd'') (u ''079203012345'')
     \<and> \<not> builtin_detects plain_unidata (u ''citizen_id'') (u ''079203012345'')"
proof -
  have s: "py_strip (u ''079203012345'') = u ''079203012345''" by (simp add: eval_text)
  have id: "rx_match plain_unidata (VN_ID_RE plain_unidata) (u ''079203012345'')" by code_simp
  have no: "\<not> rx_match plain_unidata EMAIL_RE (u ''079203012345'')"
    "\<not> rx_match plain_unidata (SSN_RE plain_unidata) (u ''079203012345'')" by code_simp+
  have c: "looks_like_card plain_unidata (u ''079203012345'') = Inr False" by (simp add: eval_text eval_detectors Let_def)
  have p: "\<not> looks_like_phone plain_unidata (u ''citizen_id'') (u ''079203012345'')"
    by (simp add: eval_text eval_detectors Let_def)
  have m: "is_matching_marker plain_unidata (u ''cccd'') VN_ID_COL_MARKERS"
    "\<not> is_matching_marker plain_unidata (u ''citizen_id'') VN_ID_COL_MARKERS"
    by (simp_all add: eval_text eval_detectors Let_def)
  show ?thesis unfolding builtin_detects_def Let_def s using id no c p m by simp
qed

text \<open>A cell of thirteen superscript twos ends the whole scan with a \<open>ValueError\<close>: they are digits to
  \<open>isdigit()\<close> but not to \<open>int()\<close>.\<close>

theorem superscript_ends_scan:
  "scan_rows (plain_unidata\<lparr>ud_isdigit := (\<lambda>c. c = 178)\<rparr>) plain_numbers [[(u ''note'', JStr (replicate 13 178))]] [] []
     = Inl ''ValueError''"
proof -
  let ?ud = "plain_unidata\<lparr>ud_isdigit := (\<lambda>c. c = 178)\<rparr>"
  define t :: ustr where "t = replicate 13 178"
  have t: "t = 178 # replicate 12 178" by (simp add: t_def flip: replicate_Suc)
  have e: "\<forall>c \<in> set t. \<not> is_space c" "rev t = t" by (simp_all add: t_def is_space_def)
  have "dropWhile is_space t = t" using e(1) by (simp add: t)
  then have s: "py_strip t = t" "t \<noteq> []"
    using e(2) by (simp_all add: py_strip_def strip_by_def rstrip_by_def lstrip_by_def) (simp add: t)
  have d: "int_digits ?ud t = Inl ''ValueError''" by (simp add: t decimal_value_def plain_unidata_def)
  have u_t: "remove_class space_or_dash t = t" "any_of (\<lambda>c. \<not> is_digit ?ud c) t = False" "length t = 13" "t \<noteq> []"
    by (simp_all add: t_def remove_class_def space_or_dash_def is_space_def any_of_iff is_digit_def plain_unidata_def
        filter_empty_conv filter_id_conv)
  have c: "looks_like_card ?ud t = Inl ''ValueError''"
    by (simp add: looks_like_card_def is_valid_luhn_def u_t Let_def d)
  obtain sc where i: "scanner_init (\<lambda>p cs. None) [] [] None = Inr sc" "sc_seen sc = []" "sc_value sc = []"
    by (simp add: scanner_init_def BUILTIN_RULE_CATEGORIES_def register_def Let_def blank_scanner_def)
  define sc1 where "sc1 = sc\<lparr>sc_rows := Suc (sc_rows sc), sc_cols := sc_cols sc @ [u ''note'']\<rparr>"
  have "later sc sc1" by (simp add: later_def same_detectors_def matched_of_def sc1_def)
  then have p: "plan sc1 = plan sc" using plan_later by blast
  have "set VALUE_CODES \<subseteq> set (fst (plan sc (u ''note'')))" using default_active [OF i(1)] by (simp add: all_active_def)
  then have k: "u ''CARD'' \<in> set (fst (plan sc (u ''note'')))" "fst (plan sc (u ''note'')) \<noteq> []"
    by (auto simp: VALUE_CODES_def)
  have "feed_leaf ?ud plain_numbers (u ''note'') (fst (plan sc (u ''note''))) cs ([], JStr t) sc1 = Inl ''ValueError''" for cs
    using k i(2) by (simp add: feed_leaf_def observe_def sc1_def MAX_DISTINCT_PATHS_def Let_def scan_builtin_leaf_def s c)
  then have "feed_cells ?ud plain_numbers [(u ''note'', JStr t)] sc1 = Inl ''ValueError''" by (simp add: leaves_def p)
  then show ?thesis by (simp add: scan_rows_def scan_with_def i(1) feed_row_def sc1_def t_def)
qed

end
