(* ===== verification/PrivacyStore.thy ===== *)
theory PrivacyStore
  imports Privacy
begin

text \<open>
  The privacy tables of migrations 019 and 020 and the services over them: \<open>services/privacy_policy.py\<close>
  (which columns are masked), \<open>services/privacy_service.py\<close> (finding reviews, policies, masked export),
  \<open>services/column_classification_service.py\<close> and \<open>services/privacy_rule_service.py\<close>. A call that raises
  rolls back, so \<open>Inl\<close> (the detail of the HTTP error) carries no database. Fresh UUIDs are arguments, the ids
  of audit events are left out.
\<close>

subsection \<open>Tables\<close>

datatype scan_state = SQueued | SRunning | SComplete | SFailed

datatype scan_purpose = Apply | Preview

record asset_row =
  as_tenant :: uuid
  as_id :: uuid

record psnap_row =
  ps_tenant :: uuid
  ps_id :: uuid
  ps_asset :: uuid
  ps_schema :: "jdict option"
  ps_manifest :: "jdict option"

record class_row =
  cl_tenant :: uuid
  cl_asset :: uuid
  cl_column :: ident
  cl_category :: ident
  cl_reason :: ustr

record find_row =
  fr_id :: uuid
  fr_tenant :: uuid
  fr_snapshot :: uuid
  fr_column :: ident
  fr_path :: ustr
  fr_category :: ident
  fr_status :: ident
  fr_code :: ident
  fr_matched :: nat
  fr_observed :: nat
  fr_rule_id :: "ustr option"
  fr_rule_revision :: "int option"
  fr_scan :: "uuid option"
  fr_reason :: "ustr option"
  fr_reviewed_by :: "uuid option"
  fr_reviewed_at :: "timestamp option"

record job_row =
  jb_id :: uuid
  jb_tenant :: uuid
  jb_snapshot :: uuid
  jb_requested_by :: uuid
  jb_state :: scan_state
  jb_purpose :: scan_purpose
  jb_rules :: "privacy_detector_rule list"
  jb_config_version :: int
  jb_digest :: ustr
  jb_created_at :: timestamp
  jb_owner :: "ident option"
  jb_generation :: int
  jb_expires :: "timestamp option"
  jb_attempts :: int
  jb_error :: "ident option"
  jb_summary :: "json option"

record policy_entry =
  pe_tenant :: uuid
  pe_asset :: uuid
  pe_category :: ident
  pe_role :: ident
  pe_strategy :: ident

record privacy_event =
  ev_tenant :: uuid
  ev_asset :: "uuid option"
  ev_snapshot :: "uuid option"
  ev_actor :: uuid
  ev_action :: ident
  ev_before :: "json option"
  ev_after :: "json option"
  ev_reason :: "ustr option"

record privacy_db =
  pd_assets :: "asset_row list"
  pd_snapshots :: "psnap_row list"
  pd_classes :: "class_row list"
  pd_findings :: "find_row list"
  pd_jobs :: "job_row list"
  pd_configs :: "(uuid \<times> int) list"
  pd_rules :: "(uuid \<times> privacy_detector_rule) list"
  pd_revisions :: "((uuid \<times> uuid) \<times> int) list"
  pd_policies :: "policy_entry list"
  pd_events :: "privacy_event list"

fun state_value :: "scan_state \<Rightarrow> ident" where
  "state_value SQueued = u ''QUEUED''"
| "state_value SRunning = u ''RUNNING''"
| "state_value SComplete = u ''COMPLETE''"
| "state_value SFailed = u ''FAILED''"

text \<open>A comprehension whose element expression can raise.\<close>

fun each :: "('a \<Rightarrow> 'e + 'b) \<Rightarrow> 'a list \<Rightarrow> 'e + 'b list" where
  "each f [] = Inr []"
| "each f (x # xs) =
     (case f x of Inl e \<Rightarrow> Inl e | Inr y \<Rightarrow> (case each f xs of Inl e \<Rightarrow> Inl e | Inr ys \<Rightarrow> Inr (y # ys)))"

subsection \<open>Which columns are protected\<close>

definition SENSITIVE_CATEGORIES :: "ident list" where
  "SENSITIVE_CATEGORIES = map u [''BASIC_PERSONAL_DATA'', ''SENSITIVE_PERSONAL_DATA'', ''CONFIDENTIAL_BUSINESS_DATA'']"

definition iter_json :: "json option \<Rightarrow> string + json list" where
  "iter_json v = (case v of
       None \<Rightarrow> Inr []
     | Some (JArr xs) \<Rightarrow> Inr xs
     | Some (JStr s) \<Rightarrow> Inr (map (\<lambda>c. JStr [c]) s)
     | Some (JObj d) \<Rightarrow> Inr (map (\<lambda>(k, x). JStr k) d)
     | Some _ \<Rightarrow> Inl ''TypeError'')"

definition column_name_of :: "json \<Rightarrow> string + ident" where
  "column_name_of c = (case c of
       JStr s \<Rightarrow> Inr s
     | JObj d \<Rightarrow> (case jget d ''name'' of None \<Rightarrow> Inl ''KeyError'' | Some (JStr s) \<Rightarrow> Inr s | Some _ \<Rightarrow> Inl ''TypeError'')
     | _ \<Rightarrow> Inl ''TypeError'')"

definition column_names :: "jdict option \<Rightarrow> string + ident list" where
  "column_names schema =
     (case iter_json (jget (case schema of None \<Rightarrow> [] | Some d \<Rightarrow> d) ''columns'') of
        Inl e \<Rightarrow> Inl e | Inr cs \<Rightarrow> each column_name_of cs)"

text \<open>\<open>ORDER BY created_at DESC, scan_id DESC LIMIT 1\<close>.\<close>

definition latest :: "job_row list \<Rightarrow> job_row option" where
  "latest js = (case rev (sort_key (\<lambda>j. (jb_created_at j, jb_id j)) js) of [] \<Rightarrow> None | j # _ \<Rightarrow> Some j)"

definition apply_jobs :: "privacy_db \<Rightarrow> uuid \<Rightarrow> uuid \<Rightarrow> job_row list" where
  "apply_jobs db t s = filter (\<lambda>j. jb_tenant j = t \<and> jb_snapshot j = s \<and> jb_purpose j = Apply) (pd_jobs db)"

definition latest_complete :: "privacy_db \<Rightarrow> uuid \<Rightarrow> uuid \<Rightarrow> uuid option" where
  "latest_complete db t s = map_option jb_id (latest (filter (\<lambda>j. jb_state j = SComplete) (apply_jobs db t s)))"

text \<open>\<open>ACTIVE_FINDINGS_SQL\<close>.\<close>

definition active_finding :: "privacy_db \<Rightarrow> find_row \<Rightarrow> bool" where
  "active_finding db f \<longleftrightarrow> fr_status f = u ''CONFIRMED'' \<or> fr_scan f = latest_complete db (fr_tenant f) (fr_snapshot f)"

definition manifest_scan :: "jdict option \<Rightarrow> string + jdict" where
  "manifest_scan manifest =
     (case py_or (jget_null (case manifest of None \<Rightarrow> [] | Some m \<Rightarrow> m) ''sensitive_scan'') (JObj []) of
        JObj d \<Rightarrow> Inr d | _ \<Rightarrow> Inl ''AttributeError'')"

text \<open>\<open>n != v\<close> for an integer and a JSON value.\<close>

definition differs_from_int :: "json \<Rightarrow> int \<Rightarrow> bool" where
  "differs_from_int v n = (case v of JInt i \<Rightarrow> i \<noteq> n | JBool b \<Rightarrow> (if b then 1 else 0) \<noteq> n | JFloat x \<Rightarrow> x \<noteq> of_int n | _ \<Rightarrow> True)"

definition scan_state_of :: "privacy_db \<Rightarrow> uuid \<Rightarrow> uuid \<Rightarrow> jdict option \<Rightarrow> string + (ident \<times> bool)" where
  "scan_state_of db t s manifest =
     (case latest (apply_jobs db t s) of
        Some j \<Rightarrow> Inr (state_value (jb_state j),
                     jb_config_version j \<noteq> dict_get (pd_configs db) t 0 \<and> jb_state j = SComplete)
      | None \<Rightarrow>
          (case manifest_scan manifest of
             Inl e \<Rightarrow> Inl e
           | Inr scan \<Rightarrow>
               if jget scan ''status'' \<noteq> Some (JStr (u ''COMPLETE'')) then Inr (u ''UNAVAILABLE'', False)
               else if jget_null scan ''config_version'' = JNull then Inr (u ''COMPLETE'', False)
               else Inr (u ''COMPLETE'', (case map_of (pd_configs db) t of
                   None \<Rightarrow> False | Some v \<Rightarrow> differs_from_int (jget_null scan ''config_version'') v))))"

record column_protection =
  cp_column_name :: ident
  cp_declared_category :: "ident option"
  cp_detected_categories :: "ident list"
  cp_effective_categories :: "ident list"
  cp_protected :: bool
  cp_conflict :: bool
  cp_reason :: "ustr option"

record snapshot_protection =
  sp_asset_id :: uuid
  sp_policy_version :: int
  sp_scan_status :: ident
  sp_scan_stale :: bool
  sp_protected_columns :: "ident list"
  sp_columns :: "column_protection list"

definition find_snapshot :: "privacy_db \<Rightarrow> uuid \<Rightarrow> uuid \<Rightarrow> psnap_row option" where
  "find_snapshot db t s = find (\<lambda>r. ps_tenant r = t \<and> ps_id r = s) (pd_snapshots db)"

definition find_class :: "privacy_db \<Rightarrow> uuid \<Rightarrow> uuid \<Rightarrow> ident \<Rightarrow> class_row option" where
  "find_class db t a col = find (\<lambda>c. cl_tenant c = t \<and> cl_asset c = a \<and> cl_column c = col) (rev (pd_classes db))"

definition detected_categories :: "privacy_db \<Rightarrow> uuid \<Rightarrow> uuid \<Rightarrow> ident \<Rightarrow> ident list" where
  "detected_categories db t s col = map fr_category
     (filter (\<lambda>f. fr_tenant f = t \<and> fr_snapshot f = s \<and> fr_status f \<noteq> u ''DISMISSED'' \<and> active_finding db f \<and> fr_column f = col)
        (pd_findings db))"

definition column_protection_of :: "class_row option \<Rightarrow> ident list \<Rightarrow> bool \<Rightarrow> ident \<Rightarrow> column_protection" where
  "column_protection_of decl findings verified name =
     (let declared = map_option cl_category decl;
          effective = findings @ (case declared of None \<Rightarrow> [] | Some d \<Rightarrow> if d \<in> set SENSITIVE_CATEGORIES then [d] else [])
      in \<lparr>cp_column_name = name, cp_declared_category = declared, cp_detected_categories = sorted_set findings,
          cp_effective_categories = sorted_set effective, cp_protected = (effective \<noteq> [] \<or> \<not> verified),
          cp_conflict = (declared = Some (u ''STANDARD_DATA'') \<and> findings \<noteq> []), cp_reason = map_option cl_reason decl\<rparr>)"

definition revision_of :: "privacy_db \<Rightarrow> uuid \<Rightarrow> uuid \<Rightarrow> int" where
  "revision_of db t a = dict_get (pd_revisions db) (t, a) 0"

definition resolve_snapshot_protection :: "privacy_db \<Rightarrow> uuid \<Rightarrow> uuid \<Rightarrow> string + snapshot_protection" where
  "resolve_snapshot_protection db t s =
     (case find_snapshot db t s of
        None \<Rightarrow> Inl ''RESOURCE_NOT_FOUND''
      | Some r \<Rightarrow>
          (case scan_state_of db t s (ps_manifest r) of
             Inl e \<Rightarrow> Inl e
           | Inr (status, stale) \<Rightarrow>
               (case column_names (ps_schema r) of
                  Inl e \<Rightarrow> Inl e
                | Inr names \<Rightarrow>
                    (let verified = (status = u ''COMPLETE'' \<and> \<not> stale);
                         cols = map (\<lambda>n. column_protection_of (find_class db t (ps_asset r) n) (detected_categories db t s n) verified n) names
                     in Inr \<lparr>sp_asset_id = ps_asset r, sp_policy_version = revision_of db t (ps_asset r),
                          sp_scan_status = status, sp_scan_stale = stale,
                          sp_protected_columns = map cp_column_name (filter cp_protected cols), sp_columns = cols\<rparr>))))"

subsection \<open>Masked output\<close>

definition mask_item :: "ident set \<Rightarrow> json \<Rightarrow> json" where
  "mask_item protected r = (case r of JObj d \<Rightarrow> JObj (mask_row d protected) | _ \<Rightarrow> r)"

definition strip_stats :: "ident set \<Rightarrow> json \<Rightarrow> json" where
  "strip_stats protected v = (case v of
       JObj d \<Rightarrow> (case jget d ''name'' of
           Some (JStr n) \<Rightarrow> if n \<in> protected then JObj (filter (\<lambda>(k, x). k \<noteq> u ''min'' \<and> k \<noteq> u ''max'') d) else v
         | _ \<Rightarrow> v)
     | _ \<Rightarrow> v)"

definition strip_profile :: "ident set \<Rightarrow> jdict \<Rightarrow> jdict" where
  "strip_profile protected p = map (\<lambda>(k, v). (k,
     if k = u ''columns'' then (case v of JArr xs \<Rightarrow> JArr (map (strip_stats protected) xs) | _ \<Rightarrow> v) else v)) p"

definition mask_preview_and_profile ::
  "json list option \<Rightarrow> jdict option \<Rightarrow> ident set \<Rightarrow> json list option \<times> jdict option" where
  "mask_preview_and_profile preview profile protected =
     (map_option (map (mask_item protected)) preview, map_option (strip_profile protected) profile)"

record session_view =
  sv_manifest :: "jdict option"
  sv_registered_snapshot_id :: "uuid option"
  sv_asset_id :: "uuid option"

definition json_text :: "json \<Rightarrow> string + ident" where
  "json_text v = (case v of JStr s \<Rightarrow> Inr s | _ \<Rightarrow> Inl ''TypeError'')"

definition finding_column :: "json \<Rightarrow> string + ident" where
  "finding_column v = (case v of
       JObj d \<Rightarrow> (case jget d ''column_name'' of None \<Rightarrow> Inl ''KeyError'' | Some x \<Rightarrow> json_text x)
     | _ \<Rightarrow> Inl ''TypeError'')"

definition object_keys :: "json \<Rightarrow> ident list" where
  "object_keys v = (case v of JObj d \<Rightarrow> map fst d | _ \<Rightarrow> [])"

definition columns_of_list :: "(json \<Rightarrow> string + ident) \<Rightarrow> json option \<Rightarrow> string + ident list" where
  "columns_of_list f v = (case iter_json v of Inl e \<Rightarrow> Inl e | Inr xs \<Rightarrow> each f xs)"

definition session_protected_columns :: "privacy_db \<Rightarrow> uuid \<Rightarrow> session_view \<Rightarrow> string + ident list" where
  "session_protected_columns db t row =
     (let manifest = (case sv_manifest row of None \<Rightarrow> [] | Some m \<Rightarrow> m) in
      case sv_registered_snapshot_id row of
        Some s \<Rightarrow> (case resolve_snapshot_protection db t s of Inl e \<Rightarrow> Inl e | Inr p \<Rightarrow> Inr (sp_protected_columns p))
      | None \<Rightarrow>
          (case manifest_scan (Some manifest) of
             Inl e \<Rightarrow> Inl e
           | Inr scan \<Rightarrow>
               if jget scan ''status'' \<noteq> Some (JStr (u ''COMPLETE''))
               then (case (columns_of_list column_name_of (jget manifest ''columns''),
                           iter_json (Some (py_or (jget_null manifest ''preview'') (JArr [])))) of
                       (Inr names, Inr rows) \<Rightarrow> Inr (names @ concat (map object_keys rows))
                     | (Inl e, _) \<Rightarrow> Inl e | (_, Inl e) \<Rightarrow> Inl e)
               else (case (columns_of_list json_text (jget scan ''sensitive_columns''),
                           columns_of_list finding_column (Some (py_or (jget_null scan ''findings'') (JArr [])))) of
                       (Inr names, Inr found) \<Rightarrow> Inr (names @ found @
                          (case sv_asset_id row of
                             None \<Rightarrow> []
                           | Some a \<Rightarrow> map cl_column (filter (\<lambda>c. cl_tenant c = t \<and> cl_asset c = a
                                 \<and> cl_category c \<in> set SENSITIVE_CATEGORIES) (pd_classes db))))
                     | (Inl e, _) \<Rightarrow> Inl e | (_, Inl e) \<Rightarrow> Inl e)))"

text \<open>The masked export reads a table, masks whole columns, and is released only when the protection it
  used still holds in the second transaction.\<close>

definition mask_array :: "json list \<Rightarrow> json list" where
  "mask_array xs = map mask_value xs"

definition masked_table :: "ident list \<Rightarrow> (ident \<times> json list) list \<Rightarrow> (ident \<times> json list) list" where
  "masked_table protected table = map (\<lambda>(n, xs). (n, if n \<in> set protected then mask_array xs else xs)) table"

definition export_masked :: "privacy_db \<Rightarrow> privacy_db \<Rightarrow> uuid \<Rightarrow> uuid \<Rightarrow> string + (ident \<times> json list) list \<Rightarrow>
    string + (int \<times> (ident \<times> json list) list)" where
  "export_masked db later_db t s spooled =
     (case resolve_snapshot_protection db t s of
        Inl e \<Rightarrow> Inl e
      | Inr resolved \<Rightarrow>
          (case spooled of
             Inl e \<Rightarrow> Inl e
           | Inr table \<Rightarrow>
               (case resolve_snapshot_protection later_db t s of
                  Inl e \<Rightarrow> Inl e
                | Inr current \<Rightarrow>
                    if sp_policy_version current \<noteq> sp_policy_version resolved
                       \<or> set (sp_protected_columns current) \<noteq> set (sp_protected_columns resolved)
                    then Inl ''POLICY_VERSION_CONFLICT''
                    else Inr (sp_policy_version resolved, masked_table (sp_protected_columns resolved) table))))"

end
