(* ===== verification/PrivacyOps.thy ===== *)
theory PrivacyOps
  imports PrivacyStore
begin

text \<open>
  The operations that change the privacy tables: reviews, policies, classifications, detector rules (with the
  trigger of migration 020), scan requests, and the queue side of \<open>workers/privacy_scan_worker.py\<close>: claiming,
  heartbeats, and the fenced publication or failure of a scan. Row locks are not modelled: every operation is one
  transaction, executed alone.
\<close>

subsection \<open>Shared steps\<close>

definition has_asset :: "privacy_db \<Rightarrow> uuid \<Rightarrow> uuid \<Rightarrow> bool" where
  "has_asset db t a \<longleftrightarrow> any_of (\<lambda>r. as_tenant r = t \<and> as_id r = a) (pd_assets db)"

text \<open>\<open>INSERT INTO asset_protection_revisions ... VALUES (t, a, 0) ON CONFLICT DO NOTHING\<close>.\<close>

definition ensure_revision :: "uuid \<Rightarrow> uuid \<Rightarrow> privacy_db \<Rightarrow> privacy_db" where
  "ensure_revision t a db =
     (if map_of (pd_revisions db) (t, a) = None then db\<lparr>pd_revisions := pd_revisions db @ [((t, a), 0)]\<rparr> else db)"

definition bump_revision :: "uuid \<Rightarrow> uuid \<Rightarrow> privacy_db \<Rightarrow> privacy_db" where
  "bump_revision t a db =
     (if map_of (pd_revisions db) (t, a) = None then db
      else db\<lparr>pd_revisions := AList.update (t, a) (revision_of db t a + 1) (pd_revisions db)\<rparr>)"

definition log_event :: "privacy_event \<Rightarrow> privacy_db \<Rightarrow> privacy_db" where
  "log_event e db = db\<lparr>pd_events := pd_events db @ [e]\<rparr>"

subsection \<open>Reviews of findings\<close>

definition finding_json :: "uuid \<Rightarrow> ident \<Rightarrow> int \<Rightarrow> json" where
  "finding_json fid status version = JObj
     [(u ''finding_id'', JStr (uuid_str fid)), (u ''status'', JStr status), (u ''version'', JInt version)]"

definition update_finding_status :: "timestamp \<Rightarrow> uuid \<Rightarrow> uuid \<Rightarrow> uuid \<Rightarrow> ident \<Rightarrow> ident \<Rightarrow> ustr \<Rightarrow> privacy_db \<Rightarrow>
    string + (find_row \<times> bool) \<times> privacy_db" where
  "update_finding_status now user t fid expected new reason db =
     (case find (\<lambda>f. fr_tenant f = t \<and> fr_id f = fid) (pd_findings db) of
        None \<Rightarrow> Inl ''RESOURCE_NOT_FOUND''
      | Some f \<Rightarrow>
          (case find_snapshot db t (fr_snapshot f) of
             None \<Rightarrow> Inl ''RESOURCE_NOT_FOUND''
           | Some s \<Rightarrow>
               (let db1 = ensure_revision t (ps_asset s) db;
                    version = revision_of db1 t (ps_asset s)
                in if fr_status f \<noteq> expected then Inl ''FINDING_STATUS_CONFLICT''
                   else let reviewed = f\<lparr>fr_status := new, fr_reason := Some reason, fr_reviewed_by := Some user,
                                         fr_reviewed_at := Some now\<rparr>;
                            db2 = db1\<lparr>pd_findings := map (\<lambda>g. if fr_tenant g = t \<and> fr_id g = fid
                                then g\<lparr>fr_status := new, fr_reason := Some reason, fr_reviewed_by := Some user,
                                       fr_reviewed_at := Some now\<rparr> else g) (pd_findings db1)\<rparr>;
                            db3 = bump_revision t (ps_asset s) db2;
                            db4 = log_event \<lparr>ev_tenant = t, ev_asset = Some (ps_asset s), ev_snapshot = Some (fr_snapshot f),
                                ev_actor = user, ev_action = u ''FINDING_STATUS_CHANGED'',
                                ev_before = Some (finding_json fid (fr_status f) version),
                                ev_after = Some (finding_json fid new (version + 1)), ev_reason = Some reason\<rparr> db3
                        in Inr ((reviewed, new = u ''CONFIRMED'' \<and> fr_scan f \<noteq> latest_complete db t (fr_snapshot f)), db4))))"

subsection \<open>Asset policies\<close>

definition ACTIVE_PROTECTION_ROLES :: "ident list" where
  "ACTIVE_PROTECTION_ROLES = map u [''WORKSPACE_ADMIN'', ''DATA_OWNER'', ''DATA_STEWARD'', ''DATA_ENGINEER'',
     ''BUSINESS_VIEWER'', ''VIEWER_UNPRIVILEGED'']"

record asset_policy =
  ap_version :: int
  ap_categories :: "ident list"
  ap_unsupported :: nat

definition get_asset_protection_policy :: "privacy_db \<Rightarrow> uuid \<Rightarrow> uuid \<Rightarrow> string + asset_policy" where
  "get_asset_protection_policy db t a =
     (if \<not> has_asset db t a then Inl ''Data asset not found''
      else let mine = filter (\<lambda>p. pe_tenant p = t \<and> pe_asset p = a) (pd_policies db)
        in Inr \<lparr>ap_version = revision_of db t a,
                ap_categories = sorted_set (map pe_category (filter (\<lambda>p. pe_strategy p = u ''FULL_MASK'') mine)),
                ap_unsupported = length (filter (\<lambda>p. pe_strategy p \<noteq> u ''FULL_MASK'') mine)\<rparr>)"

definition upsert_policy :: "uuid \<Rightarrow> uuid \<Rightarrow> ident \<times> ident \<Rightarrow> policy_entry list \<Rightarrow> policy_entry list" where
  "upsert_policy t a cr ps = (case cr of (cat, role) \<Rightarrow>
     (let same = (\<lambda>p. pe_tenant p = t \<and> pe_asset p = a \<and> pe_category p = cat \<and> pe_role p = role)
      in if any_of same ps then map (\<lambda>p. if same p then p\<lparr>pe_strategy := u ''FULL_MASK''\<rparr> else p) ps
         else ps @ [\<lparr>pe_tenant = t, pe_asset = a, pe_category = cat, pe_role = role, pe_strategy = u ''FULL_MASK''\<rparr>]))"

definition categories_json :: "ident list \<Rightarrow> int \<Rightarrow> json" where
  "categories_json cats version = JObj [(u ''categories'', JArr (map JStr cats)), (u ''version'', JInt version)]"

definition update_asset_protection_policy :: "uuid \<Rightarrow> uuid \<Rightarrow> uuid \<Rightarrow> int \<Rightarrow> ident list \<Rightarrow> privacy_db \<Rightarrow>
    string + asset_policy \<times> privacy_db" where
  "update_asset_protection_policy user t a expected_version categories db =
     (if \<not> has_asset db t a then Inl ''RESOURCE_NOT_FOUND''
      else let db1 = ensure_revision t a db; version = revision_of db1 t a
        in if version \<noteq> expected_version then Inl ''POLICY_VERSION_CONFLICT''
           else case get_asset_protection_policy db1 t a of
             Inl e \<Rightarrow> Inl e
           | Inr before \<Rightarrow>
               (let kept = filter (\<lambda>p. \<not> (pe_tenant p = t \<and> pe_asset p = a \<and> pe_strategy p = u ''FULL_MASK'')) (pd_policies db1);
                    pairs = concat (map (\<lambda>c. map (\<lambda>r. (c, r)) ACTIVE_PROTECTION_ROLES) categories);
                    db2 = db1\<lparr>pd_policies := fold (upsert_policy t a) pairs kept\<rparr>;
                    db3 = bump_revision t a db2;
                    db4 = log_event \<lparr>ev_tenant = t, ev_asset = Some a, ev_snapshot = None, ev_actor = user,
                      ev_action = u ''POLICY_CHANGED'', ev_before = Some (categories_json (ap_categories before) version),
                      ev_after = Some (categories_json (sorted_set categories) (version + 1)), ev_reason = None\<rparr> db3
                in case get_asset_protection_policy db4 t a of Inl e \<Rightarrow> Inl e | Inr p \<Rightarrow> Inr (p, db4)))"

subsection \<open>Column classifications\<close>

record class_change =
  cc_column_name :: ident
  cc_category :: "ident option"
  cc_reason :: ustr

definition class_json :: "ident \<Rightarrow> ident option \<Rightarrow> int \<Rightarrow> json" where
  "class_json col cat version = JObj
     [(u ''column_name'', JStr col), (u ''category'', opt_str cat), (u ''version'', JInt version)]"

definition put_class :: "uuid \<Rightarrow> uuid \<Rightarrow> ident \<Rightarrow> ident \<Rightarrow> ustr \<Rightarrow> class_row list \<Rightarrow> class_row list" where
  "put_class t a col cat reason cs =
     (let same = (\<lambda>c. cl_tenant c = t \<and> cl_asset c = a \<and> cl_column c = col)
      in if any_of same cs then map (\<lambda>c. if same c then c\<lparr>cl_category := cat, cl_reason := reason\<rparr> else c) cs
         else cs @ [\<lparr>cl_tenant = t, cl_asset = a, cl_column = col, cl_category = cat, cl_reason = reason\<rparr>])"

definition apply_change :: "uuid \<Rightarrow> uuid \<Rightarrow> uuid \<Rightarrow> uuid \<Rightarrow> int \<Rightarrow> class_change \<Rightarrow> privacy_db \<Rightarrow> privacy_db" where
  "apply_change user t a s version ch db =
     (let previous = map_option cl_category (find_class db t a (cc_column_name ch));
          db1 = (case cc_category ch of
              None \<Rightarrow> db\<lparr>pd_classes := filter (\<lambda>c. \<not> (cl_tenant c = t \<and> cl_asset c = a \<and> cl_column c = cc_column_name ch))
                        (pd_classes db)\<rparr>
            | Some cat \<Rightarrow> db\<lparr>pd_classes := put_class t a (cc_column_name ch) cat (cc_reason ch) (pd_classes db)\<rparr>)
      in log_event \<lparr>ev_tenant = t, ev_asset = Some a, ev_snapshot = Some s, ev_actor = user,
           ev_action = u ''CLASSIFICATION_CHANGED'', ev_before = Some (class_json (cc_column_name ch) previous version),
           ev_after = Some (class_json (cc_column_name ch) (cc_category ch) (version + 1)), ev_reason = Some (cc_reason ch)\<rparr> db1)"

definition update_classifications :: "uuid \<Rightarrow> uuid \<Rightarrow> uuid \<Rightarrow> uuid \<Rightarrow> int \<Rightarrow> class_change list \<Rightarrow> privacy_db \<Rightarrow>
    string + snapshot_protection \<times> privacy_db" where
  "update_classifications user t a s expected_version changes db =
     (if \<not> has_asset db t a then Inl ''RESOURCE_NOT_FOUND''
      else case find (\<lambda>r. ps_tenant r = t \<and> ps_asset r = a \<and> ps_id r = s) (pd_snapshots db) of
        None \<Rightarrow> Inl ''RESOURCE_NOT_FOUND''
      | Some r \<Rightarrow>
          (case column_names (ps_schema r) of
             Inl e \<Rightarrow> Inl e
           | Inr names \<Rightarrow>
               if any_of (\<lambda>ch. cc_column_name ch \<notin> set names) changes then Inl ''INVALID_CLASSIFICATION_COLUMN''
               else let db1 = ensure_revision t a db; version = revision_of db1 t a
                 in if version \<noteq> expected_version then Inl ''POLICY_VERSION_CONFLICT''
                    else let db2 = bump_revision t a (fold (apply_change user t a s version) changes db1)
                      in case resolve_snapshot_protection db2 t s of Inl e \<Rightarrow> Inl e | Inr p \<Rightarrow> Inr (p, db2)))"

subsection \<open>Detector rules of a tenant\<close>

definition MAX_ENABLED_RULES :: nat where "MAX_ENABLED_RULES = 100"

definition tenant_rules :: "privacy_db \<Rightarrow> uuid \<Rightarrow> privacy_detector_rule list" where
  "tenant_rules db t = map snd (filter (\<lambda>(t', r). t' = t) (pd_rules db))"

text \<open>\<open>SELECT DISTINCT ON (rule_id) ... ORDER BY rule_id, revision DESC\<close>.\<close>

definition latest_rules :: "privacy_db \<Rightarrow> uuid \<Rightarrow> privacy_detector_rule list" where
  "latest_rules db t = filter (\<lambda>r. \<not> any_of (\<lambda>q. pr_rule_id q = pr_rule_id r \<and> pr_revision q > pr_revision r) (tenant_rules db t))
     (tenant_rules db t)"

definition latest_rule :: "privacy_db \<Rightarrow> uuid \<Rightarrow> uuid \<Rightarrow> privacy_detector_rule option" where
  "latest_rule db t rid = find (\<lambda>r. pr_rule_id r = rid) (latest_rules db t)"

definition enabled_count :: "privacy_db \<Rightarrow> uuid \<Rightarrow> nat" where
  "enabled_count db t = length (filter pr_enabled (latest_rules db t))"

text \<open>The trigger \<open>enforce_privacy_rule_revision\<close> and the unique keys; a plain INSERT fails on a conflict.\<close>

definition insert_rule :: "bool \<Rightarrow> uuid \<Rightarrow> privacy_detector_rule \<Rightarrow> privacy_db \<Rightarrow> string + privacy_db" where
  "insert_rule on_conflict_nothing t r db =
     (let rows = tenant_rules db t in
      if any_of (\<lambda>q. pr_code q = pr_code r \<and> pr_rule_id q \<noteq> pr_rule_id r) rows then Inl ''unique_violation''
      else if (case latest_rule db t (pr_rule_id r) of
                 None \<Rightarrow> pr_revision r \<noteq> 1
               | Some p \<Rightarrow> pr_revision r \<noteq> pr_revision p + 1 \<or> pr_code r \<noteq> pr_code p \<or> pr_kind r \<noteq> pr_kind p
                          \<or> pr_builtin_code r \<noteq> pr_builtin_code p)
           then Inl ''check_violation''
      else if any_of (\<lambda>q. pr_revision q = pr_revision r \<and> (pr_rule_id q = pr_rule_id r \<or> pr_code q = pr_code r)) rows
           then (if on_conflict_nothing then Inr db else Inl ''unique_violation'')
      else Inr (db\<lparr>pd_rules := pd_rules db @ [(t, r)]\<rparr>))"

definition seed_rule :: "(uuid \<Rightarrow> ident \<Rightarrow> uuid) \<Rightarrow> uuid \<Rightarrow> ident \<times> ident \<Rightarrow> privacy_detector_rule" where
  "seed_rule builtin_rule_id t cc = \<lparr>pr_rule_id = builtin_rule_id t (fst cc), pr_revision = 1, pr_code = fst cc,
     pr_kind = KBuiltin, pr_category = snd cc, pr_enabled = True, pr_builtin_code = Some (fst cc), pr_pattern = None,
     pr_full = True, pr_case_sensitive = True, pr_columns = []\<rparr>"

fun seed_rules :: "uuid \<Rightarrow> privacy_detector_rule list \<Rightarrow> privacy_db \<Rightarrow> string + privacy_db" where
  "seed_rules t [] db = Inr db"
| "seed_rules t (r # rs) db = (case insert_rule True t r db of Inl e \<Rightarrow> Inl e | Inr db1 \<Rightarrow> seed_rules t rs db1)"

definition ensure_initialized :: "(uuid \<Rightarrow> ident \<Rightarrow> uuid) \<Rightarrow> uuid \<Rightarrow> privacy_db \<Rightarrow> string + privacy_db" where
  "ensure_initialized builtin_rule_id t db =
     (if map_of (pd_configs db) t \<noteq> None then Inr db
      else case seed_rules t (map (seed_rule builtin_rule_id t) BUILTIN_RULE_CATEGORIES) db of
        Inl e \<Rightarrow> Inl e
      | Inr db1 \<Rightarrow> Inr (db1\<lparr>pd_configs := pd_configs db1 @ [(t, 1)]\<rparr>))"

definition config_version :: "privacy_db \<Rightarrow> uuid \<Rightarrow> int" where
  "config_version db t = dict_get (pd_configs db) t 0"

definition bump_config :: "uuid \<Rightarrow> int \<Rightarrow> privacy_db \<Rightarrow> privacy_db" where
  "bump_config t version db = db\<lparr>pd_configs := AList.update t (version + 1) (pd_configs db)\<rparr>"

definition rule_state :: "privacy_detector_rule \<Rightarrow> int \<Rightarrow> json" where
  "rule_state r version = JObj
     [(u ''rule_id'', JStr (uuid_str (pr_rule_id r))), (u ''revision'', JInt (pr_revision r)), (u ''code'', JStr (pr_code r)),
      (u ''kind'', JStr (kind_value (pr_kind r))), (u ''category'', JStr (pr_category r)), (u ''enabled'', JBool (pr_enabled r)),
      (u ''config_version'', JInt version)]"

definition rule_event :: "uuid \<Rightarrow> uuid \<Rightarrow> string \<Rightarrow> json option \<Rightarrow> json \<Rightarrow> privacy_event" where
  "rule_event t user action before after = \<lparr>ev_tenant = t, ev_asset = None, ev_snapshot = None, ev_actor = user,
     ev_action = u action, ev_before = before, ev_after = Some after, ev_reason = None\<rparr>"

record rule_create =
  rc_code :: ident
  rc_value_pattern :: bool
  rc_category :: ident
  rc_enabled :: bool
  rc_pattern :: ustr
  rc_full :: bool
  rc_case_sensitive :: bool
  rc_columns :: "ident list"

definition created_rule :: "uuid \<Rightarrow> rule_create \<Rightarrow> privacy_detector_rule" where
  "created_rule rid p = \<lparr>pr_rule_id = rid, pr_revision = 1, pr_code = rc_code p,
     pr_kind = (if rc_value_pattern p then KValuePattern else KColumnName), pr_category = rc_category p,
     pr_enabled = rc_enabled p, pr_builtin_code = None, pr_pattern = Some (rc_pattern p), pr_full = rc_full p,
     pr_case_sensitive = rc_case_sensitive p, pr_columns = rc_columns p\<rparr>"

definition create_rule :: "(uuid \<Rightarrow> ident \<Rightarrow> uuid) \<Rightarrow> uuid \<Rightarrow> uuid \<Rightarrow> uuid \<Rightarrow> rule_create \<Rightarrow> privacy_db \<Rightarrow>
    string + privacy_detector_rule \<times> privacy_db" where
  "create_rule builtin_rule_id fresh user t payload db0 =
     (case ensure_initialized builtin_rule_id t db0 of
        Inl e \<Rightarrow> Inl e
      | Inr db \<Rightarrow>
          (let version = config_version db t; new = created_rule fresh payload in
           if any_of (\<lambda>q. pr_code q = rc_code payload) (tenant_rules db t) then Inl ''PRIVACY_RULE_CODE_CONFLICT''
           else if rc_enabled payload \<and> MAX_ENABLED_RULES \<le> enabled_count db t then Inl ''PRIVACY_RULE_LIMIT_EXCEEDED''
           else case insert_rule False t new db of
             Inl e \<Rightarrow> Inl e
           | Inr db1 \<Rightarrow> Inr (new, log_event (rule_event t user ''PRIVACY_RULE_CREATED'' None (rule_state new (version + 1)))
                           (bump_config t version db1))))"

record rule_update =
  ru_expected_revision :: int
  ru_category :: ident
  ru_enabled :: bool
  ru_pattern :: "ustr option"
  ru_full :: bool
  ru_case_sensitive :: bool
  ru_columns :: "ident list"

definition revised :: "privacy_detector_rule \<Rightarrow> rule_update \<Rightarrow> privacy_detector_rule" where
  "revised p upd = p\<lparr>pr_revision := pr_revision p + 1, pr_category := ru_category upd, pr_enabled := ru_enabled upd,
     pr_pattern := ru_pattern upd, pr_full := ru_full upd, pr_case_sensitive := ru_case_sensitive upd,
     pr_columns := ru_columns upd\<rparr>"

definition update_rule :: "(uuid \<Rightarrow> ident \<Rightarrow> uuid) \<Rightarrow> uuid \<Rightarrow> uuid \<Rightarrow> uuid \<Rightarrow> rule_update \<Rightarrow> privacy_db \<Rightarrow>
    string + privacy_detector_rule \<times> privacy_db" where
  "update_rule builtin_rule_id user t rid upd db0 =
     (case ensure_initialized builtin_rule_id t db0 of
        Inl e \<Rightarrow> Inl e
      | Inr db \<Rightarrow>
          (let version = config_version db t in
           case latest_rule db t rid of
             None \<Rightarrow> Inl ''RESOURCE_NOT_FOUND''
           | Some previous \<Rightarrow>
               if pr_revision previous \<noteq> ru_expected_revision upd then Inl ''PRIVACY_RULE_REVISION_CONFLICT''
               else if (pr_kind previous = KBuiltin) \<noteq> (ru_pattern upd = None) then Inl ''INVALID_PRIVACY_RULE''
               else if ru_enabled upd \<and> \<not> pr_enabled previous \<and> MAX_ENABLED_RULES \<le> enabled_count db t
                    then Inl ''PRIVACY_RULE_LIMIT_EXCEEDED''
               else case insert_rule False t (revised previous upd) db of
                 Inl e \<Rightarrow> Inl e
               | Inr db1 \<Rightarrow> Inr (revised previous upd,
                   log_event (rule_event t user ''PRIVACY_RULE_REVISED'' (Some (rule_state previous version))
                       (rule_state (revised previous upd) (version + 1))) (bump_config t version db1))))"

definition load_pinned_rules :: "number_text \<Rightarrow> (ustr \<Rightarrow> ustr) \<Rightarrow> (uuid \<Rightarrow> ident \<Rightarrow> uuid) \<Rightarrow> uuid \<Rightarrow> privacy_db \<Rightarrow>
    string + pinned_rules \<times> privacy_db" where
  "load_pinned_rules nt sha builtin_rule_id t db0 =
     (case ensure_initialized builtin_rule_id t db0 of
        Inl e \<Rightarrow> Inl e
      | Inr db \<Rightarrow>
          (case pin_rules nt sha (filter pr_enabled (latest_rules db t)) (config_version db t) of
             Inl e \<Rightarrow> Inl e | Inr p \<Rightarrow> Inr (p, db)))"

end
