(* ===== verification/PrivacyScan.thy ===== *)
theory PrivacyScan
  imports PrivacyOps
begin

text \<open>
  Privacy scan jobs: \<open>services/privacy_scan_service.py\<close> (requests) and \<open>workers/privacy_scan_worker.py\<close>
  (claim, heartbeat, the bounded summary, and the lease fenced publication or failure). \<open>uuid5\<close> of a name is a
  parameter. \<open>now\<close> is the time of the transaction.
\<close>

subsection \<open>Requests\<close>

record scan_request =
  rq_purpose :: scan_purpose
  rq_rule_id :: "uuid option"
  rq_revision :: "int option"

definition check_selection :: "scan_request \<Rightarrow> string + unit" where
  "check_selection q =
     (if (rq_purpose q = Preview) \<noteq> (rq_rule_id q \<noteq> None \<and> rq_revision q \<noteq> None) then Inl ''INVALID_PRIVACY_SCAN_SELECTION''
      else if rq_purpose q = Apply \<and> (rq_rule_id q \<noteq> None \<or> rq_revision q \<noteq> None) then Inl ''INVALID_PRIVACY_SCAN_SELECTION''
      else Inr ())"

definition unfinished :: "job_row \<Rightarrow> bool" where
  "unfinished j \<longleftrightarrow> jb_state j = SQueued \<or> jb_state j = SRunning"

definition queued_job :: "timestamp \<Rightarrow> uuid \<Rightarrow> uuid \<Rightarrow> uuid \<Rightarrow> uuid \<Rightarrow> scan_purpose \<Rightarrow> pinned_rules \<Rightarrow> job_row" where
  "queued_job now sid t s user purpose pin = \<lparr>jb_id = sid, jb_tenant = t, jb_snapshot = s, jb_requested_by = user,
     jb_state = SQueued, jb_purpose = purpose, jb_rules = pin_rules_of pin, jb_config_version = pin_config_version pin,
     jb_digest = pin_digest pin, jb_created_at = now, jb_owner = None, jb_generation = 0, jb_expires = None,
     jb_attempts = 0, jb_error = None, jb_summary = None\<rparr>"

definition create_scan :: "number_text \<Rightarrow> (ustr \<Rightarrow> ustr) \<Rightarrow> (uuid \<Rightarrow> ident \<Rightarrow> uuid) \<Rightarrow> timestamp \<Rightarrow> uuid \<Rightarrow> uuid \<Rightarrow> uuid \<Rightarrow> uuid \<Rightarrow>
    scan_request \<Rightarrow> privacy_db \<Rightarrow> string + job_row \<times> privacy_db" where
  "create_scan nt sha builtin_rule_id now sid user t s q db0 =
     (case find_snapshot db0 t s of
        None \<Rightarrow> Inl ''RESOURCE_NOT_FOUND''
      | Some r \<Rightarrow>
          (let db = ensure_revision t (ps_asset r) db0 in
           case find (\<lambda>j. jb_tenant j = t \<and> jb_snapshot j = s \<and> jb_purpose j = rq_purpose q \<and> unfinished j) (pd_jobs db) of
             Some j \<Rightarrow>
               if rq_purpose q = Preview
                  \<and> \<not> any_of (\<lambda>d. Some (pr_rule_id d) = rq_rule_id q \<and> Some (pr_revision d) = rq_revision q) (jb_rules j)
               then Inl ''PRIVACY_SCAN_IN_PROGRESS'' else Inr (j, db)
           | None \<Rightarrow>
               (case load_pinned_rules nt sha builtin_rule_id t db of
                  Inl e \<Rightarrow> Inl e
                | Inr (pinned, db1) \<Rightarrow>
                    (case (if rq_purpose q = Apply then Inr pinned
                           else case find (\<lambda>d. Some (pr_rule_id d) = rq_rule_id q \<and> Some (pr_revision d) = rq_revision q)
                                  (tenant_rules db1 t) of
                             None \<Rightarrow> Inl ''RESOURCE_NOT_FOUND''
                           | Some d \<Rightarrow> pin_rules nt sha [d\<lparr>pr_enabled := True\<rparr>] (pin_config_version pinned)) of
                       Inl e \<Rightarrow> Inl e
                     | Inr pin \<Rightarrow>
                         if sid \<in> set (map jb_id (pd_jobs db1)) then Inl ''IntegrityError''
                         else (let j = queued_job now sid t s user (rq_purpose q) pin;
                              db2 = db1\<lparr>pd_jobs := pd_jobs db1 @ [j]\<rparr>
                          in Inr (j, if rq_purpose q = Apply then bump_revision t (ps_asset r) db2 else db2))))))"

subsection \<open>Claims and heartbeats\<close>

definition MAX_ATTEMPTS :: int where "MAX_ATTEMPTS = 3"

definition claimable_scan :: "timestamp \<Rightarrow> job_row \<Rightarrow> bool" where
  "claimable_scan now j \<longleftrightarrow> jb_state j = SQueued
     \<or> (jb_state j = SRunning \<and> (case jb_expires j of None \<Rightarrow> False | Some e \<Rightarrow> e < now))"

definition update_job :: "uuid \<Rightarrow> (job_row \<Rightarrow> job_row) \<Rightarrow> privacy_db \<Rightarrow> privacy_db" where
  "update_job sid f db = db\<lparr>pd_jobs := map (\<lambda>j. if jb_id j = sid then f j else j) (pd_jobs db)\<rparr>"

definition claimed_job :: "ident \<Rightarrow> timestamp \<Rightarrow> int \<Rightarrow> job_row \<Rightarrow> job_row" where
  "claimed_job worker now secs j = j\<lparr>jb_state := SRunning, jb_owner := Some worker, jb_generation := jb_generation j + 1,
     jb_attempts := jb_attempts j + 1, jb_expires := Some (now + secs * 1000000)\<rparr>"

definition claim_next_job :: "ident \<Rightarrow> timestamp \<Rightarrow> int \<Rightarrow> privacy_db \<Rightarrow> job_row option \<times> privacy_db" where
  "claim_next_job worker now secs db =
     (case sort_key (\<lambda>j. (jb_created_at j, jb_id j)) (filter (claimable_scan now) (pd_jobs db)) of
        [] \<Rightarrow> (None, db)
      | j # _ \<Rightarrow> (Some (claimed_job worker now secs j), update_job (jb_id j) (claimed_job worker now secs) db))"

definition fenced :: "ident \<Rightarrow> timestamp \<Rightarrow> uuid \<Rightarrow> uuid \<Rightarrow> int \<Rightarrow> job_row \<Rightarrow> bool" where
  "fenced worker now t sid gen j \<longleftrightarrow> jb_tenant j = t \<and> jb_id j = sid \<and> jb_state j = SRunning \<and> jb_owner j = Some worker
     \<and> jb_generation j = gen \<and> (case jb_expires j of None \<Rightarrow> False | Some e \<Rightarrow> now \<le> e)"

definition scan_heartbeat :: "ident \<Rightarrow> timestamp \<Rightarrow> int \<Rightarrow> uuid \<Rightarrow> uuid \<Rightarrow> int \<Rightarrow> privacy_db \<Rightarrow> bool \<times> privacy_db" where
  "scan_heartbeat worker now secs t sid gen db =
     (let f = fenced worker now t sid gen
      in (any_of f (pd_jobs db),
          db\<lparr>pd_jobs := map (\<lambda>j. if f j then j\<lparr>jb_expires := Some (now + secs * 1000000)\<rparr> else j) (pd_jobs db)\<rparr>))"

subsection \<open>The summary\<close>

definition MAX_SUMMARY_BYTES :: nat where "MAX_SUMMARY_BYTES = 500 * 1024"

text \<open>\<open>len(json.dumps(v, separators=(",", ":")))\<close>: all characters beyond ASCII are escaped.\<close>

definition escaped_size :: "nat \<Rightarrow> nat" where
  "escaped_size c = (if c \<in> {34, 92, 10, 13, 9, 12, 8} then 2 else if 32 \<le> c \<and> c \<le> 126 then 1 else if c < 65536 then 6 else 12)"

definition text_size :: "ustr \<Rightarrow> nat" where
  "text_size s = 2 + sum_list (map escaped_size s)"

fun json_size :: "number_text \<Rightarrow> json \<Rightarrow> nat" where
  "json_size nt JNull = 4"
| "json_size nt (JBool b) = (if b then 4 else 5)"
| "json_size nt (JInt i) = length (int_text i)"
| "json_size nt (JDec s c e) = length (decimal_str nt s c e)"
| "json_size nt (JFloat x) = length (float_repr nt x)"
| "json_size nt (JStr s) = text_size s"
| "json_size nt (JArr xs) = 2 + sum_list (map (json_size nt) xs) + (length xs - 1)"
| "json_size nt (JObj kvs) = 2 + sum_list (map (\<lambda>(k, v). text_size k + 1 + json_size nt v) kvs) + (length kvs - 1)"

fun bounded_from :: "number_text \<Rightarrow> nat \<Rightarrow> nat \<Rightarrow> json list \<Rightarrow> json list \<times> bool" where
  "bounded_from nt budget used [] = ([], False)"
| "bounded_from nt budget used (x # xs) =
     (let used1 = used + json_size nt x + 1
      in if budget < used1 then ([], True)
         else let r = bounded_from nt budget used1 xs in (x # fst r, snd r))"

definition bounded :: "number_text \<Rightarrow> json list \<Rightarrow> nat \<Rightarrow> json list \<times> bool" where
  "bounded nt items budget = bounded_from nt budget 2 items"

definition opt_int :: "int option \<Rightarrow> json" where
  "opt_int i = (case i of None \<Rightarrow> JNull | Some n \<Rightarrow> JInt n)"

definition listed_finding :: "finding \<Rightarrow> json" where
  "listed_finding f = JObj
     [(u ''column_name'', JStr (fi_column_name f)), (u ''path'', JStr (fi_path f)), (u ''category'', JStr (fi_category f)),
      (u ''detector_code'', JStr (fi_detector_code f)), (u ''rule_id'', opt_str (fi_rule_id f)),
      (u ''rule_revision'', opt_int (fi_rule_revision f)), (u ''method'', JStr (fi_method f)),
      (u ''matched_count'', JInt (int (fi_matched_count f))), (u ''observed_count'', JInt (int (fi_observed_count f)))]"

definition listed_gap :: "scope_gap \<Rightarrow> json" where
  "listed_gap g = JObj
     [(u ''rule_id'', JStr (sg_rule_id g)), (u ''rule_revision'', JInt (sg_rule_revision g)),
      (u ''detector_code'', JStr (sg_detector_code g)), (u ''missing_columns'', JArr (map JStr (sg_missing_columns g)))]"

definition summary_budget :: nat where "summary_budget = MAX_SUMMARY_BYTES div 2 - 1024"

definition build_summary :: "number_text \<Rightarrow> scan_report \<Rightarrow> scan_purpose \<Rightarrow> json" where
  "build_summary nt r purpose =
     (let scope = bounded nt (map listed_gap (sr_scope_missing r)) summary_budget;
          listed = bounded nt (map listed_finding (sr_findings r)) summary_budget;
          truncated = (if purpose = Preview then snd listed else False) \<or> snd scope
      in JObj ([(u ''total_rows'', JInt (int (sr_total_rows r))), (u ''finding_count'', JInt (int (length (sr_findings r)))),
           (u ''columns_with_findings'', JInt (int (length (remdups (map fi_column_name (sr_findings r)))))),
           (u ''truncated'', JBool truncated), (u ''scope_missing_columns'', JArr (fst scope))]
         @ (if purpose = Preview then [(u ''findings'', JArr (fst listed))] else [])))"

subsection \<open>Fenced results\<close>

definition generate_finding_id :: "(ustr \<Rightarrow> uuid) \<Rightarrow> uuid \<Rightarrow> ident \<Rightarrow> ustr \<Rightarrow> ident \<Rightarrow> ident \<Rightarrow> uuid" where
  "generate_finding_id uuid5 sid col path code revision =
     uuid5 (uuid_str sid @ [0] @ col @ [0] @ path @ [0] @ code @ [0] @ revision)"

text \<open>\<open>_lock_fenced\<close>: the asset whose revision row is then locked, or None when the lease is gone.\<close>

definition lock_fenced :: "ident \<Rightarrow> timestamp \<Rightarrow> job_row \<Rightarrow> privacy_db \<Rightarrow> uuid option \<times> privacy_db" where
  "lock_fenced worker now job db =
     (case find_snapshot db (jb_tenant job) (jb_snapshot job) of
        None \<Rightarrow> (None, db)
      | Some r \<Rightarrow>
          (let db1 = ensure_revision (jb_tenant job) (ps_asset r) db
           in (if any_of (fenced worker now (jb_tenant job) (jb_id job) (jb_generation job)) (pd_jobs db1)
               then Some (ps_asset r) else None, db1)))"

text \<open>Reviews of the previous published scan, by rule, revision, column and path.\<close>

definition decision_row :: "job_row \<Rightarrow> uuid option \<Rightarrow> privacy_db \<Rightarrow> finding \<Rightarrow> find_row option" where
  "decision_row job previous db f =
     (if previous = None \<or> fi_rule_id f = None \<or> fi_rule_id f = Some [] then None
      else find (\<lambda>g. fr_tenant g = jb_tenant job \<and> fr_scan g = previous
             \<and> (fr_status g = u ''CONFIRMED'' \<or> fr_status g = u ''DISMISSED'')
             \<and> fr_rule_id g = fi_rule_id f \<and> fr_rule_revision g = fi_rule_revision f
             \<and> fr_column g = fi_column_name f \<and> fr_path g = fi_path f) (rev (pd_findings db)))"

definition finding_row_of :: "(ustr \<Rightarrow> uuid) \<Rightarrow> job_row \<Rightarrow> uuid option \<Rightarrow> privacy_db \<Rightarrow> finding \<Rightarrow> find_row" where
  "finding_row_of uuid5 job previous db f =
     (let d = decision_row job previous db f
      in \<lparr>fr_id = generate_finding_id uuid5 (jb_id job) (fi_column_name f) (fi_path f) (fi_detector_code f) (fi_detector_revision f),
          fr_tenant = jb_tenant job, fr_snapshot = jb_snapshot job, fr_column = fi_column_name f, fr_path = fi_path f,
          fr_category = fi_category f, fr_status = (case d of None \<Rightarrow> u ''DETECTED'' | Some g \<Rightarrow> fr_status g),
          fr_code = fi_detector_code f, fr_matched = fi_matched_count f, fr_observed = fi_observed_count f,
          fr_rule_id = fi_rule_id f, fr_rule_revision = fi_rule_revision f, fr_scan = Some (jb_id job),
          fr_reason = (case d of None \<Rightarrow> None | Some g \<Rightarrow> fr_reason g),
          fr_reviewed_by = (case d of None \<Rightarrow> None | Some g \<Rightarrow> fr_reviewed_by g),
          fr_reviewed_at = (case d of None \<Rightarrow> None | Some g \<Rightarrow> fr_reviewed_at g)\<rparr>)"

definition previous_scan :: "job_row \<Rightarrow> privacy_db \<Rightarrow> uuid option" where
  "previous_scan job db = map_option jb_id (latest (filter (\<lambda>j. jb_state j = SComplete \<and> jb_id j \<noteq> jb_id job)
     (apply_jobs db (jb_tenant job) (jb_snapshot job))))"

text \<open>The CHECK of migration 019 and the primary key; a violation rolls the publication back.\<close>

definition findings_insertable :: "privacy_db \<Rightarrow> find_row list \<Rightarrow> bool" where
  "findings_insertable db rows \<longleftrightarrow> \<not> any_of (\<lambda>f. fr_observed f < fr_matched f) rows
     \<and> distinct (map fr_id rows) \<and> \<not> any_of (\<lambda>f. fr_id f \<in> set (map fr_id (pd_findings db))) rows"

definition applied_json :: "job_row \<Rightarrow> nat \<Rightarrow> int \<Rightarrow> json" where
  "applied_json job n version = JObj [(u ''scan_id'', JStr (uuid_str (jb_id job))), (u ''config_version'', JInt (jb_config_version job)),
     (u ''finding_count'', JInt (int n)), (u ''version'', JInt version)]"

definition write_findings :: "(ustr \<Rightarrow> uuid) \<Rightarrow> job_row \<Rightarrow> uuid \<Rightarrow> finding list \<Rightarrow> privacy_db \<Rightarrow> string + privacy_db" where
  "write_findings uuid5 job a findings db =
     (let rows = map (finding_row_of uuid5 job (previous_scan job db) db) findings
      in if \<not> findings_insertable db rows then Inl ''IntegrityError''
         else let db1 = bump_revision (jb_tenant job) a (db\<lparr>pd_findings := pd_findings db @ rows\<rparr>);
                  version = revision_of db1 (jb_tenant job) a
              in Inr (log_event \<lparr>ev_tenant = jb_tenant job, ev_asset = Some a, ev_snapshot = Some (jb_snapshot job),
                   ev_actor = jb_requested_by job, ev_action = u ''PRIVACY_SCAN_APPLIED'',
                   ev_before = Some (JObj [(u ''version'', JInt (version - 1))]),
                   ev_after = Some (applied_json job (length rows) version), ev_reason = None\<rparr> db1))"

definition completed_job :: "json \<Rightarrow> job_row \<Rightarrow> job_row" where
  "completed_job summary j = j\<lparr>jb_state := SComplete, jb_summary := Some summary, jb_owner := None, jb_expires := None,
     jb_error := None\<rparr>"

definition update_tenant_job :: "uuid \<Rightarrow> uuid \<Rightarrow> (job_row \<Rightarrow> job_row) \<Rightarrow> privacy_db \<Rightarrow> privacy_db" where
  "update_tenant_job t sid f db =
     db\<lparr>pd_jobs := map (\<lambda>j. if jb_tenant j = t \<and> jb_id j = sid then f j else j) (pd_jobs db)\<rparr>"

definition publish :: "number_text \<Rightarrow> (ustr \<Rightarrow> uuid) \<Rightarrow> ident \<Rightarrow> timestamp \<Rightarrow> job_row \<Rightarrow> scan_report \<Rightarrow> privacy_db \<Rightarrow>
    string + bool \<times> privacy_db" where
  "publish nt uuid5 worker now job r db =
     (let l = lock_fenced worker now job db in
      case fst l of
        None \<Rightarrow> Inr (False, snd l)
      | Some a \<Rightarrow>
          (case (if jb_purpose job = Apply then write_findings uuid5 job a (sr_findings r) (snd l) else Inr (snd l)) of
             Inl e \<Rightarrow> Inl e
           | Inr db1 \<Rightarrow> Inr (True, update_tenant_job (jb_tenant job) (jb_id job)
                           (completed_job (build_summary nt r (jb_purpose job))) db1)))"

definition transient_code :: "ident \<Rightarrow> bool" where
  "transient_code code \<longleftrightarrow> code = u ''STORAGE_UNAVAILABLE'' \<or> code = u ''PRIVACY_SCAN_FAILED''"

definition failed_json :: "job_row \<Rightarrow> ident \<Rightarrow> json" where
  "failed_json job code = JObj [(u ''scan_id'', JStr (uuid_str (jb_id job))), (u ''error_code'', JStr code)]"

definition settled_job :: "bool \<Rightarrow> ident \<Rightarrow> job_row \<Rightarrow> job_row" where
  "settled_job requeue code j =
     (if requeue then j\<lparr>jb_state := SQueued, jb_owner := None, jb_expires := None\<rparr>
      else j\<lparr>jb_state := SFailed, jb_error := Some code, jb_summary := None, jb_owner := None, jb_expires := None\<rparr>)"

definition fail_scan :: "ident \<Rightarrow> timestamp \<Rightarrow> job_row \<Rightarrow> ident \<Rightarrow> privacy_db \<Rightarrow> bool \<times> privacy_db" where
  "fail_scan worker now job code db =
     (let requeue = transient_code code \<and> jb_attempts job < MAX_ATTEMPTS;
          f = fenced worker now (jb_tenant job) (jb_id job) (jb_generation job);
          changed = any_of f (pd_jobs db);
          db1 = db\<lparr>pd_jobs := map (\<lambda>j. if f j then settled_job requeue code j else j) (pd_jobs db)\<rparr>
      in (changed, if changed \<and> \<not> requeue
                   then log_event \<lparr>ev_tenant = jb_tenant job, ev_asset = None, ev_snapshot = Some (jb_snapshot job),
                          ev_actor = jb_requested_by job, ev_action = u ''PRIVACY_SCAN_FAILED'', ev_before = None,
                          ev_after = Some (failed_json job code), ev_reason = None\<rparr> db1
                   else db1))"

text \<open>\<open>process_job\<close>; \<open>scan\<close> is the scan of the snapshot outside any transaction: a report or a failure code.
  The publication and a following failure are separate transactions, at times \<open>now\<close> and \<open>now2\<close>.\<close>

definition process_job :: "number_text \<Rightarrow> (ustr \<Rightarrow> uuid) \<Rightarrow> ident \<Rightarrow> timestamp \<Rightarrow> timestamp \<Rightarrow> job_row \<Rightarrow>
    (job_row \<Rightarrow> psnap_row \<Rightarrow> ident + scan_report) \<Rightarrow> privacy_db \<Rightarrow> bool \<times> privacy_db" where
  "process_job nt uuid5 worker now now2 job scan db =
     (if MAX_ATTEMPTS < jb_attempts job then fail_scan worker now job (u ''PRIVACY_SCAN_FAILED'') db
      else case find_snapshot db (jb_tenant job) (jb_snapshot job) of
        None \<Rightarrow> fail_scan worker now job (u ''SNAPSHOT_REIMPORT_REQUIRED'') db
      | Some r \<Rightarrow>
          (case scan job r of
             Inl code \<Rightarrow> fail_scan worker now job code db
           | Inr report \<Rightarrow>
               (case publish nt uuid5 worker now job report db of
                  Inl e \<Rightarrow> fail_scan worker now2 job (u ''PRIVACY_SCAN_FAILED'') db
                | Inr res \<Rightarrow> res)))"

end
