(* ===== verification/PrivacyGuarantees.thy ===== *)
theory PrivacyGuarantees
  imports PrivacyScan
begin

text \<open>
  What the privacy tables promise under every sequence of calls (\<open>privacy_call\<close>): masking fails closed while no
  verified scan with the current rules exists, and what a scan published stays masked.
\<close>

subsection \<open>Calls\<close>

record privacy_env =
  pv_nt :: number_text
  pv_sha :: "ustr \<Rightarrow> ustr"
  pv_uuid5 :: "ustr \<Rightarrow> uuid"
  pv_rule_id :: "uuid \<Rightarrow> ident \<Rightarrow> uuid"

datatype privacy_call =
    Review timestamp uuid uuid uuid ident ident ustr
  | SetPolicy uuid uuid uuid int "ident list"
  | Classify uuid uuid uuid uuid int "class_change list"
  | CreateRule uuid uuid uuid rule_create
  | UpdateRule uuid uuid uuid rule_update
  | RequestScan timestamp uuid uuid uuid uuid scan_request
  | ClaimScan ident timestamp int
  | BeatScan ident timestamp int uuid uuid int
  | PublishScan ident timestamp job_row scan_report
  | FailScan ident timestamp job_row ident

definition after :: "privacy_db \<Rightarrow> string + 'a \<times> privacy_db \<Rightarrow> privacy_db" where
  "after db r = (case r of Inl e \<Rightarrow> db | Inr x \<Rightarrow> snd x)"

fun call :: "privacy_env \<Rightarrow> privacy_call \<Rightarrow> privacy_db \<Rightarrow> privacy_db" where
  "call ev (Review now user t fid old new reason) db = after db (update_finding_status now user t fid old new reason db)"
| "call ev (SetPolicy user t a n cats) db = after db (update_asset_protection_policy user t a n cats db)"
| "call ev (Classify user t a s n chs) db = after db (update_classifications user t a s n chs db)"
| "call ev (CreateRule fresh user t p) db = after db (create_rule (pv_rule_id ev) fresh user t p db)"
| "call ev (UpdateRule user t rid upd) db = after db (update_rule (pv_rule_id ev) user t rid upd db)"
| "call ev (RequestScan now sid user t s q) db = after db (create_scan (pv_nt ev) (pv_sha ev) (pv_rule_id ev) now sid user t s q db)"
| "call ev (ClaimScan worker now secs) db = snd (claim_next_job worker now secs db)"
| "call ev (BeatScan worker now secs t sid gen) db = snd (scan_heartbeat worker now secs t sid gen db)"
| "call ev (PublishScan worker now job r) db = after db (publish (pv_nt ev) (pv_uuid5 ev) worker now job r db)"
| "call ev (FailScan worker now job code) db = snd (fail_scan worker now job code db)"

lemma after_simps [simp]: "after db (Inl e) = db" "after db (Inr (x, db')) = db'"
  by (simp_all add: after_def)

lemma after_cases: "(after db r = db \<Longrightarrow> P db) \<Longrightarrow> (\<And>x db'. r = Inr (x, db') \<Longrightarrow> P db') \<Longrightarrow> P (after db r)"
  by (cases r) (auto simp: after_def)

subsection \<open>Revisions\<close>

lemma revision_ensure [simp]: "revision_of (ensure_revision t a db) t' a' = revision_of db t' a'"
  by (auto simp: revision_of_def ensure_revision_def dict_get_def map_add_def split: option.splits)

lemma revision_bump: "revision_of (bump_revision t a db) t' a' =
    (if (t', a') = (t, a) \<and> map_of (pd_revisions db) (t, a) \<noteq> None then revision_of db t a + 1 else revision_of db t' a')"
  by (auto simp: revision_of_def bump_revision_def update_conv' dict_get_def)

lemma ensure_frame [simp]:
  "pd_assets (ensure_revision t a db) = pd_assets db" "pd_snapshots (ensure_revision t a db) = pd_snapshots db"
  "pd_classes (ensure_revision t a db) = pd_classes db" "pd_findings (ensure_revision t a db) = pd_findings db"
  "pd_jobs (ensure_revision t a db) = pd_jobs db" "pd_configs (ensure_revision t a db) = pd_configs db"
  "pd_rules (ensure_revision t a db) = pd_rules db" "pd_policies (ensure_revision t a db) = pd_policies db"
  by (simp_all add: ensure_revision_def)

lemma bump_frame [simp]:
  "pd_assets (bump_revision t a db) = pd_assets db" "pd_snapshots (bump_revision t a db) = pd_snapshots db"
  "pd_classes (bump_revision t a db) = pd_classes db" "pd_findings (bump_revision t a db) = pd_findings db"
  "pd_jobs (bump_revision t a db) = pd_jobs db" "pd_configs (bump_revision t a db) = pd_configs db"
  "pd_rules (bump_revision t a db) = pd_rules db" "pd_policies (bump_revision t a db) = pd_policies db"
  by (simp_all add: bump_revision_def)

lemma log_frame [simp]:
  "pd_assets (log_event e db) = pd_assets db" "pd_snapshots (log_event e db) = pd_snapshots db"
  "pd_classes (log_event e db) = pd_classes db" "pd_findings (log_event e db) = pd_findings db"
  "pd_jobs (log_event e db) = pd_jobs db" "pd_configs (log_event e db) = pd_configs db"
  "pd_rules (log_event e db) = pd_rules db" "pd_revisions (log_event e db) = pd_revisions db"
  "pd_policies (log_event e db) = pd_policies db"
  by (simp_all add: log_event_def)

lemma revision_cong: "pd_revisions db' = pd_revisions db \<Longrightarrow> revision_of db' t a = revision_of db t a"
  by (simp add: revision_of_def)

lemma revision_log [simp]: "revision_of (log_event e db) t a = revision_of db t a"
  by (rule revision_cong) simp

lemma ensured_some: "map_of (pd_revisions (ensure_revision t a db)) (t, a) \<noteq> None"
  by (cases "map_of (pd_revisions db) (t, a)") (simp_all add: ensure_revision_def map_add_def)

lemma bump_ge: "revision_of db t a \<le> revision_of (bump_revision t' a' db) t a"
  by (simp add: revision_bump)

lemma insert_rule_frame:
  assumes "insert_rule b t r db = Inr db'"
  shows "pd_revisions db' = pd_revisions db" "pd_jobs db' = pd_jobs db" "pd_configs db' = pd_configs db"
    "pd_findings db' = pd_findings db" "pd_snapshots db' = pd_snapshots db" "pd_classes db' = pd_classes db"
  using assms by (auto simp: insert_rule_def Let_def split: if_splits)

lemma seed_frame:
  "seed_rules t rs db = Inr db' \<Longrightarrow> pd_revisions db' = pd_revisions db \<and> pd_jobs db' = pd_jobs db \<and> pd_configs db' = pd_configs db
   \<and> pd_findings db' = pd_findings db \<and> pd_snapshots db' = pd_snapshots db \<and> pd_classes db' = pd_classes db"
proof (induction rs arbitrary: db)
  case (Cons r rs)
  then obtain db1 where 1: "insert_rule True t r db = Inr db1" "seed_rules t rs db1 = Inr db'" by (auto split: sum.splits)
  with Cons.IH [OF 1(2)] insert_rule_frame [OF 1(1)] show ?case by simp
qed simp

lemma init_frame:
  assumes "ensure_initialized bid t db = Inr db'"
  shows "pd_revisions db' = pd_revisions db" "pd_jobs db' = pd_jobs db" "pd_findings db' = pd_findings db"
    "pd_snapshots db' = pd_snapshots db" "pd_classes db' = pd_classes db"
    "pd_configs db' = (if map_of (pd_configs db) t = None then pd_configs db @ [(t, 1)] else pd_configs db)"
  using assms by (auto simp: ensure_initialized_def split: if_splits sum.splits dest: seed_frame)

lemma create_rule_result:
  assumes "create_rule bid fresh user t p db = Inr (r, db')"
  obtains db0 db1 e where "ensure_initialized bid t db = Inr db0" "\<not> any_of (\<lambda>q. pr_code q = rc_code p) (tenant_rules db0 t)"
    "rc_enabled p \<Longrightarrow> enabled_count db0 t < MAX_ENABLED_RULES" "insert_rule False t (created_rule fresh p) db0 = Inr db1"
    "db' = log_event e (bump_config t (config_version db0 t) db1)"
  using assms by (auto simp: create_rule_def Let_def not_le split: sum.splits if_splits)

lemma update_rule_result:
  assumes "update_rule bid user t rid upd db = Inr (r, db')"
  obtains db0 db1 e p where "ensure_initialized bid t db = Inr db0" "latest_rule db0 t rid = Some p"
    "ru_enabled upd \<Longrightarrow> \<not> pr_enabled p \<Longrightarrow> enabled_count db0 t < MAX_ENABLED_RULES"
    "insert_rule False t (revised p upd) db0 = Inr db1" "db' = log_event e (bump_config t (config_version db0 t) db1)"
  using assms by (auto simp: update_rule_def Let_def not_le split: sum.splits if_splits option.splits)

lemma bump_config_frame [simp]:
  "pd_revisions (bump_config t v db) = pd_revisions db" "pd_jobs (bump_config t v db) = pd_jobs db"
  "pd_rules (bump_config t v db) = pd_rules db" "pd_findings (bump_config t v db) = pd_findings db"
  "pd_snapshots (bump_config t v db) = pd_snapshots db" "pd_classes (bump_config t v db) = pd_classes db"
  "pd_configs (bump_config t v db) = AList.update t (v + 1) (pd_configs db)"
  by (simp_all add: bump_config_def)

lemma create_scan_result:
  assumes "create_scan nt sha bid now sid user t s q db = Inr (j, db')"
  obtains (existing) a where "db' = ensure_revision t a db" "j \<in> set (pd_jobs db)"
  | (queued) a db1 pinned pin db2 where "load_pinned_rules nt sha bid t (ensure_revision t a db) = Inr (pinned, db1)"
      "sid \<notin> set (map jb_id (pd_jobs db1))" "j = queued_job now sid t s user (rq_purpose q) pin"
      "pin_config_version pin = pin_config_version pinned" "db2 = db1\<lparr>pd_jobs := pd_jobs db1 @ [j]\<rparr>"
      "db' = db2 \<or> db' = bump_revision t a db2"
proof -
  obtain r where r: "find_snapshot db t s = Some r" using assms by (auto simp: create_scan_def split: option.splits)
  let ?db = "ensure_revision t (ps_asset r) db"
  let ?p = "\<lambda>j. jb_tenant j = t \<and> jb_snapshot j = s \<and> jb_purpose j = rq_purpose q \<and> unfinished j"
  show thesis
  proof (cases "find ?p (pd_jobs db)")
    case (Some k)
    then have "k \<in> set (pd_jobs db)" by (auto simp: find_Some_iff)
    with assms r Some show thesis by (intro existing [of "ps_asset r"]) (auto simp: create_scan_def Let_def split: if_splits)
  next
    case None
    have vs: "pin_rules nt sha rs v = Inr pin \<Longrightarrow> pin_config_version pin = v" for rs v pin
      by (auto simp: pin_rules_def split: sum.splits)
    from assms r None obtain pinned db1 pin where 1: "load_pinned_rules nt sha bid t ?db = Inr (pinned, db1)"
      "sid \<notin> set (map jb_id (pd_jobs db1))" "j = queued_job now sid t s user (rq_purpose q) pin"
      "pin = pinned \<or> (\<exists>d. pin_rules nt sha [d] (pin_config_version pinned) = Inr pin)"
      "db' = (if rq_purpose q = Apply then bump_revision t (ps_asset r) (db1\<lparr>pd_jobs := pd_jobs db1 @ [j]\<rparr>)
              else db1\<lparr>pd_jobs := pd_jobs db1 @ [j]\<rparr>)"
      by (auto simp: create_scan_def Let_def split: sum.splits prod.splits if_splits option.splits)
    have "pin_config_version pin = pin_config_version pinned" using 1(4) vs by auto
    with 1 show thesis by (intro queued [of "ps_asset r" pinned db1 pin]) auto
  qed
qed

lemma load_pinned_result:
  assumes "load_pinned_rules nt sha bid t db = Inr (pinned, db')"
  shows "ensure_initialized bid t db = Inr db'" "pin_config_version pinned = config_version db' t"
  using assms by (auto simp: load_pinned_rules_def pin_rules_def split: sum.splits)

subsection \<open>Concurrent edits\<close>

definition newer :: "privacy_db \<Rightarrow> privacy_db \<Rightarrow> bool" where
  "newer db db' \<longleftrightarrow> (\<forall>t a. revision_of db t a \<le> revision_of db' t a)"

lemma newer_refl [simp]: "newer db db"
  by (simp add: newer_def)

lemma newer_trans: "newer a b \<Longrightarrow> newer b c \<Longrightarrow> newer a c"
  unfolding newer_def by (meson order_trans)

lemma newer_cong: "pd_revisions db' = pd_revisions db \<Longrightarrow> newer db db'"
  by (simp add: newer_def revision_of_def)

lemma newer_ensure [simp]: "newer db (ensure_revision t a db)"
  by (simp add: newer_def)

lemma newer_bump: "newer db db' \<Longrightarrow> newer db (bump_revision t a db')"
  unfolding newer_def using bump_ge order_trans by blast

lemma newer_log: "newer db db' \<Longrightarrow> newer db (log_event e db')"
  by (simp add: newer_def)

lemma newer_same: "newer db db' \<Longrightarrow> pd_revisions db'' = pd_revisions db' \<Longrightarrow> newer db db''"
  using newer_cong newer_trans by blast

lemma fold_changes_revisions: "pd_revisions (fold (apply_change user t a s v) chs db) = pd_revisions db"
  by (induction chs arbitrary: db) (auto simp: apply_change_def Let_def split: option.split)

lemma newer_review: "newer db (after db (update_finding_status now user t fid old new reason db))"
proof (rule after_cases, simp)
  fix x db' assume "update_finding_status now user t fid old new reason db = Inr (x, db')"
  then obtain a f e where "db' = log_event e (bump_revision t a (ensure_revision t a db\<lparr>pd_findings := f\<rparr>))"
    by (auto simp: update_finding_status_def Let_def split: option.splits if_splits)
  then show "newer db db'" by (simp add: newer_log newer_bump newer_same [OF newer_ensure])
qed

lemma policy_result:
  assumes "update_asset_protection_policy user t a n cats db = Inr (x, db')"
  obtains ps e where "revision_of db t a = n" "db' = log_event e (bump_revision t a (ensure_revision t a db\<lparr>pd_policies := ps\<rparr>))"
  using assms by (auto simp: update_asset_protection_policy_def Let_def split: sum.splits if_splits)

lemma classify_result:
  assumes "update_classifications user t a s n chs db = Inr (x, db')"
  obtains v where "revision_of db t a = n"
    "db' = bump_revision t a (fold (apply_change user t a s v) chs (ensure_revision t a db))"
  using assms by (auto simp: update_classifications_def Let_def split: sum.splits if_splits option.splits)

lemma write_findings_result:
  assumes "write_findings uuid5 job a fs db = Inr db'"
  obtains e where "db' = log_event e (bump_revision (jb_tenant job) a (db\<lparr>pd_findings := pd_findings db
      @ map (finding_row_of uuid5 job (previous_scan job db) db) fs\<rparr>))"
    "findings_insertable db (map (finding_row_of uuid5 job (previous_scan job db) db) fs)"
  using assms by (auto simp: write_findings_def Let_def split: if_splits)

lemma lock_fenced_result:
  obtains (lost) "fst (lock_fenced worker now job db) = None" "snd (lock_fenced worker now job db) = db
      \<or> (\<exists>a. snd (lock_fenced worker now job db) = ensure_revision (jb_tenant job) a db)"
  | (held) r where "find_snapshot db (jb_tenant job) (jb_snapshot job) = Some r"
      "fst (lock_fenced worker now job db) = Some (ps_asset r)"
      "snd (lock_fenced worker now job db) = ensure_revision (jb_tenant job) (ps_asset r) db"
      "\<exists>j \<in> set (pd_jobs db). fenced worker now (jb_tenant job) (jb_id job) (jb_generation job) j"
proof (cases "find_snapshot db (jb_tenant job) (jb_snapshot job)")
  case None
  then show thesis by (intro lost) (simp_all add: lock_fenced_def)
next
  case (Some r)
  show thesis
  proof (cases "\<exists>j \<in> set (pd_jobs db). fenced worker now (jb_tenant job) (jb_id job) (jb_generation job) j")
    case True
    with Some show thesis by (intro held [of r]) (auto simp: lock_fenced_def Let_def any_of_iff)
  next
    case False
    with Some show thesis by (intro lost) (auto simp: lock_fenced_def Let_def any_of_iff)
  qed
qed

lemma publish_result:
  assumes "publish nt uuid5 worker now job r db = Inr (b, db')"
  obtains (lost) "b = False" "db' = db \<or> (\<exists>a. db' = ensure_revision (jb_tenant job) a db)"
  | (published) s db1 where "b = True" "find_snapshot db (jb_tenant job) (jb_snapshot job) = Some s"
      "\<exists>j \<in> set (pd_jobs db). fenced worker now (jb_tenant job) (jb_id job) (jb_generation job) j"
      "jb_purpose job = Apply \<Longrightarrow>
         write_findings uuid5 job (ps_asset s) (sr_findings r) (ensure_revision (jb_tenant job) (ps_asset s) db) = Inr db1"
      "jb_purpose job \<noteq> Apply \<Longrightarrow> db1 = ensure_revision (jb_tenant job) (ps_asset s) db"
      "db' = update_tenant_job (jb_tenant job) (jb_id job) (completed_job (build_summary nt r (jb_purpose job))) db1"
proof (cases rule: lock_fenced_result [of worker now job db])
  case lost': lost
  with assms lost show thesis by (auto simp: publish_def Let_def)
next
  case (held s)
  with assms published show thesis by (auto simp: publish_def Let_def split: sum.splits if_splits)
qed

lemma update_tenant_job_frame [simp]:
  "pd_revisions (update_tenant_job t sid f db) = pd_revisions db" "pd_findings (update_tenant_job t sid f db) = pd_findings db"
  "pd_configs (update_tenant_job t sid f db) = pd_configs db" "pd_rules (update_tenant_job t sid f db) = pd_rules db"
  "pd_snapshots (update_tenant_job t sid f db) = pd_snapshots db" "pd_classes (update_tenant_job t sid f db) = pd_classes db"
  by (simp_all add: update_tenant_job_def)

lemma newer_publish: "newer db (after db (publish nt uuid5 worker now job r db))"
proof (rule after_cases, simp)
  fix b db' assume "publish nt uuid5 worker now job r db = Inr (b, db')"
  then show "newer db db'"
  proof (cases rule: publish_result)
    case lost
    then show ?thesis by auto
  next
    case (published s db1)
    have "newer db db1"
    proof (cases "jb_purpose job = Apply")
      case True
      obtain e fs where "db1 = log_event e (bump_revision (jb_tenant job) (ps_asset s)
          (ensure_revision (jb_tenant job) (ps_asset s) db\<lparr>pd_findings := fs\<rparr>))"
        using write_findings_result [OF published(4) [OF True]] by metis
      then show ?thesis by (simp add: newer_log newer_bump newer_same [OF newer_ensure])
    qed (use published(5) in simp)
    with published(6) show ?thesis by (simp add: newer_same)
  qed
qed

lemma fail_revisions: "pd_revisions (snd (fail_scan worker now job code db)) = pd_revisions db"
  by (simp add: fail_scan_def Let_def)

lemma call_newer: "newer db (call ev c db)"
proof (cases c)
  case (Review now user t fid old new reason)
  then show ?thesis by (simp add: newer_review)
next
  case (SetPolicy user t a n cats)
  have "newer db (after db (update_asset_protection_policy user t a n cats db))"
    by (rule after_cases, simp) (auto elim!: policy_result simp: newer_log newer_bump newer_same [OF newer_ensure])
  with SetPolicy show ?thesis by simp
next
  case (Classify user t a s n chs)
  have "newer db (after db (update_classifications user t a s n chs db))"
  proof (rule after_cases, simp)
    fix x db' assume "update_classifications user t a s n chs db = Inr (x, db')"
    then obtain v where "db' = bump_revision t a (fold (apply_change user t a s v) chs (ensure_revision t a db))"
      by (rule classify_result)
    then show "newer db db'" by (simp add: newer_bump newer_same [OF newer_ensure] fold_changes_revisions)
  qed
  with Classify show ?thesis by simp
next
  case (CreateRule fresh user t p)
  have "newer db (after db (create_rule (pv_rule_id ev) fresh user t p db))"
    by (rule after_cases, simp) (auto elim!: create_rule_result intro!: newer_cong simp: insert_rule_frame init_frame)
  with CreateRule show ?thesis by simp
next
  case (UpdateRule user t rid upd)
  have "newer db (after db (update_rule (pv_rule_id ev) user t rid upd db))"
    by (rule after_cases, simp) (auto elim!: update_rule_result intro!: newer_cong simp: insert_rule_frame init_frame)
  with UpdateRule show ?thesis by simp
next
  case (RequestScan now sid user t s q)
  have "newer db (after db (create_scan (pv_nt ev) (pv_sha ev) (pv_rule_id ev) now sid user t s q db))"
  proof (rule after_cases, simp)
    fix j db' assume "create_scan (pv_nt ev) (pv_sha ev) (pv_rule_id ev) now sid user t s q db = Inr (j, db')"
    then show "newer db db'"
    proof (cases rule: create_scan_result)
      case (queued a db1 pinned pin db2)
      have "newer db db2" using load_pinned_result(1) [OF queued(1)] queued(5) by (auto intro!: newer_same [OF newer_ensure] simp: init_frame)
      with queued(6) newer_bump show ?thesis by auto
    qed auto
  qed
  with RequestScan show ?thesis by simp
next
  case (ClaimScan worker now secs)
  then show ?thesis by (auto simp: claim_next_job_def update_job_def intro!: newer_cong split: list.split)
next
  case (BeatScan worker now secs t sid gen)
  then show ?thesis by (auto simp: scan_heartbeat_def Let_def intro!: newer_cong)
next
  case (PublishScan worker now job r)
  then show ?thesis by (simp add: newer_publish)
next
  case (FailScan worker now job code)
  then show ?thesis by (simp add: newer_cong fail_revisions)
qed

lemma calls_newer: "newer db (fold (call ev) cs db)"
proof (induction cs arbitrary: db)
  case (Cons c cs)
  have "newer db (fold (call ev) cs (call ev c db))" by (rule newer_trans [OF call_newer Cons.IH])
  then show ?case by simp
qed simp

text \<open>An edit of the masking of an asset that names the version it was made for, and whether it is accepted.\<close>

fun edit_of :: "privacy_call \<Rightarrow> ((uuid \<times> uuid) \<times> int) option" where
  "edit_of (SetPolicy user t a n cats) = Some ((t, a), n)"
| "edit_of (Classify user t a s n chs) = Some ((t, a), n)"
| "edit_of c = None"

fun accepted :: "privacy_call \<Rightarrow> privacy_db \<Rightarrow> bool" where
  "accepted (SetPolicy user t a n cats) db = (case update_asset_protection_policy user t a n cats db of Inl e \<Rightarrow> False | Inr x \<Rightarrow> True)"
| "accepted (Classify user t a s n chs) db = (case update_classifications user t a s n chs db of Inl e \<Rightarrow> False | Inr x \<Rightarrow> True)"
| "accepted c db = True"

lemma accepted_edit:
  assumes "accepted c db" "edit_of c = Some ((t, a), n)"
  shows "revision_of db t a = n \<and> n < revision_of (call ev c db) t a"
proof (cases c)
  case (SetPolicy user t' a' n' cats)
  with assms obtain x db' where r: "update_asset_protection_policy user t a n cats db = Inr (x, db')" by (auto split: sum.splits)
  from policy_result [OF r] obtain ps e where
    "revision_of db t a = n" "db' = log_event e (bump_revision t a (ensure_revision t a db\<lparr>pd_policies := ps\<rparr>))" .
  moreover have "revision_of (ensure_revision t a db\<lparr>pd_policies := ps\<rparr>) t a = revision_of db t a"
    by (metis revision_cong revision_ensure privacy_db.select_convs(8) privacy_db.surjective privacy_db.update_convs(9))
  ultimately show ?thesis using SetPolicy assms(2) r ensured_some [of t a db] by (simp add: revision_bump)
next
  case (Classify user t' a' s n' chs)
  with assms obtain x db' where r: "update_classifications user t a s n chs db = Inr (x, db')" by (auto split: sum.splits)
  from classify_result [OF r] obtain v where 1: "revision_of db t a = n"
    "db' = bump_revision t a (fold (apply_change user t a s v) chs (ensure_revision t a db))" .
  have "revision_of (fold (apply_change user t a s v) chs (ensure_revision t a db)) t a = revision_of db t a"
    using revision_cong [OF fold_changes_revisions] by simp
  with 1 show ?thesis using Classify assms(2) r ensured_some [of t a db]
    by (simp add: revision_bump fold_changes_revisions)
qed (use assms in auto)

text \<open>No lost update: of two edits of the masking of one asset (policy or classifications) made for the same
  version, the second is refused, whatever calls happen between them.\<close>

theorem lost_update_prevented:
  assumes "accepted c db" "edit_of c = Some ((t, a), n)" "edit_of c' = Some ((t, a), n)"
  shows "\<not> accepted c' (fold (call ev) cs (call ev c db))"
proof
  let ?db = "fold (call ev) cs (call ev c db)"
  assume "accepted c' ?db"
  from accepted_edit [OF this assms(3)] have "revision_of ?db t a = n" by simp
  moreover have "n < revision_of (call ev c db) t a" using accepted_edit [OF assms(1,2)] by simp
  moreover have "revision_of (call ev c db) t a \<le> revision_of ?db t a" using calls_newer by (simp add: newer_def)
  ultimately show False by simp
qed

subsection \<open>What is protected\<close>

lemma resolve_result:
  assumes "resolve_snapshot_protection db t s = Inr sp"
  obtains r status stale names where "find_snapshot db t s = Some r" "scan_state_of db t s (ps_manifest r) = Inr (status, stale)"
    "column_names (ps_schema r) = Inr names" "sp_scan_status sp = status" "sp_scan_stale sp = stale"
    "sp_asset_id sp = ps_asset r"
    "sp_columns sp = map (\<lambda>n. column_protection_of (find_class db t (ps_asset r) n) (detected_categories db t s n)
        (status = u ''COMPLETE'' \<and> \<not> stale) n) names"
    "sp_protected_columns sp = map cp_column_name (filter cp_protected (sp_columns sp))"
  using assms by (auto simp: resolve_snapshot_protection_def Let_def split: option.splits sum.splits prod.splits)

lemma protection_name [simp]: "cp_column_name (column_protection_of d fs v n) = n"
  by (simp add: column_protection_of_def Let_def)

lemma unprotected_iff: "\<not> cp_protected (column_protection_of d fs v n) \<longleftrightarrow>
    v \<and> fs = [] \<and> (\<forall>c. d = Some c \<longrightarrow> cl_category c \<notin> set SENSITIVE_CATEGORIES)"
  by (auto simp: column_protection_of_def Let_def split: option.splits)

lemma unprotected_column:
  assumes "resolve_snapshot_protection db t s = Inr sp" "cp \<in> set (sp_columns sp)"
    "cp_column_name cp \<notin> set (sp_protected_columns sp)"
  shows "sp_scan_status sp = u ''COMPLETE'' \<and> \<not> sp_scan_stale sp \<and> detected_categories db t s (cp_column_name cp) = []
    \<and> (\<forall>c. find_class db t (sp_asset_id sp) (cp_column_name cp) = Some c \<longrightarrow> cl_category c \<notin> set SENSITIVE_CATEGORIES)"
proof (cases rule: resolve_result [OF assms(1)])
  case (1 r status stale names)
  then obtain n where n: "n \<in> set names" "cp = column_protection_of (find_class db t (ps_asset r) n) (detected_categories db t s n)
      (status = u ''COMPLETE'' \<and> \<not> stale) n" using assms(2) by auto
  have "\<not> cp_protected cp" using assms(2,3) 1(8) by auto
  with n 1 show ?thesis by (auto simp: unprotected_iff)
qed


subsection \<open>Publication protects\<close>

lemma latest_Some: "latest js = Some j \<Longrightarrow> j \<in> set js"
proof -
  assume "latest js = Some j"
  then obtain xs where "rev (sort_key (\<lambda>j. (jb_created_at j, jb_id j)) js) = j # xs" unfolding latest_def by (auto split: list.splits)
  then have "set (rev (sort_key (\<lambda>j. (jb_created_at j, jb_id j)) js)) = set (j # xs)" by (rule arg_cong)
  then show ?thesis by auto
qed

lemma latest_max: "latest js = Some j \<Longrightarrow> k \<in> set js \<Longrightarrow> (jb_created_at k, jb_id k) \<le> (jb_created_at j, jb_id j)"
proof -
  let ?f = "\<lambda>j. (jb_created_at j, jb_id j)"
  assume l: "latest js = Some j" and k: "k \<in> set js"
  then obtain xs where "rev (sort_key ?f js) = j # xs" unfolding latest_def by (auto split: list.splits)
  then have e: "sort_key ?f js = rev xs @ [j]" by (metis rev.simps(2) rev_rev_ident)
  have "sorted (map ?f (sort_key ?f js))" by simp
  then have "\<forall>x \<in> set xs. ?f x \<le> ?f j" unfolding e by (simp add: sorted_append)
  moreover have "k \<in> set (rev xs @ [j])" using k by (metis e set_sort)
  ultimately show ?thesis by auto
qed

lemma latest_exists: "js \<noteq> [] \<Longrightarrow> \<exists>j. latest js = Some j"
proof -
  assume "js \<noteq> []"
  then have "rev (sort_key (\<lambda>j. (jb_created_at j, jb_id j)) js) \<noteq> []" by (metis length_0_conv length_rev length_sort)
  then show ?thesis unfolding latest_def by (auto split: list.splits)
qed

text \<open>A job no other application of the same snapshot is newer than.\<close>

definition newest_apply :: "privacy_db \<Rightarrow> job_row \<Rightarrow> bool" where
  "newest_apply db job \<longleftrightarrow> distinct (map jb_id (pd_jobs db))
     \<and> (\<forall>k \<in> set (apply_jobs db (jb_tenant job) (jb_snapshot job)).
          jb_id k \<noteq> jb_id job \<longrightarrow> (jb_created_at k, jb_id k) < (jb_created_at job, jb_id job))"

lemma mem_nonempty: "x \<in> set xs \<Longrightarrow> xs \<noteq> []"
  by auto

lemma completed_latest:
  assumes "newest_apply db job" "j \<in> set (pd_jobs db)" "jb_id j = jb_id job" "jb_tenant j = jb_tenant job"
    "jb_snapshot j = jb_snapshot job" "jb_purpose j = Apply" "jb_created_at j = jb_created_at job"
    and "pd_jobs db' = map (\<lambda>j. if jb_tenant j = jb_tenant job \<and> jb_id j = jb_id job then completed_job sm j else j) (pd_jobs db)"
  shows "latest_complete db' (jb_tenant job) (jb_snapshot job) = Some (jb_id job)"
    "\<exists>k. latest (apply_jobs db' (jb_tenant job) (jb_snapshot job)) = Some k \<and> k = completed_job sm j"
proof -
  let ?g = "\<lambda>j. if jb_tenant j = jb_tenant job \<and> jb_id j = jb_id job then completed_job sm j else j"
  let ?c = "completed_job sm j" and ?js = "apply_jobs db' (jb_tenant job) (jb_snapshot job)"
  let ?done = "filter (\<lambda>j. jb_state j = SComplete) ?js"
  have g: "jb_id (?g k) = jb_id k" "jb_created_at (?g k) = jb_created_at k" "jb_tenant (?g k) = jb_tenant k"
    "jb_snapshot (?g k) = jb_snapshot k" "jb_purpose (?g k) = jb_purpose k" for k
    by (simp_all add: completed_job_def)
  have gj: "?g j = ?c" using assms(3,4) by simp
  have "?g j \<in> set (pd_jobs db')" unfolding assms(8) set_map by (rule imageI) (rule assms(2))
  then have "?c \<in> set (pd_jobs db')" unfolding gj .
  then have c: "?c \<in> set ?js" "?c \<in> set ?done" using assms(4-6) by (simp_all add: apply_jobs_def completed_job_def)
  have top: "k = ?c" if k: "k \<in> set ?js" "(jb_created_at ?c, jb_id ?c) \<le> (jb_created_at k, jb_id k)" for k
  proof -
    obtain k0 where k0: "k0 \<in> set (pd_jobs db)" "k = ?g k0" using k(1) unfolding apply_jobs_def assms(8) by auto
    have a: "k0 \<in> set (apply_jobs db (jb_tenant job) (jb_snapshot job))"
      using k(1) k0 g [of k0] unfolding apply_jobs_def assms(8) by simp
    have "jb_id k0 = jb_id job"
    proof (rule ccontr)
      assume "jb_id k0 \<noteq> jb_id job"
      with a assms(1) have "(jb_created_at k0, jb_id k0) < (jb_created_at job, jb_id job)" by (simp add: newest_apply_def)
      with k(2) k0(2) g [of k0] assms(3,7) show False by (auto simp: completed_job_def)
    qed
    with assms(1,2,3) k0(1) have "k0 = j" by (metis newest_apply_def distinct_map inj_onD)
    with k0(2) assms(3,4) show ?thesis by simp
  qed
  have "?done \<noteq> []" "?js \<noteq> []" by (rule mem_nonempty [OF c(2)]) (rule mem_nonempty [OF c(1)])
  then obtain k k' where k: "latest ?done = Some k" and k': "latest ?js = Some k'" using latest_exists by blast
  have "k = ?c" using top [of k] latest_Some [OF k] latest_max [OF k c(2)] by simp
  with k assms(3) show "latest_complete db' (jb_tenant job) (jb_snapshot job) = Some (jb_id job)"
    by (simp add: latest_complete_def completed_job_def)
  have "k' = ?c" using top [of k'] latest_Some [OF k'] latest_max [OF k' c(1)] by simp
  with k' show "\<exists>k. latest ?js = Some k \<and> k = ?c" by simp
qed

lemma publish_stored:
  assumes "publish nt uuid5 worker now job r db = Inr (True, db')" "jb_purpose job = Apply" "f \<in> set (sr_findings r)"
  shows "\<exists>db0. finding_row_of uuid5 job (previous_scan job db0) db0 f \<in> set (pd_findings db')
      \<and> pd_findings db0 = pd_findings db \<and> pd_jobs db0 = pd_jobs db
      \<and> pd_jobs db' = map (\<lambda>j. if jb_tenant j = jb_tenant job \<and> jb_id j = jb_id job
          then completed_job (build_summary nt r Apply) j else j) (pd_jobs db)"
  using assms(1)
proof (cases rule: publish_result)
  case (published s db1)
  let ?db0 = "ensure_revision (jb_tenant job) (ps_asset s) db"
  obtain e where "db1 = log_event e (bump_revision (jb_tenant job) (ps_asset s) (?db0\<lparr>pd_findings := pd_findings ?db0
      @ map (finding_row_of uuid5 job (previous_scan job ?db0) ?db0) (sr_findings r)\<rparr>))"
    by (rule write_findings_result [OF published(4) [OF assms(2)]])
  then have "pd_findings db1 = pd_findings db @ map (finding_row_of uuid5 job (previous_scan job ?db0) ?db0) (sr_findings r)"
    "pd_jobs db1 = pd_jobs db" by simp_all
  with published(6) assms(2,3) show ?thesis by (intro exI [of _ ?db0]) (simp add: update_tenant_job_def)
qed simp

text \<open>A review carried over from the previous scan dismissed the finding.\<close>

definition carried_dismissal :: "job_row \<Rightarrow> privacy_db \<Rightarrow> finding \<Rightarrow> bool" where
  "carried_dismissal job db f \<longleftrightarrow>
     (\<exists>g. decision_row job (previous_scan job db) db f = Some g \<and> fr_status g = u ''DISMISSED'')"

lemma previous_scan_cong: "pd_jobs db' = pd_jobs db \<Longrightarrow> previous_scan job db' = previous_scan job db"
  by (simp add: previous_scan_def apply_jobs_def)

lemma decision_row_cong: "pd_findings db' = pd_findings db \<Longrightarrow> decision_row job p db' f = decision_row job p db f"
  by (simp add: decision_row_def)

text \<open>C31: A published finding protects its column: after the newest scan of a snapshot was published, every schema
  column it reports is masked, unless a steward dismissed the very finding of the same rule revision before.\<close>

theorem published_findings_protect:
  assumes "publish nt uuid5 worker now job r db = Inr (True, db')" "jb_purpose job = Apply" "newest_apply db job"
    and "j \<in> set (pd_jobs db)" "jb_id j = jb_id job" "jb_tenant j = jb_tenant job" "jb_snapshot j = jb_snapshot job"
    "jb_purpose j = Apply" "jb_created_at j = jb_created_at job"
    and "f \<in> set (sr_findings r)" "\<not> carried_dismissal job db f"
    and "resolve_snapshot_protection db' (jb_tenant job) (jb_snapshot job) = Inr sp"
    "cp \<in> set (sp_columns sp)" "cp_column_name cp = fi_column_name f"
  shows "fi_column_name f \<in> set (sp_protected_columns sp)"
proof (rule ccontr)
  assume "fi_column_name f \<notin> set (sp_protected_columns sp)"
  with unprotected_column [OF assms(12,13)] assms(14)
  have none: "detected_categories db' (jb_tenant job) (jb_snapshot job) (fi_column_name f) = []" by simp
  obtain db0 where db0: "finding_row_of uuid5 job (previous_scan job db0) db0 f \<in> set (pd_findings db')"
    "pd_findings db0 = pd_findings db" "pd_jobs db0 = pd_jobs db"
    and jobs: "pd_jobs db' = map (\<lambda>j. if jb_tenant j = jb_tenant job \<and> jb_id j = jb_id job
        then completed_job (build_summary nt r Apply) j else j) (pd_jobs db)"
    using publish_stored [OF assms(1,2,10)] by blast
  let ?row = "finding_row_of uuid5 job (previous_scan job db0) db0 f"
  let ?d = "decision_row job (previous_scan job db0) db0 f"
  have d: "?d = decision_row job (previous_scan job db) db f"
    using previous_scan_cong [OF db0(3), of job] decision_row_cong [OF db0(2), of job "previous_scan job db" f] by simp
  have row: "fr_tenant ?row = jb_tenant job" "fr_snapshot ?row = jb_snapshot job" "fr_column ?row = fi_column_name f"
    "fr_scan ?row = Some (jb_id job)" "fr_status ?row = (case ?d of None \<Rightarrow> u ''DETECTED'' | Some g \<Rightarrow> fr_status g)"
    by (simp_all add: finding_row_of_def Let_def)
  have "fr_status ?row \<noteq> u ''DISMISSED''"
  proof (cases ?d)
    case (Some g)
    then have "decision_row job (previous_scan job db) db f = Some g" using d by simp
    then have "fr_status g \<noteq> u ''DISMISSED''" using assms(11) unfolding carried_dismissal_def by blast
    then show ?thesis unfolding row(5) Some by simp
  qed (simp add: row(5))
  moreover have "active_finding db' ?row"
    using completed_latest(1) [OF assms(3-9) jobs] row by (simp add: active_finding_def)
  ultimately have "fr_category ?row \<in> set (detected_categories db' (jb_tenant job) (jb_snapshot job) (fi_column_name f))"
    using db0(1) row unfolding detected_categories_def by (auto intro!: imageI)
  with none show False by simp
qed

end
