(* ===== verification/PrivacyJobs.thy ===== *)
theory PrivacyJobs
  imports PrivacyGuarantees
begin

text \<open>
  Scan jobs and detector rules under every sequence of calls: a rule change protects every scanned snapshot, a
  finished scan stays as it is and a superseded worker changes nothing, and the number of enabled rules stays
  bounded. A concrete tenant shows that the properties of the privacy tables apply.
\<close>

subsection \<open>Jobs under every call\<close>

text \<open>Scan ids are unique, no job was pinned to a configuration later than the current one, and configuration
  versions never fall.\<close>

definition jobs_ok :: "privacy_db \<Rightarrow> bool" where
  "jobs_ok db \<longleftrightarrow> distinct (map jb_id (pd_jobs db))
     \<and> (\<forall>j \<in> set (pd_jobs db). jb_config_version j \<le> config_version db (jb_tenant j))"

definition same_identity :: "job_row \<Rightarrow> job_row \<Rightarrow> bool" where
  "same_identity j k \<longleftrightarrow> jb_id k = jb_id j \<and> jb_tenant k = jb_tenant j \<and> jb_config_version k = jb_config_version j"

lemma jobs_ok_map:
  assumes "jobs_ok db" "pd_jobs db' = map g (pd_jobs db)" "\<And>j. same_identity j (g j)"
    "\<And>t. config_version db t \<le> config_version db' t"
  shows "jobs_ok db'"
proof -
  have "map jb_id (pd_jobs db') = map jb_id (pd_jobs db)" using assms(2,3) by (simp add: same_identity_def)
  then have "distinct (map jb_id (pd_jobs db'))" using assms(1) by (simp add: jobs_ok_def)
  moreover have "jb_config_version (g j) \<le> config_version db' (jb_tenant (g j))" if "j \<in> set (pd_jobs db)" for j
    using assms(1,3,4) that unfolding jobs_ok_def same_identity_def by (metis order_trans)
  ultimately show ?thesis using assms(2) unfolding jobs_ok_def by auto
qed

lemma jobs_ok_same: "jobs_ok db \<Longrightarrow> pd_jobs db' = pd_jobs db \<Longrightarrow> (\<And>t. config_version db t \<le> config_version db' t) \<Longrightarrow> jobs_ok db'"
  unfolding jobs_ok_def by (metis order_trans)

lemma config_cong: "pd_configs db' = pd_configs db \<Longrightarrow> config_version db' t = config_version db t"
  by (simp add: config_version_def)

definition configs_positive :: "privacy_db \<Rightarrow> bool" where
  "configs_positive db \<longleftrightarrow> (\<forall>t v. map_of (pd_configs db) t = Some v \<longrightarrow> 0 < v)"

lemma init_config:
  assumes "ensure_initialized bid t db = Inr db'"
  shows "config_version db t' \<le> config_version db' t'" "map_of (pd_configs db') t \<noteq> None"
    "configs_positive db \<Longrightarrow> configs_positive db'"
proof -
  note c = init_frame(6) [OF assms]
  show "config_version db t' \<le> config_version db' t'"
    by (cases "map_of (pd_configs db) t'") (auto simp: c config_version_def dict_get_def map_add_def)
  show "map_of (pd_configs db') t \<noteq> None" by (cases "map_of (pd_configs db) t") (auto simp: c map_add_def)
  show "configs_positive db \<Longrightarrow> configs_positive db'"
    by (auto simp: c configs_positive_def map_add_def split: if_splits option.splits)
qed

lemma bump_config_version: "config_version (bump_config t v db) t' = (if t' = t then v + 1 else config_version db t')"
  by (simp add: config_version_def dict_get_update)

lemma rule_change_config:
  assumes "ensure_initialized bid t db = Inr db0" "insert_rule False t r db0 = Inr db1"
    "db' = log_event e (bump_config t (config_version db0 t) db1)"
  shows "pd_jobs db' = pd_jobs db" "config_version db' t' = (if t' = t then config_version db0 t + 1 else config_version db0 t')"
    "config_version db t' \<le> config_version db0 t'"
proof -
  show "pd_jobs db' = pd_jobs db" using assms insert_rule_frame(2) [OF assms(2)] init_frame(2) [OF assms(1)] by simp
  have "config_version (log_event e d) x = config_version d x" for d x by (rule config_cong) simp
  moreover have "config_version db1 x = config_version db0 x" for x by (rule config_cong) (rule insert_rule_frame(3) [OF assms(2)])
  ultimately show "config_version db' t' = (if t' = t then config_version db0 t + 1 else config_version db0 t')"
    by (simp add: assms(3) bump_config_version)
  show "config_version db t' \<le> config_version db0 t'" by (rule init_config(1) [OF assms(1)])
qed

text \<open>The two calls that change the rules of a tenant, and a call that was carried out.\<close>

fun rule_change :: "privacy_env \<Rightarrow> privacy_call \<Rightarrow> privacy_db \<Rightarrow> uuid option" where
  "rule_change ev (CreateRule fresh user t p) db =
     (case create_rule (pv_rule_id ev) fresh user t p db of Inl e \<Rightarrow> None | Inr x \<Rightarrow> Some t)"
| "rule_change ev (UpdateRule user t rid upd) db =
     (case update_rule (pv_rule_id ev) user t rid upd db of Inl e \<Rightarrow> None | Inr x \<Rightarrow> Some t)"
| "rule_change ev c db = None"

lemma rule_change_result:
  assumes "rule_change ev c db = Some t"
  obtains db0 db1 r e where "ensure_initialized (pv_rule_id ev) t db = Inr db0" "insert_rule False t r db0 = Inr db1"
    "call ev c db = log_event e (bump_config t (config_version db0 t) db1)"
proof (cases c)
  case (CreateRule fresh user t' p)
  with assms obtain r db' where r: "create_rule (pv_rule_id ev) fresh user t p db = Inr (r, db')" "t' = t" by (auto split: sum.splits)
  from create_rule_result [OF r(1)] that CreateRule r show thesis by (metis call.simps(4) after_simps(2))
next
  case (UpdateRule user t' rid upd)
  with assms obtain r db' where r: "update_rule (pv_rule_id ev) user t rid upd db = Inr (r, db')" "t' = t" by (auto split: sum.splits)
  from update_rule_result [OF r(1)] that UpdateRule r show thesis by (metis call.simps(5) after_simps(2))
qed (use assms in auto)

lemma not_rule_change:
  assumes "rule_change ev c db = None" "(\<exists>fresh user t p. c = CreateRule fresh user t p) \<or> (\<exists>user t rid upd. c = UpdateRule user t rid upd)"
  shows "call ev c db = db"
  using assms by (auto split: sum.splits)

lemma frame_ok: "jobs_ok db \<Longrightarrow> pd_jobs db' = pd_jobs db \<Longrightarrow> pd_configs db' = pd_configs db \<Longrightarrow> jobs_ok db'"
  by (erule jobs_ok_same) (simp_all add: config_version_def)

lemma apply_change_frame: "pd_jobs (apply_change user t a s v ch db) = pd_jobs db"
    "pd_configs (apply_change user t a s v ch db) = pd_configs db"
  by (simp_all add: apply_change_def Let_def split: option.split)

lemma fold_changes_frame: "pd_jobs (fold (apply_change user t a s v) chs db) = pd_jobs db
    \<and> pd_configs (fold (apply_change user t a s v) chs db) = pd_configs db"
  by (induction chs arbitrary: db) (simp_all add: apply_change_frame)

lemma review_ok: "jobs_ok db \<Longrightarrow> jobs_ok (after db (update_finding_status now user t fid old new reason db))"
proof (rule after_cases, simp)
  fix x db' assume ok: "jobs_ok db" and "update_finding_status now user t fid old new reason db = Inr (x, db')"
  then obtain a f e where "db' = log_event e (bump_revision t a (ensure_revision t a db\<lparr>pd_findings := f\<rparr>))"
    by (auto simp: update_finding_status_def Let_def split: option.splits if_splits)
  with ok show "jobs_ok db'" by (auto intro: frame_ok)
qed

lemma rule_change_ok:
  assumes "jobs_ok db" "rule_change ev c db = Some t"
  shows "jobs_ok (call ev c db)"
proof -
  obtain db0 db1 r e where 1: "ensure_initialized (pv_rule_id ev) t db = Inr db0" "insert_rule False t r db0 = Inr db1"
    "call ev c db = log_event e (bump_config t (config_version db0 t) db1)" using rule_change_result [OF assms(2)] .
  note k = rule_change_config [OF 1]
  show ?thesis
  proof (rule jobs_ok_same [OF assms(1) k(1)])
    fix t' show "config_version db t' \<le> config_version (call ev c db) t'" using k(2) [of t'] k(3) [of t'] by (auto split: if_splits)
  qed
qed

lemma request_ok:
  assumes "jobs_ok db"
  shows "jobs_ok (after db (create_scan nt sha bid now sid user t s q db))"
proof (rule after_cases, simp add: assms)
  fix j db' assume "create_scan nt sha bid now sid user t s q db = Inr (j, db')"
  then show "jobs_ok db'"
  proof (cases rule: create_scan_result)
    case (existing a)
    with assms show ?thesis by (auto intro: frame_ok)
  next
    case (queued a db1 pinned pin db2)
    note l = load_pinned_result [OF queued(1)]
    have j1: "pd_jobs db1 = pd_jobs db" using init_frame(2) [OF l(1)] by simp
    have "config_version (ensure_revision t a db) x = config_version db x" for x by (rule config_cong) simp
    then have c1: "config_version db x \<le> config_version db1 x" for x using init_config(1) [OF l(1), of x] by simp
    have ok1: "jobs_ok db1" by (rule jobs_ok_same [OF assms j1 c1])
    have "config_version db2 x = config_version db1 x" for x using queued(5) by (simp add: config_version_def)
    then have "jobs_ok db2" using ok1 queued(2,3,4,5) l(2) by (auto simp: jobs_ok_def queued_job_def)
    with queued(6) show ?thesis by (auto intro: frame_ok)
  qed
qed

lemma publish_ok:
  assumes "jobs_ok db"
  shows "jobs_ok (after db (publish nt uuid5 worker now job r db))"
proof (rule after_cases, simp add: assms)
  fix b db' assume "publish nt uuid5 worker now job r db = Inr (b, db')"
  then show "jobs_ok db'"
  proof (cases rule: publish_result)
    case lost
    with assms show ?thesis by (auto intro: frame_ok)
  next
    case (published s db1)
    have f: "pd_jobs db1 = pd_jobs db \<and> pd_configs db1 = pd_configs db"
    proof (cases "jb_purpose job = Apply")
      case True
      show ?thesis by (rule write_findings_result [OF published(4) [OF True]]) simp
    qed (use published(5) in simp)
    show ?thesis
    proof (rule jobs_ok_map [OF assms])
      show "pd_jobs db' = map (\<lambda>j. if jb_tenant j = jb_tenant job \<and> jb_id j = jb_id job
          then completed_job (build_summary nt r (jb_purpose job)) j else j) (pd_jobs db)"
        using published(6) f by (simp add: update_tenant_job_def)
      show "config_version db t \<le> config_version db' t" for t using published(6) f by (simp add: config_version_def)
    qed (simp add: same_identity_def completed_job_def)
  qed
qed

lemma call_jobs_ok: "jobs_ok db \<Longrightarrow> jobs_ok (call ev c db)"
proof (cases "rule_change ev c db")
  case (Some t)
  then show "jobs_ok db \<Longrightarrow> ?thesis" by (rule rule_change_ok [rotated])
next
  case None
  assume ok: "jobs_ok db"
  show ?thesis
  proof (cases c)
    case (Review now user t fid old new reason)
    with ok show ?thesis by (simp add: review_ok)
  next
    case (SetPolicy user t a n cats)
    have "jobs_ok (after db (update_asset_protection_policy user t a n cats db))"
      by (rule after_cases, simp add: ok) (auto elim!: policy_result intro: frame_ok [OF ok])
    with SetPolicy show ?thesis by simp
  next
    case (Classify user t a s n chs)
    have "jobs_ok (after db (update_classifications user t a s n chs db))"
      by (rule after_cases, simp add: ok) (auto elim!: classify_result intro: frame_ok [OF ok] simp: fold_changes_frame)
    with Classify show ?thesis by simp
  next
    case (RequestScan now sid user t s q)
    with ok show ?thesis by (simp add: request_ok)
  next
    case (ClaimScan worker now secs)
    show ?thesis
    proof (cases "sort_key (\<lambda>j. (jb_created_at j, jb_id j)) (filter (claimable_scan now) (pd_jobs db))")
      case Nil
      with ClaimScan ok show ?thesis by (simp add: claim_next_job_def)
    next
      case (Cons j js)
      have e: "call ev c db = update_job (jb_id j) (claimed_job worker now secs) db"
        using ClaimScan Cons by (simp add: claim_next_job_def)
      show ?thesis unfolding e
        by (rule jobs_ok_map [OF ok, where g = "\<lambda>k. if jb_id k = jb_id j then claimed_job worker now secs k else k"])
          (simp_all add: update_job_def same_identity_def claimed_job_def config_version_def)
    qed
  next
    case (BeatScan worker now secs t sid gen)
    show ?thesis
      by (rule jobs_ok_map [OF ok, where g = "\<lambda>j. if fenced worker now t sid gen j
            then j\<lparr>jb_expires := Some (now + secs * 1000000)\<rparr> else j"])
        (simp_all add: BeatScan scan_heartbeat_def Let_def same_identity_def config_version_def)
  next
    case (PublishScan worker now job r)
    with ok show ?thesis by (simp add: publish_ok)
  next
    case (FailScan worker now job code)
    show ?thesis
      by (rule jobs_ok_map [OF ok, where g = "\<lambda>j. if fenced worker now (jb_tenant job) (jb_id job) (jb_generation job) j
            then settled_job (transient_code code \<and> jb_attempts job < MAX_ATTEMPTS) code j else j"])
        (simp_all add: FailScan fail_scan_def Let_def same_identity_def config_version_def settled_job_def)
  qed (use ok None not_rule_change in \<open>auto split: sum.splits\<close>)
qed

lemma calls_jobs_ok: "pd_jobs db0 = [] \<Longrightarrow> jobs_ok (fold (call ev) cs db0)"
proof -
  have "jobs_ok db \<Longrightarrow> jobs_ok (fold (call ev) cs db)" for db
    by (induction cs arbitrary: db) (simp_all add: call_jobs_ok)
  then show "pd_jobs db0 = [] \<Longrightarrow> ?thesis" by (simp add: jobs_ok_def)
qed


subsection \<open>Finished scans and superseded leases\<close>

definition scan_finished :: "job_row \<Rightarrow> bool" where
  "scan_finished j \<longleftrightarrow> jb_state j = SComplete \<or> jb_state j = SFailed"

text \<open>The stored job \<open>sid\<close> is finished or was claimed again after generation \<open>gen\<close>.\<close>

definition superseded :: "privacy_db \<Rightarrow> uuid \<Rightarrow> int \<Rightarrow> bool" where
  "superseded db sid gen \<longleftrightarrow> (\<forall>j \<in> set (pd_jobs db). jb_id j = sid \<longrightarrow> scan_finished j \<or> gen < jb_generation j)
     \<and> sid \<in> set (map jb_id (pd_jobs db))"

lemma not_fenced: "superseded db sid gen \<Longrightarrow> j \<in> set (pd_jobs db) \<Longrightarrow> \<not> fenced worker now t sid gen j"
  by (auto simp: superseded_def fenced_def scan_finished_def)

text \<open>A call maps the jobs, keeps ids, never lowers a generation, keeps finished jobs, and may add one with a new id.\<close>

definition job_step :: "job_row \<Rightarrow> job_row \<Rightarrow> bool" where
  "job_step j k \<longleftrightarrow> jb_id k = jb_id j \<and> jb_generation j \<le> jb_generation k \<and> (scan_finished j \<longrightarrow> k = j)"

definition jobs_step :: "privacy_db \<Rightarrow> privacy_db \<Rightarrow> bool" where
  "jobs_step db db' \<longleftrightarrow> (\<exists>ks. list_all2 job_step (pd_jobs db) ks
     \<and> (pd_jobs db' = ks \<or> (\<exists>n. pd_jobs db' = ks @ [n] \<and> jb_id n \<notin> set (map jb_id (pd_jobs db)))))"

lemma job_step_refl [simp]: "job_step j j"
  by (simp add: job_step_def)

lemma jobs_step_same: "pd_jobs db' = pd_jobs db \<Longrightarrow> jobs_step db db'"
  by (auto simp: jobs_step_def list_all2_same intro!: exI [of _ "pd_jobs db"])

lemma jobs_step_map:
  assumes "pd_jobs db' = map g (pd_jobs db)" "\<And>j. j \<in> set (pd_jobs db) \<Longrightarrow> job_step j (g j)"
  shows "jobs_step db db'"
proof -
  have "list_all2 job_step (pd_jobs db) (map g (pd_jobs db))" using assms(2) by (simp add: list_all2_map2 list_all2_same)
  with assms(1) show ?thesis unfolding jobs_step_def by blast
qed

lemma jobs_step_ids: "list_all2 job_step js ks \<Longrightarrow> map jb_id ks = map jb_id js"
  by (induction rule: list_all2_induct) (auto simp: job_step_def)

lemma superseded_step:
  assumes "superseded db sid gen" "jobs_step db db'"
  shows "superseded db' sid gen"
proof -
  obtain ks where ks: "list_all2 job_step (pd_jobs db) ks"
    "pd_jobs db' = ks \<or> (\<exists>n. pd_jobs db' = ks @ [n] \<and> jb_id n \<notin> set (map jb_id (pd_jobs db)))"
    using assms(2) by (auto simp: jobs_step_def)
  have new: "k \<in> set ks" if "k \<in> set (pd_jobs db')" "jb_id k = sid" for k
    using ks(2) that assms(1) by (auto simp: superseded_def)
  have old: "scan_finished k \<or> gen < jb_generation k" if mem: "k \<in> set ks" "jb_id k = sid" for k
  proof -
    obtain j where "j \<in> set (pd_jobs db)" "job_step j k" by (rule bexE [OF list_all2_right [OF ks(1) mem(1)]])
    then show ?thesis using mem(2) assms(1) by (force simp: superseded_def job_step_def)
  qed
  have "sid \<in> set (map jb_id ks)" using assms(1) jobs_step_ids [OF ks(1)] by (simp add: superseded_def)
  then have "sid \<in> set (map jb_id (pd_jobs db'))" using ks(2) by auto
  with new old show ?thesis unfolding superseded_def by blast
qed

lemma finished_kept:
  assumes "jobs_step db db'" "j \<in> set (pd_jobs db)" "scan_finished j"
  shows "j \<in> set (pd_jobs db')"
proof -
  obtain ks where ks: "list_all2 job_step (pd_jobs db) ks" "set ks \<subseteq> set (pd_jobs db')"
    using assms(1) unfolding jobs_step_def by fastforce
  obtain k where "k \<in> set ks" "job_step j k" by (rule bexE [OF list_all2_left [OF ks(1) assms(2)]])
  with ks(2) assms(3) show ?thesis by (auto simp: job_step_def)
qed

lemma publish_jobs_step:
  assumes "jobs_ok db" "publish nt uuid5 worker now job r db = Inr (b, db')"
  shows "jobs_step db db'"
  using assms(2)
proof (cases rule: publish_result)
  case lost
  then show ?thesis by (auto intro: jobs_step_same)
next
  case (published s db1)
  have f: "pd_jobs db1 = pd_jobs db"
  proof (cases "jb_purpose job = Apply")
    case True
    show ?thesis by (rule write_findings_result [OF published(4) [OF True]]) simp
  qed (use published(5) in simp)
  obtain k where k: "k \<in> set (pd_jobs db)" "jb_id k = jb_id job" "\<not> scan_finished k" using published(3) by (auto simp: fenced_def scan_finished_def)
  show ?thesis
  proof (rule jobs_step_map)
    show "pd_jobs db' = map (\<lambda>j. if jb_tenant j = jb_tenant job \<and> jb_id j = jb_id job
          then completed_job (build_summary nt r (jb_purpose job)) j else j) (pd_jobs db)"
      using published(6) f by (simp add: update_tenant_job_def)
    fix j assume j: "j \<in> set (pd_jobs db)"
    have "j = k" if "jb_id j = jb_id job"
      using assms(1) j k(1,2) that unfolding jobs_ok_def by (metis distinct_map inj_onD)
    with k(3) show "job_step j (if jb_tenant j = jb_tenant job \<and> jb_id j = jb_id job
          then completed_job (build_summary nt r (jb_purpose job)) j else j)"
      by (auto simp: job_step_def completed_job_def)
  qed
qed

lemma claim_jobs_step:
  assumes "jobs_ok db"
  shows "jobs_step db (snd (claim_next_job worker now secs db))"
proof (cases "sort_key (\<lambda>j. (jb_created_at j, jb_id j)) (filter (claimable_scan now) (pd_jobs db))")
  case Nil
  then show ?thesis by (simp add: claim_next_job_def jobs_step_same)
next
  case (Cons j js)
  have "j \<in> set (sort_key (\<lambda>j. (jb_created_at j, jb_id j)) (filter (claimable_scan now) (pd_jobs db)))" unfolding Cons by simp
  then have j: "j \<in> set (pd_jobs db)" "\<not> scan_finished j" by (auto simp: claimable_scan_def scan_finished_def)
  have e: "snd (claim_next_job worker now secs db) = update_job (jb_id j) (claimed_job worker now secs) db"
    using Cons by (simp add: claim_next_job_def)
  show ?thesis unfolding e
  proof (rule jobs_step_map)
    show "pd_jobs (update_job (jb_id j) (claimed_job worker now secs) db)
        = map (\<lambda>k. if jb_id k = jb_id j then claimed_job worker now secs k else k) (pd_jobs db)" by (simp add: update_job_def)
    fix k assume k: "k \<in> set (pd_jobs db)"
    have "k = j" if "jb_id k = jb_id j" using assms j(1) k that unfolding jobs_ok_def by (metis distinct_map inj_onD)
    with j(2) show "job_step k (if jb_id k = jb_id j then claimed_job worker now secs k else k)"
      by (auto simp: job_step_def claimed_job_def)
  qed
qed

lemma call_jobs_step:
  assumes "jobs_ok db"
  shows "jobs_step db (call ev c db)"
proof (cases c)
  case (Review now user t fid old new reason)
  have "jobs_step db (after db (update_finding_status now user t fid old new reason db))"
    by (rule after_cases) (auto simp: update_finding_status_def Let_def intro!: jobs_step_same split: option.splits if_splits)
  with Review show ?thesis by simp
next
  case (SetPolicy user t a n cats)
  have "jobs_step db (after db (update_asset_protection_policy user t a n cats db))"
    by (rule after_cases, simp add: jobs_step_same) (auto elim!: policy_result intro!: jobs_step_same)
  with SetPolicy show ?thesis by simp
next
  case (Classify user t a s n chs)
  have "jobs_step db (after db (update_classifications user t a s n chs db))"
    by (rule after_cases, simp add: jobs_step_same) (auto elim!: classify_result intro!: jobs_step_same simp: fold_changes_frame)
  with Classify show ?thesis by simp
next
  case (CreateRule fresh user t p)
  have "jobs_step db (after db (create_rule (pv_rule_id ev) fresh user t p db))"
    by (rule after_cases, simp add: jobs_step_same) (auto elim!: create_rule_result intro!: jobs_step_same simp: insert_rule_frame init_frame)
  with CreateRule show ?thesis by simp
next
  case (UpdateRule user t rid upd)
  have "jobs_step db (after db (update_rule (pv_rule_id ev) user t rid upd db))"
    by (rule after_cases, simp add: jobs_step_same) (auto elim!: update_rule_result intro!: jobs_step_same simp: insert_rule_frame init_frame)
  with UpdateRule show ?thesis by simp
next
  case (RequestScan now sid user t s q)
  have "jobs_step db (after db (create_scan (pv_nt ev) (pv_sha ev) (pv_rule_id ev) now sid user t s q db))"
  proof (rule after_cases, simp add: jobs_step_same)
    fix j db' assume "create_scan (pv_nt ev) (pv_sha ev) (pv_rule_id ev) now sid user t s q db = Inr (j, db')"
    then show "jobs_step db db'"
    proof (cases rule: create_scan_result)
      case (existing a)
      then show ?thesis by (auto intro: jobs_step_same)
    next
      case (queued a db1 pinned pin db2)
      have e: "pd_jobs db1 = pd_jobs db" using init_frame(2) [OF load_pinned_result(1) [OF queued(1)]] by simp
      have "jb_id j = sid" using queued(3) by (simp add: queued_job_def)
      with queued(2,5,6) e have "pd_jobs db' = pd_jobs db @ [j]" "jb_id j \<notin> set (map jb_id (pd_jobs db))" by auto
      then show ?thesis unfolding jobs_step_def by (intro exI [of _ "pd_jobs db"]) (simp add: list_all2_same)
    qed
  qed
  with RequestScan show ?thesis by simp
next
  case (ClaimScan worker now secs)
  with assms show ?thesis by (simp add: claim_jobs_step)
next
  case (BeatScan worker now secs t sid gen)
  show ?thesis
    by (rule jobs_step_map [where g = "\<lambda>j. if fenced worker now t sid gen j
          then j\<lparr>jb_expires := Some (now + secs * 1000000)\<rparr> else j"])
      (auto simp: BeatScan scan_heartbeat_def Let_def job_step_def scan_finished_def fenced_def)
next
  case (PublishScan worker now job r)
  have "jobs_step db (after db (publish (pv_nt ev) (pv_uuid5 ev) worker now job r db))"
    by (rule after_cases) (auto intro: jobs_step_same publish_jobs_step [OF assms])
  with PublishScan show ?thesis by simp
next
  case (FailScan worker now job code)
  show ?thesis
    by (rule jobs_step_map [where g = "\<lambda>j. if fenced worker now (jb_tenant job) (jb_id job) (jb_generation job) j
          then settled_job (transient_code code \<and> jb_attempts job < MAX_ATTEMPTS) code j else j"])
      (auto simp: FailScan fail_scan_def Let_def job_step_def settled_job_def scan_finished_def fenced_def)
qed

lemma calls_step:
  assumes "jobs_ok db"
  shows "superseded db sid gen \<Longrightarrow> superseded (fold (call ev) cs db) sid gen"
    "j \<in> set (pd_jobs db) \<Longrightarrow> scan_finished j \<Longrightarrow> j \<in> set (pd_jobs (fold (call ev) cs db))"
  using assms
proof (induction cs arbitrary: db)
  case (Cons c cs)
  { case 1
    then show ?case using Cons.IH(1) [of "call ev c db"] superseded_step call_jobs_step call_jobs_ok by simp }
  { case 2
    then have "j \<in> set (pd_jobs (call ev c db))" using finished_kept [OF call_jobs_step] by blast
    with 2 show ?case using Cons.IH(2) [of "call ev c db"] call_jobs_ok by simp }
qed simp_all

text \<open>A finished scan stays, and a worker that lost its lease changes nothing: once a scan is finished or was
  claimed again, in every later state the finished row is unchanged, and a publication or failure report under
  the old generation is refused, leaving jobs and findings as they are.\<close>

theorem stale_scan_refused:
  assumes "pd_jobs db0 = []" "db = fold (call ev) cs0 db0" "superseded db (jb_id job) (jb_generation job)"
    and "db' = fold (call ev) cs db"
  shows "(\<exists>db''. publish nt uuid5 worker now job r db' = Inr (False, db'') \<and> pd_jobs db'' = pd_jobs db'
        \<and> pd_findings db'' = pd_findings db')
    \<and> fst (fail_scan worker now job code db') = False \<and> pd_jobs (snd (fail_scan worker now job code db')) = pd_jobs db'
    \<and> {j \<in> set (pd_jobs db). scan_finished j} \<subseteq> set (pd_jobs db')"
proof -
  have ok: "jobs_ok db" using calls_jobs_ok [OF assms(1)] assms(2) by simp
  have sup: "superseded db' (jb_id job) (jb_generation job)" using calls_step(1) [OF ok assms(3)] assms(4) by simp
  have no: "\<not> fenced worker now (jb_tenant job) (jb_id job) (jb_generation job) j" if "j \<in> set (pd_jobs db')" for j
    by (rule not_fenced [OF sup that])
  have "\<exists>db''. publish nt uuid5 worker now job r db' = Inr (False, db'') \<and> pd_jobs db'' = pd_jobs db'
        \<and> pd_findings db'' = pd_findings db'"
  proof (cases rule: lock_fenced_result [of worker now job db'])
    case lost
    then show ?thesis by (auto simp: publish_def Let_def)
  next
    case (held s)
    with no show ?thesis by blast
  qed
  moreover have "fst (fail_scan worker now job code db') = False" using no by (simp add: fail_scan_def Let_def any_of_iff)
  moreover have "pd_jobs (snd (fail_scan worker now job code db')) = pd_jobs db'"
    using no by (simp add: fail_scan_def Let_def map_idI)
  moreover have "{j \<in> set (pd_jobs db). scan_finished j} \<subseteq> set (pd_jobs db')" using calls_step(2) [OF ok] assms(4) by blast
  ultimately show ?thesis by blast
qed

subsection \<open>The number of enabled rules\<close>

definition enabled_ok :: "privacy_db \<Rightarrow> bool" where
  "enabled_ok db \<longleftrightarrow> (\<forall>t. enabled_count db t \<le> MAX_ENABLED_RULES
     \<and> (map_of (pd_configs db) t = None \<longrightarrow> tenant_rules db t = []))"

definition unbeaten :: "privacy_detector_rule list \<Rightarrow> privacy_detector_rule \<Rightarrow> bool" where
  "unbeaten rows r \<longleftrightarrow> \<not> any_of (\<lambda>q. pr_rule_id q = pr_rule_id r \<and> pr_revision q > pr_revision r) rows"

lemma enabled_count_rows: "enabled_count db t = length (filter (\<lambda>r. pr_enabled r \<and> unbeaten (tenant_rules db t) r) (tenant_rules db t))"
  by (simp add: enabled_count_def latest_rules_def unbeaten_def) (metis (no_types, lifting) filter_cong)

lemma tenant_rules_append: "pd_rules db' = pd_rules db @ [(t, r)] \<Longrightarrow>
    tenant_rules db' t' = tenant_rules db t' @ (if t' = t then [r] else [])"
  by (simp add: tenant_rules_def)

lemma enabled_append_le:
  assumes "tenant_rules db' t = tenant_rules db t @ [r]"
  shows "enabled_count db' t \<le> enabled_count db t + (if pr_enabled r then 1 else 0)"
    "p \<in> set (latest_rules db t) \<Longrightarrow> pr_enabled p \<Longrightarrow> pr_rule_id p = pr_rule_id r \<Longrightarrow> pr_revision p < pr_revision r \<Longrightarrow>
       enabled_count db' t \<le> enabled_count db t"
proof -
  let ?rows = "tenant_rules db t"
  let ?old = "filter (\<lambda>x. pr_enabled x \<and> unbeaten ?rows x) ?rows"
  let ?kept = "filter (\<lambda>x. pr_enabled x \<and> unbeaten (?rows @ [r]) x) ?rows"
  have k: "?kept = filter (unbeaten (?rows @ [r])) ?old"
    by (auto simp: unbeaten_def any_of_iff intro!: filter_cong)
  have c: "enabled_count db' t \<le> length ?kept + (if pr_enabled r then 1 else 0)"
    unfolding enabled_count_rows assms by simp
  have "length ?kept \<le> length ?old" unfolding k by (rule length_filter_le)
  then show "enabled_count db' t \<le> enabled_count db t + (if pr_enabled r then 1 else 0)"
    using c unfolding enabled_count_rows [of db] by linarith
  assume p: "p \<in> set (latest_rules db t)" "pr_enabled p" "pr_rule_id p = pr_rule_id r" "pr_revision p < pr_revision r"
  then have "p \<in> set ?old" by (auto simp: latest_rules_def unbeaten_def)
  moreover have "\<not> unbeaten (?rows @ [r]) p" using p(3,4) by (auto simp: unbeaten_def any_of_iff)
  ultimately have "length ?kept < length ?old" unfolding k by (rule length_filter_less)
  then show "enabled_count db' t \<le> enabled_count db t"
    using c unfolding enabled_count_rows [of db] by (auto split: if_splits)
qed

lemma insert_rule_rows:
  assumes "insert_rule b t r db = Inr db'"
  shows "db' = db \<or> pd_rules db' = pd_rules db @ [(t, r)]"
  using assms by (auto simp: insert_rule_def Let_def split: if_splits)

lemma enabled_cong: "pd_rules db' = pd_rules db \<Longrightarrow> enabled_count db' t = enabled_count db t"
  by (simp add: enabled_count_def latest_rules_def tenant_rules_def)

lemma insert_rule_count:
  assumes "insert_rule b t r db = Inr db'"
  shows "enabled_count db' t' \<le> enabled_count db t' + (if t' = t \<and> pr_enabled r then 1 else 0)"
    "t' \<noteq> t \<Longrightarrow> tenant_rules db' t' = tenant_rules db t'"
proof -
  show "enabled_count db' t' \<le> enabled_count db t' + (if t' = t \<and> pr_enabled r then 1 else 0)"
  proof (cases "db' = db")
    case False
    then have e: "pd_rules db' = pd_rules db @ [(t, r)]" using insert_rule_rows [OF assms] by blast
    show ?thesis
    proof (cases "t' = t")
      case True
      with enabled_append_le(1) [of db' t db r] tenant_rules_append [OF e, of t] show ?thesis by simp
    next
      case False
      with tenant_rules_append [OF e, of t'] show ?thesis by (simp add: enabled_count_rows)
    qed
  qed simp
  show "t' \<noteq> t \<Longrightarrow> tenant_rules db' t' = tenant_rules db t'"
    using insert_rule_rows [OF assms] tenant_rules_append [of db' db t r t'] by auto
qed

lemma seed_count:
  "seed_rules t rs db = Inr db' \<Longrightarrow> enabled_count db' t \<le> enabled_count db t + length rs
   \<and> (\<forall>t'. t' \<noteq> t \<longrightarrow> tenant_rules db' t' = tenant_rules db t')"
proof (induction rs arbitrary: db)
  case (Cons r rs)
  then obtain db1 where 1: "insert_rule True t r db = Inr db1" "seed_rules t rs db1 = Inr db'" by (auto split: sum.splits)
  from Cons.IH [OF 1(2)] insert_rule_count(1) [OF 1(1), of t] insert_rule_count(2) [OF 1(1)]
  show ?case by (auto split: if_splits)
qed simp

lemma init_enabled:
  assumes "ensure_initialized bid t db = Inr db'" "enabled_ok db"
  shows "enabled_ok db'"
proof (cases "map_of (pd_configs db) t")
  case (Some v)
  with assms show ?thesis by (simp add: ensure_initialized_def)
next
  case None
  with assms(1) obtain db1 where s: "seed_rules t (map (seed_rule bid t) BUILTIN_RULE_CATEGORIES) db = Inr db1"
    and e: "db' = db1\<lparr>pd_configs := pd_configs db1 @ [(t, 1)]\<rparr>" by (auto simp: ensure_initialized_def split: sum.splits)
  have r: "tenant_rules db' x = tenant_rules db1 x" for x by (simp add: e tenant_rules_def)
  have c: "enabled_count db' x = enabled_count db1 x" for x by (rule enabled_cong) (simp add: e)
  have z: "enabled_count db t = 0" using assms(2) None by (simp add: enabled_ok_def enabled_count_rows)
  have l: "length (map (seed_rule bid t) BUILTIN_RULE_CATEGORIES) = 9" by (simp add: BUILTIN_RULE_CATEGORIES_def)
  show ?thesis unfolding enabled_ok_def
  proof (intro allI conjI impI)
    fix x show "enabled_count db' x \<le> MAX_ENABLED_RULES"
    proof (cases "x = t")
      case True
      with seed_count [OF s] z l show ?thesis by (simp add: c MAX_ENABLED_RULES_def)
    next
      case False
      with seed_count [OF s] have "tenant_rules db1 x = tenant_rules db x" by blast
      then have "enabled_count db1 x = enabled_count db x" by (simp add: enabled_count_rows)
      with assms(2) show ?thesis by (simp add: c enabled_ok_def)
    qed
    assume "map_of (pd_configs db') x = None"
    moreover have "pd_configs db1 = pd_configs db" using seed_frame [OF s] by simp
    ultimately have "x \<noteq> t" "map_of (pd_configs db) x = None" by (auto simp: e map_add_def split: option.splits if_splits)
    with assms(2) seed_count [OF s] show "tenant_rules db' x = []" by (simp add: r enabled_ok_def)
  qed
qed

lemma change_enabled:
  assumes "enabled_ok db0" "map_of (pd_configs db0) t \<noteq> None" "insert_rule False t r db0 = Inr db1"
    and "enabled_count db1 t \<le> MAX_ENABLED_RULES" "db' = log_event e (bump_config t v db1)"
  shows "enabled_ok db'"
  unfolding enabled_ok_def
proof (intro allI conjI impI)
  fix x
  have r: "tenant_rules db' x = tenant_rules db1 x" by (simp add: assms(5) tenant_rules_def)
  have c: "enabled_count db' x = enabled_count db1 x" by (rule enabled_cong) (simp add: assms(5))
  show "enabled_count db' x \<le> MAX_ENABLED_RULES"
  proof (cases "x = t")
    case False
    with insert_rule_count(1) [OF assms(3), of x] assms(1) c show ?thesis by (simp add: enabled_ok_def) (metis order_trans)
  qed (use assms(4) c in simp)
  assume "map_of (pd_configs db') x = None"
  then have "x \<noteq> t" "map_of (pd_configs db0) x = None"
    using insert_rule_frame(3) [OF assms(3)] by (auto simp: assms(5) update_conv' split: if_splits)
  with assms(1) insert_rule_count(2) [OF assms(3)] show "tenant_rules db' x = []" by (simp add: r enabled_ok_def)
qed

lemma enabled_frame: "enabled_ok db \<Longrightarrow> pd_rules db' = pd_rules db \<Longrightarrow> pd_configs db' = pd_configs db \<Longrightarrow> enabled_ok db'"
  by (simp add: enabled_ok_def enabled_count_def latest_rules_def tenant_rules_def)

lemma create_enabled:
  assumes "enabled_ok db" "create_rule bid fresh user t p db = Inr (r, db')"
  shows "enabled_ok db'"
proof (rule create_rule_result [OF assms(2)])
  fix db0 db1 e
  assume 1: "ensure_initialized bid t db = Inr db0" "rc_enabled p \<Longrightarrow> enabled_count db0 t < MAX_ENABLED_RULES"
    "insert_rule False t (created_rule fresh p) db0 = Inr db1" "db' = log_event e (bump_config t (config_version db0 t) db1)"
  have ok: "enabled_ok db0" by (rule init_enabled [OF 1(1) assms(1)])
  have "enabled_count db1 t \<le> MAX_ENABLED_RULES"
    using insert_rule_count(1) [OF 1(3), of t] ok 1(2) by (auto simp: created_rule_def enabled_ok_def split: if_splits) (metis order_trans)
  then show "enabled_ok db'" using change_enabled [OF ok init_config(2) [OF 1(1)] 1(3) _ 1(4)] by blast
qed

lemma update_enabled:
  assumes "enabled_ok db" "update_rule bid user t rid upd db = Inr (r, db')"
  shows "enabled_ok db'"
proof (rule update_rule_result [OF assms(2)])
  fix db0 db1 e p
  assume 1: "ensure_initialized bid t db = Inr db0" "latest_rule db0 t rid = Some p"
    "ru_enabled upd \<Longrightarrow> \<not> pr_enabled p \<Longrightarrow> enabled_count db0 t < MAX_ENABLED_RULES"
    "insert_rule False t (revised p upd) db0 = Inr db1" "db' = log_event e (bump_config t (config_version db0 t) db1)"
  have ok: "enabled_ok db0" by (rule init_enabled [OF 1(1) assms(1)])
  have p: "p \<in> set (latest_rules db0 t)" using 1(2) by (auto simp: latest_rule_def find_Some_iff)
  have max: "enabled_count db0 t \<le> MAX_ENABLED_RULES" using ok by (simp add: enabled_ok_def)
  have "enabled_count db1 t \<le> MAX_ENABLED_RULES"
  proof (cases "ru_enabled upd \<and> pr_enabled p")
    case True
    have "db1 = db0 \<or> tenant_rules db1 t = tenant_rules db0 t @ [revised p upd]"
      using insert_rule_rows [OF 1(4)] tenant_rules_append [of db1 db0 t "revised p upd" t] by auto
    then show ?thesis
    proof
      assume "tenant_rules db1 t = tenant_rules db0 t @ [revised p upd]"
      from enabled_append_le(2) [OF this p] True max show ?thesis by (simp add: revised_def)
    qed (use max in simp)
  next
    case False
    then show ?thesis using insert_rule_count(1) [OF 1(4), of t] 1(3) max by (auto simp: revised_def split: if_splits)
  qed
  then show "enabled_ok db'" using change_enabled [OF ok init_config(2) [OF 1(1)] 1(4) _ 1(5)] by blast
qed

lemma call_enabled: "enabled_ok db \<Longrightarrow> enabled_ok (call ev c db)"
proof (cases c)
  assume ok: "enabled_ok db"
  note frame = enabled_frame [OF ok]
  { case (Review now user t fid old new reason)
    have "enabled_ok (after db (update_finding_status now user t fid old new reason db))"
      by (rule after_cases, simp add: ok) (auto simp: update_finding_status_def Let_def intro!: frame split: option.splits if_splits)
    with Review show ?thesis by simp
  next
    case (SetPolicy user t a n cats)
    have "enabled_ok (after db (update_asset_protection_policy user t a n cats db))"
      by (rule after_cases, simp add: ok) (auto elim!: policy_result intro!: frame)
    with SetPolicy show ?thesis by simp
  next
    case (Classify user t a s n chs)
    have f: "pd_rules (fold (apply_change user t a s v) chs d) = pd_rules d" for v chs d
      by (induction chs arbitrary: d) (simp_all add: apply_change_def Let_def split: option.split)
    have "enabled_ok (after db (update_classifications user t a s n chs db))"
      by (rule after_cases, simp add: ok) (auto elim!: classify_result intro!: frame simp: fold_changes_frame f)
    with Classify show ?thesis by simp
  next
    case (CreateRule fresh user t p)
    have "enabled_ok (after db (create_rule (pv_rule_id ev) fresh user t p db))"
      by (rule after_cases, simp add: ok) (rule create_enabled [OF ok])
    with CreateRule show ?thesis by simp
  next
    case (UpdateRule user t rid upd)
    have "enabled_ok (after db (update_rule (pv_rule_id ev) user t rid upd db))"
      by (rule after_cases, simp add: ok) (rule update_enabled [OF ok])
    with UpdateRule show ?thesis by simp
  next
    case (RequestScan now sid user t s q)
    have "enabled_ok (after db (create_scan (pv_nt ev) (pv_sha ev) (pv_rule_id ev) now sid user t s q db))"
    proof (rule after_cases, simp add: ok)
      fix j db' assume "create_scan (pv_nt ev) (pv_sha ev) (pv_rule_id ev) now sid user t s q db = Inr (j, db')"
      then show "enabled_ok db'"
      proof (cases rule: create_scan_result)
        case (existing a)
        then show ?thesis by (auto intro: frame)
      next
        case (queued a db1 pinned pin db2)
        have "enabled_ok (ensure_revision t a db)" by (rule frame) simp_all
        then have "enabled_ok db1" using init_enabled load_pinned_result(1) [OF queued(1)] by blast
        then have "enabled_ok db2" using queued(5) by (auto intro: enabled_frame)
        with queued(6) show ?thesis by (auto intro: enabled_frame)
      qed
    qed
    with RequestScan show ?thesis by simp
  next
    case (ClaimScan worker now secs)
    then show ?thesis by (auto simp: claim_next_job_def update_job_def intro!: frame split: list.split)
  next
    case (BeatScan worker now secs t sid gen)
    then show ?thesis by (auto simp: scan_heartbeat_def Let_def intro!: frame)
  next
    case (PublishScan worker now job r)
    have "enabled_ok (after db (publish (pv_nt ev) (pv_uuid5 ev) worker now job r db))"
    proof (rule after_cases, simp add: ok)
      fix b db' assume "publish (pv_nt ev) (pv_uuid5 ev) worker now job r db = Inr (b, db')"
      then show "enabled_ok db'"
      proof (cases rule: publish_result)
        case lost
        then show ?thesis by (auto intro: frame)
      next
        case (published s db1)
        have "pd_rules db1 = pd_rules db \<and> pd_configs db1 = pd_configs db"
        proof (cases "jb_purpose job = Apply")
          case True
          show ?thesis by (rule write_findings_result [OF published(4) [OF True]]) simp
        qed (use published(5) in simp)
        with published(6) show ?thesis by (intro frame) simp_all
      qed
    qed
    with PublishScan show ?thesis by simp
  next
    case (FailScan worker now job code)
    then show ?thesis by (auto simp: fail_scan_def Let_def intro!: frame) }
qed

text \<open>The rule budget holds: starting without rules, no sequence of calls gives a tenant more than a hundred
  enabled detector rules in their latest revisions.\<close>

theorem enabled_rules_bounded:
  assumes "pd_rules db0 = []" "db = fold (call ev) cs db0"
  shows "enabled_count db t \<le> MAX_ENABLED_RULES"
proof -
  have "enabled_ok db0" using assms(1) by (simp add: enabled_ok_def enabled_count_rows tenant_rules_def)
  moreover have "enabled_ok d \<Longrightarrow> enabled_ok (fold (call ev) cs d)" for d
    by (induction cs arbitrary: d) (simp_all add: call_enabled)
  ultimately show ?thesis using assms(2) by (simp add: enabled_ok_def)
qed

subsection \<open>A concrete tenant\<close>

definition demo_privacy_env :: privacy_env where
  "demo_privacy_env = \<lparr>pv_nt = \<lparr>float_repr = (\<lambda>x. []), decimal_str = (\<lambda>s c e. [])\<rparr>, pv_sha = (\<lambda>s. []), pv_uuid5 = length,
     pv_rule_id = (\<lambda>t c. length c)\<rparr>"

definition demo_privacy :: privacy_db where
  "demo_privacy = \<lparr>pd_assets = [\<lparr>as_tenant = 1, as_id = 2\<rparr>],
     pd_snapshots = [\<lparr>ps_tenant = 1, ps_id = 3, ps_asset = 2,
       ps_schema = Some [(u ''columns'', JArr [JStr (u ''note'')])],
       ps_manifest = Some [(u ''sensitive_scan'', JObj [(u ''status'', JStr (u ''COMPLETE''))])]\<rparr>],
     pd_classes = [], pd_findings = [], pd_jobs = [], pd_configs = [(1, 1)], pd_rules = [], pd_revisions = [], pd_policies = [],
     pd_events = []\<rparr>"

definition demo_dismissed :: find_row where
  "demo_dismissed = \<lparr>fr_id = 9, fr_tenant = 1, fr_snapshot = 3, fr_column = u ''note'', fr_path = [],
     fr_category = u ''BASIC_PERSONAL_DATA'', fr_status = u ''DISMISSED'', fr_code = u ''EMAIL'', fr_matched = 1, fr_observed = 1,
     fr_rule_id = None, fr_rule_revision = None, fr_scan = None, fr_reason = None, fr_reviewed_by = None, fr_reviewed_at = None\<rparr>"

theorem lost_update_prevented_witness:
  "accepted (SetPolicy 7 1 2 0 []) demo_privacy
     \<and> \<not> accepted (SetPolicy 8 1 2 0 []) (call demo_privacy_env (SetPolicy 7 1 2 0 []) demo_privacy)"
proof
  show a: "accepted (SetPolicy 7 1 2 0 []) demo_privacy" by code_simp
  show "\<not> accepted (SetPolicy 8 1 2 0 []) (call demo_privacy_env (SetPolicy 7 1 2 0 []) demo_privacy)"
    using lost_update_prevented [OF a, of 1 2 0 "SetPolicy 8 1 2 0 []" demo_privacy_env "[]"] by simp
qed

definition demo_protection :: snapshot_protection where
  "demo_protection = \<lparr>sp_asset_id = 2, sp_policy_version = 0, sp_scan_status = u ''COMPLETE'', sp_scan_stale = False,
     sp_protected_columns = [], sp_columns = [column_protection_of None [] True (u ''note'')]\<rparr>"

lemma demo_resolve:
  "resolve_snapshot_protection (demo_privacy\<lparr>pd_findings := [demo_dismissed]\<rparr>) 1 3 = Inr demo_protection"
  by code_simp


definition demo_calls :: "privacy_call list" where
  "demo_calls = [RequestScan 10 5 7 1 3 \<lparr>rq_purpose = Apply, rq_rule_id = None, rq_revision = None\<rparr>]"

definition demo_new_rule :: rule_create where
  "demo_new_rule = \<lparr>rc_code = u ''BADGE'', rc_value_pattern = True, rc_category = u ''BASIC_PERSONAL_DATA'', rc_enabled = True,
     rc_pattern = u ''B[0-9]+'', rc_full = True, rc_case_sensitive = True, rc_columns = []\<rparr>"

definition demo_create :: privacy_call where
  "demo_create = CreateRule 20 7 1 demo_new_rule"

definition demo_scanned :: privacy_db where
  "demo_scanned = fold (call demo_privacy_env) demo_calls demo_privacy"

theorem enabled_rules_bounded_witness:
  "enabled_count (fold (call demo_privacy_env) [demo_create] demo_privacy) 1 \<le> MAX_ENABLED_RULES"
proof -
  have "pd_rules demo_privacy = []" by (simp add: demo_privacy_def)
  from enabled_rules_bounded [OF this refl, of demo_privacy_env "[demo_create]" 1] show ?thesis .
qed

definition demo_pin :: pinned_rules where
  "demo_pin = \<lparr>pin_rules_of = [], pin_config_version = 1, pin_digest = []\<rparr>"

definition demo_job :: job_row where
  "demo_job = queued_job 10 5 1 3 7 Apply demo_pin"

lemma demo_init: "ensure_initialized bid 1 (demo_privacy\<lparr>pd_revisions := r, pd_jobs := js\<rparr>)
    = Inr (demo_privacy\<lparr>pd_revisions := r, pd_jobs := js\<rparr>)"
  by (simp add: ensure_initialized_def demo_privacy_def)

lemma demo_digest: "rules_digest (pv_nt demo_privacy_env) (pv_sha demo_privacy_env) [] = Inr []"
  by (simp add: rules_digest_def by_rule_id_def compute_deterministic_hash_def canonical_json_def demo_privacy_env_def quote_def u_simps
      escape_cp_def Let_def utf8_cp_def)

lemma demo_fields [simp]:
  "pd_rules demo_privacy = []" "pd_configs demo_privacy = [(1, 1)]" "pd_jobs demo_privacy = []" "pd_revisions demo_privacy = []"
  "pd_findings demo_privacy = []" "pd_classes demo_privacy = []"
  by (simp_all add: demo_privacy_def)

lemma demo_snapshot: "\<exists>m. find_snapshot (demo_privacy\<lparr>pd_revisions := r, pd_jobs := js\<rparr>) 1 3
    = Some \<lparr>ps_tenant = 1, ps_id = 3, ps_asset = 2, ps_schema = Some [(u ''columns'', JArr [JStr (u ''note'')])], ps_manifest = m\<rparr>"
  by (simp add: find_snapshot_def demo_privacy_def)

lemma demo_pinned: "load_pinned_rules (pv_nt demo_privacy_env) (pv_sha demo_privacy_env) bid 1 (demo_privacy\<lparr>pd_revisions := r, pd_jobs := js\<rparr>)
    = Inr (demo_pin, demo_privacy\<lparr>pd_revisions := r, pd_jobs := js\<rparr>)"
  unfolding load_pinned_rules_def demo_init
  by (simp add: pin_rules_def latest_rules_def tenant_rules_def by_rule_id_def demo_digest [simplified] demo_pin_def
      config_version_def dict_get_def)

lemma demo_scanned_eq: "demo_scanned = demo_privacy\<lparr>pd_revisions := [((1, 2), 1)], pd_jobs := [demo_job]\<rparr>"
proof -
  have d: "demo_privacy = demo_privacy\<lparr>pd_revisions := [], pd_jobs := []\<rparr>" by (simp add: demo_privacy_def)
  have e: "ensure_revision 1 2 demo_privacy = demo_privacy\<lparr>pd_revisions := [((1, 2), 0)], pd_jobs := []\<rparr>"
    unfolding ensure_revision_def by (simp add: demo_privacy_def)
  obtain m where s: "find_snapshot demo_privacy 1 3 = Some \<lparr>ps_tenant = 1, ps_id = 3, ps_asset = 2,
      ps_schema = Some [(u ''columns'', JArr [JStr (u ''note'')])], ps_manifest = m\<rparr>"
    using demo_snapshot [of "[]" "[]"] d by auto
  have "create_scan (pv_nt demo_privacy_env) (pv_sha demo_privacy_env) (pv_rule_id demo_privacy_env) 10 5 7 1 3
      \<lparr>rq_purpose = Apply, rq_rule_id = None, rq_revision = None\<rparr> demo_privacy
    = Inr (demo_job, demo_privacy\<lparr>pd_revisions := [((1, 2), 1)], pd_jobs := [demo_job]\<rparr>)"
    unfolding create_scan_def s by (simp add: e [simplified] demo_pinned [simplified] Let_def demo_job_def)
      (simp add: bump_revision_def revision_of_def)
  then show ?thesis by (simp add: demo_scanned_def demo_calls_def)
qed

lemma demo_created: "\<exists>e. create_rule (pv_rule_id demo_privacy_env) 20 7 1 demo_new_rule demo_scanned = Inr (created_rule 20 demo_new_rule,
    log_event e (bump_config 1 1 (demo_scanned\<lparr>pd_rules := [(1, created_rule 20 demo_new_rule)]\<rparr>)))"
  unfolding demo_scanned_eq create_rule_def demo_init
  by (simp add: Let_def tenant_rules_def insert_rule_def latest_rule_def latest_rules_def enabled_count_def MAX_ENABLED_RULES_def
      config_version_def dict_get_def created_rule_def) (auto simp: demo_new_rule_def)

lemma demo_rule_change: "rule_change demo_privacy_env demo_create demo_scanned = Some 1" "apply_jobs demo_scanned 1 3 \<noteq> []"
proof -
  show "rule_change demo_privacy_env demo_create demo_scanned = Some 1" using demo_created by (auto simp: demo_create_def)
  show "apply_jobs demo_scanned 1 3 \<noteq> []" by (simp add: demo_scanned_eq apply_jobs_def demo_job_def queued_job_def)
qed

lemma demo_change_resolve: "\<exists>sp. resolve_snapshot_protection (call demo_privacy_env demo_create demo_scanned) 1 3 = Inr sp
    \<and> map cp_column_name (sp_columns sp) = [u ''note'']"
proof -
  obtain e where c: "call demo_privacy_env demo_create demo_scanned
      = log_event e (bump_config 1 1 (demo_scanned\<lparr>pd_rules := [(1, created_rule 20 demo_new_rule)]\<rparr>))"
    using demo_created by (auto simp: demo_create_def)
  obtain m where s: "find_snapshot (call demo_privacy_env demo_create demo_scanned) 1 3 = Some \<lparr>ps_tenant = 1, ps_id = 3, ps_asset = 2,
      ps_schema = Some [(u ''columns'', JArr [JStr (u ''note'')])], ps_manifest = m\<rparr>"
    unfolding c unfolding demo_scanned_eq by (simp add: find_snapshot_def demo_privacy_def)
  have "apply_jobs (call demo_privacy_env demo_create demo_scanned) 1 3 = [demo_job]"
    unfolding c unfolding demo_scanned_eq by (simp add: apply_jobs_def demo_job_def queued_job_def)
  then have "\<exists>st. scan_state_of (call demo_privacy_env demo_create demo_scanned) 1 3 m = Inr st"
    by (simp add: scan_state_of_def latest_def)
  then show ?thesis unfolding resolve_snapshot_protection_def s
    by (auto simp: column_names_def iter_json_def jget_def column_name_of_def Let_def)
qed


subsection \<open>A claimed and published scan\<close>

definition demo_running :: job_row where
  "demo_running = claimed_job (u ''w1'') 11 60 demo_job"

definition demo_claimed :: privacy_db where
  "demo_claimed = demo_privacy\<lparr>pd_revisions := [((1, 2), 1)], pd_jobs := [demo_running]\<rparr>"

definition demo_found :: finding where
  "demo_found = \<lparr>fi_column_name = u ''note'', fi_path = [], fi_category = u ''BASIC_PERSONAL_DATA'', fi_detector_code = u ''EMAIL'',
     fi_rule_id = None, fi_rule_revision = None, fi_matched_count = 1, fi_observed_count = 1, fi_method = u ''VALUE_PATTERN'',
     fi_detector_revision = u ''builtin-v1'', fi_confidence_score = 1\<rparr>"

definition demo_report :: scan_report where
  "demo_report = \<lparr>sr_total_rows = 1, sr_findings = [demo_found], sr_sensitive_columns = [u ''note''], sr_scope_missing = []\<rparr>"

lemma demo_running_fields:
  "jb_id demo_running = 5" "jb_tenant demo_running = 1" "jb_snapshot demo_running = 3" "jb_purpose demo_running = Apply"
  "jb_state demo_running = SRunning" "jb_owner demo_running = Some (u ''w1'')" "jb_generation demo_running = 1"
  "jb_expires demo_running = Some 60000011" "jb_attempts demo_running = 1"
  by (simp_all add: demo_running_def claimed_job_def demo_job_def queued_job_def)

lemma demo_published: "\<exists>db. publish (pv_nt demo_privacy_env) (pv_uuid5 demo_privacy_env) (u ''w1'') 12 demo_running demo_report demo_claimed = Inr (True, db)"
proof -
  obtain m where s: "find_snapshot demo_claimed 1 3 = Some \<lparr>ps_tenant = 1, ps_id = 3, ps_asset = 2,
      ps_schema = Some [(u ''columns'', JArr [JStr (u ''note'')])], ps_manifest = m\<rparr>"
    using demo_snapshot unfolding demo_claimed_def by blast
  have f: "any_of (fenced (u ''w1'') 12 1 5 1) (pd_jobs (ensure_revision 1 2 demo_claimed))"
    by (simp add: demo_claimed_def fenced_def demo_running_fields)
  have i: "findings_insertable (ensure_revision 1 2 demo_claimed) [finding_row_of uuid5 demo_running p d demo_found]" for uuid5 p d
    by (simp add: findings_insertable_def finding_row_of_def Let_def demo_found_def demo_claimed_def)
  show ?thesis
    unfolding publish_def lock_fenced_def Let_def demo_running_fields s
    using f by (simp add: write_findings_def Let_def demo_report_def i [simplified])
qed

theorem published_findings_protect_witness:
  "\<exists>db sp. publish (pv_nt demo_privacy_env) (pv_uuid5 demo_privacy_env) (u ''w1'') 12 demo_running demo_report demo_claimed = Inr (True, db)
     \<and> resolve_snapshot_protection db 1 3 = Inr sp \<and> u ''note'' \<in> set (sp_protected_columns sp)"
proof -
  obtain db where db: "publish (pv_nt demo_privacy_env) (pv_uuid5 demo_privacy_env) (u ''w1'') 12 demo_running demo_report demo_claimed = Inr (True, db)"
    using demo_published ..
  obtain k where j: "pd_jobs db = [completed_job k demo_running]" "pd_snapshots db = pd_snapshots demo_privacy"
    using db
  proof (cases rule: publish_result)
    case (published s db1)
    have "pd_jobs db1 = [demo_running] \<and> pd_snapshots db1 = pd_snapshots demo_privacy"
      by (rule write_findings_result [OF published(4)]) (simp_all add: demo_running_fields demo_claimed_def)
    with published(6) that show thesis by (simp add: update_tenant_job_def)
  qed simp
  obtain m where s: "find_snapshot db 1 3 = Some \<lparr>ps_tenant = 1, ps_id = 3, ps_asset = 2,
      ps_schema = Some [(u ''columns'', JArr [JStr (u ''note'')])], ps_manifest = m\<rparr>"
    using demo_snapshot [of "[]" "[]"] j(2) by (auto simp: find_snapshot_def)
  have "apply_jobs db 1 3 = [completed_job k demo_running]"
    using demo_running_fields by (simp add: apply_jobs_def j completed_job_def)
  then have "\<exists>st. scan_state_of db 1 3 m = Inr st" by (simp add: scan_state_of_def latest_def)
  then obtain sp where sp: "resolve_snapshot_protection db 1 3 = Inr sp" "map cp_column_name (sp_columns sp) = [u ''note'']"
    unfolding resolve_snapshot_protection_def s
    by (auto simp: column_names_def iter_json_def jget_def column_name_of_def Let_def)
  have "u ''note'' \<in> set (map cp_column_name (sp_columns sp))" unfolding sp(2) by simp
  then obtain cp where cp: "cp \<in> set (sp_columns sp)" "cp_column_name cp = u ''note''" by auto
  have "newest_apply demo_claimed demo_running"
    by (simp add: newest_apply_def apply_jobs_def demo_claimed_def)
  moreover have "\<not> carried_dismissal demo_running demo_claimed demo_found"
    by (simp add: carried_dismissal_def decision_row_def demo_found_def)
  ultimately have "fi_column_name demo_found \<in> set (sp_protected_columns sp)"
    using published_findings_protect [OF db demo_running_fields(4), of demo_running demo_found sp cp] sp(1) cp
      demo_running_fields by (simp add: demo_claimed_def demo_report_def demo_found_def)
  then have "u ''note'' \<in> set (sp_protected_columns sp)" by (simp add: demo_found_def)
  with db sp(1) show ?thesis by (intro exI conjI)
qed

definition demo_failed :: privacy_db where
  "demo_failed = fold (call demo_privacy_env) (demo_calls @ [ClaimScan (u ''w1'') 11 60, FailScan (u ''w1'') 12 demo_running (u ''OBJECT_CHANGED'')])
     demo_privacy"

lemma demo_superseded: "superseded demo_failed (jb_id demo_running) (jb_generation demo_running)"
proof -
  have c: "snd (claim_next_job (u ''w1'') 11 60 demo_scanned) = demo_claimed"
    by (simp add: claim_next_job_def demo_scanned_eq claimable_scan_def demo_job_def queued_job_def update_job_def demo_claimed_def
        demo_running_def)
  have e: "demo_failed = snd (fail_scan (u ''w1'') 12 demo_running (u ''OBJECT_CHANGED'') demo_claimed)"
    using c by (simp add: demo_failed_def demo_scanned_def [symmetric])
  have "pd_jobs demo_failed = [settled_job False (u ''OBJECT_CHANGED'') demo_running]"
    unfolding e by (simp add: fail_scan_def Let_def fenced_def demo_running_fields demo_claimed_def transient_code_def)
  then show ?thesis by (simp add: superseded_def scan_finished_def settled_job_def)
qed

theorem stale_scan_refused_witness:
  "fst (fail_scan (u ''w1'') 13 demo_running (u ''OBJECT_CHANGED'') demo_failed) = False"
proof -
  have "demo_failed = fold (call demo_privacy_env) [] demo_failed" by simp
  from stale_scan_refused [OF _ demo_failed_def demo_superseded this, of "pv_nt demo_privacy_env" "pv_uuid5 demo_privacy_env"
      "u ''w1''" 13 demo_report "u ''OBJECT_CHANGED''"] show ?thesis by simp
qed

end
