(* ===== verification/RuleParameters.thy ===== *)
theory RuleParameters
  imports JsonText PyRegex
begin

text \<open>
  \<open>common/rule_parameters.py\<close>: the parameter schemas of the extended rule types. A schema reads a JSON
  object, refuses unknown keys and checks each field and then the combination of fields. \<open>Inl\<close> is the
  \<open>ValidationError\<close>, with the first field or the validator message that caused it. \<open>model_dump\<close> with
  \<open>exclude_none\<close> is the object that is stored and validated again when the rule is compiled.
\<close>

subsection \<open>Decimal text\<close>

text \<open>
  \<open>Decimal(str)\<close>: surrounding white space and underscores are dropped, decimal digits of every script
  count as digits; \<open>None\<close> is \<open>InvalidOperation\<close>. Infinities and NaN are not told apart.
\<close>

datatype decimal = DFinite bool nat int | DNonFinite

definition coefficient_of :: "nat list \<Rightarrow> nat" where
  "coefficient_of ds = foldl (\<lambda>n d. 10 * n + d) 0 ds"

definition decimal_limits :: "nat \<Rightarrow> int \<Rightarrow> bool" where
  "decimal_limits c e \<longleftrightarrow>
     e + int (length (nat_text c)) - 1 \<le> 999999999999999999 \<and> - 1999999999999999997 \<le> e"

definition take_digits :: "unidata \<Rightarrow> ustr \<Rightarrow> nat list \<times> ustr" where
  "take_digits ud s = (map (\<lambda>c. case decimal_value ud c of Some d \<Rightarrow> d | None \<Rightarrow> 0) (takeWhile (is_decimal ud) s),
     dropWhile (is_decimal ud) s)"

definition ascii_lower :: "ustr \<Rightarrow> ustr" where
  "ascii_lower s = map (\<lambda>c. if 65 \<le> c \<and> c \<le> 90 then c + 32 else c) s"

definition special_text :: "unidata \<Rightarrow> ustr \<Rightarrow> bool" where
  "special_text ud s = (let t = ascii_lower s in
     t = u ''inf'' \<or> t = u ''infinity''
     \<or> (is_prefix (u ''nan'') t \<and> list_all (is_decimal ud) (drop 3 t))
     \<or> (is_prefix (u ''snan'') t \<and> list_all (is_decimal ud) (drop 4 t)))"

definition decimal_exponent :: "unidata \<Rightarrow> ustr \<Rightarrow> int option" where
  "decimal_exponent ud s = (case s of [] \<Rightarrow> Some 0
     | c # r \<Rightarrow> if c = 101 \<or> c = 69 then
         (let neg = (case r of [] \<Rightarrow> False | c1 # r1 \<Rightarrow> c1 = 45);
              r1 = (case r of [] \<Rightarrow> [] | c1 # r1 \<Rightarrow> if c1 = 43 \<or> c1 = 45 then r1 else r);
              (ds, r2) = take_digits ud r1
          in if ds = [] \<or> r2 \<noteq> [] then None
             else Some (if neg then - int (coefficient_of ds) else int (coefficient_of ds)))
       else None)"

definition py_decimal :: "unidata \<Rightarrow> ustr \<Rightarrow> decimal option" where
  "py_decimal ud text =
     (let s = filter (\<lambda>c. c \<noteq> 95) (py_strip text);
          neg = (case s of [] \<Rightarrow> False | c # r \<Rightarrow> c = 45);
          s1 = (case s of [] \<Rightarrow> [] | c # r \<Rightarrow> if c = 43 \<or> c = 45 then r else s);
          (ip, s2) = take_digits ud s1;
          (fp, s3) = (case s2 of [] \<Rightarrow> ([], []) | c # r \<Rightarrow> if c = 46 then take_digits ud r else ([], s2))
      in if special_text ud s1 then Some DNonFinite
         else if ip = [] \<and> fp = [] then None
         else (case decimal_exponent ud s3 of None \<Rightarrow> None
               | Some x \<Rightarrow>
                   (let c = coefficient_of (ip @ fp); e = x - int (length fp)
                    in if decimal_limits c e then Some (DFinite neg c e) else None)))"

definition decimal_rat :: "bool \<Rightarrow> nat \<Rightarrow> int \<Rightarrow> rat" where
  "decimal_rat neg c e = (if neg then - of_nat c else of_nat c) * 10 powi e"

subsection \<open>Fields\<close>

definition only_keys :: "string list \<Rightarrow> jdict \<Rightarrow> bool" where
  "only_keys ks d \<longleftrightarrow> list_all (\<lambda>kv. fst kv \<in> set (map u ks)) d"

definition req_str :: "jdict \<Rightarrow> string \<Rightarrow> nat \<Rightarrow> string + ustr" where
  "req_str d k n = (case jget d k of Some (JStr s) \<Rightarrow> if length s < n then Inl k else Inr s | _ \<Rightarrow> Inl k)"

definition get_opt_str :: "jdict \<Rightarrow> string \<Rightarrow> string + ustr option" where
  "get_opt_str d k = (case jget d k of None \<Rightarrow> Inr None | Some JNull \<Rightarrow> Inr None | Some (JStr s) \<Rightarrow> Inr (Some s) | _ \<Rightarrow> Inl k)"

definition literal :: "jdict \<Rightarrow> string \<Rightarrow> string list \<Rightarrow> string + ustr" where
  "literal d k vs = (case jget d k of Some (JStr s) \<Rightarrow> if s \<in> set (map u vs) then Inr s else Inl k | _ \<Rightarrow> Inl k)"

definition opt_literal :: "jdict \<Rightarrow> string \<Rightarrow> string list \<Rightarrow> string + ustr option" where
  "opt_literal d k vs = (case jget d k of None \<Rightarrow> Inr None | Some JNull \<Rightarrow> Inr None
     | Some (JStr s) \<Rightarrow> if s \<in> set (map u vs) then Inr (Some s) else Inl k | _ \<Rightarrow> Inl k)"

text \<open>\<open>int | None\<close> with \<open>ge=0, strict=True\<close>.\<close>

definition opt_nonneg :: "jdict \<Rightarrow> string \<Rightarrow> string + int option" where
  "opt_nonneg d k = (case jget d k of None \<Rightarrow> Inr None | Some JNull \<Rightarrow> Inr None
     | Some (JInt i) \<Rightarrow> if 0 \<le> i then Inr (Some i) else Inl k | _ \<Rightarrow> Inl k)"

fun str_items :: "json list \<Rightarrow> ustr list option" where
  "str_items [] = Some []"
| "str_items (JStr s # vs) = map_option (Cons s) (str_items vs)"
| "str_items (v # vs) = None"

definition str_list :: "json \<Rightarrow> ustr list option" where
  "str_list v = (case v of JArr xs \<Rightarrow> str_items xs | _ \<Rightarrow> None)"

text \<open>\<open>bool\<close> in the lax mode of the schemas: booleans, 0 and 1, and the usual words.\<close>

definition lax_bool :: "json \<Rightarrow> bool option" where
  "lax_bool v = (case v of
      JBool b \<Rightarrow> Some b
    | JInt i \<Rightarrow> if i = 0 then Some False else if i = 1 then Some True else None
    | JFloat x \<Rightarrow> if x = 0 then Some False else if x = 1 then Some True else None
    | JStr s \<Rightarrow> (let t = ascii_lower s in
        if t \<in> set (map u [''1'', ''on'', ''t'', ''true'', ''y'', ''yes'']) then Some True
        else if t \<in> set (map u [''0'', ''off'', ''f'', ''false'', ''n'', ''no'']) then Some False else None)
    | _ \<Rightarrow> None)"

definition dump_opt :: "string \<Rightarrow> ('a \<Rightarrow> json) \<Rightarrow> 'a option \<Rightarrow> jdict" where
  "dump_opt k f v = (case v of None \<Rightarrow> [] | Some x \<Rightarrow> [(u k, f x)])"

definition bounds_ok :: "int option \<Rightarrow> int option \<Rightarrow> bool" where
  "bounds_ok lo hi = (case (lo, hi) of (Some a, Some b) \<Rightarrow> a \<le> b | _ \<Rightarrow> True)"

text \<open>\<open>validate_rfc6901_path\<close>: empty or rooted, and every tilde starts an escape.\<close>

fun tildes_ok :: "ustr \<Rightarrow> bool" where
  "tildes_ok [] = True"
| "tildes_ok (c # cs) = ((c = 126 \<longrightarrow> (case cs of [] \<Rightarrow> False | d # ds \<Rightarrow> d = 48 \<or> d = 49)) \<and> tildes_ok cs)"

definition validate_rfc6901_path :: "ustr \<Rightarrow> string option" where
  "validate_rfc6901_path p =
     (if p \<noteq> [] \<and> \<not> is_prefix [47] p then Some ''RFC 6901 JSON Pointer path must be empty (root) or start with /''
      else if \<not> tildes_ok p then Some ''Invalid JSON Pointer escape'' else None)"

subsection \<open>TEXT\_QUALITY\<close>

record text_quality_parameters =
  tq_column :: ustr
  tq_check :: ustr
  tq_min_length :: "int option"
  tq_max_length :: "int option"

definition validate_length_bounds :: "text_quality_parameters \<Rightarrow> string + text_quality_parameters" where
  "validate_length_bounds p =
     (if tq_check p = u ''LENGTH'' then
        (if tq_min_length p = None \<and> tq_max_length p = None then Inl ''At least one of min_length or max_length is required''
         else if \<not> bounds_ok (tq_min_length p) (tq_max_length p) then Inl ''min_length cannot exceed max_length''
         else Inr p)
      else Inr p)"

definition validate_text_quality :: "jdict \<Rightarrow> string + text_quality_parameters" where
  "validate_text_quality d =
     (if \<not> only_keys [''column'', ''check'', ''min_length'', ''max_length''] d then Inl ''extra_forbidden''
      else case req_str d ''column'' 1 of Inl e \<Rightarrow> Inl e
      | Inr c \<Rightarrow> (case literal d ''check'' [''REPLACEMENT_CHARACTER'', ''CONTROL_CHARACTER'', ''MOJIBAKE'', ''LENGTH''] of
          Inl e \<Rightarrow> Inl e
        | Inr k \<Rightarrow> (case opt_nonneg d ''min_length'' of Inl e \<Rightarrow> Inl e
          | Inr lo \<Rightarrow> (case opt_nonneg d ''max_length'' of Inl e \<Rightarrow> Inl e
            | Inr hi \<Rightarrow> validate_length_bounds
                \<lparr>tq_column = c, tq_check = k, tq_min_length = lo, tq_max_length = hi\<rparr>))))"

definition dump_text_quality :: "text_quality_parameters \<Rightarrow> jdict" where
  "dump_text_quality p = [(u ''column'', JStr (tq_column p)), (u ''check'', JStr (tq_check p))]
     @ dump_opt ''min_length'' JInt (tq_min_length p) @ dump_opt ''max_length'' JInt (tq_max_length p)"

subsection \<open>SPELLING\<close>

type_synonym digests = "(ustr \<times> (ustr \<times> ustr) list list) list"

record spelling_parameters =
  sp_column :: ustr
  sp_language :: ustr
  sp_dictionary_revision :: ustr
  sp_accepted_terms :: "ustr list"
  sp_dictionary_digests :: "digests option"

fun str_dict :: "jdict \<Rightarrow> (ustr \<times> ustr) list option" where
  "str_dict [] = Some []"
| "str_dict ((k, JStr s) # kvs) = map_option (Cons (k, s)) (str_dict kvs)"
| "str_dict ((k, v) # kvs) = None"

fun str_dicts :: "json list \<Rightarrow> (ustr \<times> ustr) list list option" where
  "str_dicts [] = Some []"
| "str_dicts (JObj kvs # vs) = (case str_dict kvs of None \<Rightarrow> None | Some d \<Rightarrow> map_option (Cons d) (str_dicts vs))"
| "str_dicts (v # vs) = None"

fun digest_entries :: "jdict \<Rightarrow> digests option" where
  "digest_entries [] = Some []"
| "digest_entries ((k, JArr xs) # kvs) =
     (case str_dicts xs of None \<Rightarrow> None | Some ds \<Rightarrow> map_option (Cons (k, ds)) (digest_entries kvs))"
| "digest_entries ((k, v) # kvs) = None"

definition opt_digests :: "jdict \<Rightarrow> string + digests option" where
  "opt_digests d = (case jget d ''dictionary_digests'' of None \<Rightarrow> Inr None | Some JNull \<Rightarrow> Inr None
     | Some (JObj kvs) \<Rightarrow> (case digest_entries kvs of None \<Rightarrow> Inl ''dictionary_digests'' | Some x \<Rightarrow> Inr (Some x))
     | _ \<Rightarrow> Inl ''dictionary_digests'')"

definition validate_accepted_terms :: "ustr list \<Rightarrow> string option" where
  "validate_accepted_terms terms =
     (if 1000 < length terms then Some ''accepted_terms cannot exceed 1000 items''
      else if any_of (\<lambda>t. 128 < length t) terms then Some ''accepted_term exceeds 128 characters'' else None)"

definition accepted_terms_field :: "jdict \<Rightarrow> string + ustr list" where
  "accepted_terms_field d =
     (case jget d ''accepted_terms'' of None \<Rightarrow> Inr []
      | Some v \<Rightarrow> (case str_list v of None \<Rightarrow> Inl ''accepted_terms''
          | Some ts \<Rightarrow> (case validate_accepted_terms ts of Some e \<Rightarrow> Inl e | None \<Rightarrow> Inr ts)))"

definition validate_spelling :: "jdict \<Rightarrow> string + spelling_parameters" where
  "validate_spelling d =
     (if \<not> only_keys [''column'', ''language'', ''dictionary_revision'', ''accepted_terms'', ''dictionary_digests''] d
      then Inl ''extra_forbidden''
      else case req_str d ''column'' 1 of Inl e \<Rightarrow> Inl e
      | Inr c \<Rightarrow> (case literal d ''language'' [''vi'', ''en'', ''vi-en''] of Inl e \<Rightarrow> Inl e
        | Inr l \<Rightarrow> (case req_str d ''dictionary_revision'' 1 of Inl e \<Rightarrow> Inl e
          | Inr r \<Rightarrow> (case accepted_terms_field d of Inl e \<Rightarrow> Inl e
            | Inr ts \<Rightarrow> (case opt_digests d of Inl e \<Rightarrow> Inl e
              | Inr ds \<Rightarrow> Inr \<lparr>sp_column = c, sp_language = l, sp_dictionary_revision = r, sp_accepted_terms = ts,
                              sp_dictionary_digests = ds\<rparr>)))))"

definition dump_spelling :: "spelling_parameters \<Rightarrow> jdict" where
  "dump_spelling p = [(u ''column'', JStr (sp_column p)), (u ''language'', JStr (sp_language p)),
     (u ''dictionary_revision'', JStr (sp_dictionary_revision p)),
     (u ''accepted_terms'', JArr (map JStr (sp_accepted_terms p)))]
     @ dump_opt ''dictionary_digests''
         (\<lambda>ds. JObj (map (\<lambda>(k, xs). (k, JArr (map (\<lambda>d. JObj (map (\<lambda>(a, b). (a, JStr b)) d)) xs))) ds))
         (sp_dictionary_digests p)"

subsection \<open>JSON\_FIELD\<close>

record json_field_parameters =
  jf_column :: ustr
  jf_path :: ustr
  jf_check :: ustr
  jf_expected_type :: "ustr option"
  jf_min :: "ustr option"
  jf_max :: "ustr option"
  jf_pattern :: "ustr option"
  jf_allowed_values :: "ustr list option"

definition range_payload :: "unidata \<Rightarrow> ustr option \<Rightarrow> ustr option \<Rightarrow> string option" where
  "range_payload ud lo hi =
     (if lo = None \<and> hi = None then Some ''At least one of min or max is required''
      else case (map_option (py_decimal ud) lo, map_option (py_decimal ud) hi) of
        (Some None, _) \<Rightarrow> Some ''Invalid decimal string min''
      | (_, Some None) \<Rightarrow> Some ''Invalid decimal string max''
      | (Some (Some DNonFinite), _) \<Rightarrow> Some ''RANGE bounds must be finite decimal strings''
      | (_, Some (Some DNonFinite)) \<Rightarrow> Some ''RANGE bounds must be finite decimal strings''
      | (Some (Some (DFinite s c e)), Some (Some (DFinite s' c' e'))) \<Rightarrow>
          if decimal_rat s' c' e' < decimal_rat s c e then Some ''min cannot exceed max'' else None
      | _ \<Rightarrow> None)"

definition validate_check_payload :: "unidata \<Rightarrow> json_field_parameters \<Rightarrow> string option" where
  "validate_check_payload ud p =
     (if jf_check p = u ''TYPE'' then (if jf_expected_type p = None then Some ''expected_type is required'' else None)
      else if jf_check p = u ''RANGE'' then range_payload ud (jf_min p) (jf_max p)
      else if jf_check p = u ''REGEX''
        then (if jf_pattern p = None \<or> jf_pattern p = Some [] then Some ''pattern is required'' else None)
      else if jf_check p = u ''ALLOWED_VALUES'' then
        (case jf_allowed_values p of None \<Rightarrow> Some ''allowed_values list is required''
         | Some vs \<Rightarrow> if vs = [] then Some ''allowed_values list is required''
                      else if 1000 < length vs then Some ''allowed_values cannot exceed 1000 items'' else None)
      else None)"

definition opt_str_list :: "jdict \<Rightarrow> string \<Rightarrow> string + ustr list option" where
  "opt_str_list d k = (case jget d k of None \<Rightarrow> Inr None | Some JNull \<Rightarrow> Inr None
     | Some v \<Rightarrow> (case str_list v of None \<Rightarrow> Inl k | Some xs \<Rightarrow> Inr (Some xs)))"

definition pattern_too_long :: "ustr option \<Rightarrow> bool" where
  "pattern_too_long pat = (case pat of None \<Rightarrow> False | Some x \<Rightarrow> 512 < length x)"

definition validate_json_field :: "unidata \<Rightarrow> jdict \<Rightarrow> string + json_field_parameters" where
  "validate_json_field ud d =
     (if \<not> only_keys [''column'', ''path'', ''check'', ''expected_type'', ''min'', ''max'', ''pattern'', ''allowed_values''] d
      then Inl ''extra_forbidden''
      else case req_str d ''column'' 1 of Inl e \<Rightarrow> Inl e
      | Inr c \<Rightarrow> (case req_str d ''path'' 0 of Inl e \<Rightarrow> Inl e
      | Inr p \<Rightarrow> (case literal d ''check'' [''NON_NULL'', ''TYPE'', ''RANGE'', ''REGEX'', ''ALLOWED_VALUES''] of Inl e \<Rightarrow> Inl e
      | Inr k \<Rightarrow> (case opt_literal d ''expected_type'' [''STRING'', ''NUMBER'', ''BOOLEAN'', ''OBJECT'', ''ARRAY''] of Inl e \<Rightarrow> Inl e
      | Inr t \<Rightarrow> (case get_opt_str d ''min'' of Inl e \<Rightarrow> Inl e
      | Inr lo \<Rightarrow> (case get_opt_str d ''max'' of Inl e \<Rightarrow> Inl e
      | Inr hi \<Rightarrow> (case get_opt_str d ''pattern'' of Inl e \<Rightarrow> Inl e
      | Inr pat \<Rightarrow> (case opt_str_list d ''allowed_values'' of Inl e \<Rightarrow> Inl e
      | Inr av \<Rightarrow>
          (let m = \<lparr>jf_column = c, jf_path = p, jf_check = k, jf_expected_type = t, jf_min = lo, jf_max = hi,
                    jf_pattern = pat, jf_allowed_values = av\<rparr>
           in case validate_rfc6901_path p of Some e \<Rightarrow> Inl e
              | None \<Rightarrow> if pattern_too_long pat then Inl ''pattern cannot exceed 512 characters''
                 else (case validate_check_payload ud m of Some e \<Rightarrow> Inl e | None \<Rightarrow> Inr m))))))))))"

definition dump_json_field :: "json_field_parameters \<Rightarrow> jdict" where
  "dump_json_field p = [(u ''column'', JStr (jf_column p)), (u ''path'', JStr (jf_path p)), (u ''check'', JStr (jf_check p))]
     @ dump_opt ''expected_type'' JStr (jf_expected_type p) @ dump_opt ''min'' JStr (jf_min p)
     @ dump_opt ''max'' JStr (jf_max p) @ dump_opt ''pattern'' JStr (jf_pattern p)
     @ dump_opt ''allowed_values'' (\<lambda>xs. JArr (map JStr xs)) (jf_allowed_values p)"

subsection \<open>JSON\_ARRAY\<close>

record json_array_parameters =
  ja_column :: ustr
  ja_path :: ustr
  ja_min_items :: "int option"
  ja_max_items :: "int option"
  ja_unique_items :: bool

definition validate_array_bounds :: "json_array_parameters \<Rightarrow> string option" where
  "validate_array_bounds p =
     (if ja_min_items p = None \<and> ja_max_items p = None \<and> \<not> ja_unique_items p
      then Some ''At least one of min_items, max_items, or unique_items=True must be configured''
      else if \<not> bounds_ok (ja_min_items p) (ja_max_items p) then Some ''min_items cannot exceed max_items'' else None)"

definition unique_items_field :: "jdict \<Rightarrow> string + bool" where
  "unique_items_field d = (case jget d ''unique_items'' of None \<Rightarrow> Inr False
     | Some v \<Rightarrow> (case lax_bool v of None \<Rightarrow> Inl ''unique_items'' | Some b \<Rightarrow> Inr b))"

definition validate_json_array :: "jdict \<Rightarrow> string + json_array_parameters" where
  "validate_json_array d =
     (if \<not> only_keys [''column'', ''path'', ''min_items'', ''max_items'', ''unique_items''] d then Inl ''extra_forbidden''
      else case req_str d ''column'' 1 of Inl e \<Rightarrow> Inl e
      | Inr c \<Rightarrow> (case req_str d ''path'' 0 of Inl e \<Rightarrow> Inl e
      | Inr p \<Rightarrow> (case opt_nonneg d ''min_items'' of Inl e \<Rightarrow> Inl e
      | Inr lo \<Rightarrow> (case opt_nonneg d ''max_items'' of Inl e \<Rightarrow> Inl e
      | Inr hi \<Rightarrow> (case unique_items_field d of Inl e \<Rightarrow> Inl e
      | Inr b \<Rightarrow>
          (let m = \<lparr>ja_column = c, ja_path = p, ja_min_items = lo, ja_max_items = hi, ja_unique_items = b\<rparr>
           in case validate_rfc6901_path p of Some e \<Rightarrow> Inl e
              | None \<Rightarrow> (case validate_array_bounds m of Some e \<Rightarrow> Inl e | None \<Rightarrow> Inr m)))))))"

definition dump_json_array :: "json_array_parameters \<Rightarrow> jdict" where
  "dump_json_array p = [(u ''column'', JStr (ja_column p)), (u ''path'', JStr (ja_path p))]
     @ dump_opt ''min_items'' JInt (ja_min_items p) @ dump_opt ''max_items'' JInt (ja_max_items p)
     @ [(u ''unique_items'', JBool (ja_unique_items p))]"

end
