(* ===== verification/RuleParameterProps.thy ===== *)
theory RuleParameterProps
  imports RuleParameters
begin

text \<open>
  Validated parameters survive storage: what a schema accepted and \<open>model_dump\<close> wrote to the rule's row is
  accepted again, with the same result, when the compiler validates it.
\<close>

lemma jget_simps:
  "jget [] k = None" "jget ((u k', v) # d) k = (if k' = k then Some v else jget d k)"
  by (simp_all add: jget_def)

lemma jget_append: "jget (d @ e) k = (case jget d k of None \<Rightarrow> jget e k | Some v \<Rightarrow> Some v)"
  by (simp add: jget_def map_add_def split: option.split)

lemma jget_dump_opt: "jget (dump_opt k' f v) k = (if k' = k then map_option f v else None)"
  by (simp add: dump_opt_def jget_simps split: option.split)

lemma only_keys_simps:
  "only_keys ks []" "only_keys ks ((u k, v) # d) = (k \<in> set ks \<and> only_keys ks d)"
  by (auto simp: only_keys_def)

lemma only_keys_append: "only_keys ks (d @ e) = (only_keys ks d \<and> only_keys ks e)"
  by (simp add: only_keys_def)

lemma only_keys_dump_opt: "k \<in> set ks \<Longrightarrow> only_keys ks (dump_opt k f v)"
  by (simp add: dump_opt_def only_keys_simps split: option.split)

lemmas dump_simps = jget_simps jget_append jget_dump_opt only_keys_simps only_keys_append only_keys_dump_opt

lemma str_items_map [simp]: "str_items (map JStr xs) = Some xs"
  by (induction xs) auto

lemma str_list_map [simp]: "str_list (JArr (map JStr xs)) = Some xs"
  by (simp add: str_list_def)

lemma str_dict_map [simp]: "str_dict (map (\<lambda>(a, b). (a, JStr b)) d) = Some d"
  by (induction d) auto

lemma str_dicts_map [simp]: "str_dicts (map (\<lambda>d. JObj (map (\<lambda>(a, b). (a, JStr b)) d)) xs) = Some xs"
  by (induction xs) auto

lemma digest_entries_map [simp]:
  "digest_entries (map (\<lambda>(k, xs). (k, JArr (map (\<lambda>d. JObj (map (\<lambda>(a, b). (a, JStr b)) d)) xs))) ds) = Some ds"
  by (induction ds) auto

lemma req_str_Inr: "req_str d k n = Inr s \<longleftrightarrow> jget d k = Some (JStr s) \<and> n \<le> length s"
  by (auto simp: req_str_def split: option.splits json.splits)

lemma literal_Inr: "literal d k vs = Inr s \<longleftrightarrow> jget d k = Some (JStr s) \<and> s \<in> set (map u vs)"
  by (auto simp: literal_def split: option.splits json.splits)

lemma opt_literal_range: "opt_literal d k vs = Inr (Some s) \<Longrightarrow> s \<in> set (map u vs)"
  by (auto simp: opt_literal_def split: option.splits json.splits if_splits)

lemma opt_nonneg_range: "opt_nonneg d k = Inr (Some i) \<Longrightarrow> 0 \<le> i"
  by (auto simp: opt_nonneg_def split: option.splits json.splits if_splits)

lemma opt_literal_dump:
  assumes "jget d' k = map_option JStr t" "opt_literal d k vs = Inr t"
  shows "opt_literal d' k vs = Inr t"
  using assms(1) opt_literal_range [of d k vs] assms(2) by (cases t) (auto simp: opt_literal_def [of d'])

lemma text_quality_again:
  assumes "validate_text_quality d = Inr p"
  shows "validate_text_quality (dump_text_quality p) = Inr p"
proof -
  obtain c k lo hi where f: "req_str d ''column'' 1 = Inr c"
    "literal d ''check'' [''REPLACEMENT_CHARACTER'', ''CONTROL_CHARACTER'', ''MOJIBAKE'', ''LENGTH''] = Inr k"
    "opt_nonneg d ''min_length'' = Inr lo" "opt_nonneg d ''max_length'' = Inr hi"
    "validate_length_bounds \<lparr>tq_column = c, tq_check = k, tq_min_length = lo, tq_max_length = hi\<rparr> = Inr p"
    using assms by (auto simp: validate_text_quality_def split: if_splits sum.splits)
  have p: "p = \<lparr>tq_column = c, tq_check = k, tq_min_length = lo, tq_max_length = hi\<rparr>"
    using f(5) by (auto simp: validate_length_bounds_def split: if_splits)
  have "opt_nonneg (dump_text_quality p) ''min_length'' = Inr lo" "opt_nonneg (dump_text_quality p) ''max_length'' = Inr hi"
    using opt_nonneg_range [of d] f(3,4) by (auto simp: p opt_nonneg_def dump_text_quality_def dump_simps split: option.split)
  moreover have "req_str (dump_text_quality p) ''column'' 1 = Inr c"
    "literal (dump_text_quality p) ''check'' [''REPLACEMENT_CHARACTER'', ''CONTROL_CHARACTER'', ''MOJIBAKE'', ''LENGTH''] = Inr k"
    using f(1,2) unfolding req_str_Inr literal_Inr by (simp_all add: p dump_text_quality_def dump_simps)
  moreover have "only_keys [''column'', ''check'', ''min_length'', ''max_length''] (dump_text_quality p)"
    by (simp add: dump_text_quality_def dump_simps)
  ultimately show ?thesis using f(5) by (simp add: validate_text_quality_def)
qed

lemma spelling_again:
  assumes "validate_spelling d = Inr p"
  shows "validate_spelling (dump_spelling p) = Inr p"
proof -
  obtain c l r ts ds where f: "req_str d ''column'' 1 = Inr c" "literal d ''language'' [''vi'', ''en'', ''vi-en''] = Inr l"
    "req_str d ''dictionary_revision'' 1 = Inr r" "accepted_terms_field d = Inr ts" "opt_digests d = Inr ds"
    and p: "p = \<lparr>sp_column = c, sp_language = l, sp_dictionary_revision = r, sp_accepted_terms = ts, sp_dictionary_digests = ds\<rparr>"
    using assms by (auto simp: validate_spelling_def split: if_splits sum.splits)
  have "validate_accepted_terms ts = None"
    using f(4) by (auto simp: accepted_terms_field_def validate_accepted_terms_def split: option.splits if_splits)
  then have "accepted_terms_field (dump_spelling p) = Inr ts"
    by (simp add: p accepted_terms_field_def dump_spelling_def dump_simps)
  moreover have "opt_digests (dump_spelling p) = Inr ds"
    by (simp add: p opt_digests_def dump_spelling_def dump_simps split: option.split)
  moreover have "req_str (dump_spelling p) ''column'' 1 = Inr c" "literal (dump_spelling p) ''language'' [''vi'', ''en'', ''vi-en''] = Inr l"
    "req_str (dump_spelling p) ''dictionary_revision'' 1 = Inr r"
    using f(1-3) unfolding req_str_Inr literal_Inr by (simp_all add: p dump_spelling_def dump_simps)
  moreover have "only_keys [''column'', ''language'', ''dictionary_revision'', ''accepted_terms'', ''dictionary_digests''] (dump_spelling p)"
    by (simp add: dump_spelling_def dump_simps)
  ultimately show ?thesis by (simp add: validate_spelling_def p)
qed

lemma opt_str_dump: "jget d k = map_option JStr v \<Longrightarrow> get_opt_str d k = Inr v"
  by (cases v) (simp_all add: get_opt_str_def)

lemma json_field_again:
  assumes "validate_json_field ud d = Inr p"
  shows "validate_json_field ud (dump_json_field p) = Inr p"
proof -
  obtain c pa k t lo hi pat av where f: "req_str d ''column'' 1 = Inr c" "req_str d ''path'' 0 = Inr pa"
    "literal d ''check'' [''NON_NULL'', ''TYPE'', ''RANGE'', ''REGEX'', ''ALLOWED_VALUES''] = Inr k"
    "opt_literal d ''expected_type'' [''STRING'', ''NUMBER'', ''BOOLEAN'', ''OBJECT'', ''ARRAY''] = Inr t"
    and v: "validate_rfc6901_path pa = None" "\<not> pattern_too_long pat"
    "validate_check_payload ud p = None"
    and p: "p = \<lparr>jf_column = c, jf_path = pa, jf_check = k, jf_expected_type = t, jf_min = lo, jf_max = hi,
        jf_pattern = pat, jf_allowed_values = av\<rparr>"
    using assms by (auto simp: validate_json_field_def Let_def split: if_splits sum.splits option.splits)
  let ?d = "dump_json_field p"
  have "req_str ?d ''column'' 1 = Inr c" "req_str ?d ''path'' 0 = Inr pa"
    "literal ?d ''check'' [''NON_NULL'', ''TYPE'', ''RANGE'', ''REGEX'', ''ALLOWED_VALUES''] = Inr k"
    using f(1-3) unfolding req_str_Inr literal_Inr by (simp_all add: p dump_json_field_def dump_simps)
  moreover have "opt_literal ?d ''expected_type'' [''STRING'', ''NUMBER'', ''BOOLEAN'', ''OBJECT'', ''ARRAY''] = Inr t"
    by (rule opt_literal_dump [OF _ f(4)]) (simp add: p dump_json_field_def dump_simps split: option.split)
  moreover have "get_opt_str ?d ''min'' = Inr lo" "get_opt_str ?d ''max'' = Inr hi" "get_opt_str ?d ''pattern'' = Inr pat"
    by (rule opt_str_dump; simp add: p dump_json_field_def dump_simps split: option.split)+
  moreover have "opt_str_list ?d ''allowed_values'' = Inr av"
    by (simp add: p opt_str_list_def dump_json_field_def dump_simps split: option.split)
  moreover have "only_keys [''column'', ''path'', ''check'', ''expected_type'', ''min'', ''max'', ''pattern'', ''allowed_values''] ?d"
    by (simp add: dump_json_field_def dump_simps)
  ultimately show ?thesis using v by (simp add: validate_json_field_def p)
qed

lemma json_array_again:
  assumes "validate_json_array d = Inr p"
  shows "validate_json_array (dump_json_array p) = Inr p"
proof -
  obtain c pa lo hi b where f: "req_str d ''column'' 1 = Inr c" "req_str d ''path'' 0 = Inr pa"
    "opt_nonneg d ''min_items'' = Inr lo" "opt_nonneg d ''max_items'' = Inr hi"
    and v: "validate_rfc6901_path pa = None" "validate_array_bounds p = None"
    and p: "p = \<lparr>ja_column = c, ja_path = pa, ja_min_items = lo, ja_max_items = hi, ja_unique_items = b\<rparr>"
    using assms by (auto simp: validate_json_array_def Let_def split: if_splits sum.splits option.splits)
  let ?d = "dump_json_array p"
  have "req_str ?d ''column'' 1 = Inr c" "req_str ?d ''path'' 0 = Inr pa"
    using f(1,2) unfolding req_str_Inr by (simp_all add: p dump_json_array_def dump_simps)
  moreover have "opt_nonneg ?d ''min_items'' = Inr lo" "opt_nonneg ?d ''max_items'' = Inr hi"
    using opt_nonneg_range [of d] f(3,4) by (auto simp: p opt_nonneg_def dump_json_array_def dump_simps split: option.split)
  moreover have "unique_items_field ?d = Inr b"
    by (simp add: p unique_items_field_def dump_json_array_def dump_simps lax_bool_def split: option.split)
  moreover have "only_keys [''column'', ''path'', ''min_items'', ''max_items'', ''unique_items''] ?d"
    by (simp add: dump_json_array_def dump_simps)
  ultimately show ?thesis using v by (simp add: validate_json_array_def p)
qed

text \<open>
  The stored form of validated rule parameters is valid and is read as the same parameters, for all four
  extended rule types.
\<close>

theorem parameters_revalidate:
  "(validate_text_quality d = Inr p1 \<longrightarrow> validate_text_quality (dump_text_quality p1) = Inr p1)
   \<and> (validate_spelling d = Inr p2 \<longrightarrow> validate_spelling (dump_spelling p2) = Inr p2)
   \<and> (validate_json_field ud d = Inr p3 \<longrightarrow> validate_json_field ud (dump_json_field p3) = Inr p3)
   \<and> (validate_json_array d = Inr p4 \<longrightarrow> validate_json_array (dump_json_array p4) = Inr p4)"
  using text_quality_again spelling_again json_field_again json_array_again by blast

lemma parameters_revalidate_witness:
  "validate_text_quality (dump_text_quality \<lparr>tq_column = u ''c'', tq_check = u ''LENGTH'', tq_min_length = Some 1, tq_max_length = None\<rparr>)
   = Inr \<lparr>tq_column = u ''c'', tq_check = u ''LENGTH'', tq_min_length = Some 1, tq_max_length = None\<rparr>"
proof -
  have "validate_text_quality [(u ''column'', JStr (u ''c'')), (u ''check'', JStr (u ''LENGTH'')), (u ''min_length'', JInt 1)]
    = Inr \<lparr>tq_column = u ''c'', tq_check = u ''LENGTH'', tq_min_length = Some 1, tq_max_length = None\<rparr>"
    by (simp add: validate_text_quality_def dump_simps req_str_def literal_def opt_nonneg_def validate_length_bounds_def
        bounds_ok_def)
  then show ?thesis
    using parameters_revalidate [of "[(u ''column'', JStr (u ''c'')), (u ''check'', JStr (u ''LENGTH'')), (u ''min_length'', JInt 1)]"]
    by blast
qed

end
