(* ===== verification/StructuredValues.thy ===== *)
theory StructuredValues
  imports RuleParameters
begin

text \<open>
  \<open>common/structured_values.py\<close>: JSON cells of a dataset. The strict parser is \<open>json.JSONDecoder\<close> as the
  code configures it (numbers with a fraction or an exponent become \<open>Decimal\<close>, NaN and infinities are
  refused, an object may not repeat a key), followed by the depth and encoding check. Then the canonical
  text, JSON pointers and the row verdicts of the \<open>JSON_FIELD\<close> and \<open>JSON_ARRAY\<close> rules.
\<close>

subsection \<open>Errors\<close>

text \<open>
  The error codes of \<open>StructuredParsingError\<close>. \<open>DecimalInvalidOperation\<close> is the exception \<open>Decimal\<close> raises
  for an exponent beyond its limits: it is an \<open>ArithmeticError\<close>, which the parser does not catch.
  \<open>OutOfFuel\<close> is no error of the code; \<open>parse_total\<close> shows that it never occurs.
\<close>

datatype parse_error =
    INVALID_JSON | DISALLOWED_CONSTANT | DUPLICATE_KEY | NESTING_TOO_DEEP | INVALID_ENCODING
  | DecimalInvalidOperation | OutOfFuel

subsection \<open>Tokens\<close>

definition json_ws :: "nat \<Rightarrow> bool" where
  "json_ws c \<longleftrightarrow> c = 32 \<or> c = 9 \<or> c = 10 \<or> c = 13"

abbreviation skip_ws :: "ustr \<Rightarrow> ustr" where
  "skip_ws s \<equiv> dropWhile json_ws s"

definition json_digit :: "nat \<Rightarrow> bool" where
  "json_digit c \<longleftrightarrow> 48 \<le> c \<and> c \<le> 57"

definition digits_value :: "ustr \<Rightarrow> nat" where
  "digits_value ds = foldl (\<lambda>n c. 10 * n + (c - 48)) 0 ds"

definition hex_digit_value :: "nat \<Rightarrow> nat option" where
  "hex_digit_value c = (if 48 \<le> c \<and> c \<le> 57 then Some (c - 48) else if 97 \<le> c \<and> c \<le> 102 then Some (c - 87)
     else if 65 \<le> c \<and> c \<le> 70 then Some (c - 55) else None)"

definition hex4 :: "ustr \<Rightarrow> (nat \<times> ustr) option" where
  "hex4 s = (case s of
      a # b # c # d # r \<Rightarrow>
        (case (hex_digit_value a, hex_digit_value b, hex_digit_value c, hex_digit_value d) of
           (Some w, Some x, Some y, Some z) \<Rightarrow> Some (((w * 16 + x) * 16 + y) * 16 + z, r)
         | _ \<Rightarrow> None)
    | _ \<Rightarrow> None)"

definition simple_escape :: "nat \<Rightarrow> nat option" where
  "simple_escape e = (if e = 34 \<or> e = 92 \<or> e = 47 then Some e else if e = 98 then Some 8 else if e = 102 then Some 12
     else if e = 110 then Some 10 else if e = 114 then Some 13 else if e = 116 then Some 9 else None)"

definition high_surrogate :: "nat \<Rightarrow> bool" where
  "high_surrogate c \<longleftrightarrow> 55296 \<le> c \<and> c \<le> 56319"

definition low_surrogate :: "nat \<Rightarrow> bool" where
  "low_surrogate c \<longleftrightarrow> 56320 \<le> c \<and> c \<le> 57343"

text \<open>The second half of an escaped surrogate pair, when it follows.\<close>

definition low_escape :: "ustr \<Rightarrow> (nat \<times> ustr) option" where
  "low_escape s = (case s of
      a # b # r \<Rightarrow> if a = 92 \<and> b = 117 then (case hex4 r of
          Some (m, r') \<Rightarrow> if low_surrogate m then Some (m, r') else None
        | None \<Rightarrow> None) else None
    | _ \<Rightarrow> None)"

lemma hex4_length [termination_simp]: "hex4 s = Some (n, r) \<Longrightarrow> length r < length s"
  by (auto simp: hex4_def split: list.splits option.splits)

lemma low_escape_length [termination_simp]: "low_escape s = Some (n, r) \<Longrightarrow> length r < length s"
  by (auto simp: low_escape_def split: list.splits option.splits if_splits dest!: hex4_length)

text \<open>\<open>scanstring\<close>, from behind the opening quote: the text and what follows the closing quote.\<close>

definition push_cp :: "nat \<Rightarrow> parse_error + ustr \<times> ustr \<Rightarrow> parse_error + ustr \<times> ustr" where
  "push_cp c res = (case res of Inl e \<Rightarrow> Inl e | Inr (t, r) \<Rightarrow> Inr (c # t, r))"

function scan_string :: "ustr \<Rightarrow> parse_error + ustr \<times> ustr" where
  "scan_string [] = Inl INVALID_JSON"
| "scan_string (c # r) =
     (if c = 34 then Inr ([], r)
      else if c = 92 then
        (case r of [] \<Rightarrow> Inl INVALID_JSON
         | e # r1 \<Rightarrow>
             if e = 117 then
               (case hex4 r1 of None \<Rightarrow> Inl INVALID_JSON
                | Some (n, r2) \<Rightarrow>
                    (case (if high_surrogate n then low_escape r2 else None) of
                       Some (m, r3) \<Rightarrow> push_cp (65536 + (n - 55296) * 1024 + (m - 56320)) (scan_string r3)
                     | None \<Rightarrow> push_cp n (scan_string r2)))
             else (case simple_escape e of None \<Rightarrow> Inl INVALID_JSON | Some d \<Rightarrow> push_cp d (scan_string r1)))
      else if c < 32 then Inl INVALID_JSON
      else push_cp c (scan_string r))"
  by pat_completeness auto
termination
  by (relation "measure length") (auto dest!: hex4_length low_escape_length split: if_splits)

declare scan_string.simps(2) [simp del]

text \<open>
  A number: the longest match of the decoder's pattern. \<open>int\<close> refuses more than 4300 digits, and \<open>Decimal\<close>
  an adjusted exponent above \<open>MAX_EMAX\<close> or an exponent below \<open>MIN_ETINY\<close>.
\<close>

definition int_max_str_digits :: nat where "int_max_str_digits = 4300"

definition int_part :: "ustr \<Rightarrow> (ustr \<times> ustr) option" where
  "int_part s = (case s of [] \<Rightarrow> None
     | c # r \<Rightarrow> if c = 48 then Some ([48], r)
                else if json_digit c then Some (c # takeWhile json_digit r, dropWhile json_digit r) else None)"

definition frac_part :: "ustr \<Rightarrow> ustr option \<times> ustr" where
  "frac_part s = (case s of [] \<Rightarrow> (None, s)
     | c # r \<Rightarrow> if c = 46 \<and> takeWhile json_digit r \<noteq> [] then (Some (takeWhile json_digit r), dropWhile json_digit r)
                else (None, s))"

definition exp_sign :: "ustr \<Rightarrow> bool \<times> ustr" where
  "exp_sign s = (case s of [] \<Rightarrow> (False, s) | c # r \<Rightarrow> if c = 45 then (True, r) else if c = 43 then (False, r) else (False, s))"

definition exp_part :: "ustr \<Rightarrow> int option \<times> ustr" where
  "exp_part s = (case s of [] \<Rightarrow> (None, s)
     | c # r \<Rightarrow> if c = 101 \<or> c = 69 then
         (let (neg, r1) = exp_sign r; ds = takeWhile json_digit r1
          in if ds = [] then (None, s)
             else (Some (if neg then - int (digits_value ds) else int (digits_value ds)), dropWhile json_digit r1))
        else (None, s))"

definition number_value :: "bool \<Rightarrow> ustr \<Rightarrow> ustr option \<Rightarrow> int option \<Rightarrow> parse_error + json" where
  "number_value neg ip fp ep =
     (case (fp, ep) of
        (None, None) \<Rightarrow>
          if int_max_str_digits < length ip then Inl INVALID_JSON
          else Inr (JInt (if neg then - int (digits_value ip) else int (digits_value ip)))
      | _ \<Rightarrow>
          (let f = (case fp of None \<Rightarrow> [] | Some f \<Rightarrow> f);
               c = digits_value (ip @ f);
               e = (case ep of None \<Rightarrow> 0 | Some x \<Rightarrow> x) - int (length f)
           in if decimal_limits c e then Inr (JDec neg c e) else Inl DecimalInvalidOperation))"

definition scan_number :: "ustr \<Rightarrow> parse_error + json \<times> ustr" where
  "scan_number s =
     (let neg = (case s of [] \<Rightarrow> False | c # r \<Rightarrow> c = 45);
          s1 = (if neg then tl s else s)
      in case int_part s1 of None \<Rightarrow> Inl INVALID_JSON
         | Some (ip, s2) \<Rightarrow>
             (let (fp, s3) = frac_part s2; (ep, s4) = exp_part s3
              in case number_value neg ip fp ep of Inl e \<Rightarrow> Inl e | Inr v \<Rightarrow> Inr (v, s4)))"

subsection \<open>Values\<close>

text \<open>The scalars that are words; \<open>parse_constant\<close> refuses the three that are no JSON.\<close>

definition scan_word :: "ustr \<Rightarrow> (parse_error + json \<times> ustr) option" where
  "scan_word s =
     (if is_prefix (u ''null'') s then Some (Inr (JNull, drop 4 s))
      else if is_prefix (u ''true'') s then Some (Inr (JBool True, drop 4 s))
      else if is_prefix (u ''false'') s then Some (Inr (JBool False, drop 5 s))
      else if is_prefix (u ''NaN'') s \<or> is_prefix (u ''Infinity'') s \<or> is_prefix (u ''-Infinity'') s
        then Some (Inl DISALLOWED_CONSTANT)
      else None)"

text \<open>
  \<open>scan_once\<close> and its object and array loops. \<open>d\<close> is how many more containers the interpreter's recursion
  limit allows to open. \<open>object_pairs_hook\<close> sees the pairs when the object is complete.
\<close>

fun parse_value :: "nat \<Rightarrow> nat \<Rightarrow> ustr \<Rightarrow> parse_error + json \<times> ustr"
  and parse_items :: "nat \<Rightarrow> nat \<Rightarrow> ustr \<Rightarrow> parse_error + json list \<times> ustr"
  and parse_members :: "nat \<Rightarrow> nat \<Rightarrow> ustr \<Rightarrow> parse_error + (ustr \<times> json) list \<times> ustr" where
  "parse_value 0 d s = Inl OutOfFuel"
| "parse_value (Suc f) d s =
     (case s of [] \<Rightarrow> Inl INVALID_JSON
      | c # r \<Rightarrow>
          if c = 34 then (case scan_string r of Inl e \<Rightarrow> Inl e | Inr (t, r1) \<Rightarrow> Inr (JStr t, r1))
          else if c = 123 then
            (if d = 0 then Inl INVALID_JSON
             else case skip_ws r of [] \<Rightarrow> Inl INVALID_JSON
               | c1 # r1 \<Rightarrow>
                   if c1 = 125 then Inr (JObj [], r1)
                   else (case parse_members f (d - 1) (c1 # r1) of Inl e \<Rightarrow> Inl e
                         | Inr (ps, r2) \<Rightarrow> if distinct (map fst ps) then Inr (JObj ps, r2) else Inl DUPLICATE_KEY))
          else if c = 91 then
            (if d = 0 then Inl INVALID_JSON
             else case skip_ws r of [] \<Rightarrow> Inl INVALID_JSON
               | c1 # r1 \<Rightarrow>
                   if c1 = 93 then Inr (JArr [], r1)
                   else (case parse_items f (d - 1) (c1 # r1) of Inl e \<Rightarrow> Inl e | Inr (xs, r2) \<Rightarrow> Inr (JArr xs, r2)))
          else (case scan_word s of Some res \<Rightarrow> res | None \<Rightarrow> scan_number s))"
| "parse_items 0 d s = Inl OutOfFuel"
| "parse_items (Suc f) d s =
     (case parse_value f d s of Inl e \<Rightarrow> Inl e
      | Inr (v, r) \<Rightarrow>
          (case skip_ws r of [] \<Rightarrow> Inl INVALID_JSON
           | c # r1 \<Rightarrow>
               if c = 93 then Inr ([v], r1)
               else if c = 44 then
                 (case parse_items f d (skip_ws r1) of Inl e \<Rightarrow> Inl e | Inr (vs, r2) \<Rightarrow> Inr (v # vs, r2))
               else Inl INVALID_JSON))"
| "parse_members 0 d s = Inl OutOfFuel"
| "parse_members (Suc f) d s =
     (case s of [] \<Rightarrow> Inl INVALID_JSON
      | q # r0 \<Rightarrow>
          if q \<noteq> 34 then Inl INVALID_JSON
          else (case scan_string r0 of Inl e \<Rightarrow> Inl e
           | Inr (k, r) \<Rightarrow>
               (case skip_ws r of [] \<Rightarrow> Inl INVALID_JSON
                | c # r1 \<Rightarrow>
                    if c \<noteq> 58 then Inl INVALID_JSON
                    else (case parse_value f d (skip_ws r1) of Inl e \<Rightarrow> Inl e
                     | Inr (v, r2) \<Rightarrow>
                         (case skip_ws r2 of [] \<Rightarrow> Inl INVALID_JSON
                          | c2 # r3 \<Rightarrow>
                              if c2 = 125 then Inr ([(k, v)], r3)
                              else if c2 = 44 then
                                (case parse_members f d (skip_ws r3) of Inl e \<Rightarrow> Inl e
                                 | Inr (ps, r4) \<Rightarrow> Inr ((k, v) # ps, r4))
                              else Inl INVALID_JSON)))))"

declare parse_value.simps [simp del] parse_items.simps [simp del] parse_members.simps [simp del]

subsection \<open>The document\<close>

fun first_error :: "'e option list \<Rightarrow> 'e option" where
  "first_error [] = None"
| "first_error (None # xs) = first_error xs"
| "first_error (Some e # xs) = Some e"

definition is_container :: "json \<Rightarrow> bool" where
  "is_container v = (case v of JArr xs \<Rightarrow> True | JObj kvs \<Rightarrow> True | _ \<Rightarrow> False)"

definition check_text :: "ustr \<Rightarrow> parse_error option" where
  "check_text s = (if utf8_size s = None then Some INVALID_ENCODING else None)"

fun check_depth :: "nat \<Rightarrow> nat \<Rightarrow> json \<Rightarrow> parse_error option" where
  "check_depth cur mx (JStr s) = (if mx < cur then Some NESTING_TOO_DEEP else check_text s)"
| "check_depth cur mx (JObj kvs) =
     (if mx < cur then Some NESTING_TOO_DEEP
      else first_error (map (\<lambda>(k, v). first_error [check_text k,
             check_depth (if is_container v then cur + 1 else cur) mx v]) kvs))"
| "check_depth cur mx (JArr xs) =
     (if mx < cur then Some NESTING_TOO_DEEP
      else first_error (map (\<lambda>v. check_depth (if is_container v then cur + 1 else cur) mx v) xs))"
| "check_depth cur mx v = (if mx < cur then Some NESTING_TOO_DEEP else None)"

definition parse_fuel :: "ustr \<Rightarrow> nat" where
  "parse_fuel s = 2 * length s + 1"

definition MAX_DEPTH :: nat where "MAX_DEPTH = 32"

definition parse_structured_json :: "nat \<Rightarrow> ustr \<Rightarrow> parse_error + json" where
  "parse_structured_json recursion_limit text =
     (if utf8_size text = None then Inl INVALID_ENCODING
      else
        (let s = lstrip_by is_space text
         in case parse_value (parse_fuel s) recursion_limit s of
              Inl e \<Rightarrow> Inl e
            | Inr (v, r) \<Rightarrow>
                if py_strip r \<noteq> [] then Inl INVALID_JSON
                else (case check_depth 1 MAX_DEPTH v of Some e \<Rightarrow> Inl e | None \<Rightarrow> Inr v)))"

subsection \<open>Canonical text\<close>

text \<open>
  \<open>str(Decimal)\<close>: plain notation when the exponent is not positive and the number is not too small,
  scientific notation otherwise.
\<close>

definition exp_text :: "int \<Rightarrow> ustr" where
  "exp_text x = [69] @ (if x < 0 then [45] else [43]) @ nat_text (nat \<bar>x\<bar>)"

definition dec_text :: "bool \<Rightarrow> nat \<Rightarrow> int \<Rightarrow> ustr" where
  "dec_text neg c e =
     (let ds = nat_text c; n = int (length ds); left = e + n;
          dot = (if e \<le> 0 \<and> -6 < left then left else 1);
          body = (if dot \<le> 0 then [48, 46] @ replicate (nat (- dot)) 48 @ ds
                  else if n \<le> dot then ds @ replicate (nat (dot - n)) 48
                  else take (nat dot) ds @ [46] @ drop (nat dot) ds)
      in (if neg then [45] else []) @ body @ (if left = dot then [] else exp_text (left - dot)))"

text \<open>
  \<open>canonical_compact_json\<close>. A float, which only values from outside the parser hold, is printed through
  the parameter \<open>ft\<close> (\<open>str(Decimal(str(x)))\<close>).
\<close>

fun canonical_compact_json :: "(pyfloat \<Rightarrow> ustr) \<Rightarrow> json \<Rightarrow> ustr" where
  "canonical_compact_json ft JNull = u ''null''"
| "canonical_compact_json ft (JBool b) = (if b then u ''true'' else u ''false'')"
| "canonical_compact_json ft (JInt i) = int_text i"
| "canonical_compact_json ft (JDec s c e) = dec_text s c e"
| "canonical_compact_json ft (JFloat x) = ft x"
| "canonical_compact_json ft (JStr s) = quote s"
| "canonical_compact_json ft (JArr xs) = [91] @ join [44] (map (canonical_compact_json ft) xs) @ [93]"
| "canonical_compact_json ft (JObj kvs) =
     (let ps = map (\<lambda>(k, v). (k, canonical_compact_json ft v)) kvs
      in [123] @ join [44] (map (\<lambda>(k, t). quote k @ [58] @ t) (sort_key fst ps)) @ [125])"

subsection \<open>Pointers\<close>

fun split_on :: "nat \<Rightarrow> ustr \<Rightarrow> ustr list" where
  "split_on sep [] = [[]]"
| "split_on sep (c # cs) = (if c = sep then [] # split_on sep cs
     else (case split_on sep cs of [] \<Rightarrow> [[c]] | t # ts \<Rightarrow> (c # t) # ts))"

text \<open>\<open>token.replace("~1", "/").replace("~0", "~")\<close>.\<close>

fun replace2 :: "nat \<Rightarrow> nat \<Rightarrow> nat \<Rightarrow> ustr \<Rightarrow> ustr" where
  "replace2 a b by (c # d # cs) = (if c = a \<and> d = b then by # replace2 a b by cs else c # replace2 a b by (d # cs))"
| "replace2 a b by cs = cs"

definition decode_rfc6901_token :: "ustr \<Rightarrow> ustr" where
  "decode_rfc6901_token token = replace2 126 48 126 (replace2 126 49 47 token)"

text \<open>\<open>int(tok)\<close>: surrounding white space, a sign, digits of any script with single underscores between them.\<close>

fun number_digits :: "unidata \<Rightarrow> bool \<Rightarrow> ustr \<Rightarrow> nat list option" where
  "number_digits ud after_digit [] = (if after_digit then Some [] else None)"
| "number_digits ud after_digit (c # cs) =
     (if c = 95 then (if after_digit then number_digits ud False cs else None)
      else case decimal_value ud c of None \<Rightarrow> None | Some d \<Rightarrow> map_option (Cons d) (number_digits ud True cs))"

definition py_int :: "unidata \<Rightarrow> ustr \<Rightarrow> int option" where
  "py_int ud text =
     (let s = py_strip text;
          neg = (case s of [] \<Rightarrow> False | c # r \<Rightarrow> c = 45);
          r = (case s of [] \<Rightarrow> [] | c # r \<Rightarrow> if c = 43 \<or> c = 45 then r else s)
      in case number_digits ud False r of None \<Rightarrow> None
         | Some ds \<Rightarrow> if int_max_str_digits < length ds then None
                     else Some (if neg then - int (coefficient_of ds) else int (coefficient_of ds)))"

datatype step_result = Found json | Absent | NotContainer

definition pointer_step :: "unidata \<Rightarrow> json \<Rightarrow> ustr \<Rightarrow> step_result" where
  "pointer_step ud cur tok =
     (case cur of
        JObj kvs \<Rightarrow> (case map_of kvs tok of None \<Rightarrow> Absent | Some v \<Rightarrow> Found v)
      | JArr xs \<Rightarrow> (case py_int ud tok of None \<Rightarrow> Absent
          | Some i \<Rightarrow> if i < 0 \<or> int (length xs) \<le> i then Absent else Found (xs ! nat i))
      | _ \<Rightarrow> NotContainer)"

fun follow :: "unidata \<Rightarrow> json \<Rightarrow> ustr list \<Rightarrow> step_result" where
  "follow ud cur [] = Found cur"
| "follow ud cur (tok # toks) =
     (case pointer_step ud cur tok of Found v \<Rightarrow> follow ud v toks | Absent \<Rightarrow> Absent | NotContainer \<Rightarrow> NotContainer)"

text \<open>The empty path is the whole document; a path that does not start with a slash is refused like a scalar parent.\<close>

definition locate :: "unidata \<Rightarrow> json \<Rightarrow> ustr \<Rightarrow> step_result" where
  "locate ud doc path =
     (if path = [] then Found doc
      else if \<not> is_prefix [47] path then NotContainer
      else follow ud doc (map decode_rfc6901_token (split_on 47 (tl path))))"

subsection \<open>Fields\<close>

fun classify_value_kind :: "json \<Rightarrow> ustr" where
  "classify_value_kind JNull = u ''NULL''"
| "classify_value_kind (JBool b) = u ''BOOLEAN''"
| "classify_value_kind (JInt i) = u ''NUMBER''"
| "classify_value_kind (JDec s c e) = u ''NUMBER''"
| "classify_value_kind (JFloat x) = u ''NUMBER''"
| "classify_value_kind (JStr s) = u ''STRING''"
| "classify_value_kind (JObj kvs) = u ''OBJECT''"
| "classify_value_kind (JArr xs) = u ''ARRAY''"

record json_field =
  fd_state :: ustr
  fd_kind :: "ustr option"
  fd_text :: "ustr option"
  fd_number_decimal :: "ustr option"

definition no_field :: "string \<Rightarrow> json_field" where
  "no_field st = \<lparr>fd_state = u st, fd_kind = None, fd_text = None, fd_number_decimal = None\<rparr>"

definition present_field :: "(pyfloat \<Rightarrow> ustr) \<Rightarrow> json \<Rightarrow> json_field" where
  "present_field ft target =
     (let txt = (case target of JStr s \<Rightarrow> s | _ \<Rightarrow> canonical_compact_json ft target)
      in \<lparr>fd_state = u ''present'', fd_kind = Some (classify_value_kind target), fd_text = Some txt,
          fd_number_decimal = (if classify_value_kind target = u ''NUMBER'' then Some txt else None)\<rparr>)"

definition field_of_target :: "(pyfloat \<Rightarrow> ustr) \<Rightarrow> json \<Rightarrow> json_field" where
  "field_of_target ft target =
     (if target = JNull then (no_field ''missing'')\<lparr>fd_kind := Some (u ''NULL'')\<rparr> else present_field ft target)"

text \<open>The interpreter the Python function runs in: recursion limit, Unicode database, text of floats.\<close>

record interp =
  it_recursion :: nat
  it_unidata :: unidata
  it_float_text :: "pyfloat \<Rightarrow> ustr"

text \<open>\<open>Inl\<close> is an exception that leaves the function.\<close>

definition extract_json_field :: "interp \<Rightarrow> ustr option \<Rightarrow> ustr \<Rightarrow> parse_error + json_field" where
  "extract_json_field it val path =
     (case val of None \<Rightarrow> Inr (no_field ''missing'')
      | Some text \<Rightarrow>
          (case parse_structured_json (it_recursion it) text of
             Inl e \<Rightarrow> if e = DecimalInvalidOperation \<or> e = OutOfFuel then Inl e else Inr (no_field ''miscast'')
           | Inr doc \<Rightarrow>
               (case locate (it_unidata it) doc path of
                       Absent \<Rightarrow> Inr (no_field ''missing'')
                     | NotContainer \<Rightarrow> Inr (no_field ''miscast'')
                     | Found v \<Rightarrow> Inr (field_of_target (it_float_text it) v))))"

subsection \<open>Verdicts\<close>

text \<open>\<open>Decimal(s)\<close> for a text the code itself printed or validated.\<close>

definition decimal_of :: "unidata \<Rightarrow> ustr \<Rightarrow> rat" where
  "decimal_of ud s = (case py_decimal ud s of Some (DFinite n c e) \<Rightarrow> decimal_rat n c e | _ \<Rightarrow> 0)"

definition evaluate_range :: "unidata \<Rightarrow> rat \<Rightarrow> ustr option \<Rightarrow> ustr option \<Rightarrow> ustr" where
  "evaluate_range ud number lo hi =
     (if (case lo of None \<Rightarrow> False | Some b \<Rightarrow> number < decimal_of ud b) then u ''failed''
      else if (case hi of None \<Rightarrow> False | Some b \<Rightarrow> number > decimal_of ud b) then u ''failed''
      else u ''passed'')"

definition the_text :: "json_field \<Rightarrow> ustr" where
  "the_text fd = (case fd_text fd of Some t \<Rightarrow> t | None \<Rightarrow> [])"

definition value_error :: "string + 'a" where
  "value_error = Inl ''JSON_FIELD check must be evaluated by the Spark regex compiler''"

definition parse_failure :: "parse_error \<Rightarrow> string" where
  "parse_failure e = (if e = DecimalInvalidOperation then ''InvalidOperation'' else ''StructuredParsingError'')"

definition evaluate_json_field :: "interp \<Rightarrow> json_field_parameters \<Rightarrow> ustr option \<Rightarrow> string + ustr" where
  "evaluate_json_field it p val =
     (case extract_json_field it val (jf_path p) of Inl e \<Rightarrow> Inl (parse_failure e)
      | Inr fd \<Rightarrow>
          if fd_state fd \<noteq> u ''present'' then Inr (fd_state fd)
          else if jf_check p = u ''NON_NULL'' then Inr (u ''passed'')
          else if jf_check p = u ''TYPE'' then Inr (if fd_kind fd = jf_expected_type p then u ''passed'' else u ''miscast'')
          else if jf_check p = u ''RANGE'' then
            (if fd_kind fd \<noteq> Some (u ''NUMBER'') then Inr (u ''miscast'')
             else Inr (evaluate_range (it_unidata it)
                    (decimal_of (it_unidata it) (case fd_number_decimal fd of Some t \<Rightarrow> t | None \<Rightarrow> []))
                    (jf_min p) (jf_max p)))
          else if jf_check p = u ''ALLOWED_VALUES'' then
            (if fd_kind fd \<noteq> Some (u ''STRING'') then Inr (u ''miscast'')
             else Inr (if the_text fd \<in> set (case jf_allowed_values p of None \<Rightarrow> [] | Some vs \<Rightarrow> vs)
                       then u ''passed'' else u ''failed''))
          else value_error)"

text \<open>\<open>_json_identity\<close>: numbers are compared by value, objects by their sorted items.\<close>

datatype json_id = IdNull | IdBool bool | IdNum rat | IdStr ustr | IdArr "json_id list" | IdObj "(ustr \<times> json_id) list"

fun json_identity :: "json \<Rightarrow> json_id" where
  "json_identity JNull = IdNull"
| "json_identity (JBool b) = IdBool b"
| "json_identity (JInt i) = IdNum (of_int i)"
| "json_identity (JDec s c e) = IdNum (decimal_rat s c e)"
| "json_identity (JFloat x) = IdNum x"
| "json_identity (JStr s) = IdStr s"
| "json_identity (JArr xs) = IdArr (map json_identity xs)"
| "json_identity (JObj kvs) = IdObj (sort_key fst (map (\<lambda>(k, v). (k, json_identity v)) kvs))"

text \<open>The loop over the items with the set of identities seen so far.\<close>

fun unique_from :: "json_id list \<Rightarrow> json list \<Rightarrow> bool" where
  "unique_from seen [] = True"
| "unique_from seen (v # vs) = (if json_identity v \<in> set seen then False else unique_from (json_identity v # seen) vs)"

definition array_verdict :: "json_array_parameters \<Rightarrow> json list \<Rightarrow> ustr" where
  "array_verdict p items =
     (if (case ja_min_items p of None \<Rightarrow> False | Some n \<Rightarrow> int (length items) < n) then u ''failed''
      else if (case ja_max_items p of None \<Rightarrow> False | Some n \<Rightarrow> int (length items) > n) then u ''failed''
      else if ja_unique_items p \<and> \<not> unique_from [] items then u ''failed''
      else u ''passed'')"

definition evaluate_json_array :: "interp \<Rightarrow> json_array_parameters \<Rightarrow> ustr option \<Rightarrow> string + ustr" where
  "evaluate_json_array it p val =
     (case extract_json_field it val (ja_path p) of Inl e \<Rightarrow> Inl (parse_failure e)
      | Inr fd \<Rightarrow>
          if fd_state fd \<noteq> u ''present'' then Inr (fd_state fd)
          else if fd_kind fd \<noteq> Some (u ''ARRAY'') then Inr (u ''miscast'')
          else (case parse_structured_json (it_recursion it) (the_text fd) of
                  Inl e \<Rightarrow> Inl (parse_failure e)
                | Inr items \<Rightarrow> (case items of JArr xs \<Rightarrow> Inr (array_verdict p xs) | _ \<Rightarrow> Inl ''TypeError'')))"

end
