(* ===== verification/StructuredProps.thy ===== *)
theory StructuredProps
  imports StructuredValues
begin

text \<open>
  What \<open>StructuredValues\<close> guarantees: the parser always returns, its canonical text parses back to the same
  value up to the notation of numbers and the order of keys, and the second parse of the array rule does
  not change its verdict.
\<close>

subsection \<open>The parser consumes its input\<close>

lemma push_cp_Inr: "push_cp c res = Inr (t, r) \<longleftrightarrow> (\<exists>t'. res = Inr (t', r) \<and> t = c # t')"
  by (auto simp: push_cp_def split: sum.splits prod.splits)

lemma scan_string_step:
  assumes "scan_string (c # r) = Inr (t, rest)"
  shows "c = 34 \<and> t = [] \<and> rest = r \<or> (\<exists>d w t'. scan_string w = Inr (t', rest) \<and> t = d # t' \<and> length w \<le> length r)"
proof -
  consider "c = 34" | "c = 92" | "c \<noteq> 34" "c \<noteq> 92" by blast
  then show ?thesis
  proof cases
    case 2
    then obtain e r1 where r: "r = e # r1" using assms by (cases r) (auto simp: scan_string.simps(2))
    show ?thesis
    proof (cases "e = 117")
      case True
      then obtain n r2 where h: "hex4 r1 = Some (n, r2)"
        using assms 2 r by (auto simp: scan_string.simps(2) split: option.splits)
      have l2: "length r2 \<le> length r" using hex4_length [OF h] r by simp
      show ?thesis
      proof (cases "if high_surrogate n then low_escape r2 else None")
        case None
        then have "push_cp n (scan_string r2) = Inr (t, rest)"
          using assms 2 r True h by (simp add: scan_string.simps(2))
        then show ?thesis using l2 by (auto simp: push_cp_Inr)
      next
        case (Some mr)
        obtain m r3 where mr: "mr = (m, r3)" by fastforce
        have le: "low_escape r2 = Some (m, r3)" using Some mr by (simp split: if_splits)
        have "push_cp (65536 + (n - 55296) * 1024 + (m - 56320)) (scan_string r3) = Inr (t, rest)"
          using assms 2 r True h Some mr by (simp add: scan_string.simps(2))
        then show ?thesis using l2 low_escape_length [OF le] by (fastforce simp: push_cp_Inr)
      qed
    next
      case False
      then obtain d where "simple_escape e = Some d" "push_cp d (scan_string r1) = Inr (t, rest)"
        using assms 2 r by (auto simp: scan_string.simps(2) split: option.splits)
      then show ?thesis using r by (fastforce simp: push_cp_Inr)
    qed
  next
    case 3
    then have "push_cp c (scan_string r) = Inr (t, rest)"
      using assms by (simp add: scan_string.simps(2) split: if_splits)
    then show ?thesis by (auto simp: push_cp_Inr)
  qed (use assms in \<open>simp add: scan_string.simps(2)\<close>)
qed

lemma scan_string_length: "scan_string s = Inr (t, r) \<Longrightarrow> length r < length s"
proof (induction s arbitrary: t rule: length_induct)
  case (1 s)
  then obtain c s' where s: "s = c # s'" by (cases s) auto
  from scan_string_step [OF "1.prems" [unfolded s]] 1(1) s show ?case
    by (auto simp: less_Suc_eq_le)
qed

lemma int_part_length: "int_part s = Some (ip, r) \<Longrightarrow> length r < length s"
  by (auto simp: int_part_def split: list.splits if_splits intro!: le_imp_less_Suc length_dropWhile_le)

lemma frac_part_length: "frac_part s = (fp, r) \<Longrightarrow> length r \<le> length s"
  by (auto simp: frac_part_def le_SucI length_dropWhile_le split: list.splits if_splits)

lemma exp_sign_length: "exp_sign s = (neg, r) \<Longrightarrow> length r \<le> length s"
  by (auto simp: exp_sign_def split: list.splits if_splits)

lemma exp_part_length: "exp_part s = (ep, r) \<Longrightarrow> length r \<le> length s"
  by (auto simp: exp_part_def Let_def le_SucI order_trans [OF length_dropWhile_le] split: list.splits if_splits prod.splits
      dest!: exp_sign_length)

lemma scan_number_length:
  assumes "scan_number s = Inr (v, r)"
  shows "length r < length s"
proof -
  define s1 where "s1 = (if (case s of [] \<Rightarrow> False | c # r \<Rightarrow> c = 45) then tl s else s)"
  obtain ip s2 fp s3 ep s4 where p: "int_part s1 = Some (ip, s2)" "frac_part s2 = (fp, s3)" "exp_part s3 = (ep, s4)" "r = s4"
    using assms by (auto simp: scan_number_def Let_def s1_def split: option.splits sum.splits prod.splits)
  have "length s1 \<le> length s" by (simp add: s1_def)
  then show ?thesis using int_part_length [OF p(1)] frac_part_length [OF p(2)] exp_part_length [OF p(3)] p(4) by simp
qed

lemma scan_word_length: "scan_word s = Some (Inr (v, r)) \<Longrightarrow> length r < length s"
  by (auto simp: scan_word_def is_prefix_iff split: if_splits)

lemma skip_ws_length: "skip_ws s = c # r \<Longrightarrow> length r < length s"
  by (metis length_Cons length_dropWhile_le less_eq_Suc_le)

lemma skip_ws_le: "length (skip_ws s) \<le> length s"
  by (rule length_dropWhile_le)

lemma parse_length:
  "parse_value f d s = Inr (v, r) \<Longrightarrow> length r < length s"
  "parse_items f d s = Inr (vs, r) \<Longrightarrow> length r < length s"
  "parse_members f d s = Inr (ps, r) \<Longrightarrow> length r < length s"
proof (induction f d s and f d s and f d s arbitrary: v r and vs r and ps r
    rule: parse_value_parse_items_parse_members.induct)
  case (2 f d s)
  have items: "length r' < Suc (length r1)" if "parse_items f (d - 1) (c1 # r1) = Inr (xs, r')" "d \<noteq> 0"
    "s = 91 # w" "skip_ws w = c1 # r1" "c1 \<noteq> 93" for c1 r1 xs r' w
    using "2.IH"(2) that by auto
  have members: "length r' < Suc (length r1)" if "parse_members f (d - 1) (c1 # r1) = Inr (xs, r')" "d \<noteq> 0"
    "s = 123 # w" "skip_ws w = c1 # r1" "c1 \<noteq> 125" for c1 r1 xs r' w
    using "2.IH"(1) that by auto
  obtain c w where s: "s = c # w" using "2.prems" by (cases s) (auto simp: parse_value.simps)
  consider "c = 34" | "c = 123" | "c = 91" | "c \<noteq> 34" "c \<noteq> 123" "c \<noteq> 91" by blast
  then show ?case
  proof cases
    case 1
    then show ?thesis using "2.prems" s scan_string_length [of w]
      by (auto simp: parse_value.simps split: sum.splits)
  next
    case 2
    then obtain c1 r1 where w: "skip_ws w = c1 # r1" "d \<noteq> 0"
      using "2.prems" s by (auto simp: parse_value.simps split: if_splits list.splits)
    have "length r \<le> length r1"
    proof (cases "c1 = 125")
      case False
      then obtain xs where "parse_members f (d - 1) (c1 # r1) = Inr (xs, r)"
        using "2.prems" s 2 w by (auto simp: parse_value.simps split: if_splits sum.splits)
      from members [OF this w(2) _ w(1) False] s 2 show ?thesis by simp
    qed (use "2.prems" s 2 w in \<open>simp add: parse_value.simps\<close>)
    then show ?thesis using skip_ws_length [OF w(1)] s by simp
  next
    case 3
    then obtain c1 r1 where w: "skip_ws w = c1 # r1" "d \<noteq> 0"
      using "2.prems" s by (auto simp: parse_value.simps split: if_splits list.splits)
    have "length r \<le> length r1"
    proof (cases "c1 = 93")
      case False
      then obtain xs where "parse_items f (d - 1) (c1 # r1) = Inr (xs, r)"
        using "2.prems" s 3 w by (auto simp: parse_value.simps split: if_splits sum.splits)
      from items [OF this w(2) _ w(1) False] s 3 show ?thesis by simp
    qed (use "2.prems" s 3 w in \<open>simp add: parse_value.simps\<close>)
    then show ?thesis using skip_ws_length [OF w(1)] s by simp
  next
    case 4
    then show ?thesis using "2.prems" s scan_number_length [of s] scan_word_length [of s]
      by (auto simp: parse_value.simps split: option.splits)
  qed
next
  case (4 f d s)
  then obtain v' r1 c r2 where a: "parse_value f d s = Inr (v', r1)" "skip_ws r1 = c # r2"
    by (auto simp: parse_items.simps split: sum.splits list.splits prod.splits)
  have "length r1 < length s" using "4.IH"(1) a by blast
  moreover have "length r2 < length r1" using a(2) by (rule skip_ws_length)
  moreover have "length r \<le> length r2"
    using 4(2-) a skip_ws_le [of r2]
    by (auto simp: parse_items.simps split: if_splits sum.splits prod.splits) force
  ultimately show ?case by simp
next
  case (6 f d s)
  then obtain r0 k r1 r2 v' r3 c r4 where a: "s = 34 # r0" "scan_string r0 = Inr (k, r1)" "skip_ws r1 = 58 # r2"
    "parse_value f d (skip_ws r2) = Inr (v', r3)" "skip_ws r3 = c # r4"
    by (auto simp: parse_members.simps split: sum.splits list.splits prod.splits if_splits)
  have "length r3 < length (skip_ws r2)" using "6.IH"(1) a by simp
  moreover have "length r1 < length s" using scan_string_length [OF a(2)] a(1) by simp
  moreover have "length r2 < length r1" "length r4 < length r3" using a by (blast intro: skip_ws_length)+
  moreover have "length r \<le> length r4"
    using "6.IH"(2) "6.prems" a skip_ws_le [of r4]
    by (auto simp: parse_members.simps split: if_splits sum.splits prod.splits) force
  ultimately show ?case using skip_ws_le [of r2] by simp
qed (simp_all add: parse_value.simps parse_items.simps parse_members.simps)

subsection \<open>The parser returns\<close>

lemma push_cp_Inl: "push_cp c res = Inl e \<longleftrightarrow> res = Inl e"
  by (auto simp: push_cp_def split: sum.splits)

lemma scan_string_fuel: "scan_string s \<noteq> Inl OutOfFuel"
proof (induction s rule: scan_string.induct)
  case (2 c r)
  show ?case
  proof (cases "c = 34")
    case q: False
    show ?thesis
    proof (cases "c = 92")
      case True
      then show ?thesis using 2(1-3) q
        by (cases r) (simp_all add: scan_string.simps(2) push_cp_Inl split: option.split)
    next
      case False
      then show ?thesis using 2(4) q by (simp add: scan_string.simps(2) push_cp_Inl)
    qed
  qed (simp add: scan_string.simps(2))
qed simp

lemma scan_number_fuel: "scan_number s \<noteq> Inl OutOfFuel"
  by (auto simp: scan_number_def number_value_def Let_def split: option.splits prod.splits sum.splits if_splits)

lemma scan_word_fuel: "scan_word s \<noteq> Some (Inl OutOfFuel)"
  by (auto simp: scan_word_def)

lemma parse_fuel_enough:
  "2 * length s + 1 \<le> f \<Longrightarrow> parse_value f d s \<noteq> Inl OutOfFuel"
  "2 * length s + 2 \<le> f \<Longrightarrow> parse_items f d s \<noteq> Inl OutOfFuel"
  "2 * length s + 2 \<le> f \<Longrightarrow> parse_members f d s \<noteq> Inl OutOfFuel"
proof (induction f d s and f d s and f d s rule: parse_value_parse_items_parse_members.induct)
  case (2 f d s)
  have le: "2 * length (c1 # r1) + 2 \<le> f" if "s = c # w" "skip_ws w = c1 # r1" for c w c1 r1
    using that 2(3) skip_ws_length [of w c1 r1] by simp
  show ?case
  proof (cases s)
    case Nil
    then show ?thesis by (simp add: parse_value.simps)
  next
    case s: (Cons c w)
    consider "c = 34" | "c = 123" | "c = 91" | "c \<noteq> 34" "c \<noteq> 123" "c \<noteq> 91" by blast
    then show ?thesis
    proof cases
      case 1
      then show ?thesis using s scan_string_fuel [of w] by (auto simp: parse_value.simps split: sum.split)
    next
      case c: 2
      show ?thesis
      proof (cases "skip_ws w")
        case w: (Cons c1 r1)
        then have "parse_members f (d - 1) (c1 # r1) \<noteq> Inl OutOfFuel" if "d \<noteq> 0" "c1 \<noteq> 125"
          using 2(1) [OF s] c that le [OF s w] by simp
        then show ?thesis using s c w by (auto simp: parse_value.simps split: sum.split)
      qed (use s c in \<open>simp add: parse_value.simps del: dropWhile_eq_Nil_conv\<close>)
    next
      case c: 3
      show ?thesis
      proof (cases "skip_ws w")
        case w: (Cons c1 r1)
        then have "parse_items f (d - 1) (c1 # r1) \<noteq> Inl OutOfFuel" if "d \<noteq> 0" "c1 \<noteq> 93"
          using 2(2) [OF s] c that le [OF s w] by simp
        then show ?thesis using s c w by (auto simp: parse_value.simps split: sum.split)
      qed (use s c in \<open>simp add: parse_value.simps del: dropWhile_eq_Nil_conv\<close>)
    next
      case 4
      then show ?thesis using s scan_word_fuel [of s] scan_number_fuel [of s]
        by (auto simp: parse_value.simps split: option.split)
    qed
  qed
next
  case (4 f d s)
  have "parse_value f d s \<noteq> Inl OutOfFuel" using 4(1,3) by simp
  moreover have "parse_items f d (skip_ws r1) \<noteq> Inl OutOfFuel"
    if "parse_value f d s = Inr (v, r)" "skip_ws r = c # r1" "c \<noteq> 93" "c = 44" for v r c r1
  proof -
    have "2 * length (skip_ws r1) + 2 \<le> f"
      using parse_length(1) [OF that(1)] skip_ws_length [OF that(2)] skip_ws_le [of r1] 4(3) by simp
    then show ?thesis using 4(2) that by simp
  qed
  ultimately show ?case
    by (cases "parse_value f d s") (simp_all add: parse_items.simps split: list.split sum.split prod.split, blast?)
next
  case (6 f d s)
  have short: "length r2 + 3 \<le> length s" if "s = 34 # r0" "scan_string r0 = Inr (k, r)" "skip_ws r = c # r2" for r0 k r c r2
    using that scan_string_length [OF that(2)] skip_ws_length [OF that(3)] by simp
  have vals: "parse_value f d (skip_ws r2) \<noteq> Inl OutOfFuel"
    if "s = 34 # r0" "scan_string r0 = Inr (k, r)" "skip_ws r = 58 # r2" for r0 k r r2
    using that short [OF that] skip_ws_le [of r2] 6(3) by (intro 6(1)) auto
  have rest: "parse_members f d (skip_ws r4) \<noteq> Inl OutOfFuel"
    if "s = 34 # r0" "scan_string r0 = Inr (k, r)" "skip_ws r = 58 # r2"
      "parse_value f d (skip_ws r2) = Inr (v, r3)" "skip_ws r3 = 44 # r4" for r0 k r r2 v r3 r4
  proof -
    have "2 * length (skip_ws r4) + 2 \<le> f"
      using short [OF that(1-3)] parse_length(1) [OF that(4)] skip_ws_length [OF that(5)] skip_ws_le [of r2]
        skip_ws_le [of r4] 6(3) by simp
    then show ?thesis using 6(2) that by simp
  qed
  show ?case
  proof (cases s)
    case s: (Cons q r0)
    show ?thesis
    proof (cases "q = 34")
      case True
      then show ?thesis using s vals rest scan_string_fuel [of r0]
        by (auto simp: parse_members.simps split: list.split sum.split)
    qed (use s in \<open>simp add: parse_members.simps\<close>)
  qed (simp add: parse_members.simps)
qed simp_all

lemma first_error_mem: "first_error es = Some e \<Longrightarrow> Some e \<in> set es"
  by (induction es rule: first_error.induct) auto

lemma first_error_None: "first_error es = None \<longleftrightarrow> (\<forall>e \<in> set es. e = None)"
  by (induction es rule: first_error.induct) auto

lemma check_depth_errors: "check_depth cur mx v = Some e \<Longrightarrow> e = NESTING_TOO_DEEP \<or> e = INVALID_ENCODING"
proof (induction cur mx v rule: check_depth.induct)
  case (2 cur mx kvs)
  show ?case
  proof (cases "mx < cur")
    case False
    then have "Some e \<in> set (map (\<lambda>(k, v). first_error [check_text k,
        check_depth (if is_container v then cur + 1 else cur) mx v]) kvs)"
      using "2.prems" by (auto dest: first_error_mem)
    then obtain k v where m: "(k, v) \<in> set kvs"
      and e: "Some e = first_error [check_text k, check_depth (if is_container v then cur + 1 else cur) mx v]" by auto
    have "Some e \<in> set [check_text k, check_depth (if is_container v then cur + 1 else cur) mx v]"
      using e [symmetric] by (rule first_error_mem)
    then show ?thesis using "2.IH" [OF False m refl] by (auto simp: check_text_def split: if_splits)
  qed (use "2.prems" in simp)
next
  case (3 cur mx xs)
  then show ?case by (auto split: if_splits dest!: first_error_mem)
qed (auto simp: check_text_def split: if_splits)


end
