(* ===== verification/CanonicalJson.thy ===== *)
theory CanonicalJson
  imports StructuredProps
begin

text \<open>
  The canonical text parses back: strings, numbers, arrays and objects of a parsed value are read again
  from what \<open>canonical_compact_json\<close> prints, so the array rule, which parses the text of the field once
  more, sees the same items.
\<close>

subsection \<open>Digits\<close>

lemma foldl_digits: "foldl (\<lambda>n c. 10 * n + (c - 48)) a ds = a * 10 ^ length ds + digits_value ds"
proof (induction ds arbitrary: a)
  case (Cons d ds)
  show ?case
    using Cons [of "10 * a + (d - 48)"] Cons [of "d - 48"] by (simp add: digits_value_def algebra_simps)
qed (simp add: digits_value_def)

lemma digits_value_append: "digits_value (xs @ ys) = digits_value xs * 10 ^ length ys + digits_value ys"
  using foldl_digits [of "digits_value xs" ys] by (simp add: digits_value_def)

lemma digits_value_simps [simp]: "digits_value [] = 0" "digits_value [c] = c - 48"
  by (simp_all add: digits_value_def)

lemma digits_value_zeros [simp]: "digits_value (replicate n 48) = 0"
proof (induction n)
  case (Suc n)
  have "digits_value (replicate (Suc n) 48) = digits_value ([48] @ replicate n 48)" by simp
  then show ?case using Suc unfolding digits_value_append by simp
qed simp

lemma nat_text_digits: "c \<in> set (nat_text n) \<Longrightarrow> json_digit c"
proof (induction n rule: nat_text.induct)
  case (1 n)
  have "n mod 10 < 10" by simp
  then have "n mod 10 \<le> 9" by linarith
  then have "json_digit (48 + n mod 10)" by (simp add: json_digit_def)
  with 1 show ?case by (auto simp: nat_text.simps [of n] json_digit_def split: if_splits)
qed

lemma nat_text_value [simp]: "digits_value (nat_text n) = n"
proof (induction n rule: nat_text.induct)
  case (1 n)
  then show ?case by (cases "n < 10") (simp_all add: nat_text.simps [of n] digits_value_append)
qed

lemma nat_text_nonempty [simp]: "nat_text n \<noteq> []"
  by (simp add: nat_text.simps [of n])

lemma nat_text_zero: "nat_text 0 = [48]"
  by (simp add: nat_text.simps)

lemma nat_text_hd: "0 < n \<Longrightarrow> hd (nat_text n) \<noteq> 48"
proof (induction n rule: nat_text.induct)
  case (1 n)
  show ?case
  proof (cases "n < 10")
    case False
    then have "hd (nat_text (n div 10)) \<noteq> 48" using 1 by simp
    then show ?thesis using False by (simp add: nat_text.simps [of n])
  qed (use 1 in \<open>simp add: nat_text.simps [of n]\<close>)
qed

lemma take_while_digits:
  assumes "\<forall>c \<in> set ds. json_digit c" "\<And>c r'. r = c # r' \<Longrightarrow> \<not> json_digit c"
  shows "takeWhile json_digit (ds @ r) = ds" "dropWhile json_digit (ds @ r) = r"
  using assms by (cases r; simp add: takeWhile_append dropWhile_append)+

subsection \<open>What may follow a value\<close>

text \<open>Behind a value the printer puts a comma, a closing bracket or nothing.\<close>

definition ends_value :: "ustr \<Rightarrow> bool" where
  "ends_value r = (case r of [] \<Rightarrow> True | c # r' \<Rightarrow> c = 44 \<or> c = 93 \<or> c = 125)"

lemma ends_value_cases: "ends_value (c # r) \<Longrightarrow> c = 44 \<or> c = 93 \<or> c = 125"
  by (simp add: ends_value_def)

lemma ends_value_simps [simp]: "ends_value []" "ends_value (44 # r)" "ends_value (93 # r)" "ends_value (125 # r)"
  by (simp_all add: ends_value_def)

lemma not_digit_simps [simp]: "\<not> json_digit 46" "\<not> json_digit 69" "\<not> json_digit 44" "\<not> json_digit 93" "\<not> json_digit 125"
  "json_digit 48"
  by (simp_all add: json_digit_def)

lemma ends_value_digit: "ends_value r \<Longrightarrow> r = c # r' \<Longrightarrow> \<not> json_digit c"
  by (auto simp: ends_value_def)

lemma frac_none: "ends_value r \<or> (\<exists>r'. r = 69 # r') \<Longrightarrow> frac_part r = (None, r)"
  by (auto simp: frac_part_def ends_value_def split: list.splits)

lemma exp_none: "ends_value r \<Longrightarrow> exp_part r = (None, r)"
  by (auto simp: exp_part_def ends_value_def split: list.splits)

lemma exp_some:
  assumes "ends_value r"
  shows "exp_part (exp_text x @ r) = (Some x, r)"
proof -
  have d: "takeWhile json_digit (nat_text n @ r) = nat_text n" "dropWhile json_digit (nat_text n @ r) = r" for n
    using take_while_digits [of "nat_text n" r] nat_text_digits ends_value_digit [OF assms] by blast+
  show ?thesis
    by (auto simp: exp_part_def exp_text_def exp_sign_def d)
qed

lemma frac_some:
  assumes "\<forall>c \<in> set f. json_digit c" "f \<noteq> []" "\<And>c r'. r = c # r' \<Longrightarrow> \<not> json_digit c"
  shows "frac_part (46 # f @ r) = (Some f, r)"
  using take_while_digits [OF assms(1,3)] assms(2) by (simp add: frac_part_def)

lemma int_part_digits:
  assumes "\<forall>c \<in> set ds. json_digit c" "ds \<noteq> []" "hd ds = 48 \<Longrightarrow> ds = [48]"
    "\<And>c r'. r = c # r' \<Longrightarrow> \<not> json_digit c"
  shows "int_part (ds @ r) = Some (ds, r)"
proof -
  obtain d ds' where ds: "ds = d # ds'" using assms(2) by (cases ds) auto
  have "takeWhile json_digit (ds' @ r) = ds'" "dropWhile json_digit (ds' @ r) = r"
    using take_while_digits [of ds' r] assms(1,4) ds by auto
  then show ?thesis using assms(1,3) ds by (cases "d = 48") (auto simp: int_part_def)
qed

subsection \<open>Numbers\<close>

lemma hd_nat_text_48: "hd (nat_text c) = 48 \<Longrightarrow> nat_text c = [48]"
  using nat_text_hd [of c] by (cases "c = 0") (auto simp: nat_text_zero)

lemma int_part_nat_text:
  assumes "\<And>c r'. r = c # r' \<Longrightarrow> \<not> json_digit c"
  shows "int_part (nat_text n @ r) = Some (nat_text n, r)"
  using nat_text_digits hd_nat_text_48 by (intro int_part_digits assms) auto

lemma nat_text_first_digit: "nat_text n = c # cs \<Longrightarrow> json_digit c"
  using nat_text_digits [of c n] by simp

lemma nat_text_not_minus: "nat_text n @ r = c # r' \<Longrightarrow> c \<noteq> 45"
  using nat_text_first_digit [of n] by (cases "nat_text n") (auto simp: json_digit_def)

text \<open>Reading a number whose three parts are known.\<close>

lemma scan_number_parts:
  assumes "int_part s = Some (ip, s2)" "frac_part s2 = (fp, s3)" "exp_part s3 = (ep, r)"
    and "number_value neg ip fp ep = Inr v" "\<And>c r'. s = c # r' \<Longrightarrow> c \<noteq> 45"
  shows "scan_number ((if neg then [45] else []) @ s) = Inr (v, r)"
  using assms by (cases s; cases neg) (auto simp: scan_number_def Let_def)

lemma scan_int_text:
  assumes "ends_value r" "length (nat_text (nat \<bar>i\<bar>)) \<le> int_max_str_digits"
  shows "scan_number (int_text i @ r) = Inr (JInt i, r)"
proof -
  have nd: "\<And>c r'. r = c # r' \<Longrightarrow> \<not> json_digit c" using ends_value_digit [OF assms(1)] by blast
  have "scan_number ((if i < 0 then [45] else []) @ nat_text (nat \<bar>i\<bar>) @ r) = Inr (JInt i, r)"
    by (rule scan_number_parts [OF int_part_nat_text [OF nd] frac_none exp_none])
       (use assms in \<open>auto simp: number_value_def dest: nat_text_not_minus\<close>)
  then show ?thesis by (simp add: int_text_def split: if_splits)
qed

lemma ends_not_digit: "ends_value r \<Longrightarrow> (\<And>c r'. r = c # r' \<Longrightarrow> \<not> json_digit c)"
  by (rule ends_value_digit)

text \<open>The value a printed decimal is read as: one without fraction and exponent becomes an integer.\<close>

definition reread_decimal :: "bool \<Rightarrow> nat \<Rightarrow> int \<Rightarrow> json" where
  "reread_decimal neg c e = (if e = 0 then JInt (if neg then - int c else int c) else JDec neg c e)"

definition decimal_rereads :: "nat \<Rightarrow> int \<Rightarrow> bool" where
  "decimal_rereads c e \<longleftrightarrow> decimal_limits c e \<and> (e = 0 \<longrightarrow> length (nat_text c) \<le> int_max_str_digits)"

lemma scan_dec_text:
  assumes r: "ends_value r" and ok: "decimal_rereads c e"
  shows "scan_number (dec_text neg c e @ r) = Inr (reread_decimal neg c e, r)"
proof -
  define ds where "ds = nat_text c"
  define n where "n = int (length ds)"
  define left where "left = e + n"
  define dot where "dot = (if e \<le> 0 \<and> -6 < left then left else 1)"
  define tail where "tail = (if left = dot then [] else exp_text (left - dot))"
  define ep where "ep = (if left = dot then None else Some (left - dot))"
  have dsd: "\<forall>x \<in> set ds. json_digit x" using nat_text_digits by (simp add: ds_def)
  have n1: "1 \<le> n" unfolding n_def ds_def using nat_text_nonempty [of c] by (cases "nat_text c") auto
  have nd: "\<And>x r'. tail @ r = x # r' \<Longrightarrow> \<not> json_digit x"
    using r by (auto simp: tail_def exp_text_def ends_value_def split: if_splits list.splits)
  have tl: "exp_part (tail @ r) = (ep, r)"
    using exp_none [OF r] exp_some [OF r] by (simp add: tail_def ep_def)
  have fn: "frac_part (tail @ r) = (None, tail @ r)"
    using r by (intro frac_none) (auto simp: tail_def exp_text_def)
  have shape: "dec_text neg c e @ r = (if neg then [45] else []) @
      (if dot \<le> 0 then [48, 46] @ replicate (nat (- dot)) 48 @ ds
       else if n \<le> dot then ds @ replicate (nat (dot - n)) 48
       else take (nat dot) ds @ [46] @ drop (nat dot) ds) @ tail @ r"
    by (simp add: dec_text_def Let_def ds_def n_def left_def dot_def tail_def)
  have ed: "digits_value ds = c" by (simp add: ds_def)
  consider "dot \<le> 0" | "0 < dot" "n \<le> dot" | "0 < dot" "dot < n" by linarith
  then show ?thesis
  proof cases
    case 1
    define f where "f = replicate (nat (- dot)) 48 @ ds"
    have e: "e = - int (length f)" "ep = None" using 1 by (auto simp: f_def dot_def left_def n_def ep_def split: if_splits)
    have v: "number_value neg [48] (Some f) ep = Inr (reread_decimal neg c e)"
      using ok e n1 by (auto simp: number_value_def Let_def reread_decimal_def decimal_rereads_def
          digits_value_append f_def ed digits_value_append [of "[48]", simplified] n_def)
    have "scan_number ((if neg then [45] else []) @ [48] @ 46 # f @ tail @ r) = Inr (reread_decimal neg c e, r)"
      by (rule scan_number_parts [OF int_part_digits frac_some tl v]) (use dsd nd n1 in \<open>auto simp: f_def n_def\<close>)
    then show ?thesis using 1 by (simp add: shape f_def)
  next
    case 2
    have d0: "nat (dot - n) = 0" using 2 n1 by (auto simp: dot_def left_def split: if_splits)
    have v: "number_value neg ds None ep = Inr (reread_decimal neg c e)"
    proof (cases "left = dot")
      case True
      then have "e = 0" using d0 2 n1 by (auto simp: left_def)
      then show ?thesis using ok True
        by (simp add: number_value_def ep_def reread_decimal_def decimal_rereads_def ed) (simp add: ds_def)
    next
      case False
      then have "dot = 1" "n = 1" using 2 n1 by (auto simp: dot_def split: if_splits)
      then have "left - dot = e" "e \<noteq> 0" using False by (auto simp: left_def)
      then show ?thesis using ok False
        by (simp add: number_value_def Let_def ep_def reread_decimal_def decimal_rereads_def ed)
    qed
    have "scan_number ((if neg then [45] else []) @ ds @ tail @ r) = Inr (reread_decimal neg c e, r)"
      unfolding ds_def by (rule scan_number_parts [OF int_part_nat_text [OF nd] fn tl v [unfolded ds_def]])
        (auto dest: nat_text_not_minus)
    then show ?thesis using 2 d0 by (simp add: shape)
  next
    case 3
    define ip where "ip = take (nat dot) ds"
    define f where "f = drop (nat dot) ds"
    have f: "f \<noteq> []" "int (length f) = n - dot" using 3 by (auto simp: f_def n_def)
    have ip: "ip \<noteq> []" "hd ip = hd ds" using 3 by (auto simp: ip_def n_def)
    have hd: "hd ip \<noteq> 48"
      using hd_nat_text_48 [of c] 3 ip by (auto simp: ds_def n_def)
    have dsip: "ip @ f = ds" by (simp add: ip_def f_def)
    have e: "e = (case ep of None \<Rightarrow> 0 | Some x \<Rightarrow> x) - int (length f)" "e \<noteq> 0"
      using 3 f n1 by (auto simp: ep_def left_def dot_def split: if_splits)
    have v: "number_value neg ip (Some f) ep = Inr (reread_decimal neg c e)"
      using ok e by (simp add: number_value_def Let_def reread_decimal_def decimal_rereads_def dsip ed)
    have digs: "\<forall>x \<in> set ip. json_digit x" "\<forall>x \<in> set f. json_digit x"
      using dsd by (auto simp: ip_def f_def dest: in_set_takeD in_set_dropD)
    have nm: "y \<noteq> 45" if "ip @ w = y # r'" for w y r'
      using that digs(1) ip(1) by (cases ip) (auto simp: json_digit_def)
    have "scan_number ((if neg then [45] else []) @ ip @ 46 # f @ tail @ r) = Inr (reread_decimal neg c e, r)"
      by (rule scan_number_parts [OF int_part_digits frac_some tl v])
         (use digs f(1) ip hd nd in \<open>auto dest: nm\<close>)
    then show ?thesis using 3 by (simp add: shape ip_def f_def)
  qed
qed

subsection \<open>Strings\<close>

lemma hex_digit_value_digit: "d < 16 \<Longrightarrow> hex_digit_value (hex_digit d) = Some d"
  by (auto simp: hex_digit_value_def hex_digit_def)

lemma hex4_digits:
  assumes "c < 65536"
  shows "hex4 (hex_digits 4 c @ r) = Some (c, r)"
proof -
  have four: "(4::nat) = Suc (Suc (Suc (Suc 0)))" by simp
  have "hex_digits 4 c = [hex_digit (c div 16 div 16 div 16 mod 16), hex_digit (c div 16 div 16 mod 16),
      hex_digit (c div 16 mod 16), hex_digit (c mod 16)]"
    unfolding four hex_digits.simps by simp
  moreover have "((c div 16 div 16 div 16 mod 16 * 16 + c div 16 div 16 mod 16) * 16 + c div 16 mod 16) * 16 + c mod 16 = c"
  proof -
    have "c div 16 div 16 div 16 < 16" using assms by (simp add: div_mult2_eq [symmetric])
    then have "c div 16 div 16 div 16 mod 16 = c div 16 div 16 div 16" by simp
    then show ?thesis
      by (simp only: div_mult_mod_eq)
  qed
  ultimately show ?thesis by (simp add: hex4_def hex_digit_value_digit)
qed

lemma scan_quoted: "scan_string (concat (map escape_cp s) @ 34 # r) = Inr (s, r)"
proof (induction s)
  case Nil
  show ?case by (simp add: scan_string.simps(2))
next
  case (Cons c s)
  have step: "scan_string (escape_cp c @ w) = push_cp c (scan_string w)" for w
  proof -
    have esc: "scan_string (92 # e # w) = push_cp d (scan_string w)" if "simple_escape e = Some d" "e \<noteq> 117" for e d
      using that by (simp add: scan_string.simps(2))
    have ctl: "scan_string (92 # 117 # hex_digits 4 c @ w) = push_cp c (scan_string w)" if "c < 32"
      using that hex4_digits [of c w] by (simp add: scan_string.simps(2) high_surrogate_def)
    show ?thesis
      using esc [of 34 34] esc [of 92 92] esc [of 110 10] esc [of 114 13] esc [of 116 9] esc [of 102 12]
        esc [of 98 8] ctl
      by (auto simp: escape_cp_def simple_escape_def) (simp add: scan_string.simps(2))
  qed
  show ?case using Cons by (simp add: step push_cp_def)
qed

subsection \<open>Values\<close>

fun reread :: "json \<Rightarrow> json" where
  "reread (JDec s c e) = reread_decimal s c e"
| "reread (JArr xs) = JArr (map reread xs)"
| "reread (JObj kvs) = JObj (sort_key fst (map (\<lambda>(k, v). (k, reread v)) kvs))"
| "reread v = v"

fun printable :: "json \<Rightarrow> bool" where
  "printable (JInt i) = (length (nat_text (nat \<bar>i\<bar>)) \<le> int_max_str_digits)"
| "printable (JDec s c e) = decimal_rereads c e"
| "printable (JFloat x) = False"
| "printable (JArr xs) = (\<forall>v \<in> set xs. printable v)"
| "printable (JObj kvs) = (distinct (map fst kvs) \<and> (\<forall>kv \<in> set kvs. printable (snd kv)))"
| "printable v = True"

fun nests :: "nat \<Rightarrow> json \<Rightarrow> bool" where
  "nests d (JArr xs) = (d \<noteq> 0 \<and> (\<forall>v \<in> set xs. nests (d - 1) v))"
| "nests d (JObj kvs) = (d \<noteq> 0 \<and> (\<forall>kv \<in> set kvs. nests (d - 1) (snd kv)))"
| "nests d v = True"

lemma insort_map: "(\<And>x. f' (g x) = f x) \<Longrightarrow> insort_key f' (g x) (map g xs) = map g (insort_key f x xs)"
  by (induction xs) auto

lemma sort_map: "(\<And>x. f' (g x) = f x) \<Longrightarrow> sort_key f' (map g xs) = map g (sort_key f xs)"
  by (induction xs) (simp_all add: insort_map)

lemma sort_map_fst: "sort_key fst (map (\<lambda>(k, v). (k, h v)) kvs) = map (\<lambda>(k, v). (k, h v)) (sort_key fst kvs)"
  by (rule sort_map) (simp add: case_prod_beta)

definition starts_number :: "ustr \<Rightarrow> bool" where
  "starts_number s \<longleftrightarrow> (\<exists>c r. (s = c # r \<or> s = 45 # c # r) \<and> json_digit c)"

lemma parse_number: "starts_number s \<Longrightarrow> parse_value (Suc f) d s = scan_number s"
  by (auto simp: starts_number_def parse_value.simps scan_word_def is_prefix_def json_digit_def u_simps)

lemma starts_nat_text: "starts_number (nat_text n @ r)" "starts_number (45 # nat_text n @ r)"
  using nat_text_first_digit [of n] by (cases "nat_text n"; force simp: starts_number_def)+

lemma starts_int_text: "starts_number (int_text i @ r)"
  using starts_nat_text by (simp add: int_text_def)

lemma starts_dec_text: "starts_number (dec_text neg c e @ r)"
proof -
  obtain d ds where ds: "nat_text c = d # ds" "json_digit d" using nat_text_first_digit [of c] by (cases "nat_text c") auto
  show ?thesis
    using ds by (auto simp: dec_text_def Let_def starts_number_def take_Cons' split: if_splits)
qed

lemma starts_not_ws: "starts_number (c # r) \<Longrightarrow> \<not> is_space c \<and> \<not> json_ws c \<and> c \<noteq> 93 \<and> c \<noteq> 125"
  by (auto simp: starts_number_def json_digit_def json_ws_def is_space_def)

lemma canonical_first:
  assumes "printable v"
  obtains c w where "canonical_compact_json ft v = c # w" "\<not> is_space c" "\<not> json_ws c" "c \<noteq> 93" "c \<noteq> 125"
proof (cases v)
  case (JInt i)
  then obtain c w where "int_text i = c # w" using starts_int_text [of i "[]"] by (auto simp: starts_number_def)
  then show ?thesis using that starts_int_text [of i "[]"] JInt starts_not_ws by auto
next
  case (JDec n c e)
  then obtain x w where "dec_text n c e = x # w" using starts_dec_text [of n c e "[]"] by (auto simp: starts_number_def)
  then show ?thesis using that starts_dec_text [of n c e "[]"] JDec starts_not_ws by auto
next
  case (JBool b)
  then show ?thesis using that [of 116] that [of 102] by (cases b) (auto simp: u_simps json_ws_def is_space_def)
qed (use assms that in \<open>auto simp: u_simps json_ws_def is_space_def quote_def Let_def\<close>)

subsection \<open>The text of a value parses back\<close>

text \<open>What the parser does on the text of each element, as the induction provides it.\<close>

definition parses_back :: "(pyfloat \<Rightarrow> ustr) \<Rightarrow> nat \<Rightarrow> json \<Rightarrow> bool" where
  "parses_back ft d v \<longleftrightarrow> (\<forall>f r. ends_value r \<longrightarrow> 2 * length (canonical_compact_json ft v @ r) + 1 \<le> f \<longrightarrow>
     parse_value f d (canonical_compact_json ft v @ r) = Inr (reread v, r))"

lemma skip_ws_canonical: "printable v \<Longrightarrow> skip_ws (canonical_compact_json ft v @ r) = canonical_compact_json ft v @ r"
  by (rule canonical_first [of v ft]) simp_all

lemma skip_ws_id: "\<not> json_ws c \<Longrightarrow> skip_ws (c # r) = c # r"
  by simp

lemma not_ws_simps [simp]: "\<not> json_ws 44" "\<not> json_ws 93" "\<not> json_ws 125" "\<not> json_ws 58" "\<not> json_ws 34"
  by (simp_all add: json_ws_def)

lemma items_parse_back:
  assumes "xs \<noteq> []" "\<forall>v \<in> set xs. parses_back ft d v \<and> printable v"
    and "2 * length (join [44] (map (canonical_compact_json ft) xs) @ 93 # r) + 2 \<le> f"
  shows "parse_items f d (join [44] (map (canonical_compact_json ft) xs) @ 93 # r) = Inr (map reread xs, r)"
  using assms
proof (induction xs arbitrary: f)
  case (Cons v xs)
  let ?t = "canonical_compact_json ft v"
  obtain g where f: "f = Suc g" using Cons.prems(3) by (cases f) auto
  show ?case
  proof (cases xs)
    case Nil
    have "parse_value g d (?t @ 93 # r) = Inr (reread v, 93 # r)"
      using Cons.prems f Nil by (simp add: parses_back_def)
    then show ?thesis using Nil f by (simp add: parse_items.simps)
  next
    case (Cons w ws)
    let ?r = "join [44] (map (canonical_compact_json ft) xs) @ 93 # r"
    have "parse_value g d (?t @ 44 # ?r) = Inr (reread v, 44 # ?r)"
      using Cons.prems f Cons by (simp add: parses_back_def)
    moreover have "skip_ws ?r = ?r"
      using Cons.prems(2) Cons skip_ws_canonical [of w ft] by (cases ws) simp_all
    moreover have "parse_items g d ?r = Inr (map reread xs, r)"
      using Cons.prems f Cons by (intro Cons.IH) auto
    ultimately show ?thesis using Cons f by (simp add: parse_items.simps)
  qed
qed simp

abbreviation member_text :: "(pyfloat \<Rightarrow> ustr) \<Rightarrow> ustr \<times> json \<Rightarrow> ustr" where
  "member_text ft kv \<equiv> quote (fst kv) @ [58] @ canonical_compact_json ft (snd kv)"

lemma members_parse_back:
  assumes "ps \<noteq> []" "\<forall>kv \<in> set ps. parses_back ft d (snd kv) \<and> printable (snd kv)"
    and "2 * length (join [44] (map (member_text ft) ps) @ 125 # r) + 2 \<le> f"
  shows "parse_members f d (join [44] (map (member_text ft) ps) @ 125 # r)
    = Inr (map (\<lambda>(k, v). (k, reread v)) ps, r)"
  using assms
proof (induction ps arbitrary: f)
  case (Cons kv ps)
  obtain k v where kv: "kv = (k, v)" by fastforce
  let ?t = "canonical_compact_json ft v"
  obtain g where f: "f = Suc g" using Cons.prems(3) by (cases f) auto
  have pv: "printable v" using Cons.prems(2) kv by simp
  have key: "member_text ft kv @ w = 34 # concat (map escape_cp k) @ 34 # 58 # ?t @ w" for w
    by (simp add: kv quote_def)
  show ?case
  proof (cases ps)
    case Nil
    have "parse_value g d (?t @ 125 # r) = Inr (reread v, 125 # r)"
      using Cons.prems f Nil kv by (simp add: parses_back_def quote_def)
    then show ?thesis
      using Nil f kv skip_ws_canonical [OF pv, of ft]
      by (simp add: parse_members.simps scan_quoted key [unfolded kv, simplified])
  next
    case (Cons w ws)
    let ?r = "join [44] (map (member_text ft) ps) @ 125 # r"
    have "parse_value g d (?t @ 44 # ?r) = Inr (reread v, 44 # ?r)"
      using Cons.prems f Cons kv by (simp add: parses_back_def quote_def)
    moreover have "skip_ws ?r = ?r"
      using Cons by (cases ws) (simp_all add: quote_def)
    moreover have "parse_members g d ?r = Inr (map (\<lambda>(k, v). (k, reread v)) ps, r)"
      using Cons.prems f Cons by (intro Cons.IH) auto
    moreover have "join [44] (map (member_text ft) (kv # ps)) @ 125 # r = member_text ft kv @ 44 # ?r"
      using Cons by simp
    ultimately show ?thesis
      using f kv skip_ws_canonical [OF pv, of ft]
      by (simp add: parse_members.simps scan_quoted key [unfolded kv, simplified])
  qed
qed simp

lemma canonical_parses_back: "printable v \<Longrightarrow> nests d v \<Longrightarrow> parses_back ft d v"
proof (induction v arbitrary: d)
  case (JArr xs)
  show ?case unfolding parses_back_def
  proof (intro allI impI)
    fix f r assume r: "ends_value r" and f: "2 * length (canonical_compact_json ft (JArr xs) @ r) + 1 \<le> f"
    obtain g where g: "f = Suc g" using f by (cases f) auto
    show "parse_value f d (canonical_compact_json ft (JArr xs) @ r) = Inr (reread (JArr xs), r)"
    proof (cases xs)
      case Nil
      then show ?thesis using g JArr.prems by (simp add: parse_value.simps)
    next
      case (Cons v vs)
      have pv: "printable v" using JArr.prems Cons by simp
      obtain c w where c: "canonical_compact_json ft v = c # w" "\<not> is_space c" "\<not> json_ws c" "c \<noteq> 93" "c \<noteq> 125"
        using canonical_first [OF pv] .
      then obtain t where t: "join [44] (map (canonical_compact_json ft) xs) @ 93 # r = c # t"
        using Cons by (cases vs) auto
      have "parse_items g (d - 1) (c # t) = Inr (map reread xs, r)"
        unfolding t [symmetric] using JArr Cons f g by (intro items_parse_back) auto
      moreover have "d \<noteq> 0" using JArr.prems Cons by simp
      ultimately show ?thesis using g t c by (simp add: parse_value.simps)
    qed
  qed
next
  case (JObj kvs)
  show ?case unfolding parses_back_def
  proof (intro allI impI)
    fix f r assume r: "ends_value r" and f: "2 * length (canonical_compact_json ft (JObj kvs) @ r) + 1 \<le> f"
    obtain g where g: "f = Suc g" using f by (cases f) auto
    define ps where "ps = sort_key fst kvs"
    have can: "canonical_compact_json ft (JObj kvs) = [123] @ join [44] (map (member_text ft) ps) @ [125]"
      by (simp add: ps_def sort_map_fst comp_def case_prod_beta)
    have re: "reread (JObj kvs) = JObj (map (\<lambda>(k, v). (k, reread v)) ps)"
      by (simp add: ps_def sort_map_fst)
    have dist: "distinct (map fst ps)"
      using JObj.prems by (simp add: ps_def distinct_map)
    have ok: "parses_back ft (d - 1) (snd kv) \<and> printable (snd kv)" if "kv \<in> set ps" for kv
    proof -
      have "kv \<in> set kvs" "snd kv \<in> Basic_BNFs.snds kv" using that by (auto simp: ps_def snds.simps)
      then show ?thesis using JObj.IH [of kv "snd kv" "d - 1"] JObj.prems by auto
    qed
    show "parse_value f d (canonical_compact_json ft (JObj kvs) @ r) = Inr (reread (JObj kvs), r)"
    proof (cases ps)
      case Nil
      then show ?thesis unfolding can re using g JObj.prems by (simp add: parse_value.simps)
    next
      case (Cons kv rest)
      then obtain t where t: "join [44] (map (member_text ft) ps) @ 125 # r = 34 # t"
        by (cases rest) (auto simp: quote_def)
      have "parse_members g (d - 1) (34 # t) = Inr (map (\<lambda>(k, v). (k, reread v)) ps, r)"
        unfolding t [symmetric] using ok Cons f g can
        by (intro members_parse_back) (auto simp del: canonical_compact_json.simps)
      moreover have "d \<noteq> 0" using JObj.prems by simp
      moreover have "distinct (map (fst \<circ> (\<lambda>(k, v). (k, reread v))) ps)"
        using dist by (simp add: case_prod_beta comp_def)
      ultimately show ?thesis unfolding can re using g t by (simp add: parse_value.simps)
    qed
  qed
next
  case (JInt i)
  then show ?case unfolding parses_back_def
    by (auto simp: Suc_le_D parse_number starts_int_text scan_int_text elim!: Suc_le_D [THEN exE])
next
  case (JDec n c e)
  then show ?case unfolding parses_back_def
    by (auto simp: parse_number starts_dec_text scan_dec_text elim!: Suc_le_D [THEN exE])
next
  case (JStr s)
  show ?case unfolding parses_back_def
    by (auto simp: parse_value.simps quote_def scan_quoted elim!: Suc_le_D [THEN exE])
next
  case JNull
  show ?case unfolding parses_back_def
    by (auto simp: parse_value.simps scan_word_def is_prefix_def u_simps elim!: Suc_le_D [THEN exE])
next
  case (JBool b)
  show ?case unfolding parses_back_def
    by (cases b) (auto simp: parse_value.simps scan_word_def is_prefix_def u_simps elim!: Suc_le_D [THEN exE])
qed simp

end
