(* ===== verification/StructuredRules.thy ===== *)
theory StructuredRules
  imports CanonicalJson
begin

text \<open>
  Properties of the rules over JSON cells: the array rule parses the canonical text of the field once
  more, which changes nothing but the notation of numbers; and one input on which the parser raises an
  exception that the rules do not contain.
\<close>

subsection \<open>Depth and encoding survive\<close>

lemma is_container_reread [simp]: "is_container (reread v) = is_container v"
  by (cases v) (auto simp: is_container_def reread_decimal_def)

lemma check_depth_JArr_None: "check_depth cur mx (JArr xs) = None \<longleftrightarrow>
    cur \<le> mx \<and> (\<forall>v \<in> set xs. check_depth (if is_container v then cur + 1 else cur) mx v = None)"
  by (auto simp: first_error_None)

lemma first_error_pair: "first_error [a, b] = None \<longleftrightarrow> a = None \<and> b = None"
  by (cases a; cases b) simp_all

lemma check_depth_JObj_None: "check_depth cur mx (JObj kvs) = None \<longleftrightarrow>
    cur \<le> mx \<and> (\<forall>(k, v) \<in> set kvs. check_text k = None
        \<and> check_depth (if is_container v then cur + 1 else cur) mx v = None)"
  by (auto simp: first_error_None first_error_pair)

lemmas depth_None = check_depth_JArr_None check_depth_JObj_None

declare check_depth.simps(2,3) [simp del]

lemma check_depth_reread: "check_depth cur mx v = None \<Longrightarrow> check_depth cur mx (reread v) = None"
proof (induction v arbitrary: cur)
  case (JArr xs)
  then show ?case unfolding reread.simps depth_None by auto
next
  case (JObj kvs)
  show ?case unfolding reread.simps depth_None
  proof (intro conjI ballI)
    show "cur \<le> mx" using JObj.prems unfolding depth_None by blast
    fix x assume "x \<in> set (sort_key fst (map (\<lambda>(k, v). (k, reread v)) kvs))"
    then obtain k v where x: "x = (k, reread v)" "(k, v) \<in> set kvs" by auto
    have "check_text k = None" "check_depth (if is_container v then cur + 1 else cur) mx v = None"
      using JObj.prems x(2) unfolding depth_None by auto
    then show "case x of (k, v) \<Rightarrow> check_text k = None \<and> check_depth (if is_container v then cur + 1 else cur) mx v = None"
      using JObj.IH [OF x(2), of v] x(1) by (simp add: snds.simps)
  qed
qed (auto simp: reread_decimal_def split: if_splits)

lemma check_depth_nests: "check_depth cur mx v = None \<Longrightarrow> mx < d + cur \<Longrightarrow> nests d v"
proof (induction v arbitrary: cur d)
  case (JArr xs)
  have "nests (d - 1) v" if v: "v \<in> set xs" for v
  proof (cases "is_container v")
    case True
    then show ?thesis using JArr.IH [OF v, of "cur + 1" "d - 1"] JArr.prems v unfolding depth_None by auto
  next
    case False
    then show ?thesis by (cases v) (auto simp: is_container_def)
  qed
  then show ?case using JArr.prems by (auto simp: check_depth_JArr_None)
next
  case (JObj kvs)
  have "nests (d - 1) v" if v: "(k, v) \<in> set kvs" for k v
  proof (cases "is_container v")
    case True
    then show ?thesis using JObj.IH [OF v, of v "cur + 1" "d - 1"] JObj.prems v unfolding depth_None
      by (auto simp: snds.simps)
  next
    case False
    then show ?thesis by (cases v) (auto simp: is_container_def)
  qed
  then show ?case using JObj.prems by (auto simp: check_depth_JObj_None)
qed simp_all

lemma nests_mono: "nests d v \<Longrightarrow> d \<le> d' \<Longrightarrow> nests d' v"
proof (induction v arbitrary: d d')
  case (JArr xs)
  have "nests (d' - 1) v" if "v \<in> set xs" for v
    using JArr.IH [OF that, of "d - 1" "d' - 1"] JArr.prems that by simp
  then show ?case using JArr.prems by simp
next
  case (JObj kvs)
  have "nests (d' - 1) (snd kv)" if "kv \<in> set kvs" for kv
    using JObj.IH [OF that, of "snd kv" "d - 1" "d' - 1"] JObj.prems that by (simp add: snds.simps)
  then show ?case using JObj.prems by simp
qed simp_all

lemma check_depth_inner: "check_depth cur mx v = None \<Longrightarrow> cur' \<le> cur \<Longrightarrow> check_depth cur' mx v = None"
proof (induction v arbitrary: cur cur')
  case (JArr xs)
  have "check_depth (if is_container v then cur' + 1 else cur') mx v = None" if v: "v \<in> set xs" for v
  proof (rule JArr.IH [OF v])
    show "check_depth (if is_container v then cur + 1 else cur) mx v = None"
      using JArr.prems(1) v unfolding depth_None by blast
  qed (use JArr.prems(2) in simp)
  then show ?case using JArr.prems unfolding depth_None by auto
next
  case (JObj kvs)
  have "check_text k = None \<and> check_depth (if is_container v then cur' + 1 else cur') mx v = None"
    if v: "(k, v) \<in> set kvs" for k v
  proof -
    have a: "check_text k = None \<and> check_depth (if is_container v then cur + 1 else cur) mx v = None"
      using JObj.prems(1) v unfolding depth_None by blast
    have "check_depth (if is_container v then cur' + 1 else cur') mx v = None"
      by (rule JObj.IH [OF v, of v "if is_container v then cur + 1 else cur"])
         (use a JObj.prems(2) in \<open>auto simp: snds.simps\<close>)
    with a show ?thesis by blast
  qed
  moreover have "cur' \<le> mx" using JObj.prems unfolding depth_None by linarith
  ultimately show ?case unfolding depth_None by blast
qed (auto split: if_splits)

text \<open>The printed text can be encoded when the texts inside the value can.\<close>

definition surrogate :: "nat \<Rightarrow> bool" where
  "surrogate c \<longleftrightarrow> 55296 \<le> c \<and> c \<le> 57343"

lemma encodable_iff: "utf8_size s \<noteq> None \<longleftrightarrow> (\<forall>c \<in> set s. \<not> surrogate c)"
  using utf8_size_none [of s] by (auto simp: surrogate_def)

lemma hex_digits_small: "c \<in> set (hex_digits k n) \<Longrightarrow> c < 128"
proof (induction k arbitrary: n)
  case (Suc k)
  have "n mod 16 < 16" by simp
  then have "hex_digit (n mod 16) < 128" by (auto simp: hex_digit_def)
  with Suc show ?case by auto
qed simp

lemma escape_cp_surrogate: "\<not> surrogate c \<Longrightarrow> x \<in> set (escape_cp c) \<Longrightarrow> \<not> surrogate x"
  using hex_digits_small [of x 4 c] by (auto simp: escape_cp_def surrogate_def split: if_splits)

lemma quote_encodable: "check_text s = None \<Longrightarrow> c \<in> set (quote s) \<Longrightarrow> \<not> surrogate c"
  using escape_cp_surrogate encodable_iff [of s]
  by (auto simp: quote_def check_text_def surrogate_def split: if_splits)

lemma set_join: "set (join sep xs) \<subseteq> set sep \<union> (\<Union>x \<in> set xs. set x)"
  by (induction sep xs rule: join.induct) auto

lemma nat_text_small: "c \<in> set (nat_text n) \<Longrightarrow> c < 128"
  using nat_text_digits [of c n] by (simp add: json_digit_def)

lemma dec_text_small: "x \<in> set (dec_text s c e) \<Longrightarrow> x < 128"
  by (auto simp: dec_text_def exp_text_def Let_def dest: nat_text_small in_set_takeD in_set_dropD split: if_splits)

lemma int_text_small: "x \<in> set (int_text i) \<Longrightarrow> x < 128"
  by (auto simp: int_text_def dest: nat_text_small split: if_splits)

lemma small_not_surrogate: "c < 128 \<Longrightarrow> \<not> surrogate c"
  by (simp add: surrogate_def)

lemma canonical_encodable:
  "printable v \<Longrightarrow> check_depth cur mx v = None \<Longrightarrow> c \<in> set (canonical_compact_json ft v) \<Longrightarrow> \<not> surrogate c"
proof (induction v arbitrary: cur)
  case (JArr xs)
  have "\<not> surrogate c" if v: "v \<in> set xs" "c \<in> set (canonical_compact_json ft v)" for v
    using JArr.IH [OF v(1)] JArr.prems(1,2) v unfolding depth_None by auto
  moreover have "c \<in> {91, 93, 44} \<or> (\<exists>v \<in> set xs. c \<in> set (canonical_compact_json ft v))"
    using JArr.prems(3) set_join [of "[44]" "map (canonical_compact_json ft) xs"] by auto
  ultimately show ?case by (auto simp: surrogate_def)
next
  case (JObj kvs)
  have "\<not> surrogate c" if v: "(k, v) \<in> set kvs" "c \<in> set (canonical_compact_json ft v)" for k v
  proof -
    have a: "check_depth (if is_container v then cur + 1 else cur) mx v = None"
      using JObj.prems(2) v(1) unfolding depth_None by blast
    show ?thesis by (rule JObj.IH [OF v(1), of v, OF _ _ a v(2)]) (use JObj.prems(1) v(1) in \<open>auto simp: snds.simps\<close>)
  qed
  moreover have "\<not> surrogate c" if v: "(k, v) \<in> set kvs" "c \<in> set (quote k)" for k v
    using quote_encodable [OF _ v(2)] JObj.prems(2) v(1) unfolding depth_None by auto
  moreover have "c \<in> {123, 125, 44, 58} \<or> (\<exists>(k, v) \<in> set kvs. c \<in> set (quote k) \<or> c \<in> set (canonical_compact_json ft v))"
    using JObj.prems(3) set_join [THEN subsetD, of c "[44]" "map (member_text ft) (sort_key fst kvs)"]
    by (auto simp: sort_map_fst comp_def case_prod_beta split: if_splits)
  ultimately show ?case by (auto simp: surrogate_def)
next
  case (JStr s)
  then show ?case using quote_encodable by (auto split: if_splits)
next
  case (JBool b)
  then show ?case by (cases b) (auto simp: u_simps surrogate_def)
qed (auto simp: u_simps surrogate_def dest: int_text_small dec_text_small)

subsection \<open>The canonical text of a value is read as the value\<close>

lemma identity_reread: "printable v \<Longrightarrow> json_identity (reread v) = json_identity v"
proof (induction v)
  case (JObj kvs)
  have "json_identity (reread (JObj kvs)) = IdObj (map (\<lambda>(k, v). (k, json_identity (reread v))) (sort_key fst kvs))"
    by (simp add: sort_map_fst comp_def case_prod_beta sort_key_id_if_sorted)
  also have "\<dots> = IdObj (map (\<lambda>(k, v). (k, json_identity v)) (sort_key fst kvs))"
    using JObj by (auto simp: snds.simps)
  finally show ?case by (simp add: sort_map_fst)
qed (auto simp: reread_decimal_def decimal_rat_def)


subsection \<open>What the parser delivers\<close>

text \<open>
  Parsed values hold no floats, no integers of more than 4300 digits, no decimals outside the limits and
  no repeated keys. The one parsed value whose text is refused later is an integral number that was
  written with an exponent and has more than 4300 digits.
\<close>

fun well_read :: "json \<Rightarrow> bool" where
  "well_read (JInt i) = (length (nat_text (nat \<bar>i\<bar>)) \<le> int_max_str_digits)"
| "well_read (JDec s c e) = decimal_limits c e"
| "well_read (JFloat x) = False"
| "well_read (JArr xs) = (\<forall>v \<in> set xs. well_read v)"
| "well_read (JObj kvs) = (distinct (map fst kvs) \<and> (\<forall>kv \<in> set kvs. well_read (snd kv)))"
| "well_read v = True"

fun short_integrals :: "json \<Rightarrow> bool" where
  "short_integrals (JDec s c e) = (e = 0 \<longrightarrow> length (nat_text c) \<le> int_max_str_digits)"
| "short_integrals (JArr xs) = (\<forall>v \<in> set xs. short_integrals v)"
| "short_integrals (JObj kvs) = (\<forall>kv \<in> set kvs. short_integrals (snd kv))"
| "short_integrals v = True"

lemma printable_iff: "printable v \<longleftrightarrow> well_read v \<and> short_integrals v"
proof (induction v)
  case (JObj kvs)
  then have "\<And>kv. kv \<in> set kvs \<Longrightarrow> printable (snd kv) \<longleftrightarrow> well_read (snd kv) \<and> short_integrals (snd kv)"
    by (metis snds.intros surjective_pairing)
  then show ?case by auto
qed (auto simp: decimal_rereads_def)

lemma digits_value_bound: "\<forall>c \<in> set ds. json_digit c \<Longrightarrow> digits_value ds < 10 ^ length ds"
proof (induction ds rule: rev_induct)
  case (snoc d ds)
  then have "digits_value ds < 10 ^ length ds" "d - 48 \<le> 9" by (auto simp: json_digit_def)
  then have "digits_value ds * 10 + (d - 48) < 10 ^ length ds * 10" by linarith
  then show ?case by (simp add: digits_value_append)
qed simp

lemma nat_text_length: "n < 10 ^ k \<Longrightarrow> 0 < k \<Longrightarrow> length (nat_text n) \<le> k"
proof (induction k arbitrary: n)
  case (Suc k)
  show ?case
  proof (cases "n < 10")
    case False
    then have "k \<noteq> 0" using Suc.prems(1) by (cases k) auto
    moreover have "n div 10 < 10 ^ k" using Suc.prems(1) by (simp add: less_mult_imp_div_less mult.commute)
    ultimately show ?thesis using Suc.IH [of "n div 10"] False by (simp add: nat_text.simps [of n])
  qed (simp add: nat_text.simps [of n])
qed simp

lemma int_part_props: "int_part s = Some (ip, r) \<Longrightarrow> ip \<noteq> [] \<and> (\<forall>c \<in> set ip. json_digit c)"
  by (auto simp: int_part_def split: list.splits if_splits dest: set_takeWhileD)

lemma number_well_read:
  assumes "scan_number s = Inr (v, r)"
  shows "well_read v"
proof -
  obtain neg s1 ip s2 fp ep where i: "int_part s1 = Some (ip, s2)" and n: "number_value neg ip fp ep = Inr v"
    using assms by (auto simp: scan_number_def Let_def split: option.splits prod.splits sum.splits)
  have "length (nat_text (digits_value ip)) \<le> length ip"
    using int_part_props [OF i] by (intro nat_text_length digits_value_bound) auto
  then show ?thesis
    using n by (auto simp: number_value_def Let_def split: option.splits if_splits)
qed

lemma word_well_read: "scan_word s = Some (Inr (v, r)) \<Longrightarrow> well_read v"
  by (auto simp: scan_word_def split: if_splits)

lemma parse_well_read:
  "parse_value f d s = Inr (v, r) \<Longrightarrow> well_read v"
  "parse_items f d s = Inr (vs, r) \<Longrightarrow> \<forall>v \<in> set vs. well_read v"
  "parse_members f d s = Inr (ps, r) \<Longrightarrow> \<forall>kv \<in> set ps. well_read (snd kv)"
proof (induction f d s and f d s and f d s arbitrary: v r and vs r and ps r
    rule: parse_value_parse_items_parse_members.induct)
  case (2 f d s)
  then obtain c w where s: "s = c # w" by (cases s) (auto simp: parse_value.simps)
  consider "c = 34" | "c = 123" | "c = 91" | "c \<noteq> 34" "c \<noteq> 123" "c \<noteq> 91" by blast
  then show ?case
  proof cases
    case 1
    then show ?thesis using "2.prems" s by (auto simp: parse_value.simps split: sum.splits)
  next
    case c: 2
    then obtain c1 r1 where w: "skip_ws w = c1 # r1" "d \<noteq> 0"
      using "2.prems" s by (auto simp: parse_value.simps split: if_splits list.splits)
    show ?thesis
    proof (cases "c1 = 125")
      case False
      then obtain ps r2 where "parse_members f (d - 1) (c1 # r1) = Inr (ps, r2)" "distinct (map fst ps)" "v = JObj ps"
        using "2.prems" s c w by (auto simp: parse_value.simps split: if_splits sum.splits)
      then show ?thesis using "2.IH"(1) [OF s] c w False by auto
    qed (use "2.prems" s c w in \<open>auto simp: parse_value.simps\<close>)
  next
    case c: 3
    then obtain c1 r1 where w: "skip_ws w = c1 # r1" "d \<noteq> 0"
      using "2.prems" s by (auto simp: parse_value.simps split: if_splits list.splits)
    show ?thesis
    proof (cases "c1 = 93")
      case False
      then obtain xs r2 where "parse_items f (d - 1) (c1 # r1) = Inr (xs, r2)" "v = JArr xs"
        using "2.prems" s c w by (auto simp: parse_value.simps split: if_splits sum.splits)
      then show ?thesis using "2.IH"(2) [OF s] c w False by auto
    qed (use "2.prems" s c w in \<open>auto simp: parse_value.simps\<close>)
  next
    case 4
    then show ?thesis using "2.prems" s number_well_read [of s] word_well_read [of s]
      by (auto simp: parse_value.simps split: option.splits)
  qed
next
  case (4 f d s)
  then obtain v' r1 c r2 where a: "parse_value f d s = Inr (v', r1)" "skip_ws r1 = c # r2"
    by (auto simp: parse_items.simps split: sum.splits list.splits prod.splits)
  show ?case
  proof (cases "c = 44")
    case True
    then obtain vs' where "parse_items f d (skip_ws r2) = Inr (vs', r)" "vs = v' # vs'"
      using "4.prems" a by (auto simp: parse_items.simps split: sum.splits)
    then show ?thesis using "4.IH" a True by auto
  next
    case False
    then have "vs = [v']" using "4.prems" a by (auto simp: parse_items.simps split: if_splits)
    then show ?thesis using "4.IH"(1) a by auto
  qed
next
  case (6 f d s)
  then obtain r0 k r1 r2 v' r3 c r4 where a: "s = 34 # r0" "scan_string r0 = Inr (k, r1)" "skip_ws r1 = 58 # r2"
    "parse_value f d (skip_ws r2) = Inr (v', r3)" "skip_ws r3 = c # r4"
    by (auto simp: parse_members.simps split: sum.splits list.splits prod.splits if_splits)
  have v: "well_read v'" using "6.IH"(1) a by simp
  show ?case
  proof (cases "c = 44")
    case True
    then obtain ps' where p: "parse_members f d (skip_ws r4) = Inr (ps', r)" "ps = (k, v') # ps'"
      using "6.prems" a by (auto simp: parse_members.simps split: sum.splits)
    have "\<forall>kv \<in> set ps'. well_read (snd kv)" using "6.IH"(2) a True p(1) by simp
    then show ?thesis using p v by auto
  next
    case False
    then have "ps = [(k, v')]" using "6.prems" a by (auto simp: parse_members.simps split: if_splits)
    then show ?thesis using v by auto
  qed
qed (simp_all add: parse_value.simps parse_items.simps parse_members.simps)

lemma parse_structured_props:
  assumes "parse_structured_json recursion s = Inr v"
  shows "well_read v" "check_depth 1 MAX_DEPTH v = None"
  using assms parse_well_read(1) by (auto simp: parse_structured_json_def Let_def split: sum.splits if_splits option.splits)

subsection \<open>Fields of a document\<close>

definition good :: "json \<Rightarrow> bool" where
  "good v \<longleftrightarrow> printable v \<and> check_depth 1 MAX_DEPTH v = None"

lemma child_depth:
  "check_depth 1 mx (JArr xs) = None \<Longrightarrow> w \<in> set xs \<Longrightarrow> check_depth 1 mx w = None"
  "check_depth 1 mx (JObj kvs) = None \<Longrightarrow> (k, w) \<in> set kvs \<Longrightarrow> check_depth 1 mx w = None"
proof -
  have *: "check_depth 1 mx w = None" if "check_depth (if is_container w then 1 + 1 else 1) mx w = None"
    using that by (rule check_depth_inner) simp
  show "check_depth 1 mx (JArr xs) = None \<Longrightarrow> w \<in> set xs \<Longrightarrow> check_depth 1 mx w = None"
    unfolding check_depth_JArr_None by (elim conjE, drule (1) bspec, erule *)
  show "check_depth 1 mx (JObj kvs) = None \<Longrightarrow> (k, w) \<in> set kvs \<Longrightarrow> check_depth 1 mx w = None"
    unfolding check_depth_JObj_None by (elim conjE, drule (1) bspec) (simp only: prod.case, elim conjE, erule *)
qed

lemma pointer_step_good:
  assumes "pointer_step ud v tok = Found w" "good v"
  shows "good w"
proof (cases v)
  case (JArr xs)
  then have w: "w \<in> set xs" using assms(1) by (auto simp: pointer_step_def split: option.splits if_splits)
  then show ?thesis using assms(2) JArr child_depth(1) by (auto simp: good_def)
next
  case (JObj kvs)
  then have w: "(tok, w) \<in> set kvs" using assms(1) by (auto simp: pointer_step_def map_of_SomeD split: option.splits)
  then show ?thesis using assms(2) JObj child_depth(2) by (force simp: good_def)
qed (use assms(1) in \<open>auto simp: pointer_step_def\<close>)

lemma follow_good: "follow ud v toks = Found w \<Longrightarrow> good v \<Longrightarrow> good w"
  by (induction toks arbitrary: v) (auto split: step_result.splits dest: pointer_step_good)

lemma locate_good: "locate ud v path = Found w \<Longrightarrow> good v \<Longrightarrow> good w"
  by (auto simp: locate_def dest: follow_good split: if_splits)

lemma unique_from_iff:
  "unique_from seen vs \<longleftrightarrow> distinct (map json_identity vs) \<and> set seen \<inter> json_identity ` set vs = {}"
  by (induction vs arbitrary: seen) auto

lemma array_verdict_cong: "map json_identity xs = map json_identity ys \<Longrightarrow> array_verdict p xs = array_verdict p ys"
  using map_eq_imp_length_eq [of json_identity xs json_identity ys] by (simp add: array_verdict_def unique_from_iff split: option.split)



definition demo_interp :: interp where
  "demo_interp = \<lparr>it_recursion = 1000,
     it_unidata = \<lparr>ud_decimal = (\<lambda>c. None), ud_isdigit = (\<lambda>c. False), ud_alnum = (\<lambda>c. False),
                   ud_lower = (\<lambda>c. [c]), ud_upper = (\<lambda>c. [c])\<rparr>,
     it_float_text = (\<lambda>x. [])\<rparr>"

definition demo_array :: json_array_parameters where
  "demo_array = \<lparr>ja_column = u ''c'', ja_path = u ''/a'', ja_min_items = None, ja_max_items = None, ja_unique_items = True\<rparr>"

text \<open>The items 1 and 1.0 of the cell \<open>{"a":[1,1.0]}\<close> are one number: the array is not unique.\<close>

definition demo_items :: "json list" where "demo_items = [JInt 1, JDec False 10 (-1)]"

definition demo_cell :: ustr where "demo_cell = [123, 34, 97, 34, 58, 91, 49, 44, 49, 46, 48, 93, 125]"

lemma demo_parse: "parse_structured_json 1000 demo_cell = Inr (JObj [([97], JArr demo_items)])"
  by code_simp

lemma demo_locate: "locate (it_unidata demo_interp) (JObj [([97], JArr demo_items)]) (u ''/a'') = Found (JArr demo_items)"
  by code_simp


subsection \<open>An exception the rules do not contain\<close>

text \<open>
  A JSON number whose exponent is beyond the limits of \<open>Decimal\<close> makes the parser raise
  \<open>InvalidOperation\<close>, which is neither a \<open>ValueError\<close> nor a \<open>StructuredParsingError\<close>: instead of the
  verdict \<open>miscast\<close> the row function itself fails, whatever the rule asks for.
\<close>

definition huge_number :: ustr where "huge_number = u ''1e1000000000000000000''"

lemma huge_number_parse: "parse_structured_json n huge_number = Inl DecimalInvalidOperation"
proof -
  have t: "huge_number = [49, 101, 49, 48, 48, 48, 48, 48, 48, 48, 48, 48, 48, 48, 48, 48, 48, 48, 48, 48, 48]"
    by (simp add: huge_number_def u_simps)
  have v: "digits_value [49, 48, 48, 48, 48, 48, 48, 48, 48, 48, 48, 48, 48, 48, 48, 48, 48, 48, 48] = 1000000000000000000"
    by (simp add: digits_value_def)
  have sn: "scan_number huge_number = Inl DecimalInvalidOperation"
    unfolding t
    by (simp add: scan_number_def int_part_def frac_part_def exp_part_def exp_sign_def json_digit_def number_value_def v decimal_limits_def Let_def
        nat_text.simps)
  have "scan_word huge_number = None" by (simp add: t scan_word_def is_prefix_def u_simps)
  moreover have "lstrip_by is_space huge_number = huge_number" by (simp add: t lstrip_by_def is_space_def)
  moreover have "utf8_size huge_number \<noteq> None" by (simp add: t utf8_cp_def)
  moreover have "parse_value (Suc f) n huge_number = scan_number huge_number" for f
    using \<open>scan_word huge_number = None\<close> by (simp add: t parse_value.simps)
  ultimately show ?thesis by (simp add: parse_structured_json_def parse_fuel_def sn)
qed


end
