(* ===== verification/RuleCompiler.thy ===== *)
theory RuleCompiler
  imports StructuredValues
begin

text \<open>
  \<open>adapters/compute/sql_rule_compiler.py\<close> and \<open>text_rule_compiler.py\<close>: a quality rule becomes Spark column
  expressions. A condition is a function from a row to a truth value of SQL, where \<open>None\<close> is NULL; the
  connectives are those of three-valued logic. What Spark computes inside a cell (trimming, casts, time
  parsing, regular expressions, equality with a literal) is the argument \<open>spark\<close>.
\<close>

subsection \<open>Doubles of Spark\<close>

text \<open>Spark orders doubles totally: NaN equals itself and is greater than every number.\<close>

datatype dval = SNegInf | SNum rat | SPosInf | SNaN

fun dval_le :: "dval \<Rightarrow> dval \<Rightarrow> bool" where
  "dval_le SNegInf y = True"
| "dval_le (SNum a) (SNum b) = (a \<le> b)"
| "dval_le (SNum a) y = (y \<noteq> SNegInf)"
| "dval_le SPosInf y = (y = SPosInf \<or> y = SNaN)"
| "dval_le SNaN y = (y = SNaN)"

instantiation dval :: linorder
begin

definition "x \<le> y = dval_le x y"
definition "x < (y::dval) = (dval_le x y \<and> \<not> dval_le y x)"

instance
proof
  fix x y z :: dval
  show "x < y \<longleftrightarrow> x \<le> y \<and> \<not> y \<le> x" by (simp add: less_eq_dval_def less_dval_def)
  show "x \<le> x" by (cases x) (simp_all add: less_eq_dval_def)
  show "x \<le> y \<Longrightarrow> y \<le> z \<Longrightarrow> x \<le> z" by (cases x; cases y; cases z) (auto simp: less_eq_dval_def)
  show "x \<le> y \<Longrightarrow> y \<le> x \<Longrightarrow> x = y" by (cases x; cases y) (auto simp: less_eq_dval_def)
  show "x \<le> y \<or> y \<le> x" by (cases x; cases y) (auto simp: less_eq_dval_def)
qed

end

subsection \<open>Rows and conditions\<close>

text \<open>Every column of a canonical dataset is text; a row gives the cell of a column, NULL is \<open>None\<close>.\<close>

type_synonym row = "ustr \<Rightarrow> ustr option"
type_synonym cond = "row \<Rightarrow> bool option"

fun k_not :: "bool option \<Rightarrow> bool option" where
  "k_not None = None"
| "k_not (Some b) = Some (\<not> b)"

fun k_and :: "bool option \<Rightarrow> bool option \<Rightarrow> bool option" where
  "k_and (Some False) y = Some False"
| "k_and (Some True) y = y"
| "k_and None (Some False) = Some False"
| "k_and None y = None"

fun k_or :: "bool option \<Rightarrow> bool option \<Rightarrow> bool option" where
  "k_or (Some True) y = Some True"
| "k_or (Some False) y = y"
| "k_or None (Some True) = Some True"
| "k_or None y = None"

definition c_not :: "cond \<Rightarrow> cond" where "c_not a = (\<lambda>r. k_not (a r))"
definition c_and :: "cond \<Rightarrow> cond \<Rightarrow> cond" where "c_and a b = (\<lambda>r. k_and (a r) (b r))"
definition c_or :: "cond \<Rightarrow> cond \<Rightarrow> cond" where "c_or a b = (\<lambda>r. k_or (a r) (b r))"
definition c_lit :: "bool \<Rightarrow> cond" where "c_lit b = (\<lambda>r. Some b)"
definition c_null :: "(row \<Rightarrow> 'a option) \<Rightarrow> cond" where "c_null e = (\<lambda>r. Some (e r = None))"

text \<open>A predicate on one or two typed expressions is NULL when one of them is.\<close>

definition c_pred :: "('a \<Rightarrow> bool) \<Rightarrow> (row \<Rightarrow> 'a option) \<Rightarrow> cond" where
  "c_pred p e = (\<lambda>r. map_option p (e r))"

definition c_pred2 :: "('a \<Rightarrow> 'a \<Rightarrow> bool) \<Rightarrow> (row \<Rightarrow> 'a option) \<Rightarrow> (row \<Rightarrow> 'a option) \<Rightarrow> cond" where
  "c_pred2 p a b = (\<lambda>r. case (a r, b r) of (Some x, Some y) \<Rightarrow> Some (p x y) | _ \<Rightarrow> None)"

text \<open>\<open>col.isin(values)\<close>: the disjunction of the equalities; NULL if none holds and one of them is NULL.\<close>

definition c_isin :: "('v \<Rightarrow> ustr \<Rightarrow> bool option) \<Rightarrow> (row \<Rightarrow> ustr option) \<Rightarrow> 'v list \<Rightarrow> cond" where
  "c_isin eq e vs = (\<lambda>r. case e r of None \<Rightarrow> None | Some s \<Rightarrow> foldr (\<lambda>v acc. k_or (eq v s) acc) vs (Some False))"

datatype sval = VDouble dval | VLong int | VTime int

fun sval_less :: "sval \<Rightarrow> sval \<Rightarrow> bool" where
  "sval_less (VDouble a) (VDouble b) = (a < b)"
| "sval_less (VLong a) (VLong b) = (a < b)"
| "sval_less (VTime a) (VTime b) = (a < b)"
| "sval_less _ _ = False"

record spark =
  sk_trim :: "ustr \<Rightarrow> ustr"
  sk_double :: "ustr \<Rightarrow> dval option"
  sk_bigint :: "ustr \<Rightarrow> int option"
  sk_timestamp :: "ustr \<Rightarrow> ustr \<Rightarrow> int option"
  sk_year :: "int \<Rightarrow> int"
  sk_pattern_ok :: "ustr \<Rightarrow> bool"
  sk_rlike :: "ustr \<Rightarrow> ustr \<Rightarrow> bool"
  sk_literal_eq :: "json \<Rightarrow> ustr \<Rightarrow> bool option"

text \<open>
  The Python side of the compiler: the interpreter of the row functions, case mapping, the text of values
  that are not text (\<open>str(x)\<close>), \<open>float(text)\<close>, and the offline dictionaries: for validated spelling
  parameters either the error \<open>TEXT_DICTIONARY_UNAVAILABLE\<close> or the verdict on a cell.
\<close>

record host =
  ho_interp :: interp
  ho_repr :: "json \<Rightarrow> ustr"
  ho_float_of_text :: "ustr \<Rightarrow> dval option"
  ho_spelling :: "spelling_parameters \<Rightarrow> string + (ustr option \<Rightarrow> ustr)"

abbreviation ho_upper :: "host \<Rightarrow> ustr \<Rightarrow> ustr" where
  "ho_upper ho \<equiv> py_upper (ud_upper (it_unidata (ho_interp ho)))"

definition py_str :: "host \<Rightarrow> json \<Rightarrow> ustr" where
  "py_str ho v = (case v of JStr s \<Rightarrow> s | _ \<Rightarrow> ho_repr ho v)"

text \<open>\<open>float(x)\<close> and \<open>int(x)\<close> of a parameter; \<open>Inl\<close> is the \<open>ValueError\<close> or \<open>TypeError\<close>.\<close>

definition py_float :: "host \<Rightarrow> json \<Rightarrow> string + dval" where
  "py_float ho v = (case v of
      JInt i \<Rightarrow> Inr (SNum (fl (of_int i)))
    | JBool b \<Rightarrow> Inr (SNum (if b then 1 else 0))
    | JFloat x \<Rightarrow> Inr (SNum x)
    | JDec s c e \<Rightarrow> Inr (SNum (fl (decimal_rat s c e)))
    | JStr s \<Rightarrow> (case ho_float_of_text ho s of None \<Rightarrow> Inl ''ValueError'' | Some d \<Rightarrow> Inr d)
    | _ \<Rightarrow> Inl ''TypeError'')"

definition truncate :: "rat \<Rightarrow> int" where
  "truncate x = (if x < 0 then \<lceil>x\<rceil> else \<lfloor>x\<rfloor>)"

definition int_param :: "host \<Rightarrow> json \<Rightarrow> string + int" where
  "int_param ho v = (case v of
      JInt i \<Rightarrow> Inr i
    | JBool b \<Rightarrow> Inr (if b then 1 else 0)
    | JFloat x \<Rightarrow> Inr (truncate x)
    | JDec s c e \<Rightarrow> Inr (truncate (decimal_rat s c e))
    | JStr s \<Rightarrow> (case py_int (it_unidata (ho_interp ho)) s of None \<Rightarrow> Inl ''ValueError'' | Some i \<Rightarrow> Inr i)
    | _ \<Rightarrow> Inl ''TypeError'')"

text \<open>\<open>list(x)\<close> of a parameter: the items of a list, the characters of a text, the keys of an object.\<close>

definition py_list :: "json \<Rightarrow> string + json list" where
  "py_list v = (case v of
      JArr xs \<Rightarrow> Inr xs
    | JStr s \<Rightarrow> Inr (map (\<lambda>c. JStr [c]) s)
    | JObj kvs \<Rightarrow> Inr (map (\<lambda>kv. JStr (fst kv)) kvs)
    | _ \<Rightarrow> Inl ''TypeError'')"

subsection \<open>Compiled rules\<close>

text \<open>
  \<open>cr_raises\<close> is not a field of the class: it tells on which rows the evaluation of the expressions
  raises, because a row function does or because a pattern is no regular expression.
\<close>

record compiled_quality_rule =
  cr_rule_id :: uuid
  cr_target_column :: ustr
  cr_referenced_columns :: "ustr list"
  cr_is_uniqueness :: bool
  cr_scope_expr :: "cond option"
  cr_missing_expr :: cond
  cr_miscast_expr :: cond
  cr_failed_expr :: cond
  cr_raises :: "row \<Rightarrow> bool"

definition col :: "ustr \<Rightarrow> row \<Rightarrow> ustr option" where
  "col c = (\<lambda>r. r c)"

definition is_missing :: "spark \<Rightarrow> ustr \<Rightarrow> cond" where
  "is_missing sk c = c_or (c_null (col c)) (c_pred (\<lambda>s. sk_trim sk s = []) (col c))"

definition TEMPORAL_TYPES :: "ustr list" where "TEMPORAL_TYPES = map u [''TIMESTAMP'', ''DATETIME'', ''DATE'']"
definition FLOATING_TYPES :: "ustr list" where "FLOATING_TYPES = map u [''DOUBLE'', ''FLOAT'', ''NUMERIC'', ''DECIMAL'']"
definition DEFAULT_TIMESTAMP_FORMAT :: ustr where "DEFAULT_TIMESTAMP_FORMAT = u ''yyyy-MM-dd HH:mm:ss''"

definition parse_cell :: "spark \<Rightarrow> ustr \<Rightarrow> ustr \<Rightarrow> ustr \<Rightarrow> sval option" where
  "parse_cell sk data_type fmt s =
     (if data_type \<in> set TEMPORAL_TYPES then
        map_option VTime (sk_timestamp sk
          (if data_type = u ''DATE'' \<and> fmt = DEFAULT_TIMESTAMP_FORMAT then u ''yyyy-MM-dd'' else fmt) s)
      else if data_type \<in> set FLOATING_TYPES then map_option VDouble (sk_double sk s)
      else map_option VLong (sk_bigint sk s))"

definition parse_col :: "spark \<Rightarrow> ustr \<Rightarrow> ustr \<Rightarrow> ustr \<Rightarrow> row \<Rightarrow> sval option" where
  "parse_col sk c data_type fmt = (\<lambda>r. Option.bind (r c) (parse_cell sk data_type fmt))"

definition rule_with :: "quality_rule \<Rightarrow> ustr \<Rightarrow> cond \<Rightarrow> cond \<Rightarrow> cond \<Rightarrow> ustr list \<Rightarrow> bool \<Rightarrow> compiled_quality_rule" where
  "rule_with rule target missing_c miscast_c failed_c extra uniqueness =
     \<lparr>cr_rule_id = q_rule_id rule, cr_target_column = target, cr_referenced_columns = target # extra,
      cr_is_uniqueness = uniqueness, cr_scope_expr = None, cr_missing_expr = missing_c, cr_miscast_expr = miscast_c,
      cr_failed_expr = failed_c, cr_raises = (\<lambda>r. False)\<rparr>"

definition compile_non_null :: "spark \<Rightarrow> quality_rule \<Rightarrow> ustr \<Rightarrow> compiled_quality_rule" where
  "compile_non_null sk rule t = rule_with rule t (is_missing sk t) (c_lit False) (c_lit False) [] False"

definition compile_uniqueness :: "spark \<Rightarrow> quality_rule \<Rightarrow> ustr \<Rightarrow> compiled_quality_rule" where
  "compile_uniqueness sk rule t = rule_with rule t (is_missing sk t) (c_lit False) (c_lit False) [] True"

definition get_or :: "jdict \<Rightarrow> string \<Rightarrow> json \<Rightarrow> json" where
  "get_or d k dflt = (case jget d k of None \<Rightarrow> dflt | Some v \<Rightarrow> v)"

definition format_of :: "host \<Rightarrow> quality_rule \<Rightarrow> ustr" where
  "format_of ho rule = py_str ho (get_or (q_parameters rule) ''format'' (JStr DEFAULT_TIMESTAMP_FORMAT))"

definition compile_type_parse :: "host \<Rightarrow> spark \<Rightarrow> quality_rule \<Rightarrow> ustr \<Rightarrow> compiled_quality_rule" where
  "compile_type_parse ho sk rule t =
     (let d = q_parameters rule;
          data_type = ho_upper ho (py_str ho (py_or (jget_null d ''data_type'') (get_or d ''type'' (JStr (u ''DOUBLE'')))));
          missing_c = is_missing sk t
      in rule_with rule t missing_c
           (c_and (c_not missing_c) (c_null (parse_col sk t data_type (format_of ho rule)))) (c_lit False) [] False)"

subsection \<open>DOMAIN\_RANGE\<close>

definition has_key :: "jdict \<Rightarrow> string \<Rightarrow> bool" where
  "has_key d k \<longleftrightarrow> jget d k \<noteq> None"

definition bound_of :: "host \<Rightarrow> json \<Rightarrow> string + dval option" where
  "bound_of ho v = (if v = JNull then Inr None else (case py_float ho v of Inl e \<Rightarrow> Inl e | Inr x \<Rightarrow> Inr (Some x)))"

definition out_of_bounds :: "(row \<Rightarrow> sval option) \<Rightarrow> dval option \<Rightarrow> dval option \<Rightarrow> cond" where
  "out_of_bounds num lo hi =
     (let c0 = c_lit False;
          c1 = (case lo of None \<Rightarrow> c0 | Some b \<Rightarrow> c_or c0 (c_pred (\<lambda>x. sval_less x (VDouble b)) num))
      in case hi of None \<Rightarrow> c1 | Some b \<Rightarrow> c_or c1 (c_pred (\<lambda>x. sval_less (VDouble b) x) num))"

definition compile_domain_range :: "host \<Rightarrow> spark \<Rightarrow> quality_rule \<Rightarrow> ustr \<Rightarrow> string + compiled_quality_rule" where
  "compile_domain_range ho sk rule t =
     (let d = q_parameters rule; missing_c = is_missing sk t
      in if has_key d ''allowed_values'' \<or> has_key d ''values'' then
           (case py_list (py_or (jget_null d ''allowed_values'') (get_or d ''values'' (JArr []))) of Inl e \<Rightarrow> Inl e
            | Inr vs \<Rightarrow> Inr (rule_with rule t missing_c (c_lit False)
                (c_and (c_not missing_c) (c_not (c_isin (sk_literal_eq sk) (col t) vs))) [] False))
         else if has_key d ''pattern'' \<or> has_key d ''regex'' then
           (let pattern = py_str ho (py_or (jget_null d ''pattern'') (get_or d ''regex'' (JStr [])))
            in Inr ((rule_with rule t missing_c (c_lit False)
                  (c_and (c_not missing_c) (c_not (c_pred (sk_rlike sk pattern) (col t)))) [] False)
                \<lparr>cr_raises := (\<lambda>r. \<not> sk_pattern_ok sk pattern)\<rparr>))
         else if has_key d ''year'' then
           (case int_param ho (jget_null d ''year'') of Inl e \<Rightarrow> Inl e
            | Inr y \<Rightarrow>
                (let ts = parse_col sk t (u ''TIMESTAMP'') (format_of ho rule);
                     miscast_c = c_and (c_not missing_c) (c_null ts)
                 in Inr (rule_with rule t missing_c miscast_c
                      (c_and (c_and (c_not missing_c) (c_not miscast_c))
                         (c_pred (\<lambda>v. (case v of VTime x \<Rightarrow> sk_year sk x \<noteq> y | _ \<Rightarrow> False)) ts)) [] False)))
         else
           (case (bound_of ho (if has_key d ''min_value'' then jget_null d ''min_value'' else jget_null d ''min''),
                  bound_of ho (if has_key d ''max_value'' then jget_null d ''max_value'' else jget_null d ''max'')) of
              (Inl e, _) \<Rightarrow> Inl e
            | (_, Inl e) \<Rightarrow> Inl e
            | (Inr lo, Inr hi) \<Rightarrow>
                (let num = parse_col sk t (u ''DOUBLE'') DEFAULT_TIMESTAMP_FORMAT;
                     miscast_c = c_and (c_not missing_c) (c_null num)
                 in Inr (rule_with rule t missing_c miscast_c
                      (c_and (c_and (c_not missing_c) (c_not miscast_c)) (out_of_bounds num lo hi)) [] False))))"

subsection \<open>CROSS\_FIELD\<close>

definition comparator :: "ustr \<Rightarrow> (sval \<Rightarrow> sval \<Rightarrow> bool) option" where
  "comparator op =
     (if op \<in> set (map u [''>='', ''GTE'']) then Some (\<lambda>a b. \<not> sval_less a b)
      else if op \<in> set (map u [''<='', ''LTE'']) then Some (\<lambda>a b. \<not> sval_less b a)
      else if op \<in> set (map u [''>'', ''GT'']) then Some (\<lambda>a b. sval_less b a)
      else if op \<in> set (map u [''<'', ''LT'']) then Some sval_less
      else if op \<in> set (map u [''=='', ''='', ''EQ'']) then Some (\<lambda>a b. a = b)
      else if op \<in> set (map u [''!='', ''<>'', ''NEQ'']) then Some (\<lambda>a b. a \<noteq> b)
      else None)"

definition compile_cross_field :: "host \<Rightarrow> spark \<Rightarrow> quality_rule \<Rightarrow> ustr \<Rightarrow> string + compiled_quality_rule" where
  "compile_cross_field ho sk rule t =
     (let d = q_parameters rule;
          comp = py_or (jget_null d ''comparison_column'') (jget_null d ''compare_to'')
      in if \<not> truthy comp then Inl ''missing comparison_column parameter''
         else case comparator (ho_upper ho (py_str ho (get_or d ''operator'' (JStr (u ''>=''))))) of
           None \<Rightarrow> Inl ''unsupported operator''
         | Some cmp \<Rightarrow>
             (case comp of JStr c \<Rightarrow>
                (let data_type = ho_upper ho (py_str ho (py_or (jget_null d ''data_type'') (JStr (u ''DOUBLE''))));
                     typ = (if data_type \<notin> set TEMPORAL_TYPES then u ''DOUBLE'' else data_type);
                     missing_c = c_or (is_missing sk t) (is_missing sk c);
                     a = parse_col sk t typ (format_of ho rule);
                     b = parse_col sk c typ (format_of ho rule);
                     miscast_c = c_and (c_not missing_c) (c_or (c_null a) (c_null b))
                 in Inr (rule_with rule t missing_c miscast_c
                      (c_and (c_and (c_not missing_c) (c_not miscast_c)) (c_not (c_pred2 cmp a b))) [c] False))
              | _ \<Rightarrow> Inl ''AttributeError''))"

end
