(* ===== verification/TextRuleCompiler.thy ===== *)
theory TextRuleCompiler
  imports RuleCompiler
begin

text \<open>
  \<open>adapters/compute/text_rule_compiler.py\<close> and \<open>common/text_quality.py\<close>: the extended rule types, the table of
  compilers and \<open>compile_quality_rule\<close>. JSON and spelling rules run a Python function on each cell; where that
  function raises, so does the Spark job.
\<close>

subsection \<open>Text quality\<close>

definition control_char :: "nat \<Rightarrow> bool" where
  "control_char c \<longleftrightarrow> c \<le> 8 \<or> c = 11 \<or> c = 12 \<or> (14 \<le> c \<and> c \<le> 31) \<or> (127 \<le> c \<and> c \<le> 159)"

fun contains_text :: "ustr \<Rightarrow> ustr \<Rightarrow> bool" where
  "contains_text p [] = (p = [])"
| "contains_text p (c # cs) = (is_prefix p (c # cs) \<or> contains_text p cs)"

definition MOJIBAKE_SIGNALS :: "ustr list" where
  "MOJIBAKE_SIGNALS = [[195], [194], [226, 8364], [240, 376]]"

definition contains_replacement_character :: "ustr \<Rightarrow> bool" where
  "contains_replacement_character s = contains_text [65533] s"

definition contains_control_characters :: "ustr \<Rightarrow> bool" where
  "contains_control_characters s = any_of control_char s"

definition contains_mojibake :: "ustr \<Rightarrow> bool" where
  "contains_mojibake s = any_of (\<lambda>sig. contains_text sig s) MOJIBAKE_SIGNALS"

definition evaluate_text_length :: "ustr \<Rightarrow> int option \<Rightarrow> int option \<Rightarrow> bool" where
  "evaluate_text_length s lo hi =
     (if (case lo of None \<Rightarrow> False | Some n \<Rightarrow> int (length s) < n) then False
      else (case hi of None \<Rightarrow> True | Some n \<Rightarrow> int (length s) \<le> n))"

definition length_condition :: "ustr \<Rightarrow> text_quality_parameters \<Rightarrow> cond" where
  "length_condition t p =
     (let c0 = c_lit False;
          c1 = (case tq_min_length p of None \<Rightarrow> c0 | Some n \<Rightarrow> c_or c0 (c_pred (\<lambda>s. int (length s) < n) (col t)))
      in case tq_max_length p of None \<Rightarrow> c1 | Some n \<Rightarrow> c_or c1 (c_pred (\<lambda>s. int (length s) > n) (col t)))"

definition compile_text_quality :: "spark \<Rightarrow> quality_rule \<Rightarrow> ustr \<Rightarrow> string + compiled_quality_rule" where
  "compile_text_quality sk rule t =
     (case validate_text_quality (q_parameters rule) of Inl e \<Rightarrow> Inl e
      | Inr p \<Rightarrow>
          (let missing_c = is_missing sk t;
               failed_c =
                 (if tq_check p = u ''REPLACEMENT_CHARACTER'' then c_pred (contains_text [65533]) (col t)
                  else if tq_check p = u ''CONTROL_CHARACTER'' then c_pred (any_of control_char) (col t)
                  else if tq_check p = u ''MOJIBAKE''
                    then c_pred (\<lambda>s. any_of (\<lambda>sig. contains_text sig s) MOJIBAKE_SIGNALS) (col t)
                  else length_condition t p)
           in Inr (rule_with rule t missing_c (c_lit False) (c_and (c_not missing_c) failed_c) [] False)))"

subsection \<open>Row functions\<close>

text \<open>The column a row function computes, and the rows on which it raises.\<close>

definition udf_col :: "(ustr option \<Rightarrow> string + 'a) \<Rightarrow> ustr \<Rightarrow> row \<Rightarrow> 'a option" where
  "udf_col f t = (\<lambda>r. case f (r t) of Inl e \<Rightarrow> None | Inr x \<Rightarrow> Some x)"

definition udf_raises :: "(ustr option \<Rightarrow> string + 'a) \<Rightarrow> ustr \<Rightarrow> row \<Rightarrow> bool" where
  "udf_raises f t = (\<lambda>r. case f (r t) of Inl e \<Rightarrow> True | Inr x \<Rightarrow> False)"

definition label_is :: "string \<Rightarrow> (row \<Rightarrow> ustr option) \<Rightarrow> cond" where
  "label_is s label = c_pred (\<lambda>l. l = u s) label"

definition compile_label :: "quality_rule \<Rightarrow> ustr \<Rightarrow> (ustr option \<Rightarrow> string + ustr) \<Rightarrow> compiled_quality_rule" where
  "compile_label rule t f =
     (let label = udf_col f t
      in (rule_with rule t (label_is ''missing'' label) (label_is ''miscast'' label) (label_is ''failed'' label) [] False)
           \<lparr>cr_raises := udf_raises f t\<rparr>)"

definition extract_udf :: "interp \<Rightarrow> ustr \<Rightarrow> ustr option \<Rightarrow> string + json_field" where
  "extract_udf it path v = (case extract_json_field it v path of Inl e \<Rightarrow> Inl (parse_failure e) | Inr fd \<Rightarrow> Inr fd)"

definition state_is :: "string \<Rightarrow> (row \<Rightarrow> json_field option) \<Rightarrow> cond" where
  "state_is s fd = c_pred (\<lambda>f. fd_state f = u s) fd"

definition kind_not :: "ustr \<Rightarrow> (row \<Rightarrow> json_field option) \<Rightarrow> cond" where
  "kind_not k fd = c_pred (\<lambda>x. x \<noteq> k) (\<lambda>r. Option.bind (fd r) fd_kind)"

definition kind_is :: "ustr \<Rightarrow> (row \<Rightarrow> json_field option) \<Rightarrow> cond" where
  "kind_is k fd = c_pred (\<lambda>x. x = k) (\<lambda>r. Option.bind (fd r) fd_kind)"

definition compile_json_field :: "host \<Rightarrow> spark \<Rightarrow> quality_rule \<Rightarrow> ustr \<Rightarrow> string + compiled_quality_rule" where
  "compile_json_field ho sk rule t =
     (case validate_json_field (it_unidata (ho_interp ho)) (q_parameters rule) of Inl e \<Rightarrow> Inl e
      | Inr p \<Rightarrow>
          if jf_check p = u ''RANGE'' then Inr (compile_label rule t (evaluate_json_field (ho_interp ho) p))
          else
            (let f = extract_udf (ho_interp ho) (jf_path p);
                 fd = udf_col f t;
                 txt = (\<lambda>r. Option.bind (fd r) fd_text);
                 present = state_is ''present'' fd;
                 miscast0 = state_is ''miscast'' fd;
                 miscast_c =
                   (if jf_check p = u ''TYPE'' then
                      (case jf_expected_type p of None \<Rightarrow> miscast0 | Some k \<Rightarrow> c_or miscast0 (c_and present (kind_not k fd)))
                    else if jf_check p = u ''REGEX'' \<or> jf_check p = u ''ALLOWED_VALUES''
                      then c_or miscast0 (c_and present (kind_not (u ''STRING'') fd))
                    else miscast0);
                 failed_c =
                   (if jf_check p = u ''REGEX'' then
                      c_and (c_and present (kind_is (u ''STRING'') fd))
                        (c_not (c_pred (sk_rlike sk (case jf_pattern p of None \<Rightarrow> [] | Some x \<Rightarrow> x)) txt))
                    else if jf_check p = u ''ALLOWED_VALUES'' then
                      c_and (c_and present (kind_is (u ''STRING'') fd))
                        (c_not (c_isin (\<lambda>v s. Some (v = s)) txt (case jf_allowed_values p of None \<Rightarrow> [] | Some vs \<Rightarrow> vs)))
                    else c_lit False)
             in Inr ((rule_with rule t (state_is ''missing'' fd) miscast_c failed_c [] False)\<lparr>cr_raises := udf_raises f t\<rparr>)))"

definition compile_json_array :: "host \<Rightarrow> quality_rule \<Rightarrow> ustr \<Rightarrow> string + compiled_quality_rule" where
  "compile_json_array ho rule t =
     (case validate_json_array (q_parameters rule) of Inl e \<Rightarrow> Inl e
      | Inr p \<Rightarrow> Inr (compile_label rule t (evaluate_json_array (ho_interp ho) p)))"

definition compile_spelling :: "host \<Rightarrow> quality_rule \<Rightarrow> ustr \<Rightarrow> string + compiled_quality_rule" where
  "compile_spelling ho rule t =
     (case validate_spelling (q_parameters rule) of Inl e \<Rightarrow> Inl e
      | Inr p \<Rightarrow>
          (case ho_spelling ho p of Inl e \<Rightarrow> Inl ''TEXT_DICTIONARY_UNAVAILABLE''
           | Inr f \<Rightarrow> Inr ((compile_label rule t (\<lambda>v. Inr (f v)))
               \<lparr>cr_scope_expr := Some (label_is ''not_applicable'' (udf_col (\<lambda>v. Inr (f v)) t))\<rparr>)))"

subsection \<open>The table of compilers\<close>

definition NON_NULL_TYPES :: "ustr list" where "NON_NULL_TYPES = map u [''NON_NULL'', ''NOT_NULL'', ''COMPLETENESS'']"
definition TYPE_PARSE_TYPES :: "ustr list" where "TYPE_PARSE_TYPES = map u [''TYPE_PARSE'', ''TYPE'', ''PARSER'']"
definition DOMAIN_RANGE_TYPES :: "ustr list" where
  "DOMAIN_RANGE_TYPES = map u [''DOMAIN_RANGE'', ''RANGE'', ''DOMAIN'', ''ALLOWED_VALUES'', ''REGEX'']"
definition CROSS_FIELD_TYPES :: "ustr list" where
  "CROSS_FIELD_TYPES = map u [''CROSS_FIELD'', ''CONSISTENCY'', ''COLUMN_COMPARISON'']"
definition UNIQUENESS_TYPES :: "ustr list" where "UNIQUENESS_TYPES = map u [''UNIQUENESS'', ''UNIQUE'', ''DISTINCT'']"

text \<open>\<open>rule_target_column\<close>: the entity has no such attribute, so the parameters decide; None when nothing truthy is given.\<close>

definition rule_target_column :: "quality_rule \<Rightarrow> json" where
  "rule_target_column rule = py_or (jget_null (q_parameters rule) ''target_column'') (jget_null (q_parameters rule) ''column'')"

definition compile_quality_rule :: "host \<Rightarrow> spark \<Rightarrow> quality_rule \<Rightarrow> string + compiled_quality_rule" where
  "compile_quality_rule ho sk rule =
     (let target = rule_target_column rule; kind = ho_upper ho (q_rule_type rule)
      in if \<not> truthy target then Inl ''no target column defined''
         else case target of
           JStr t \<Rightarrow>
             (if kind \<in> set NON_NULL_TYPES then Inr (compile_non_null sk rule t)
              else if kind \<in> set TYPE_PARSE_TYPES then Inr (compile_type_parse ho sk rule t)
              else if kind \<in> set DOMAIN_RANGE_TYPES then compile_domain_range ho sk rule t
              else if kind \<in> set CROSS_FIELD_TYPES then compile_cross_field ho sk rule t
              else if kind \<in> set UNIQUENESS_TYPES then Inr (compile_uniqueness sk rule t)
              else if kind = u ''TEXT_QUALITY'' then compile_text_quality sk rule t
              else if kind = u ''JSON_FIELD'' then compile_json_field ho sk rule t
              else if kind = u ''JSON_ARRAY'' then compile_json_array ho rule t
              else if kind = u ''SPELLING'' then compile_spelling ho rule t
              else Inl ''unsupported rule type'')
         | _ \<Rightarrow> Inl ''AttributeError'')"

end
