(* ===== verification/SnapshotObjects.thy ===== *)
theory SnapshotObjects
  imports Models PyRegex
begin

text \<open>
  \<open>adapters/storage/snapshot_objects.py\<close> and the data of \<open>ports/object_store.py\<close>: a snapshot names an
  object by bucket, key, version, size and SHA-256; it is read only when the pinned version is still the
  current one before and after the read, and the bytes have the recorded digest. The object store is an
  argument: what \<open>head\<close> and the stream return at the three moments the code asks.
\<close>

subsection \<open>References\<close>

record object_ref =
  or_bucket :: ustr
  or_key :: ustr
  or_version_id :: "ustr option"

record object_metadata =
  om_size_bytes :: int
  om_version_id :: "ustr option"

text \<open>What the store raises: \<open>FileNotFoundError\<close>, or a client or operating system error.\<close>

datatype store_error = FileNotFound | StoreFailure

definition s3a_uri :: "object_ref \<Rightarrow> ustr" where
  "s3a_uri r = u ''s3a://'' @ or_bucket r @ [47] @ lstrip_by (\<lambda>c. c = 47) (or_key r)"

text \<open>\<open>SnapshotObjectError\<close> carries its code.\<close>

definition canonical_descriptor :: "jdict \<Rightarrow> string + jdict" where
  "canonical_descriptor src = (case jget src ''canonical'' of
      Some (JObj d) \<Rightarrow> if jget_null d ''format'' = JStr (u ''PARQUET'') then Inr d else Inl ''SNAPSHOT_REIMPORT_REQUIRED''
    | _ \<Rightarrow> Inl ''SNAPSHOT_REIMPORT_REQUIRED'')"

definition tenant_prefix :: "uuid \<Rightarrow> ustr" where
  "tenant_prefix t = u ''snapshots/'' @ uuid_str t @ [47]"

fun key_parts :: "ustr \<Rightarrow> ustr list" where
  "key_parts [] = [[]]"
| "key_parts (c # cs) = (if c = 47 then [] # key_parts cs
     else (case key_parts cs of [] \<Rightarrow> [[c]] | p # ps \<Rightarrow> (c # p) # ps))"

definition bad_part :: "ustr \<Rightarrow> bool" where
  "bad_part p \<longleftrightarrow> p = [] \<or> p = u ''.'' \<or> p = u ''..''"

definition hex64 :: "ustr \<Rightarrow> bool" where
  "hex64 s \<longleftrightarrow> length s = 64 \<and> list_all (\<lambda>c. (48 \<le> c \<and> c \<le> 57) \<or> (97 \<le> c \<and> c \<le> 102)) s"

text \<open>\<open>isinstance(size, int)\<close> holds for booleans as well.\<close>

definition int_size :: "json \<Rightarrow> int option" where
  "int_size v = (case v of JInt i \<Rightarrow> Some i | JBool b \<Rightarrow> Some (if b then 1 else 0) | _ \<Rightarrow> None)"

definition valid_integrity :: "json \<Rightarrow> json \<Rightarrow> bool" where
  "valid_integrity digest sz =
     ((case digest of JStr d \<Rightarrow> hex64 d | _ \<Rightarrow> False) \<and> (case int_size sz of Some n \<Rightarrow> 0 < n | None \<Rightarrow> False))"

definition pinned_ref :: "uuid \<Rightarrow> jdict \<Rightarrow> ustr \<Rightarrow> string + object_ref" where
  "pinned_ref t d snapshot_bucket =
     (if jget_null d ''bucket'' \<noteq> JStr snapshot_bucket then Inl ''STORAGE_VIOLATION''
      else case jget_null d ''key'' of
        JStr key \<Rightarrow>
          (if \<not> is_prefix (tenant_prefix t) key then Inl ''TENANT_ISOLATION_VIOLATION''
           else if any_of bad_part (key_parts key) \<or> 92 \<in> set key \<or> any_of (\<lambda>c. c < 32) key then Inl ''STORAGE_VIOLATION''
           else case jget_null d ''version_id'' of
             JStr v \<Rightarrow>
               (if v = [] \<or> v = u ''null'' then Inl ''SNAPSHOT_VERSIONING_REQUIRED''
                else if \<not> valid_integrity (jget_null d ''content_sha256'') (jget_null d ''size_bytes'')
                  then Inl ''MALFORMED_IMPORT''
                else Inr \<lparr>or_bucket = snapshot_bucket, or_key = key, or_version_id = Some v\<rparr>)
           | _ \<Rightarrow> Inl ''SNAPSHOT_VERSIONING_REQUIRED'')
      | _ \<Rightarrow> Inl ''TENANT_ISOLATION_VIOLATION'')"

subsection \<open>Verification\<close>

text \<open>\<open>descriptor["size_bytes"]\<close> and \<open>descriptor["content_sha256"]\<close>, which \<open>pinned_ref\<close> has checked.\<close>

definition declared_size :: "jdict \<Rightarrow> int" where
  "declared_size d = (case int_size (jget_null d ''size_bytes'') of Some n \<Rightarrow> n | None \<Rightarrow> 0)"

definition declared_digest :: "jdict \<Rightarrow> ustr" where
  "declared_digest d = (case jget_null d ''content_sha256'' of JStr s \<Rightarrow> s | _ \<Rightarrow> [])"

definition check_current :: "object_metadata \<Rightarrow> object_ref \<Rightarrow> int \<Rightarrow> string option" where
  "check_current current ref sz =
     (if om_version_id current \<noteq> or_version_id ref \<or> om_size_bytes current \<noteq> sz then Some ''OBJECT_CHANGED'' else None)"

definition store_code :: "store_error \<Rightarrow> string" where
  "store_code e = (case e of FileNotFound \<Rightarrow> ''RESOURCE_NOT_FOUND'' | StoreFailure \<Rightarrow> ''STORAGE_UNAVAILABLE'')"

text \<open>
  What the store answers during one verification: the metadata before, the chunks of the pinned version
  and the metadata after. A chunk list is cut into whatever pieces the stream delivers.
\<close>

record store_view =
  sv_before :: "object_ref \<Rightarrow> store_error + object_metadata"
  sv_stream :: "object_ref \<Rightarrow> store_error + nat list list"
  sv_after :: "object_ref \<Rightarrow> store_error + object_metadata"

definition current_ref :: "object_ref \<Rightarrow> object_ref" where
  "current_ref r = r\<lparr>or_version_id := None\<rparr>"

text \<open>The result is the error code, or the bytes that were copied to the spool file (none unless \<open>full\<close>).\<close>

definition verify_object :: "(nat list \<Rightarrow> ustr) \<Rightarrow> store_view \<Rightarrow> object_ref \<Rightarrow> jdict \<Rightarrow> bool \<Rightarrow> string + nat list option" where
  "verify_object sha st ref d full =
     (case sv_before st (current_ref ref) of Inl e \<Rightarrow> Inl (store_code e)
      | Inr m \<Rightarrow> (case check_current m ref (declared_size d) of Some e \<Rightarrow> Inl e
          | None \<Rightarrow>
              if \<not> full then Inr None
              else (case sv_stream st ref of Inl e \<Rightarrow> Inl (store_code e)
                | Inr chunks \<Rightarrow>
                    (let bytes = concat chunks
                     in if sha bytes \<noteq> declared_digest d \<or> int (length bytes) \<noteq> declared_size d then Inl ''OBJECT_CHANGED''
                        else (case sv_after st (current_ref ref) of Inl e \<Rightarrow> Inl (store_code e)
                          | Inr m' \<Rightarrow> (case check_current m' ref (int (length bytes)) of
                              Some e \<Rightarrow> Inl e | None \<Rightarrow> Inr (Some bytes)))))))"

text \<open>
  \<open>spool_canonical\<close>: the outcome and what is left at the destination path afterwards; a failure of any
  kind removes the file. The checks before the \<open>try\<close> leave the path as it was.
\<close>

definition spool_canonical ::
  "(nat list \<Rightarrow> ustr) \<Rightarrow> store_view \<Rightarrow> int \<Rightarrow> uuid \<Rightarrow> jdict \<Rightarrow> ustr \<Rightarrow> nat list option \<Rightarrow> (string + unit) \<times> nat list option" where
  "spool_canonical sha st free t src snapshot_bucket dest =
     (case canonical_descriptor src of Inl e \<Rightarrow> (Inl e, dest)
      | Inr d \<Rightarrow> (case pinned_ref t d snapshot_bucket of Inl e \<Rightarrow> (Inl e, dest)
          | Inr ref \<Rightarrow>
              if free < declared_size d then (Inl ''STORAGE_UNAVAILABLE'', None)
              else (case verify_object sha st ref d True of Inl e \<Rightarrow> (Inl e, None)
                | Inr bytes \<Rightarrow> (Inr (), bytes))))"

subsection \<open>What a spooled snapshot is\<close>

lemma verify_object_full:
  assumes "verify_object sha st ref d True = Inr bytes"
  obtains b where "bytes = Some b" "sha b = declared_digest d" "int (length b) = declared_size d"
    "\<exists>m. sv_after st (current_ref ref) = Inr m \<and> om_version_id m = or_version_id ref"
  using assms by (auto simp: verify_object_def check_current_def Let_def split: sum.splits option.splits if_splits)

lemma pinned_ref_tenant:
  assumes "pinned_ref t d b = Inr ref"
  shows "or_bucket ref = b \<and> is_prefix (tenant_prefix t) (or_key ref) \<and> \<not> any_of bad_part (key_parts (or_key ref))
    \<and> (\<exists>v. or_version_id ref = Some v \<and> v \<noteq> []) \<and> 0 < declared_size d \<and> hex64 (declared_digest d)"
  using assms by (auto simp: pinned_ref_def valid_integrity_def declared_size_def declared_digest_def
      split: json.splits if_splits option.splits)

lemma tenant_prefix_inj: "is_prefix (tenant_prefix t) k \<Longrightarrow> is_prefix (tenant_prefix t') k \<Longrightarrow> t < 2 ^ 128 \<Longrightarrow> t' < 2 ^ 128 \<Longrightarrow> t = t'"
proof -
  assume k: "is_prefix (tenant_prefix t) k" "is_prefix (tenant_prefix t') k" and b: "t < 2 ^ 128" "t' < 2 ^ 128"
  have len: "length (uuid_str n) = 36" for n by (simp add: uuid_str_def Let_def)
  have "tenant_prefix t = tenant_prefix t'"
    using k by (simp add: is_prefix_def tenant_prefix_def len)
  then show ?thesis using uuid_str_inj b by (simp add: tenant_prefix_def)
qed

text \<open>C35: 
  A spooled file is exactly the registered object: it lies under the tenant's own prefix, its bytes have
  the recorded size and digest, and the pinned version was current again after the last byte. When
  spooling fails after the descriptor was accepted, no file is left behind.
\<close>

theorem spooled_is_registered:
  assumes "canonical_descriptor src = Inr d" "pinned_ref t d bucket = Inr ref"
  shows "case spool_canonical sha st free t src bucket dest of
      (Inr x, file) \<Rightarrow> (\<exists>b. file = Some b \<and> sha b = declared_digest d \<and> int (length b) = declared_size d \<and> 0 < length b
          \<and> is_prefix (tenant_prefix t) (or_key ref)
          \<and> (\<exists>m. sv_after st (current_ref ref) = Inr m \<and> om_version_id m = or_version_id ref))
    | (Inl e, file) \<Rightarrow> file = None"
  using assms pinned_ref_tenant [OF assms(2)]
  by (auto simp: spool_canonical_def split: sum.split elim!: verify_object_full)

definition demo_descriptor :: jdict where
  "demo_descriptor = [(u ''format'', JStr (u ''PARQUET'')), (u ''bucket'', JStr (u ''b'')),
     (u ''key'', JStr (tenant_prefix 0 @ u ''x'')), (u ''version_id'', JStr (u ''v'')),
     (u ''content_sha256'', JStr (replicate 64 48)), (u ''size_bytes'', JInt 1)]"

definition demo_view :: store_view where
  "demo_view = \<lparr>sv_before = (\<lambda>r. Inr \<lparr>om_size_bytes = 1, om_version_id = Some (u ''v'')\<rparr>),
     sv_stream = (\<lambda>r. Inr [[7]]), sv_after = (\<lambda>r. Inr \<lparr>om_size_bytes = 1, om_version_id = Some (u ''v'')\<rparr>)\<rparr>"

lemma spooled_is_registered_witness:
  "\<exists>b. snd (spool_canonical (\<lambda>b. replicate 64 48) demo_view 10 0 [(u ''canonical'', JObj demo_descriptor)] (u ''b'') None)
     = Some b \<and> length b = 1"
proof -
  have c: "canonical_descriptor [(u ''canonical'', JObj demo_descriptor)] = Inr demo_descriptor"
    by (simp add: canonical_descriptor_def jget_def jget_null_def demo_descriptor_def)
  have p: "pinned_ref 0 demo_descriptor (u ''b'') =
      Inr \<lparr>or_bucket = u ''b'', or_key = tenant_prefix 0 @ u ''x'', or_version_id = Some (u ''v'')\<rparr>"
    by code_simp
  have s: "declared_size demo_descriptor = 1"
    by (simp add: declared_size_def jget_null_def jget_def demo_descriptor_def int_size_def)
  have dg: "declared_digest demo_descriptor = replicate 64 48"
    by (simp add: declared_digest_def jget_null_def jget_def demo_descriptor_def)
  have "fst (spool_canonical (\<lambda>b. replicate 64 48) demo_view 10 0 [(u ''canonical'', JObj demo_descriptor)] (u ''b'') None) = Inr ()"
    using s dg by (simp add: spool_canonical_def c p verify_object_def demo_view_def check_current_def current_ref_def)
  then show ?thesis
    using spooled_is_registered [OF c p, of "\<lambda>b. replicate 64 48" demo_view 10 None] s
    by (auto split: prod.splits sum.splits)
qed

end
