(* ===== verification/SparkCompute.thy ===== *)
theory SparkCompute
  imports TextRuleCompiler SnapshotObjects Validation
begin

text \<open>
  \<open>adapters/compute/spark_compute.py\<close> and \<open>in_memory_compute.py\<close>: verification of a snapshot's two pinned
  objects, the single aggregation that counts the rows of every rule in five buckets, the masked evidence,
  profiling metrics and the interquartile outlier count.
\<close>

subsection \<open>Snapshots\<close>

text \<open>A message of \<open>RunAbortedError\<close> starts with the code of the object error.\<close>

type_synonym verified = "(uuid \<times> object_ref \<times> object_ref) list"

definition verify_snapshot ::
  "(nat list \<Rightarrow> ustr) \<Rightarrow> store_view \<Rightarrow> ustr \<Rightarrow> dataset_snapshot \<Rightarrow> verified \<Rightarrow> string + verified" where
  "verify_snapshot sha st bucket sn ver =
     (if sn_source_kind sn \<noteq> u ''OBJECT_FILE'' then Inl ''LEGACY_SOURCE_UNSUPPORTED''
      else
        (let raw = sn_source_descriptor sn
         in case jget raw ''canonical'' of
              Some (JObj canonical) \<Rightarrow>
                (if jget_null canonical ''format'' \<noteq> JStr (u ''PARQUET'') then Inl ''MALFORMED_IMPORT''
                 else case pinned_ref (sn_tenant_id sn) raw bucket of Inl e \<Rightarrow> Inl e
                 | Inr r1 \<Rightarrow> (case pinned_ref (sn_tenant_id sn) canonical bucket of Inl e \<Rightarrow> Inl e
                   | Inr r2 \<Rightarrow>
                       (let full = (map_of ver (sn_snapshot_id sn) \<noteq> Some (r1, r2))
                        in case verify_object sha st r1 raw full of Inl e \<Rightarrow> Inl e
                           | Inr b1 \<Rightarrow> (case verify_object sha st r2 canonical full of Inl e \<Rightarrow> Inl e
                             | Inr b2 \<Rightarrow> Inr (AList.update (sn_snapshot_id sn) (r1, r2) ver)))))
            | _ \<Rightarrow> Inl ''MALFORMED_IMPORT''))"

definition release_snapshot :: "dataset_snapshot \<Rightarrow> verified \<Rightarrow> verified" where
  "release_snapshot sn ver = AList.delete (sn_snapshot_id sn) ver"

subsection \<open>Counting\<close>

text \<open>
  A dataset is its columns and its rows, in the order Spark happens to enumerate them. \<open>row_number\<close> over the
  partition of a value with a constant ordering numbers the rows of the partition in that order.
\<close>

record dataset =
  df_columns :: "ustr list"
  df_rows :: "row list"

definition row_number :: "ustr \<Rightarrow> row list \<Rightarrow> nat \<Rightarrow> nat" where
  "row_number c rows i = Suc (length (filter (\<lambda>r. r c = (rows ! i) c) (take i rows)))"

definition is_true :: "bool option \<Rightarrow> bool" where
  "is_true b \<longleftrightarrow> b = Some True"

text \<open>The five conditions of a rule on row \<open>i\<close>, and the number of rows on which a condition is true.\<close>

definition na_at :: "compiled_quality_rule \<Rightarrow> row list \<Rightarrow> nat \<Rightarrow> bool option" where
  "na_at cr rows i = (case cr_scope_expr cr of None \<Rightarrow> Some False | Some c \<Rightarrow> c (rows ! i))"

definition failed_at :: "compiled_quality_rule \<Rightarrow> row list \<Rightarrow> nat \<Rightarrow> bool option" where
  "failed_at cr rows i =
     (if cr_is_uniqueness cr
      then k_and (k_not (cr_missing_expr cr (rows ! i))) (Some (1 < row_number (cr_target_column cr) rows i))
      else cr_failed_expr cr (rows ! i))"

definition passed_at :: "compiled_quality_rule \<Rightarrow> row list \<Rightarrow> nat \<Rightarrow> bool option" where
  "passed_at cr rows i =
     k_and (k_and (k_and (k_not (na_at cr rows i)) (k_not (cr_missing_expr cr (rows ! i))))
       (k_not (cr_miscast_expr cr (rows ! i)))) (k_not (failed_at cr rows i))"

definition count_true :: "(nat \<Rightarrow> bool option) \<Rightarrow> row list \<Rightarrow> int" where
  "count_true c rows = int (length (filter (\<lambda>i. is_true (c i)) [0..<length rows]))"

definition counts_of :: "compiled_quality_rule \<Rightarrow> row list \<Rightarrow> rule_counts" where
  "counts_of cr rows =
     (let na = na_at cr rows; ms = (\<lambda>i. cr_missing_expr cr (rows ! i)); mc = (\<lambda>i. cr_miscast_expr cr (rows ! i));
          fa = failed_at cr rows;
          n_na = count_true na rows;
          n_missing = count_true (\<lambda>i. k_and (k_not (na i)) (ms i)) rows;
          n_miscast = count_true (\<lambda>i. k_and (k_and (k_not (na i)) (k_not (ms i))) (mc i)) rows;
          n_failed = count_true (\<lambda>i. k_and (k_and (k_and (k_not (na i)) (k_not (ms i))) (k_not (mc i))) (fa i)) rows;
          n_passed = count_true (passed_at cr rows) rows
      in \<lparr>passed = n_passed, failed = n_failed, missing = n_missing, miscast = n_miscast, not_applicable = n_na,
          total_observed = n_passed + n_failed + n_missing + n_miscast + n_na\<rparr>)"

subsection \<open>Evidence\<close>

definition mask_evidence_cell :: "spark \<Rightarrow> ustr option \<Rightarrow> json" where
  "mask_evidence_cell sk v = (case v of None \<Rightarrow> JNull
     | Some s \<Rightarrow> if sk_trim sk s = [] then JStr [] else JStr (u ''[REDACTED]''))"

definition evidence_row :: "spark \<Rightarrow> ustr list \<Rightarrow> row \<Rightarrow> jdict" where
  "evidence_row sk cols r = dict_of (map (\<lambda>c. (c, mask_evidence_cell sk (r c))) cols)"

definition evidence_at :: "compiled_quality_rule \<Rightarrow> row list \<Rightarrow> nat \<Rightarrow> bool option" where
  "evidence_at cr rows i =
     (if cr_is_uniqueness cr then failed_at cr rows i
      else k_or (cr_miscast_expr cr (rows ! i)) (cr_failed_expr cr (rows ! i)))"

definition evidence_of :: "spark \<Rightarrow> nat \<Rightarrow> compiled_quality_rule \<Rightarrow> row list \<Rightarrow> jdict list" where
  "evidence_of sk sample_limit cr rows =
     map (\<lambda>i. evidence_row sk (cr_referenced_columns cr) (rows ! i))
       (take sample_limit (filter (\<lambda>i. is_true (evidence_at cr rows i)) [0..<length rows]))"

subsection \<open>Running the rules\<close>

definition failed_output :: "uuid \<Rightarrow> ustr option \<Rightarrow> rule_execution_output" where
  "failed_output i msg = \<lparr>o_rule_id = i, o_counts = zero_counts, o_status = FAILED_TO_MEASURE,
     o_evidence_samples = [], o_error_message = msg\<rparr>"

definition structured_columns :: "dataset_snapshot \<Rightarrow> ustr list" where
  "structured_columns sn = (case jget (sn_schema_definition sn) ''columns'' of
      Some (JArr cs) \<Rightarrow> concat (map (\<lambda>c. case c of
          JObj d \<Rightarrow> if jget_null d ''structural_encoding'' = JStr (u ''JSON'')
            then (case jget_null d ''name'' of JStr n \<Rightarrow> [n] | _ \<Rightarrow> []) else []
        | _ \<Rightarrow> []) cs)
    | _ \<Rightarrow> [])"

text \<open>Why a compiled rule is not run on this dataset.\<close>

definition rejection :: "host \<Rightarrow> spark \<Rightarrow> ustr list \<Rightarrow> ustr list \<Rightarrow> quality_rule \<Rightarrow> compiled_quality_rule \<Rightarrow> ustr option" where
  "rejection ho sk columns structured rule cr =
     (let kind = ho_upper ho (q_rule_type rule)
      in case filter (\<lambda>c. c \<notin> set columns) (cr_referenced_columns cr) of
           c # cs \<Rightarrow> Some (u ''Target column '' @ [39] @ c @ [39] @ u '' not found in dataset'')
         | [] \<Rightarrow>
             if (kind \<in> set (map u [''JSON_FIELD'', ''JSON_ARRAY'']) \<and> cr_target_column cr \<notin> set structured)
                \<or> (kind \<in> set (map u [''TYPE_PARSE'', ''DOMAIN_RANGE'', ''CROSS_FIELD'', ''TEXT_QUALITY'', ''SPELLING''])
                   \<and> any_of (\<lambda>c. c \<in> set structured) (cr_referenced_columns cr))
             then Some (u ''STRUCTURED_COLUMN_REQUIRES_JSON_RULE'')
             else if kind = u ''JSON_FIELD'' \<and> jget_null (q_parameters rule) ''check'' = JStr (u ''REGEX'')
                  \<and> (case jget_null (q_parameters rule) ''pattern'' of JStr p \<Rightarrow> \<not> sk_pattern_ok sk p | _ \<Rightarrow> True)
               then Some (u ''REGEX_INVALID'')
             else None)"

definition plan_rule :: "host \<Rightarrow> spark \<Rightarrow> ustr list \<Rightarrow> ustr list \<Rightarrow> quality_rule \<Rightarrow> ustr + compiled_quality_rule" where
  "plan_rule ho sk columns structured rule =
     (case compile_quality_rule ho sk rule of Inl e \<Rightarrow> Inl (u e)
      | Inr cr \<Rightarrow> (case rejection ho sk columns structured rule cr of Some m \<Rightarrow> Inl m | None \<Rightarrow> Inr cr))"

text \<open>The two dictionaries of the compile loop, keyed by rule id.\<close>

fun plan_rules :: "host \<Rightarrow> spark \<Rightarrow> ustr list \<Rightarrow> ustr list \<Rightarrow> quality_rule list
    \<Rightarrow> (uuid \<times> compiled_quality_rule) list \<times> (uuid \<times> rule_execution_output) list
    \<Rightarrow> (uuid \<times> compiled_quality_rule) list \<times> (uuid \<times> rule_execution_output) list" where
  "plan_rules ho sk columns structured [] acc = acc"
| "plan_rules ho sk columns structured (r # rs) (compiled, failures) =
     (case plan_rule ho sk columns structured r of
        Inl m \<Rightarrow> plan_rules ho sk columns structured rs
          (compiled, AList.update (q_rule_id r) (failed_output (q_rule_id r) (Some m)) failures)
      | Inr cr \<Rightarrow> plan_rules ho sk columns structured rs (AList.update (q_rule_id r) cr compiled, failures))"

definition measured_output :: "spark \<Rightarrow> (uuid \<Rightarrow> bool) \<Rightarrow> nat \<Rightarrow> int \<Rightarrow> compiled_quality_rule \<Rightarrow> row list \<Rightarrow> uuid \<Rightarrow> rule_execution_output" where
  "measured_output sk evidence_fails sample_limit total_rows cr rows i =
     (let c = counts_of cr rows;
          st = (if total_observed c = 0 then (if total_rows = 0 then NOT_MEASURABLE else NOT_APPLICABLE) else MEASURED);
          ev = (if (0 < failed c \<or> 0 < miscast c) \<and> 0 < sample_limit
                then (if evidence_fails i then [] else evidence_of sk sample_limit cr rows) else [])
      in \<lparr>o_rule_id = i, o_counts = c, o_status = st, o_evidence_samples = ev, o_error_message = None\<rparr>)"

text \<open>
  \<open>execute_rules\<close> on the loaded dataset. \<open>load\<close> is the outcome of reading the snapshot and \<open>evidence_fails\<close>
  tells for which rules sampling raises (the code then keeps no samples). An exception inside the
  aggregation leaves the method: \<open>Inl\<close>.
\<close>

definition execute_rules :: "host \<Rightarrow> spark \<Rightarrow> (dataset_snapshot \<Rightarrow> string + dataset) \<Rightarrow> (uuid \<Rightarrow> bool)
    \<Rightarrow> dataset_snapshot \<Rightarrow> quality_rule list \<Rightarrow> int \<Rightarrow> string + rule_execution_output list" where
  "execute_rules ho sk load evidence_fails sn rules sample_limit =
     (if sn_total_rows sn = 0 then
        Inr (map (\<lambda>r. (failed_output (q_rule_id r) None)\<lparr>o_status := NOT_MEASURABLE\<rparr>) rules)
      else case load sn of Inl e \<Rightarrow> Inl e
      | Inr df \<Rightarrow>
          (let (compiled, failures) = plan_rules ho sk (df_columns df) (structured_columns sn) rules ([], [])
           in if compiled = [] then
                Inr (map (\<lambda>r. dict_get failures (q_rule_id r) (failed_output (q_rule_id r) None)) rules)
              else if any_of (\<lambda>(i, cr). any_of (cr_raises cr) (df_rows df)) compiled then Inl ''SparkException''
              else Inr (map (\<lambda>r. case map_of failures (q_rule_id r) of
                       Some out \<Rightarrow> out
                     | None \<Rightarrow> (case map_of compiled (q_rule_id r) of
                           Some cr \<Rightarrow> measured_output sk evidence_fails (nat sample_limit) (sn_total_rows sn) cr (df_rows df) (q_rule_id r)
                         | None \<Rightarrow> failed_output (q_rule_id r) None)) rules)))"

subsection \<open>Outliers\<close>

text \<open>
  Quartiles come from Spark's approximate percentile, an argument here; values and quartiles are taken to
  be finite, which makes the Python arithmetic on them the arithmetic of \<open>PyFloat\<close>.
\<close>

definition MIN_OUTLIER_SAMPLE :: nat where "MIN_OUTLIER_SAMPLE = 4"

definition no_outliers :: "ident \<Rightarrow> int \<Rightarrow> outlier_execution_output" where
  "no_outliers column n = \<lparr>oo_column_name = column, oo_total_evaluated = n, oo_iqr = 0, oo_outlier_count = 0, oo_outlier_samples = []\<rparr>"

definition number_of :: "spark \<Rightarrow> ustr \<Rightarrow> row \<Rightarrow> dval option" where
  "number_of sk c r = Option.bind (r c) (sk_double sk)"

definition is_outlier :: "pyfloat \<Rightarrow> pyfloat \<Rightarrow> pyfloat \<Rightarrow> dval \<Rightarrow> bool" where
  "is_outlier q1 q3 k x =
     (let iqr = fsub q3 q1
      in x < SNum (fsub q1 (fmul k iqr)) \<or> SNum (fadd q3 (fmul k iqr)) < x)"

definition detect_outliers :: "spark \<Rightarrow> (dval list \<Rightarrow> pyfloat \<times> pyfloat) \<Rightarrow> (dataset_snapshot \<Rightarrow> string + dataset)
    \<Rightarrow> dataset_snapshot \<Rightarrow> ident \<Rightarrow> pyfloat \<Rightarrow> int \<Rightarrow> string + outlier_execution_output" where
  "detect_outliers sk quartiles load sn column k sample_limit =
     (if sn_total_rows sn = 0 then Inr (no_outliers column 0)
      else case load sn of Inl e \<Rightarrow> Inl e
      | Inr df \<Rightarrow>
          if column \<notin> set (df_columns df) then Inr (no_outliers column 0)
          else
            (let valid = filter (\<lambda>r. number_of sk column r \<noteq> None) (df_rows df);
                 nums = map (\<lambda>r. the (number_of sk column r)) valid
             in if length valid < MIN_OUTLIER_SAMPLE then Inr (no_outliers column (int (length valid)))
                else
                  (let (q1, q3) = quartiles nums;
                       out = filter (\<lambda>r. is_outlier q1 q3 k (the (number_of sk column r))) valid;
                       samples = (if out \<noteq> [] \<and> 0 < sample_limit
                                  then map (evidence_row sk [column]) (take (nat sample_limit) out) else [])
                   in Inr \<lparr>oo_column_name = column, oo_total_evaluated = int (length valid), oo_iqr = fsub q3 q1,
                          oo_outlier_count = int (length out), oo_outlier_samples = samples\<rparr>)))"

subsection \<open>Profiling\<close>

record canonical_metric =
  cm_name :: ident
  cm_column :: ident
  cm_value :: int

definition metric :: "string \<Rightarrow> ident \<Rightarrow> int \<Rightarrow> canonical_metric" where
  "metric n c v = \<lparr>cm_name = u n, cm_column = c, cm_value = v\<rparr>"

definition profile_column :: "spark \<Rightarrow> (ustr option list \<Rightarrow> int) \<Rightarrow> dataset \<Rightarrow> ident \<Rightarrow> canonical_metric list" where
  "profile_column sk approx_distinct df c =
     [metric ''row_count'' c (int (length (df_rows df))),
      metric ''null_count'' c (int (length (filter (\<lambda>r. is_true (is_missing sk c r)) (df_rows df)))),
      metric ''distinct_count'' c (approx_distinct (map (\<lambda>r. r c) (df_rows df)))]"

definition profile_snapshot :: "spark \<Rightarrow> (ustr option list \<Rightarrow> int) \<Rightarrow> (dataset_snapshot \<Rightarrow> string + dataset)
    \<Rightarrow> dataset_snapshot \<Rightarrow> ident list \<Rightarrow> string + canonical_metric list" where
  "profile_snapshot sk approx_distinct load sn columns =
     (if sn_total_rows sn = 0 then Inr (map (\<lambda>c. metric ''row_count'' c 0) columns)
      else case load sn of Inl e \<Rightarrow> Inl e
      | Inr df \<Rightarrow> Inr (concat (map (profile_column sk approx_distinct df) (filter (\<lambda>c. c \<in> set (df_columns df)) columns))))"

subsection \<open>The in-memory engine\<close>

record mem_compute =
  mc_rule_outputs :: "(uuid \<times> rule_execution_output) list"
  mc_outliers :: "(ident \<times> outlier_execution_output) list"
  mc_metrics :: "canonical_metric list"
  mc_registered :: "(uuid \<times> ident) list"

definition mc_empty :: mem_compute where
  "mc_empty = \<lparr>mc_rule_outputs = [], mc_outliers = [], mc_metrics = [], mc_registered = []\<rparr>"

definition mc_register :: "(dataset_snapshot \<Rightarrow> ident) \<Rightarrow> dataset_snapshot \<Rightarrow> mem_compute \<Rightarrow> mem_compute" where
  "mc_register identity sn m = m\<lparr>mc_registered := AList.update (sn_snapshot_id sn) (identity sn) (mc_registered m)\<rparr>"

definition mc_verify :: "(dataset_snapshot \<Rightarrow> ident) \<Rightarrow> dataset_snapshot \<Rightarrow> mem_compute \<Rightarrow> string option" where
  "mc_verify identity sn m =
     (if sn_source_kind sn \<noteq> u ''OBJECT_FILE'' then Some ''LEGACY_SOURCE_UNSUPPORTED''
      else case map_of (mc_registered m) (sn_snapshot_id sn) of
        None \<Rightarrow> Some ''RESOURCE_NOT_FOUND''
      | Some h \<Rightarrow> if identity sn \<noteq> h then Some ''OBJECT_CHANGED'' else None)"

definition mc_release :: "dataset_snapshot \<Rightarrow> mem_compute \<Rightarrow> mem_compute" where
  "mc_release sn m = m\<lparr>mc_registered := AList.delete (sn_snapshot_id sn) (mc_registered m)\<rparr>"

definition mc_set_rule_output :: "uuid \<Rightarrow> rule_execution_output \<Rightarrow> mem_compute \<Rightarrow> mem_compute" where
  "mc_set_rule_output i out m = m\<lparr>mc_rule_outputs := AList.update i out (mc_rule_outputs m)\<rparr>"

definition mc_set_outlier_output :: "ident \<Rightarrow> outlier_execution_output \<Rightarrow> mem_compute \<Rightarrow> mem_compute" where
  "mc_set_outlier_output c out m = m\<lparr>mc_outliers := AList.update c out (mc_outliers m)\<rparr>"

definition mc_profile :: "dataset_snapshot \<Rightarrow> ident list \<Rightarrow> mem_compute \<Rightarrow> canonical_metric list" where
  "mc_profile sn columns m = (if mc_metrics m \<noteq> [] then mc_metrics m
     else map (\<lambda>c. metric ''row_count'' c (sn_total_rows sn)) columns)"

definition perfect_output :: "dataset_snapshot \<Rightarrow> uuid \<Rightarrow> rule_execution_output" where
  "perfect_output sn i = \<lparr>o_rule_id = i, o_counts = zero_counts\<lparr>passed := sn_total_rows sn, total_observed := sn_total_rows sn\<rparr>,
     o_status = MEASURED, o_evidence_samples = [], o_error_message = None\<rparr>"

definition mc_execute_rules :: "mem_compute \<Rightarrow> dataset_snapshot \<Rightarrow> quality_rule list \<Rightarrow> int \<Rightarrow> string + rule_execution_output list" where
  "mc_execute_rules m sn rules sample_limit =
     Inr (map (\<lambda>r. dict_get (mc_rule_outputs m) (q_rule_id r) (perfect_output sn (q_rule_id r))) rules)"

definition mc_detect_outliers :: "mem_compute \<Rightarrow> dataset_snapshot \<Rightarrow> ident \<Rightarrow> pyfloat \<Rightarrow> int \<Rightarrow> outlier_execution_output" where
  "mc_detect_outliers m sn c k sample_limit =
     dict_get (mc_outliers m) c ((no_outliers c (sn_total_rows sn))\<lparr>oo_iqr := 10\<rparr>)"

end
