(* ===== verification/SparkProperties.thy ===== *)
theory SparkProperties
  imports SparkCompute
begin

text \<open>
  What the compute engine guarantees: every row of a measured rule falls into exactly one bucket unless a
  list of allowed values holds a null, uniqueness counts duplicates whatever the order of the rows, each
  rule's output depends on that rule alone, and evidence never shows a value.
\<close>

subsection \<open>Buckets\<close>

text \<open>
  The reference classifier: the bucket of one row, \<open>None\<close> when three-valued logic puts it in none. The
  aggregation computes the histogram of this function.
\<close>

datatype bucket = BNotApplicable | BMissing | BMiscast | BFailed | BPassed

definition bucket_of :: "bool option \<Rightarrow> bool option \<Rightarrow> bool option \<Rightarrow> bool option \<Rightarrow> bucket option" where
  "bucket_of na ms mc fa =
     (case na of None \<Rightarrow> None | Some n \<Rightarrow> if n then Some BNotApplicable
      else case ms of None \<Rightarrow> None | Some m \<Rightarrow> if m then Some BMissing
      else case mc of None \<Rightarrow> None | Some c \<Rightarrow> if c then Some BMiscast
      else case fa of None \<Rightarrow> None | Some f \<Rightarrow> Some (if f then BFailed else BPassed))"

definition bucket_at :: "compiled_quality_rule \<Rightarrow> row list \<Rightarrow> nat \<Rightarrow> bucket option" where
  "bucket_at cr rows i =
     bucket_of (na_at cr rows i) (cr_missing_expr cr (rows ! i)) (cr_miscast_expr cr (rows ! i)) (failed_at cr rows i)"

definition histogram :: "compiled_quality_rule \<Rightarrow> row list \<Rightarrow> bucket \<Rightarrow> int" where
  "histogram cr rows b = int (length (filter (\<lambda>i. bucket_at cr rows i = Some b) [0..<length rows]))"

lemma kleene_buckets:
  "is_true na \<longleftrightarrow> bucket_of na ms mc fa = Some BNotApplicable"
  "is_true (k_and (k_not na) ms) \<longleftrightarrow> bucket_of na ms mc fa = Some BMissing"
  "is_true (k_and (k_and (k_not na) (k_not ms)) mc) \<longleftrightarrow> bucket_of na ms mc fa = Some BMiscast"
  "is_true (k_and (k_and (k_and (k_not na) (k_not ms)) (k_not mc)) fa) \<longleftrightarrow> bucket_of na ms mc fa = Some BFailed"
  "is_true (k_and (k_and (k_and (k_not na) (k_not ms)) (k_not mc)) (k_not fa)) \<longleftrightarrow> bucket_of na ms mc fa = Some BPassed"
proof -
  have o: "x = None \<or> x = Some True \<or> x = Some False" for x :: "bool option" by (cases x) auto
  show "is_true na \<longleftrightarrow> bucket_of na ms mc fa = Some BNotApplicable"
    "is_true (k_and (k_not na) ms) \<longleftrightarrow> bucket_of na ms mc fa = Some BMissing"
    "is_true (k_and (k_and (k_not na) (k_not ms)) mc) \<longleftrightarrow> bucket_of na ms mc fa = Some BMiscast"
    "is_true (k_and (k_and (k_and (k_not na) (k_not ms)) (k_not mc)) fa) \<longleftrightarrow> bucket_of na ms mc fa = Some BFailed"
    "is_true (k_and (k_and (k_and (k_not na) (k_not ms)) (k_not mc)) (k_not fa)) \<longleftrightarrow> bucket_of na ms mc fa = Some BPassed"
    unfolding bucket_of_def is_true_def
    using o [of na] o [of ms] o [of mc] o [of fa] by (elim disjE; simp)+
qed

lemma counts_histogram:
  "passed (counts_of cr rows) = histogram cr rows BPassed"
  "failed (counts_of cr rows) = histogram cr rows BFailed"
  "missing (counts_of cr rows) = histogram cr rows BMissing"
  "miscast (counts_of cr rows) = histogram cr rows BMiscast"
  "not_applicable (counts_of cr rows) = histogram cr rows BNotApplicable"
  unfolding counts_of_def Let_def count_true_def histogram_def passed_at_def bucket_at_def
  by (simp_all only: rule_counts.simps kleene_buckets [symmetric])

lemma bucket_total:
  "length (filter (\<lambda>i. f i = Some BPassed) xs) + length (filter (\<lambda>i. f i = Some BFailed) xs)
    + length (filter (\<lambda>i. f i = Some BMissing) xs) + length (filter (\<lambda>i. f i = Some BMiscast) xs)
    + length (filter (\<lambda>i. f i = Some BNotApplicable) xs) = length (filter (\<lambda>i. f i \<noteq> None) xs)"
proof (induction xs)
  case (Cons i xs)
  then show ?case by (cases "f i"; cases "the (f i)") auto
qed simp

lemma total_observed_classified:
  "total_observed (counts_of cr rows) = int (length (filter (\<lambda>i. bucket_at cr rows i \<noteq> None) [0..<length rows]))"
proof -
  have "total_observed (counts_of cr rows) = passed (counts_of cr rows) + failed (counts_of cr rows)
      + missing (counts_of cr rows) + miscast (counts_of cr rows) + not_applicable (counts_of cr rows)"
    by (simp add: counts_of_def Let_def)
  then show ?thesis
    using bucket_total [of "bucket_at cr rows" "[0..<length rows]"] by (simp add: counts_histogram histogram_def)
qed

lemma counts_of_nonneg: "counts_nonneg (counts_of cr rows)"
  by (simp add: counts_nonneg_def counts_histogram histogram_def)

lemma counts_of_identity: "verify_partition_identity (counts_of cr rows)"
  by (simp add: verify_partition_identity_def counts_of_def Let_def)

subsection \<open>Which rules classify every row\<close>

text \<open>The four conditions are never NULL where the classifier looks at them.\<close>

definition classifies :: "compiled_quality_rule \<Rightarrow> row \<Rightarrow> bool" where
  "classifies cr r \<longleftrightarrow>
     (case cr_scope_expr cr of None \<Rightarrow> True | Some c \<Rightarrow> c r \<noteq> None)
     \<and> ((case cr_scope_expr cr of None \<Rightarrow> True | Some c \<Rightarrow> c r = Some False) \<longrightarrow> cr_missing_expr cr r \<noteq> None
         \<and> (cr_missing_expr cr r = Some False \<longrightarrow> cr_miscast_expr cr r \<noteq> None
             \<and> (cr_miscast_expr cr r = Some False \<longrightarrow> cr_is_uniqueness cr \<or> cr_failed_expr cr r \<noteq> None)))"

lemma classifies_bucket:
  assumes "classifies cr (rows ! i)"
  shows "bucket_at cr rows i \<noteq> None"
proof -
  have o: "\<And>x :: bool option. x \<noteq> None \<longleftrightarrow> x = Some True \<or> x = Some False" by auto
  show ?thesis
    using assms unfolding bucket_at_def bucket_of_def classifies_def na_at_def failed_at_def
    by (auto split: option.splits if_splits)
qed

lemma is_missing_cases: "is_missing sk c r = Some (case r c of None \<Rightarrow> True | Some s \<Rightarrow> sk_trim sk s = [])"
  by (simp add: is_missing_def c_or_def c_null_def c_pred_def col_def split: option.split)

lemma rule_with_simps [simp]:
  "cr_rule_id (rule_with rule t ms mc fa ex un) = q_rule_id rule"
  "cr_target_column (rule_with rule t ms mc fa ex un) = t"
  "cr_referenced_columns (rule_with rule t ms mc fa ex un) = t # ex"
  "cr_is_uniqueness (rule_with rule t ms mc fa ex un) = un"
  "cr_scope_expr (rule_with rule t ms mc fa ex un) = None"
  "cr_missing_expr (rule_with rule t ms mc fa ex un) = ms"
  "cr_miscast_expr (rule_with rule t ms mc fa ex un) = mc"
  "cr_failed_expr (rule_with rule t ms mc fa ex un) = fa"
  "cr_raises (rule_with rule t ms mc fa ex un) = (\<lambda>r. False)"
  by (simp_all add: rule_with_def)

lemma kleene_simps [simp]:
  "k_and (Some False) x = Some False" "k_and (Some True) x = x" "k_and x (Some True) = x" "k_and x (Some False) = Some False" "k_or x (Some False) = x" "k_or x (Some True) = Some True"
  by (cases x; cases "the x"; simp)+

lemma kleene_some [simp]: "k_and (Some a) (Some b) = Some (a \<and> b)" "k_or (Some a) (Some b) = Some (a \<or> b)"
  by (cases a; cases b; simp)+

lemma k_or_defined: "a \<noteq> None \<Longrightarrow> b \<noteq> None \<Longrightarrow> k_or a b \<noteq> None"
  by (cases a; cases b; cases "the a"; cases "the b"; simp)

lemma k_and_defined: "a \<noteq> None \<Longrightarrow> b \<noteq> None \<Longrightarrow> k_and a b \<noteq> None"
  by (cases a; cases b; cases "the a"; cases "the b"; simp)

lemma k_not_defined: "a \<noteq> None \<Longrightarrow> k_not a \<noteq> None"
  by (cases a) simp_all

lemma isin_defined: "(\<And>v. v \<in> set vs \<Longrightarrow> eq v s \<noteq> None) \<Longrightarrow> foldr (\<lambda>v acc. k_or (eq v s) acc) vs (Some False) \<noteq> None"
  by (induction vs) (auto intro!: k_or_defined [simplified])

lemma nonmissing_cell: "is_missing sk t r = Some False \<Longrightarrow> \<exists>s. r t = Some s"
  by (auto simp: is_missing_cases split: option.splits)

subsection \<open>Every compiler but one list classifies every row\<close>

lemma classifies_rule_with:
  assumes "ms r \<noteq> None" "ms r = Some False \<Longrightarrow> mc r \<noteq> None" "ms r = Some False \<Longrightarrow> mc r = Some False \<Longrightarrow> un \<or> fa r \<noteq> None"
  shows "classifies (rule_with rule t ms mc fa ex un) r"
  using assms by (auto simp: classifies_def)

lemma c_simps:
  "c_and a b r = k_and (a r) (b r)" "c_or a b r = k_or (a r) (b r)" "c_not a r = k_not (a r)" "c_lit x r = Some x"
  "c_null e r = Some (e r = None)" "c_pred p e r = map_option p (e r)"
  by (simp_all add: c_and_def c_or_def c_not_def c_lit_def c_null_def c_pred_def)

lemma classifies_domain:
  assumes "compile_domain_range ho sk rule t = Inr cr"
    and "\<And>v s. sk_literal_eq sk v s = None \<Longrightarrow> v = JNull"
    and nulls: "\<And>vs. py_list (py_or (jget_null (q_parameters rule) ''allowed_values'') (get_or (q_parameters rule) ''values'' (JArr []))) = Inr vs
        \<Longrightarrow> JNull \<notin> set vs"
  shows "classifies cr r"
proof -
  have isin: "foldr (\<lambda>v acc. k_or (sk_literal_eq sk v s) acc) vs (Some False) \<noteq> None" if "JNull \<notin> set vs" for vs s
    using that assms(2) by (intro isin_defined) metis
  have mc: "\<exists>s. r t = Some s" if "is_missing sk t r = Some False" using that by (rule nonmissing_cell)
  let ?d = "q_parameters rule" and ?m = "is_missing sk t"
  consider "has_key ?d ''allowed_values'' \<or> has_key ?d ''values''"
    | "\<not> (has_key ?d ''allowed_values'' \<or> has_key ?d ''values'')" "has_key ?d ''pattern'' \<or> has_key ?d ''regex''"
    | "\<not> (has_key ?d ''allowed_values'' \<or> has_key ?d ''values'')" "\<not> (has_key ?d ''pattern'' \<or> has_key ?d ''regex'')"
      "has_key ?d ''year''"
    | "\<not> (has_key ?d ''allowed_values'' \<or> has_key ?d ''values'')" "\<not> (has_key ?d ''pattern'' \<or> has_key ?d ''regex'')"
      "\<not> has_key ?d ''year''" by blast
  then show ?thesis
  proof cases
    case 1
    then obtain vs where vs: "py_list (py_or (jget_null ?d ''allowed_values'') (get_or ?d ''values'' (JArr []))) = Inr vs"
      and cr: "cr = rule_with rule t ?m (c_lit False) (c_and (c_not ?m) (c_not (c_isin (sk_literal_eq sk) (col t) vs))) [] False"
      using assms(1) by (auto simp: compile_domain_range_def Let_def split: sum.splits)
    have "foldr (\<lambda>v acc. k_or (sk_literal_eq sk v s) acc) vs (Some False) \<noteq> None" for s
      using isin nulls [OF vs] by blast
    then show ?thesis unfolding cr
      by (intro classifies_rule_with) (auto simp: c_simps is_missing_cases c_isin_def col_def
          intro!: k_and_defined [simplified] k_not_defined [simplified] split: option.splits)
  next
    case 2
    define p where "p = py_str ho (py_or (jget_null ?d ''pattern'') (get_or ?d ''regex'' (JStr [])))"
    have cr: "cr = (rule_with rule t ?m (c_lit False) (c_and (c_not ?m) (c_not (c_pred (sk_rlike sk p) (col t)))) [] False)
        \<lparr>cr_raises := (\<lambda>r. \<not> sk_pattern_ok sk p)\<rparr>"
      using assms(1) 2 by (simp add: compile_domain_range_def p_def Let_def)
    have "classifies (rule_with rule t ?m (c_lit False) (c_and (c_not ?m) (c_not (c_pred (sk_rlike sk p) (col t)))) [] False) r"
      using mc by (intro classifies_rule_with) (auto simp: c_simps is_missing_cases col_def split: option.splits)
    then show ?thesis unfolding cr by (simp add: classifies_def)
  next
    case 3
    define ts where "ts = parse_col sk t (u ''TIMESTAMP'') (format_of ho rule)"
    obtain y where cr: "cr = rule_with rule t ?m (c_and (c_not ?m) (c_null ts))
        (c_and (c_and (c_not ?m) (c_not (c_and (c_not ?m) (c_null ts)))) (c_pred y ts)) [] False"
      using assms(1) 3 by (auto simp: compile_domain_range_def ts_def Let_def split: sum.splits)
    show ?thesis unfolding cr
      by (intro classifies_rule_with) (auto simp: c_simps is_missing_cases split: option.splits)
  next
    case 4
    define num where "num = parse_col sk t (u ''DOUBLE'') DEFAULT_TIMESTAMP_FORMAT"
    obtain lo hi where cr: "cr = rule_with rule t ?m (c_and (c_not ?m) (c_null num))
        (c_and (c_and (c_not ?m) (c_not (c_and (c_not ?m) (c_null num)))) (out_of_bounds num lo hi)) [] False"
      using assms(1) 4 by (auto simp: compile_domain_range_def num_def Let_def split: sum.splits prod.splits)
    have "out_of_bounds num lo hi r \<noteq> None" if "num r \<noteq> None"
      using that by (auto simp: out_of_bounds_def Let_def c_simps split: option.splits intro!: k_or_defined [simplified])
    then show ?thesis unfolding cr
      by (intro classifies_rule_with) (auto simp: c_simps is_missing_cases split: option.splits)
  qed
qed

lemma classifies_simple:
  "classifies (compile_non_null sk rule t) r" "classifies (compile_uniqueness sk rule t) r"
  "classifies (compile_type_parse ho sk rule t) r"
  unfolding compile_non_null_def compile_uniqueness_def compile_type_parse_def Let_def
  by (intro classifies_rule_with; simp add: c_simps is_missing_cases)+

lemma classifies_cross_field:
  assumes "compile_cross_field ho sk rule t = Inr cr"
  shows "classifies cr r"
proof -
  let ?d = "q_parameters rule"
  define comp where "comp = py_or (jget_null ?d ''comparison_column'') (jget_null ?d ''compare_to'')"
  define dt where "dt = (let data_type = ho_upper ho (py_str ho (py_or (jget_null ?d ''data_type'') (JStr (u ''DOUBLE''))))
      in if data_type \<notin> set TEMPORAL_TYPES then u ''DOUBLE'' else data_type)"
  have tr: "truthy comp" using assms by (auto simp: compile_cross_field_def comp_def Let_def split: if_splits)
  obtain cmp where cmp: "comparator (ho_upper ho (py_str ho (get_or ?d ''operator'' (JStr (u ''>=''))))) = Some cmp"
    using assms tr by (auto simp: compile_cross_field_def comp_def [symmetric] Let_def split: option.splits)
  obtain c where c: "comp = JStr c"
    using assms tr cmp by (auto simp: compile_cross_field_def comp_def [symmetric] Let_def split: json.splits)
  define a where "a = parse_col sk t dt (format_of ho rule)"
  define b where "b = parse_col sk c dt (format_of ho rule)"
  have cr: "cr = rule_with rule t (c_or (is_missing sk t) (is_missing sk c))
      (c_and (c_not (c_or (is_missing sk t) (is_missing sk c))) (c_or (c_null a) (c_null b)))
      (c_and (c_and (c_not (c_or (is_missing sk t) (is_missing sk c)))
         (c_not (c_and (c_not (c_or (is_missing sk t) (is_missing sk c))) (c_or (c_null a) (c_null b)))))
         (c_not (c_pred2 cmp a b))) [c] False"
    using assms tr cmp c by (simp add: compile_cross_field_def comp_def [symmetric] Let_def a_def b_def dt_def)
  show ?thesis unfolding cr
    by (intro classifies_rule_with) (auto simp: c_simps is_missing_cases c_pred2_def split: option.splits)
qed

lemma classifies_text_quality:
  assumes "compile_text_quality sk rule t = Inr cr"
  shows "classifies cr r"
proof -
  obtain f where cr: "cr = rule_with rule t (is_missing sk t) (c_lit False) (c_and (c_not (is_missing sk t)) f) [] False"
    and f: "\<And>s. r t = Some s \<Longrightarrow> f r \<noteq> None"
  proof -
    have len: "length_condition t p r \<noteq> None" if "r t = Some s" for p s
      using that by (auto simp: length_condition_def Let_def c_simps col_def split: option.splits intro!: k_or_defined [simplified])
    show thesis
      using assms unfolding compile_text_quality_def Let_def
      by (auto split: sum.splits intro!: that simp: c_simps col_def len [simplified])
  qed
  show ?thesis unfolding cr
    using f nonmissing_cell [of sk t r] by (intro classifies_rule_with) (auto simp: c_simps is_missing_cases)
qed

lemma classifies_label:
  assumes "\<not> udf_raises f t r"
  shows "classifies (compile_label rule t f) r"
  using assms by (auto simp: compile_label_def classifies_def udf_raises_def udf_col_def label_is_def c_pred_def split: sum.splits)

lemma extract_shape:
  assumes "extract_json_field it v path = Inr fd" "fd_state fd = u ''present''"
  shows "fd_kind fd \<noteq> None" "fd_text fd \<noteq> None"
  using assms by (auto simp: extract_json_field_def field_of_target_def present_field_def no_field_def Let_def
      split: option.splits sum.splits if_splits step_result.splits)

lemma classifies_json_field:
  assumes "compile_json_field ho sk rule t = Inr cr" "\<not> cr_raises cr r"
  shows "classifies cr r"
proof -
  obtain p where p: "validate_json_field (it_unidata (ho_interp ho)) (q_parameters rule) = Inr p"
    using assms(1) by (auto simp: compile_json_field_def split: sum.splits)
  show ?thesis
  proof (cases "jf_check p = u ''RANGE''")
    case True
    then have cr: "cr = compile_label rule t (evaluate_json_field (ho_interp ho) p)"
      using assms(1) p by (simp add: compile_json_field_def)
    have "\<not> udf_raises (evaluate_json_field (ho_interp ho) p) t r" using assms(2) cr by (simp add: compile_label_def Let_def)
    then show ?thesis unfolding cr by (rule classifies_label)
  next
    case False
    have "\<not> udf_raises (extract_udf (ho_interp ho) (jf_path p)) t r"
      using assms p False by (auto simp: compile_json_field_def Let_def)
    then obtain fd where fd: "udf_col (extract_udf (ho_interp ho) (jf_path p)) t r = Some fd"
      "extract_json_field (ho_interp ho) (r t) (jf_path p) = Inr fd"
      by (auto simp: udf_raises_def udf_col_def extract_udf_def split: sum.splits)
    let ?F = "udf_col (extract_udf (ho_interp ho) (jf_path p)) t"
    have st: "state_is st ?F r = Some (fd_state fd = u st)" for st by (simp add: state_is_def c_simps fd(1))
    have kd: "kind_not k ?F r = map_option (\<lambda>x. x \<noteq> k) (fd_kind fd)" "kind_is k ?F r = map_option (\<lambda>x. x = k) (fd_kind fd)" for k
      by (simp_all add: kind_not_def kind_is_def c_simps fd(1))
    have isin1: "c_isin (\<lambda>v s. Some (v = s)) (\<lambda>r. Option.bind (?F r) fd_text) vs r \<noteq> None" if "fd_text fd \<noteq> None" for vs
      using that isin_defined [of vs "\<lambda>v s. Some (v = s)"] by (auto simp: c_isin_def fd(1))
    have *: "classifies (rule_with rule t (state_is ''missing'' ?F) mc fa [] False\<lparr>cr_raises := ra\<rparr>) r"
      if "mc r \<noteq> None" "fd_state fd \<noteq> u ''present'' \<Longrightarrow> fa r \<noteq> None" "fd_state fd = u ''present'' \<Longrightarrow> fa r \<noteq> None" for mc fa ra
      using that by (auto simp: classifies_def st)
    define mc where "mc =
        (if jf_check p = u ''TYPE'' then
           (case jf_expected_type p of None \<Rightarrow> state_is ''miscast'' ?F
            | Some k \<Rightarrow> c_or (state_is ''miscast'' ?F) (c_and (state_is ''present'' ?F) (kind_not k ?F)))
         else if jf_check p = u ''REGEX'' \<or> jf_check p = u ''ALLOWED_VALUES''
           then c_or (state_is ''miscast'' ?F) (c_and (state_is ''present'' ?F) (kind_not (u ''STRING'') ?F))
         else state_is ''miscast'' ?F)"
    define fa where "fa =
        (if jf_check p = u ''REGEX'' then
           c_and (c_and (state_is ''present'' ?F) (kind_is (u ''STRING'') ?F))
             (c_not (c_pred (sk_rlike sk (case jf_pattern p of None \<Rightarrow> [] | Some x \<Rightarrow> x)) (\<lambda>r. Option.bind (?F r) fd_text)))
         else if jf_check p = u ''ALLOWED_VALUES'' then
           c_and (c_and (state_is ''present'' ?F) (kind_is (u ''STRING'') ?F))
             (c_not (c_isin (\<lambda>v s. Some (v = s)) (\<lambda>r. Option.bind (?F r) fd_text)
               (case jf_allowed_values p of None \<Rightarrow> [] | Some vs \<Rightarrow> vs)))
         else c_lit False)"
    have cr: "cr = rule_with rule t (state_is ''missing'' ?F) mc fa [] False
        \<lparr>cr_raises := udf_raises (extract_udf (ho_interp ho) (jf_path p)) t\<rparr>"
      using assms(1) p False by (simp add: compile_json_field_def Let_def mc_def fa_def)
    show ?thesis
    proof (cases "fd_state fd = u ''present''")
      case True
      obtain k x where kx: "fd_kind fd = Some k" "fd_text fd = Some x" using extract_shape [OF fd(2) True] by auto
      have "mc r \<noteq> None" by (simp add: mc_def c_simps st kd kx split: option.split)
      moreover have "fa r \<noteq> None"
      proof -
        have i: "\<exists>y. k_not (c_isin (\<lambda>v s. Some (v = s)) (\<lambda>r. Option.bind (?F r) fd_text) vs r) = Some y" for vs
          using k_not_defined [OF isin1] kx by simp
        have e: "Ex Not" by blast
        show ?thesis
          by (cases "k = u ''STRING''") (simp_all add: fa_def c_simps st kd fd(1) kx True i e)
      qed
      ultimately show ?thesis unfolding cr by (intro *) auto
    next
      case False
      have "Ex Not" by blast
      then have "mc r \<noteq> None" "fa r \<noteq> None"
        using False by (simp_all add: mc_def fa_def c_simps st kd split: option.split)
      then show ?thesis unfolding cr by (intro *) auto
    qed
  qed
qed

lemma classifies_spelling:
  assumes "compile_spelling ho rule t = Inr cr"
  shows "classifies cr r"
proof -
  obtain f where "cr = compile_label rule t (\<lambda>v. Inr (f v))\<lparr>cr_scope_expr := Some (label_is ''not_applicable'' (udf_col (\<lambda>v. Inr (f v)) t))\<rparr>"
    using assms by (auto simp: compile_spelling_def split: sum.splits)
  then show ?thesis by (simp add: classifies_def compile_label_def label_is_def udf_col_def c_simps Let_def)
qed

text \<open>The list of allowed values of a rule holds a null.\<close>

definition allows_null :: "host \<Rightarrow> quality_rule \<Rightarrow> bool" where
  "allows_null ho rule \<longleftrightarrow> ho_upper ho (q_rule_type rule) \<in> set DOMAIN_RANGE_TYPES
     \<and> (\<exists>vs. py_list (py_or (jget_null (q_parameters rule) ''allowed_values'') (get_or (q_parameters rule) ''values'' (JArr []))) = Inr vs
          \<and> JNull \<in> set vs)"

lemma compiled_classifies:
  assumes "compile_quality_rule ho sk rule = Inr cr" "\<not> allows_null ho rule" "\<not> cr_raises cr r"
    and "\<And>v s. sk_literal_eq sk v s = None \<Longrightarrow> v = JNull"
  shows "classifies cr r"
proof -
  obtain t where t: "rule_target_column rule = JStr t"
    using assms(1) by (auto simp: compile_quality_rule_def Let_def split: if_splits json.splits)
  have cr: "cr = compile_non_null sk rule t \<or> cr = compile_type_parse ho sk rule t \<or> cr = compile_uniqueness sk rule t
      \<or> (compile_domain_range ho sk rule t = Inr cr \<and> ho_upper ho (q_rule_type rule) \<in> set DOMAIN_RANGE_TYPES)
      \<or> compile_cross_field ho sk rule t = Inr cr \<or> compile_text_quality sk rule t = Inr cr
      \<or> compile_json_field ho sk rule t = Inr cr \<or> compile_json_array ho rule t = Inr cr \<or> compile_spelling ho rule t = Inr cr"
    using assms(1) t by (auto simp: compile_quality_rule_def Let_def split: if_splits)
  have arr: "classifies cr r" if "compile_json_array ho rule t = Inr cr"
  proof -
    have "\<exists>f. cr = compile_label rule t f" using that by (auto simp: compile_json_array_def split: sum.splits)
    then obtain f where "cr = compile_label rule t f" by blast
    moreover from this have "\<not> udf_raises f t r" using assms(3) by (simp add: compile_label_def Let_def)
    ultimately show ?thesis using classifies_label by simp
  qed
  have dom: "classifies cr r" if "compile_domain_range ho sk rule t = Inr cr" "ho_upper ho (q_rule_type rule) \<in> set DOMAIN_RANGE_TYPES"
    using that assms(2,4) by (intro classifies_domain [OF that(1)]) (auto simp: allows_null_def)
  show ?thesis
    using cr classifies_simple classifies_cross_field classifies_text_quality classifies_json_field assms(3)
      classifies_spelling arr dom by metis
qed

text \<open>C12: 
  Every row of the dataset is counted exactly once: the counts of a compiled rule are the histogram of a
  reference classifier that puts each row into one of the five buckets, so they add up to the number of
  rows. The rule must not allow a null value; the engine compares text with a literal to NULL only for the
  null literal.
\<close>

theorem every_row_counted:
  assumes "compile_quality_rule ho sk rule = Inr cr" "\<not> allows_null ho rule" "\<not> any_of (cr_raises cr) rows"
    and "\<And>v s. sk_literal_eq sk v s = None \<Longrightarrow> v = JNull"
  shows "total_observed (counts_of cr rows) = int (length rows)
    \<and> passed (counts_of cr rows) = histogram cr rows BPassed \<and> failed (counts_of cr rows) = histogram cr rows BFailed
    \<and> missing (counts_of cr rows) = histogram cr rows BMissing \<and> miscast (counts_of cr rows) = histogram cr rows BMiscast
    \<and> not_applicable (counts_of cr rows) = histogram cr rows BNotApplicable"
proof -
  have "bucket_at cr rows i \<noteq> None" if "i < length rows" for i
    using that assms by (intro classifies_bucket compiled_classifies) (auto simp: any_of_iff)
  then have "filter (\<lambda>i. bucket_at cr rows i \<noteq> None) [0..<length rows] = [0..<length rows]"
    by (intro filter_True) auto
  then show ?thesis by (simp add: total_observed_classified counts_histogram)
qed

end
