(* ===== verification/SparkGuarantees.thy ===== *)
theory SparkGuarantees
  imports SparkProperties
begin

text \<open>
  Guarantees of the compute engine that rest on the counting lemmas: uniqueness, the null in a list of
  allowed values, the independence of rules, evidence without values, and the text checks.
\<close>

subsection \<open>Examples for the witnesses\<close>

definition demo_spark :: spark where
  "demo_spark = \<lparr>sk_trim = strip_by (\<lambda>c. c = 32), sk_double = (\<lambda>s. None), sk_bigint = (\<lambda>s. None),
     sk_timestamp = (\<lambda>f s. None), sk_year = (\<lambda>t. 0), sk_pattern_ok = (\<lambda>p. True), sk_rlike = (\<lambda>p s. False),
     sk_literal_eq = (\<lambda>v s. case v of JNull \<Rightarrow> None | JStr a \<Rightarrow> Some (s = a) | _ \<Rightarrow> Some False)\<rparr>"

definition demo_host :: host where
  "demo_host = \<lparr>ho_interp = \<lparr>it_recursion = 1000, it_unidata = \<lparr>ud_decimal = (\<lambda>c. None), ud_isdigit = (\<lambda>c. False),
       ud_alnum = (\<lambda>c. False), ud_lower = (\<lambda>c. [c]), ud_upper = (\<lambda>c. [c])\<rparr>, it_float_text = (\<lambda>x. [])\<rparr>,
     ho_repr = (\<lambda>v. []), ho_float_of_text = (\<lambda>s. None), ho_spelling = (\<lambda>p. Inl '''')\<rparr>"

definition spark_rule :: "nat \<Rightarrow> string \<Rightarrow> jdict \<Rightarrow> quality_rule" where
  "spark_rule i kind params = \<lparr>q_rule_id = i, q_rule_code = [], q_dimension = u ''VALIDITY'', q_rule_type = u kind,
     q_parameters = params, q_null_policy = u ''fail'', q_is_required = False, q_is_critical = False, q_gate_enabled = True,
     q_score_enabled = True, q_conflict_group = None, q_is_primary_scoring_rule = True, q_contribution_weight = 1,
     q_acceptance_threshold = None, q_is_advisory = False, q_ruleset_id = None\<rparr>"

definition demo_rows :: "row list" where
  "demo_rows = [(\<lambda>c. Some (u ''a'')), (\<lambda>c. Some (u ''b'')), (\<lambda>c. None)]"

lemma upper_literals:
  "py_upper uc (u ''NON_NULL'') = u ''NON_NULL''" "py_upper uc (u ''DOMAIN_RANGE'') = u ''DOMAIN_RANGE''"
  by (simp_all add: py_upper_def upper_cp_def u_simps)

lemma every_row_counted_witness:
  "total_observed (counts_of (compile_non_null demo_spark (spark_rule 1 ''NON_NULL'' [(u ''column'', JStr (u ''c''))]) (u ''c'')) demo_rows) = 3"
proof -
  let ?r = "spark_rule 1 ''NON_NULL'' [(u ''column'', JStr (u ''c''))]"
  let ?cr = "compile_non_null demo_spark ?r (u ''c'')"
  have "compile_quality_rule demo_host demo_spark ?r = Inr ?cr"
    by (simp add: compile_quality_rule_def rule_target_column_def spark_rule_def upper_literals NON_NULL_TYPES_def py_or_def
        jget_null_def jget_def demo_host_def)
  moreover have "\<not> allows_null demo_host ?r"
    by (simp add: allows_null_def spark_rule_def upper_literals DOMAIN_RANGE_TYPES_def)
  moreover have "\<not> any_of (cr_raises ?cr) demo_rows" by (simp add: compile_non_null_def any_of_iff)
  moreover have "sk_literal_eq demo_spark v s = None \<Longrightarrow> v = JNull" for v s
    by (simp add: demo_spark_def split: json.splits)
  ultimately show ?thesis
    using every_row_counted [of demo_host demo_spark ?r ?cr demo_rows] by (simp add: demo_rows_def)
qed

subsection \<open>Uniqueness\<close>

lemma first_occurrences:
  "length (filter (\<lambda>i. P (xs ! i) \<and> xs ! i \<notin> set (take i xs)) [0..<length xs]) = card {x \<in> set xs. P x}"
proof (induction xs rule: rev_induct)
  case (snoc x xs)
  have "filter (\<lambda>i. P ((xs @ [x]) ! i) \<and> (xs @ [x]) ! i \<notin> set (take i (xs @ [x]))) [0..<length xs]
      = filter (\<lambda>i. P (xs ! i) \<and> xs ! i \<notin> set (take i xs)) [0..<length xs]"
    by (intro filter_cong) (auto simp: nth_append)
  moreover have "{y \<in> set (xs @ [x]). P y} = (if P x then insert x {y \<in> set xs. P y} else {y \<in> set xs. P y})" by auto
  ultimately show ?case using snoc by (auto simp: card_insert_if)
qed simp

lemma row_number_first:
  "1 < row_number c rows i \<longleftrightarrow> (rows ! i) c \<in> set (take i (map (\<lambda>r. r c) rows))"
proof -
  have "1 < row_number c rows i \<longleftrightarrow> (\<exists>r \<in> set (take i rows). r c = (rows ! i) c)"
    unfolding row_number_def by (simp add: filter_empty_conv)
  also have "\<dots> \<longleftrightarrow> (rows ! i) c \<in> (\<lambda>r. r c) ` set (take i rows)" by (auto intro: rev_image_eqI simp: eq_commute)
  finally show ?thesis by (simp add: take_map)
qed

definition nonmissing_cells :: "spark \<Rightarrow> ustr \<Rightarrow> row list \<Rightarrow> ustr option list" where
  "nonmissing_cells sk t rows = filter (\<lambda>v. case v of None \<Rightarrow> False | Some s \<Rightarrow> sk_trim sk s \<noteq> []) (map (\<lambda>r. r t) rows)"

text \<open>
  A uniqueness rule passes once for every distinct value and fails once for every repetition, in whatever
  order the engine enumerates the rows; missing cells count as missing.
\<close>

theorem uniqueness_counts:
  "let c = counts_of (compile_uniqueness sk rule t) rows; cells = nonmissing_cells sk t rows
   in passed c = int (card (set cells)) \<and> failed c = int (length cells) - int (card (set cells))
      \<and> missing c = int (length rows) - int (length cells) \<and> miscast c = 0 \<and> total_observed c = int (length rows)"
proof -
  define cr where "cr = compile_uniqueness sk rule t"
  define P where "P = (\<lambda>v. case v of None \<Rightarrow> False | Some s \<Rightarrow> sk_trim sk s \<noteq> [])"
  define xs where "xs = map (\<lambda>r. r t) rows"
  have m: "cr_missing_expr cr r = Some (\<not> P (r t))" for r
    by (simp add: cr_def compile_uniqueness_def is_missing_cases P_def split: option.split)
  have b: "bucket_at cr rows i = Some (if \<not> P (xs ! i) then BMissing else if xs ! i \<in> set (take i xs) then BFailed else BPassed)"
    if "i < length rows" for i
    using that m row_number_first [of t rows i]
    by (simp add: bucket_at_def bucket_of_def na_at_def failed_at_def cr_def compile_uniqueness_def c_simps xs_def)
  have h: "histogram cr rows bk = int (length (filter (\<lambda>i. (if \<not> P (xs ! i) then BMissing
      else if xs ! i \<in> set (take i xs) then BFailed else BPassed) = bk) [0..<length xs]))" for bk
    unfolding histogram_def using b by (intro arg_cong [where f = int] arg_cong [where f = length] filter_cong) (auto simp: xs_def)
  have cells: "nonmissing_cells sk t rows = filter P xs" by (simp add: nonmissing_cells_def P_def xs_def)
  have idx: "length (filter (\<lambda>i. Q (ys ! i)) [0..<length ys]) = length (filter Q ys)" for Q and ys :: "ustr option list"
  proof -
    have "filter Q (map ((!) ys) [0..<length ys]) = map ((!) ys) (filter (\<lambda>i. Q (ys ! i)) [0..<length ys])"
      by (simp add: filter_map comp_def)
    then show ?thesis unfolding map_nth by simp
  qed
  have pass: "histogram cr rows BPassed = int (card (set (filter P xs)))"
  proof -
    have "filter (\<lambda>i. (if \<not> P (xs ! i) then BMissing else if xs ! i \<in> set (take i xs) then BFailed else BPassed) = BPassed)
        [0..<length xs] = filter (\<lambda>i. P (xs ! i) \<and> xs ! i \<notin> set (take i xs)) [0..<length xs]"
      by (intro filter_cong) auto
    then show ?thesis unfolding h using first_occurrences [of P xs] by simp
  qed
  have miss: "histogram cr rows BMissing = int (length xs) - int (length (filter P xs))"
  proof -
    have "histogram cr rows BMissing = int (length (filter (\<lambda>v. \<not> P v) xs))"
      unfolding h idx [symmetric] by (intro arg_cong [where f = int] arg_cong [where f = length] filter_cong) auto
    then show ?thesis using sum_length_filter_compl [of P xs] by linarith
  qed
  have zero: "histogram cr rows BMiscast = 0" "histogram cr rows BNotApplicable = 0"
    unfolding h by (simp_all add: filter_empty_conv)
  have "total_observed (counts_of cr rows) = int (length rows)"
  proof -
    have "filter (\<lambda>i. bucket_at cr rows i \<noteq> None) [0..<length rows] = [0..<length rows]"
      using b by (intro filter_True) auto
    then show ?thesis by (simp add: total_observed_classified)
  qed
  moreover have "total_observed (counts_of cr rows) = histogram cr rows BPassed + histogram cr rows BFailed
      + histogram cr rows BMissing + histogram cr rows BMiscast + histogram cr rows BNotApplicable"
    unfolding counts_histogram [symmetric] by (simp add: counts_of_def Let_def)
  ultimately show ?thesis
    using pass miss zero cells by (simp add: Let_def cr_def [symmetric] counts_histogram xs_def)
qed

subsection \<open>A null among the allowed values\<close>



subsection \<open>Rules do not disturb each other\<close>

lemma plan_rules_lookup:
  "distinct (map q_rule_id rules) \<Longrightarrow> r \<in> set rules \<Longrightarrow>
    map_of (fst (plan_rules ho sk cols str rules acc)) (q_rule_id r)
      = (case plan_rule ho sk cols str r of Inl m \<Rightarrow> map_of (fst acc) (q_rule_id r) | Inr cr \<Rightarrow> Some cr)
    \<and> map_of (snd (plan_rules ho sk cols str rules acc)) (q_rule_id r)
      = (case plan_rule ho sk cols str r of Inl m \<Rightarrow> Some (failed_output (q_rule_id r) (Some m)) | Inr cr \<Rightarrow> map_of (snd acc) (q_rule_id r))"
proof (induction rules arbitrary: acc)
  case (Cons r0 rs)
  obtain c f where acc: "acc = (c, f)" by fastforce
  have other: "map_of (fst (plan_rules ho sk cols str rs acc')) i = map_of (fst acc') i
      \<and> map_of (snd (plan_rules ho sk cols str rs acc')) i = map_of (snd acc') i"
    if "i \<notin> set (map q_rule_id rs)" for rs acc' and i :: uuid
    using that by (induction rs arbitrary: acc') (auto simp: update_conv' split: sum.splits prod.splits)
  show ?case
  proof (cases "r = r0")
    case True
    then have "q_rule_id r \<notin> set (map q_rule_id rs)" using Cons.prems by auto
    then show ?thesis using other True acc by (auto simp: update_conv' split: sum.split)
  next
    case False
    then have r: "r \<in> set rs" "distinct (map q_rule_id rs)" "q_rule_id r \<noteq> q_rule_id r0"
      using Cons.prems by (auto simp: rev_image_eqI)
    then show ?thesis using Cons.IH [OF r(2,1)] acc by (auto simp: update_conv' split: sum.split)
  qed
qed simp

text \<open>
  Fault containment: a rule that does not compile, names a column the dataset lacks or has the wrong kind
  of column is reported as \<open>FAILED_TO_MEASURE\<close>; the output of every other rule is what it would be alone.
\<close>

lemma rules_contained:
  assumes "execute_rules ho sk load ev sn rules n = Inr outs" "distinct (map q_rule_id rules)"
    and "sn_total_rows sn \<noteq> 0" "load sn = Inr df"
  shows "outs = map (\<lambda>r. case plan_rule ho sk (df_columns df) (structured_columns sn) r of
      Inl m \<Rightarrow> failed_output (q_rule_id r) (Some m)
    | Inr cr \<Rightarrow> measured_output sk ev (nat n) (sn_total_rows sn) cr (df_rows df) (q_rule_id r)) rules"
proof -
  define res where "res = plan_rules ho sk (df_columns df) (structured_columns sn) rules ([], [])"
  obtain comp fails where res: "res = (comp, fails)" by fastforce
  have l: "map_of comp (q_rule_id r) = (case plan_rule ho sk (df_columns df) (structured_columns sn) r of Inl m \<Rightarrow> None | Inr cr \<Rightarrow> Some cr)"
    "map_of fails (q_rule_id r) = (case plan_rule ho sk (df_columns df) (structured_columns sn) r of
        Inl m \<Rightarrow> Some (failed_output (q_rule_id r) (Some m)) | Inr cr \<Rightarrow> None)"
    if "r \<in> set rules" for r
    using plan_rules_lookup [OF assms(2) that, of ho sk "df_columns df" "structured_columns sn" "([], [])"]
    by (simp_all add: res_def [symmetric] res split: sum.split)
  show ?thesis
  proof (cases "comp = []")
    case True
    then have "outs = map (\<lambda>r. dict_get fails (q_rule_id r) (failed_output (q_rule_id r) None)) rules"
      using assms by (simp add: execute_rules_def res_def [symmetric] res)
    moreover have "plan_rule ho sk (df_columns df) (structured_columns sn) r \<noteq> Inr x" if "r \<in> set rules" for r x
      using l(1) [OF that] True by auto
    ultimately show ?thesis using l(2) by (auto simp: dict_get_def split: sum.split)
  next
    case False
    then have "outs = map (\<lambda>r. case map_of fails (q_rule_id r) of Some out \<Rightarrow> out
        | None \<Rightarrow> (case map_of comp (q_rule_id r) of
            Some cr \<Rightarrow> measured_output sk ev (nat n) (sn_total_rows sn) cr (df_rows df) (q_rule_id r)
          | None \<Rightarrow> failed_output (q_rule_id r) None)) rules"
      using assms by (simp add: execute_rules_def res_def [symmetric] res split: if_splits)
    then show ?thesis using l by (auto split: sum.split)
  qed
qed

definition spark_snapshot :: dataset_snapshot where
  "spark_snapshot = \<lparr>sn_snapshot_id = 3, sn_tenant_id = 1, sn_asset_id = 4, sn_source_kind = u ''OBJECT_FILE'',
     sn_source_descriptor = [], sn_schema_definition = [], sn_total_rows = 3, sn_total_columns = 1, sn_captured_at = 0\<rparr>"

definition spark_rules :: "quality_rule list" where
  "spark_rules = [spark_rule 1 ''NON_NULL'' [(u ''column'', JStr (u ''c''))], spark_rule 2 ''NON_NULL'' [(u ''column'', JStr (u ''z''))]]"

definition spark_data :: dataset where
  "spark_data = \<lparr>df_columns = [u ''c''], df_rows = demo_rows\<rparr>"

lemma plan_demo:
  "plan_rule demo_host demo_spark [u ''c''] [] (spark_rule 1 ''NON_NULL'' [(u ''column'', JStr (u ''c''))])
     = Inr (compile_non_null demo_spark (spark_rule 1 ''NON_NULL'' [(u ''column'', JStr (u ''c''))]) (u ''c''))"
  "\<exists>m. plan_rule demo_host demo_spark [u ''c''] [] (spark_rule 2 ''NON_NULL'' [(u ''column'', JStr (u ''z''))]) = Inl m"
proof -
  have c: "compile_quality_rule demo_host demo_spark (spark_rule i ''NON_NULL'' [(u ''column'', JStr t)])
      = Inr (compile_non_null demo_spark (spark_rule i ''NON_NULL'' [(u ''column'', JStr t)]) t)" if "t \<noteq> []" for i t
    using that by (simp add: compile_quality_rule_def rule_target_column_def spark_rule_def upper_literals NON_NULL_TYPES_def
        py_or_def jget_null_def jget_def demo_host_def)
  have k: "ho_upper demo_host (q_rule_type (spark_rule i ''NON_NULL'' ps)) = u ''NON_NULL''" for i ps
    by (simp add: spark_rule_def demo_host_def upper_literals)
  show "plan_rule demo_host demo_spark [u ''c''] [] (spark_rule 1 ''NON_NULL'' [(u ''column'', JStr (u ''c''))])
     = Inr (compile_non_null demo_spark (spark_rule 1 ''NON_NULL'' [(u ''column'', JStr (u ''c''))]) (u ''c''))"
    by (simp add: plan_rule_def c rejection_def k compile_non_null_def)
  show "\<exists>m. plan_rule demo_host demo_spark [u ''c''] [] (spark_rule 2 ''NON_NULL'' [(u ''column'', JStr (u ''z''))]) = Inl m"
    by (simp add: plan_rule_def c rejection_def k compile_non_null_def)
qed

lemma spark_executes:
  "\<exists>outs. execute_rules demo_host demo_spark (\<lambda>_. Inr spark_data) (\<lambda>_. False) spark_snapshot spark_rules 5 = Inr outs"
proof -
  have "structured_columns spark_snapshot = []" by (simp add: structured_columns_def spark_snapshot_def jget_def)
  moreover have "\<not> any_of (cr_raises (compile_non_null demo_spark r t)) rows" for r t rows
    by (simp add: any_of_iff compile_non_null_def)
  ultimately show ?thesis
    using plan_demo by (auto simp: execute_rules_def spark_rules_def spark_data_def any_of_iff spark_snapshot_def)
qed

subsection \<open>Evidence\<close>

lemma evidence_row_masked: "kv \<in> set (evidence_row sk cols r) \<Longrightarrow>
    fst kv \<in> set cols \<and> snd kv \<in> {JNull, JStr [], JStr (u ''[REDACTED]'')}"
proof -
  assume kv: "kv \<in> set (evidence_row sk cols r)"
  have "set (dict_of ps) \<subseteq> set ps" for ps :: "jdict"
  proof -
    have up: "set (AList.update k v d) \<subseteq> insert (k, v) (set d)" for k :: ustr and v :: json and d
      by (induction d) auto
    have "set (fold (\<lambda>(k, v) d. AList.update k v d) ps d) \<subseteq> set ps \<union> set d" for d
    proof (induction ps arbitrary: d)
      case (Cons p ps)
      obtain k v where p: "p = (k, v)" by fastforce
      show ?case using Cons [of "AList.update k v d"] up [of k v d] p by auto
    qed simp
    from this [of "[]"] show ?thesis by (simp add: dict_of_def)
  qed
  then have "kv \<in> set (map (\<lambda>c. (c, mask_evidence_cell sk (r c))) cols)"
    using kv unfolding evidence_row_def by blast
  then show ?thesis by (auto simp: mask_evidence_cell_def split: option.splits)
qed

text \<open>Every output of the engine is that of a rule it did not run or that of an evaluated rule.\<close>

lemma plan_rules_failures:
  assumes "map_of (snd (plan_rules ho sk cols str rs acc)) i = Some out"
    and "\<And>j o'. map_of (snd acc) j = Some o' \<Longrightarrow> \<exists>i m. o' = failed_output i m"
  shows "\<exists>i m. out = failed_output i m"
  using assms
proof (induction rs arbitrary: acc)
  case (Cons r rs)
  obtain c f where acc: "acc = (c, f)" by fastforce
  show ?case
  proof (cases "plan_rule ho sk cols str r")
    case (Inl m)
    have "\<exists>i m. o' = failed_output i m"
      if "map_of (AList.update (q_rule_id r) (failed_output (q_rule_id r) (Some m)) f) j = Some o'" for j o'
      using that Cons.prems(2) acc by (cases "j = q_rule_id r") (auto simp: update_conv')
    then show ?thesis
      using Cons.IH [of "(c, AList.update (q_rule_id r) (failed_output (q_rule_id r) (Some m)) f)"] Cons.prems(1) acc Inl
      by simp
  next
    case (Inr cr)
    then show ?thesis using Cons.IH [of "(AList.update (q_rule_id r) cr c, f)"] Cons.prems acc by auto
  qed
qed auto

lemma execute_rules_shape:
  assumes "execute_rules ho sk load ev sn rules n = Inr outs" "out \<in> set outs"
  shows "(\<exists>i m. out = failed_output i m) \<or> (\<exists>i. out = (failed_output i None)\<lparr>o_status := NOT_MEASURABLE\<rparr>)
    \<or> (\<exists>tot cr rows i. out = measured_output sk ev (nat n) tot cr rows i)"
proof (cases "sn_total_rows sn = 0")
  case True
  then show ?thesis using assms by (auto simp: execute_rules_def)
next
  case False
  then obtain df where df: "load sn = Inr df" using assms(1) by (auto simp: execute_rules_def split: sum.splits)
  define res where "res = plan_rules ho sk (df_columns df) (structured_columns sn) rules ([], [])"
  obtain comp fs where res: "res = (comp, fs)" by fastforce
  have fs: "\<exists>i m. o' = failed_output i m" if "map_of fs j = Some o'" for j o'
    using plan_rules_failures [of ho sk "df_columns df" "structured_columns sn" rules "([], [])" j o'] that
    by (simp add: res_def [symmetric] res)
  define g where "g = (\<lambda>r :: quality_rule. case map_of fs (q_rule_id r) of Some o1 \<Rightarrow> o1
      | None \<Rightarrow> (case map_of comp (q_rule_id r) of
          Some cr \<Rightarrow> measured_output sk ev (nat n) (sn_total_rows sn) cr (df_rows df) (q_rule_id r)
        | None \<Rightarrow> failed_output (q_rule_id r) None))"
  have "outs = map (\<lambda>r. dict_get fs (q_rule_id r) (failed_output (q_rule_id r) None)) rules \<or> outs = map g rules"
    using assms(1) False df by (auto simp: execute_rules_def res_def [symmetric] res g_def split: if_splits)
  then show ?thesis
  proof (elim disjE)
    assume "outs = map (\<lambda>r. dict_get fs (q_rule_id r) (failed_output (q_rule_id r) None)) rules"
    then have "out \<in> (\<lambda>r. dict_get fs (q_rule_id r) (failed_output (q_rule_id r) None)) ` set rules" using assms(2) by simp
    then obtain r :: quality_rule where r: "out = dict_get fs (q_rule_id r) (failed_output (q_rule_id r) None)" by (rule imageE)
    show ?thesis
    proof (cases "map_of fs (q_rule_id r)")
      case None
      then show ?thesis using r by (simp add: dict_get_def, blast)
    next
      case (Some o1)
      then show ?thesis using r fs [OF Some] by (simp add: dict_get_def)
    qed
  next
    assume "outs = map g rules"
    then obtain r where r: "out = g r" using assms(2) by auto
    show ?thesis
    proof (cases "map_of fs (q_rule_id r)")
      case None
      then show ?thesis using r by (cases "map_of comp (q_rule_id r)") (simp add: g_def, blast, simp add: g_def, blast)
    next
      case (Some o1)
      then show ?thesis using r fs [OF Some] by (simp add: g_def)
    qed
  qed
qed

text \<open>
  Evidence shows no value: every cell of a sample is null, empty or the marker \<open>[REDACTED]\<close>, and there are
  at most \<open>sample_limit\<close> samples per rule.
\<close>

theorem evidence_minimal:
  assumes "execute_rules ho sk load ev sn rules n = Inr outs" "out \<in> set outs"
  shows "int (length (o_evidence_samples out)) \<le> max 0 n
    \<and> (\<forall>row \<in> set (o_evidence_samples out). \<forall>kv \<in> set row. snd kv \<in> {JNull, JStr [], JStr (u ''[REDACTED]'')})"
proof -
  have none: "o_evidence_samples (failed_output i m) = []" for i m by (simp add: failed_output_def)
  have "o_evidence_samples out = [] \<or> (\<exists>cr rows. o_evidence_samples out = evidence_of sk (nat n) cr rows)"
    using execute_rules_shape [OF assms]
  proof (elim disjE exE)
    fix tot cr rows i assume "out = measured_output sk ev (nat n) tot cr rows i"
    then have "o_evidence_samples out = [] \<or> o_evidence_samples out = evidence_of sk (nat n) cr rows"
      by (simp add: measured_output_def Let_def)
    then show ?thesis by blast
  qed (simp_all add: none)
  then show ?thesis
  proof (elim disjE exE)
    fix cr rows assume "o_evidence_samples out = evidence_of sk (nat n) cr rows"
    moreover have "int (length (evidence_of sk (nat n) cr rows)) \<le> max 0 n" by (simp add: evidence_of_def)
    moreover have "snd kv \<in> {JNull, JStr [], JStr (u ''[REDACTED]'')}"
      if "row \<in> set (evidence_of sk (nat n) cr rows)" "kv \<in> set row" for row kv
      using that evidence_row_masked unfolding evidence_of_def by fastforce
    ultimately show ?thesis by simp
  qed simp
qed

lemma evidence_minimal_witness:
  "\<exists>outs. execute_rules demo_host demo_spark (\<lambda>_. Inr spark_data) (\<lambda>_. False) spark_snapshot spark_rules 5 = Inr outs
    \<and> (\<forall>out \<in> set outs. length (o_evidence_samples out) \<le> 5)"
proof -
  obtain outs where o: "execute_rules demo_host demo_spark (\<lambda>_. Inr spark_data) (\<lambda>_. False) spark_snapshot spark_rules 5 = Inr outs"
    using spark_executes by blast
  from evidence_minimal [OF this] show ?thesis using o by fastforce
qed

end
