(* ===== verification/EndToEnd.thy ===== *)
theory EndToEnd
  imports SparkGuarantees
begin

text \<open>
  The Spark engine under \<open>ValidationService\<close> and \<open>ScoreAggregator\<close>: what a run concludes from a dataset.
\<close>

lemma execute_rules_outputs:
  assumes "execute_rules ho sk load ev sn rules n = Inr outs" "out \<in> set outs"
  shows "counts_nonneg (o_counts out) \<and> verify_partition_identity (o_counts out)"
proof -
  have f: "counts_nonneg (o_counts (failed_output i m)) \<and> verify_partition_identity (o_counts (failed_output i m))" for i m
    by (simp add: failed_output_def counts_nonneg_def zero_counts_def verify_partition_identity_def)
  have m: "counts_nonneg (o_counts (measured_output sk ev k tot cr rows i))
      \<and> verify_partition_identity (o_counts (measured_output sk ev k tot cr rows i))" for k tot cr rows i
    by (simp add: measured_output_def Let_def counts_of_nonneg counts_of_identity)
  from execute_rules_shape [OF assms] show ?thesis using f m by auto
qed

text \<open>C32: 
  A required rule the engine cannot run (an unknown type or operator, a column the dataset lacks, a
  structured column under a text rule) ends in a run whose gate is \<open>ERROR\<close> and whose scorecard is withheld.
\<close>

theorem unrunnable_rule_withholds:
  assumes valid: "validate_ruleset (execute_rules ho sk load ev) sn rules n = Inr results"
    and ids: "distinct (map q_rule_id rules)"
    and data: "sn_total_rows sn \<noteq> 0" "load sn = Inr df"
    and rule: "r \<in> set rules" "q_is_required r" "plan_rule ho sk (df_columns df) (structured_columns sn) r = Inl m"
    and agg: "aggregate uc results policy req st = Inr summary"
  shows "ss_quality_gate summary = GERROR \<and> ss_publication_status summary = WITHHELD \<and> ss_published_score summary = None"
proof -
  obtain outs where o: "execute_rules ho sk load ev sn rules n = Inr outs" "process_all (output_map_of outs) rules = Inr results"
    using valid by (auto simp: validate_ruleset_def split: sum.splits)
  define g where "g = (\<lambda>r. case plan_rule ho sk (df_columns df) (structured_columns sn) r of
      Inl m \<Rightarrow> failed_output (q_rule_id r) (Some m)
    | Inr cr \<Rightarrow> measured_output sk ev (nat n) (sn_total_rows sn) cr (df_rows df) (q_rule_id r))"
  have outs: "outs = map g rules" using rules_contained [OF o(1) ids data] by (simp add: g_def)
  have gid: "o_rule_id (g r) = q_rule_id r" for r
    by (simp add: g_def failed_output_def measured_output_def Let_def split: sum.split)
  have "dict_get (output_map_of outs) (q_rule_id r) (missing_output r) = failed_output (q_rule_id r) (Some m)"
  proof (rule output_map_cases [of outs "q_rule_id r" "missing_output r"])
    assume "\<forall>x \<in> set outs. o_rule_id x \<noteq> q_rule_id r"
    then show ?thesis using rule(1) gid by (auto simp: outs)
  next
    fix x assume x: "x \<in> set outs" "o_rule_id x = q_rule_id r" "dict_get (output_map_of outs) (q_rule_id r) (missing_output r) = x"
    then obtain r' where r': "r' \<in> set rules" "x = g r'" by (auto simp: outs)
    then have "r' = r" using x(2) gid ids rule(1) by (auto simp: distinct_map dest: inj_onD)
    then show ?thesis using x(3) r'(2) rule(3) by (simp add: g_def)
  qed
  moreover obtain res where res: "res \<in> set results"
    "process_rule_result r (dict_get (output_map_of outs) (q_rule_id r) (missing_output r)) = Inr res"
    using o(2) rule(1) by (fastforce simp: process_all_Inr list_all2_conv_all_nth in_set_conv_nth)
  ultimately have "measurement res = measurement_value FAILED_TO_MEASURE \<and> is_required res"
    using rule(2) by (auto simp: process_rule_result_def build_technical_failure_result_def failed_output_def split: sum.splits)
  then have fail: "has_required_technical_failure results" using res(1) by (auto simp: has_required_technical_failure_def any_of_iff)
  note A = aggregate_parts [OF agg]
  have gate: "ss_quality_gate summary = GERROR"
    using A(1) fail gate_error_iff [of "run_gate_input uc results policy (case req of None \<Rightarrow> {} | Some x \<Rightarrow> x)"]
    by (simp add: run_gate_input_def Let_def)
  then show ?thesis using A(8) by (auto simp: determine_publication_status_def is_publication_eligible_def split: if_splits)
qed

definition absent_column_rule :: quality_rule where
  "absent_column_rule = (spark_rule 2 ''NON_NULL'' [(u ''column'', JStr (u ''z''))])\<lparr>q_is_required := True\<rparr>"

lemma unrunnable_rule_withholds_witness:
  "\<exists>results summary. validate_ruleset (execute_rules demo_host demo_spark (\<lambda>_. Inr spark_data) (\<lambda>_. False)) spark_snapshot
      [absent_column_rule] 5 = Inr results
    \<and> aggregate (\<lambda>c. [c]) results default_policy None (run_value SUCCEEDED) = Inr summary
    \<and> ss_quality_gate summary = GERROR \<and> ss_published_score summary = None"
proof -
  let ?ex = "execute_rules demo_host demo_spark (\<lambda>_. Inr spark_data) (\<lambda>_. False)"
  have sn: "sn_total_rows spark_snapshot = 3" "structured_columns spark_snapshot = []" "df_columns spark_data = [u ''c'']"
    by (simp_all add: spark_snapshot_def spark_data_def structured_columns_def jget_def)
  have "\<exists>m. plan_rule demo_host demo_spark [u ''c''] [] absent_column_rule = Inl m"
    by (simp add: plan_rule_def compile_quality_rule_def rule_target_column_def absent_column_rule_def spark_rule_def
        upper_literals NON_NULL_TYPES_def py_or_def jget_null_def jget_def demo_host_def rejection_def compile_non_null_def Let_def)
  then obtain m where m: "plan_rule demo_host demo_spark [u ''c''] [] absent_column_rule = Inl m" by blast
  have i: "q_rule_id absent_column_rule = 2" "q_is_required absent_column_rule"
    "result_target absent_column_rule = Inr (Some (u ''z''))"
    by (simp_all add: absent_column_rule_def spark_rule_def result_target_def py_or_def jget_null_def jget_def)
  have ex: "?ex spark_snapshot [absent_column_rule] 5 = Inr [failed_output 2 (Some m)]"
    by (simp add: execute_rules_def sn m i update_conv' dict_get_def)
  have "output_map_of [failed_output 2 (Some m)] = [(2, failed_output 2 (Some m))]"
    by (simp add: output_map_of_def dict_of_def failed_output_def)
  then obtain results where v: "validate_ruleset ?ex spark_snapshot [absent_column_rule] 5 = Inr results"
    by (simp add: validate_ruleset_def ex i dict_get_def process_rule_result_def build_technical_failure_result_def
        failed_output_def)
  obtain summary where a: "aggregate (\<lambda>c. [c]) results default_policy None (run_value SUCCEEDED) = Inr summary"
    using aggregate_total by blast
  show ?thesis
    using unrunnable_rule_withholds [OF v _ _ _ _ i(2) _ a, of spark_data m] v a by (auto simp: sn m)
qed

end
