(* ===== verification/ImportSessions.thy ===== *)
theory ImportSessions
  imports SnapshotObjects PrivacyGuarantees StructuredValues
begin

text \<open>
  Upload sessions: \<open>presentation/api/schemas/import_schemas.py\<close> (requests),
  \<open>adapters/db/postgres_import_store.py\<close> (the table), the routes of
  \<open>presentation/api/routes/import_routes.py\<close> that change a session, and the lease side of
  \<open>workers/import_worker.py\<close>. The snapshot, asset and privacy tables are those of the same database.
  Object storage answers, fresh ids and clocks are arguments: \<open>now\<close> is the clock of the process, \<open>tx\<close> what
  the database calls \<open>now()\<close>, the start of the transaction. The column \<open>updated_at\<close> is left out.
\<close>

subsection \<open>Requests\<close>

record import_settings =
  ist_max_bytes :: int
  ist_part_bytes :: int
  ist_lease_seconds :: int
  ist_bucket_staging :: ustr
  ist_bucket_snapshots :: ustr

fun occurs :: "ustr \<Rightarrow> ustr \<Rightarrow> bool" where
  "occurs p [] = (p = [])"
| "occurs p (c # cs) = (is_prefix p (c # cs) \<or> occurs p cs)"

definition between :: "nat \<Rightarrow> nat \<Rightarrow> ustr \<Rightarrow> bool" where
  "between lo hi s \<longleftrightarrow> lo \<le> length s \<and> length s \<le> hi"

record source_object =
  sob_bucket :: ustr
  sob_key :: ustr

definition valid_key :: "ustr \<Rightarrow> bool" where
  "valid_key v \<longleftrightarrow> \<not> (any_of bad_part (key_parts v) \<or> 92 \<in> set v \<or> is_prefix [47] v \<or> 63 \<in> set v \<or> 35 \<in> set v
     \<or> occurs (u ''://'') v \<or> any_of (\<lambda>c. c < 32 \<or> c = 127) v)"

definition valid_source :: "source_object \<Rightarrow> bool" where
  "valid_source s \<longleftrightarrow> between 1 255 (sob_bucket s) \<and> between 1 1024 (sob_key s) \<and> valid_key (sob_key s)"

record csv_options =
  csv_delimiter :: ustr
  csv_encoding :: ustr

definition valid_csv_options :: "csv_options \<Rightarrow> bool" where
  "valid_csv_options c \<longleftrightarrow> csv_delimiter c \<in> {[44], [59], [9], [124]}"

record create_request =
  crq_client_request :: uuid
  crq_asset :: "uuid option"
  crq_name :: "ustr option"
  crq_format :: ustr
  crq_filename :: ustr
  crq_size :: int
  crq_source :: "source_object option"
  crq_csv :: "csv_options option"

definition disallowed_filename_char :: "nat \<Rightarrow> bool" where
  "disallowed_filename_char c \<longleftrightarrow> c < 32 \<or> c = 127 \<or> c = 92 \<or> c = 47"

definition validate_filename :: "ustr \<Rightarrow> ustr option" where
  "validate_filename v =
     (let s = py_strip v
      in if \<not> between 1 255 v \<or> s = [] \<or> any_of disallowed_filename_char s then None else Some s)"

definition validate_asset_name :: "ustr option \<Rightarrow> ustr option option" where
  "validate_asset_name v =
     (case v of None \<Rightarrow> Some None
      | Some n \<Rightarrow> if \<not> between 1 255 n \<or> py_strip n = [] then None else Some (Some (py_strip n)))"

definition IMPORT_FORMATS :: "ustr list" where
  "IMPORT_FORMATS = map u [''CSV'', ''PARQUET'', ''JSONL'']"

definition validate_create :: "create_request \<Rightarrow> string + create_request" where
  "validate_create q =
     (case (validate_filename (crq_filename q), validate_asset_name (crq_name q)) of
        (Some f, Some n) \<Rightarrow>
          if crq_format q \<notin> set IMPORT_FORMATS \<or> crq_size q \<le> 0
             \<or> (case crq_source q of None \<Rightarrow> False | Some s \<Rightarrow> \<not> valid_source s)
             \<or> (case crq_csv q of None \<Rightarrow> False | Some c \<Rightarrow> \<not> valid_csv_options c)
             \<or> (crq_asset q \<noteq> None) = (n \<noteq> None)
          then Inl ''ValidationError'' else Inr (q\<lparr>crq_filename := f, crq_name := n\<rparr>)
      | _ \<Rightarrow> Inl ''ValidationError'')"

record part_etag =
  pt_number :: int
  pt_etag :: ustr

definition validate_complete :: "part_etag list \<Rightarrow> bool" where
  "validate_complete ps \<longleftrightarrow> ps \<noteq> [] \<and> list_all (\<lambda>p. 1 \<le> pt_number p \<and> pt_number p \<le> 10000 \<and> pt_etag p \<noteq> []) ps"

definition validate_columns :: "ident list \<Rightarrow> string + ident list" where
  "validate_columns v =
     (let cleaned = map py_strip v
      in if v = [] \<or> 1000 < length v \<or> any_of (\<lambda>c. c = []) cleaned \<or> length (remdups cleaned) \<noteq> length cleaned
         then Inl ''ValidationError'' else Inr cleaned)"

subsection \<open>Tables\<close>

datatype upload_status = UInitiated | UUploading | UStaged | UVerifying | UVerified | URejected | UAborted | URegistered | UFailed

fun upload_text :: "upload_status \<Rightarrow> ident" where
  "upload_text UInitiated = u ''INITIATED''"
| "upload_text UUploading = u ''UPLOADING''"
| "upload_text UStaged = u ''STAGED''"
| "upload_text UVerifying = u ''VERIFYING''"
| "upload_text UVerified = u ''VERIFIED''"
| "upload_text URejected = u ''REJECTED''"
| "upload_text UAborted = u ''ABORTED''"
| "upload_text URegistered = u ''REGISTERED''"
| "upload_text UFailed = u ''FAILED''"

record upload_session =
  ul_id :: uuid
  ul_tenant :: uuid
  ul_asset :: "uuid option"
  ul_name :: "ustr option"
  ul_client_request :: uuid
  ul_format :: ustr
  ul_filename :: ustr
  ul_size :: int
  ul_staging_key :: ustr
  ul_destination :: "ustr option"
  ul_multipart :: "ustr option"
  ul_status :: upload_status
  ul_manifest :: jdict
  ul_error :: "ident option"
  ul_sha :: "ustr option"
  ul_created_by :: uuid
  ul_created_at :: timestamp
  ul_expires_at :: timestamp
  ul_registered :: "uuid option"
  ul_owner :: "ident option"
  ul_generation :: int
  ul_lease :: "timestamp option"
  ul_attempts :: int

record asset_entry =
  ae_id :: uuid
  ae_tenant :: uuid
  ae_name :: ustr
  ae_slug :: ustr
  ae_format :: ustr
  ae_owner :: uuid
  ae_created_by :: uuid
  ae_created_at :: timestamp
  ae_current :: "uuid option"
  ae_versions :: int

record snapshot_entry =
  se_id :: uuid
  se_tenant :: uuid
  se_asset :: uuid
  se_version :: int
  se_parent :: "uuid option"
  se_object_file :: bool
  se_descriptor :: jdict
  se_sha :: ustr
  se_storage :: ustr
  se_schema :: jdict
  se_rows :: int
  se_columns :: int
  se_created_by :: uuid
  se_captured_at :: timestamp
  se_manifest :: jdict

text \<open>The privacy tables hold their own projection of the two tables they read, assets and snapshots.\<close>

record import_db =
  idb_sessions :: "upload_session list"
  idb_assets :: "asset_entry list"
  idb_snapshots :: "snapshot_entry list"
  idb_privacy :: privacy_db

text \<open>The constraint \<open>chk_upload_session_target\<close> of migration 013.\<close>

definition session_target_ok :: "upload_session \<Rightarrow> bool" where
  "session_target_ok s \<longleftrightarrow> (ul_status s = URegistered \<and> ul_asset s \<noteq> None \<and> ul_name s \<noteq> None)
     \<or> (ul_asset s \<noteq> None \<and> ul_name s = None) \<or> (ul_asset s = None \<and> ul_name s \<noteq> None)"

subsection \<open>The session store\<close>

definition update_sessions :: "(upload_session \<Rightarrow> bool) \<Rightarrow> (upload_session \<Rightarrow> upload_session) \<Rightarrow> import_db \<Rightarrow> import_db" where
  "update_sessions p f db = db\<lparr>idb_sessions := map (\<lambda>s. if p s then f s else s) (idb_sessions db)\<rparr>"

definition owned_by :: "uuid \<Rightarrow> uuid \<Rightarrow> upload_session \<Rightarrow> bool" where
  "owned_by t i s \<longleftrightarrow> ul_id s = i \<and> ul_tenant s = t"

definition get_by_id :: "uuid \<Rightarrow> uuid \<Rightarrow> import_db \<Rightarrow> upload_session option" where
  "get_by_id t i db = find (owned_by t i) (idb_sessions db)"

definition get_by_client_request :: "uuid \<Rightarrow> uuid \<Rightarrow> uuid \<Rightarrow> import_db \<Rightarrow> upload_session option" where
  "get_by_client_request t user r db =
     find (\<lambda>s. ul_tenant s = t \<and> ul_created_by s = user \<and> ul_client_request s = r) (idb_sessions db)"

text \<open>What PostgreSQL stores as JSONB: no text with U+0000 or an unpaired surrogate. Other texts must be plain UTF-8.\<close>

fun jsonb_text :: "ustr \<Rightarrow> bool" where
  "jsonb_text [] = True"
| "jsonb_text [c] = (c \<noteq> 0 \<and> \<not> (55296 \<le> c \<and> c \<le> 57343))"
| "jsonb_text (c # d # cs) =
     (c \<noteq> 0 \<and> (if 55296 \<le> c \<and> c \<le> 56319 then 56320 \<le> d \<and> d \<le> 57343 \<and> jsonb_text cs
               else \<not> (56320 \<le> c \<and> c \<le> 57343) \<and> jsonb_text (d # cs)))"

fun jsonb_ok :: "json \<Rightarrow> bool" where
  "jsonb_ok (JStr s) = jsonb_text s"
| "jsonb_ok (JArr xs) = list_all jsonb_ok xs"
| "jsonb_ok (JObj kvs) = list_all (\<lambda>(k, v). jsonb_text k \<and> jsonb_ok v) kvs"
| "jsonb_ok v = True"

definition storable_text :: "ustr \<Rightarrow> bool" where
  "storable_text s \<longleftrightarrow> 0 \<notin> set s \<and> utf8_size s \<noteq> None"

definition storable :: "upload_session \<Rightarrow> bool" where
  "storable s \<longleftrightarrow> jsonb_ok (JObj (ul_manifest s)) \<and> storable_text (ul_filename s)
     \<and> (case ul_name s of None \<Rightarrow> True | Some n \<Rightarrow> storable_text n)"

text \<open>The insert fails on a used id, a used client request id or a violated check.\<close>

definition create_session :: "upload_session \<Rightarrow> import_db \<Rightarrow> string + upload_session \<times> import_db" where
  "create_session s db =
     (if any_of (\<lambda>r. ul_id r = ul_id s) (idb_sessions db)
         \<or> get_by_client_request (ul_tenant s) (ul_created_by s) (ul_client_request s) db \<noteq> None
      then Inl ''UniqueViolation''
      else if \<not> session_target_ok s then Inl ''CheckViolation''
      else if \<not> storable s then Inl ''DataError''
      else Inr (s, db\<lparr>idb_sessions := idb_sessions db @ [s]\<rparr>))"

text \<open>\<open>manifest || patch\<close> on JSON objects; \<open>parts\<close> is always an object.\<close>

definition merge_manifest :: "jdict \<Rightarrow> jdict \<Rightarrow> jdict" where
  "merge_manifest m patch = fold (\<lambda>(k, v). AList.update k v) patch m"

definition parts_of :: "jdict \<Rightarrow> jdict" where
  "parts_of m = (case jget m ''parts'' of Some (JObj ps) \<Rightarrow> ps | _ \<Rightarrow> [])"

definition part_payload :: "int \<Rightarrow> ustr \<Rightarrow> ustr \<Rightarrow> int \<Rightarrow> json" where
  "part_payload n etag sha sz = JObj [(u ''part_number'', JInt n), (u ''etag'', JStr etag), (u ''sha256'', JStr sha),
     (u ''size_bytes'', JInt sz)]"

definition with_part :: "int \<Rightarrow> ustr \<Rightarrow> ustr \<Rightarrow> int \<Rightarrow> upload_session \<Rightarrow> upload_session" where
  "with_part n etag sha sz s =
     s\<lparr>ul_manifest := AList.update (u ''parts'')
          (JObj (AList.update (int_text n) (part_payload n etag sha sz) (parts_of (ul_manifest s)))) (ul_manifest s),
       ul_status := (if ul_status s = UInitiated then UUploading else ul_status s)\<rparr>"

definition record_part :: "uuid \<Rightarrow> int \<Rightarrow> ustr \<Rightarrow> ustr \<Rightarrow> int \<Rightarrow> import_db \<Rightarrow> import_db" where
  "record_part i n etag sha sz = update_sessions (\<lambda>s. ul_id s = i) (with_part n etag sha sz)"

definition or_old :: "'a option \<Rightarrow> 'a option \<Rightarrow> 'a option" where
  "or_old new old = (case new of None \<Rightarrow> old | Some x \<Rightarrow> Some x)"

definition returning :: "uuid \<Rightarrow> uuid \<Rightarrow> (upload_session \<Rightarrow> upload_session) \<Rightarrow> import_db \<Rightarrow> string + upload_session \<times> import_db" where
  "returning t i f db =
     (case get_by_id t i db of None \<Rightarrow> Inl ''ValueError'' | Some s \<Rightarrow> Inr (f s, update_sessions (owned_by t i) f db))"

definition transition_staged :: "uuid \<Rightarrow> uuid \<Rightarrow> ustr option \<Rightarrow> ustr option \<Rightarrow> import_db \<Rightarrow> string + upload_session \<times> import_db" where
  "transition_staged i t sha dest = returning t i
     (\<lambda>s. s\<lparr>ul_status := UStaged, ul_sha := or_old sha (ul_sha s), ul_destination := or_old dest (ul_destination s)\<rparr>)"

definition update_status :: "uuid \<Rightarrow> uuid \<Rightarrow> upload_status \<Rightarrow> ident option \<Rightarrow> jdict \<Rightarrow> import_db \<Rightarrow> string + upload_session \<times> import_db" where
  "update_status i t status reason patch db =
     (if \<not> jsonb_ok (JObj patch) then Inl ''DataError''
      else returning t i (\<lambda>s. s\<lparr>ul_status := status, ul_error := reason, ul_manifest := merge_manifest (ul_manifest s) patch\<rparr>) db)"

subsection \<open>Responses\<close>

text \<open>\<open>math.ceil(size / part_size)\<close> goes through a float.\<close>

definition float_parts :: "int \<Rightarrow> int \<Rightarrow> int" where
  "float_parts sz part = \<lceil>fdiv (of_int sz) (of_int part)\<rceil>"

definition part_count :: "int \<Rightarrow> int \<Rightarrow> int" where
  "part_count sz part = (if 0 < sz then max 1 (float_parts sz part) else 1)"

definition int_keys :: "unidata \<Rightarrow> jdict \<Rightarrow> string + int list" where
  "int_keys ud ps = each (\<lambda>k. case py_int ud k of None \<Rightarrow> Inl ''ValueError'' | Some n \<Rightarrow> Inr n) (map fst ps)"

definition part_detail :: "jdict \<Rightarrow> int \<Rightarrow> string + (int \<times> json)" where
  "part_detail ps n = (case map_of ps (int_text n) of
       Some (JObj d) \<Rightarrow> (case jget d ''etag'' of None \<Rightarrow> Inl ''KeyError'' | Some e \<Rightarrow> Inr (n, e))
     | _ \<Rightarrow> Inl ''KeyError'')"

definition json_len :: "json option \<Rightarrow> string + nat" where
  "json_len v = (case v of None \<Rightarrow> Inr 0 | Some (JArr xs) \<Rightarrow> Inr (length xs) | Some (JObj d) \<Rightarrow> Inr (length d)
     | Some (JStr s) \<Rightarrow> Inr (length s) | _ \<Rightarrow> Inl ''TypeError'')"

definition opt_list :: "json \<Rightarrow> string + json list option" where
  "opt_list v = (case v of JNull \<Rightarrow> Inr None | JArr xs \<Rightarrow> Inr (Some xs) | _ \<Rightarrow> Inl ''TypeError'')"

definition opt_dict :: "json \<Rightarrow> string + jdict option" where
  "opt_dict v = (case v of JNull \<Rightarrow> Inr None | JObj d \<Rightarrow> Inr (Some d) | _ \<Rightarrow> Inl ''TypeError'')"

record session_response =
  rsp_id :: uuid
  rsp_status :: ident
  rsp_part_size :: int
  rsp_part_count :: int
  rsp_size :: int
  rsp_asset :: "uuid option"
  rsp_name :: "ustr option"
  rsp_error :: json
  rsp_preview :: "json list option"
  rsp_profile :: "jdict option"
  rsp_snapshot :: "uuid option"
  rsp_parts :: "int list"
  rsp_details :: "(int \<times> json) list"
  rsp_total_columns :: nat

text \<open>\<open>manifest.get("error_code") or (...)\<close>.\<close>

definition response_error :: "timestamp \<Rightarrow> upload_session \<Rightarrow> json" where
  "response_error now s = py_or (jget_null (ul_manifest s) ''error_code'')
     (if ul_expires_at s < now \<and> ul_status s \<notin> {URegistered, UFailed, UAborted} then JStr (u ''IMPORT_EXPIRED'')
      else if ul_status s = UFailed \<or> ul_status s = URejected then opt_str (ul_error s) else JNull)"

definition masked_output :: "privacy_db \<Rightarrow> uuid \<Rightarrow> upload_session \<Rightarrow> string + json list option \<times> jdict option" where
  "masked_output db t s =
     (case (opt_list (jget_null (ul_manifest s) ''preview''), opt_dict (jget_null (ul_manifest s) ''profile'')) of
        (Inr pv, Inr pf) \<Rightarrow>
          if pv = None \<and> pf = None then Inr (None, None)
          else (case session_protected_columns db t \<lparr>sv_manifest = Some (ul_manifest s),
                    sv_registered_snapshot_id = ul_registered s, sv_asset_id = ul_asset s\<rparr> of
                  Inl e \<Rightarrow> Inl e | Inr cols \<Rightarrow> Inr (mask_preview_and_profile pv pf (set cols)))
      | (Inl e, _) \<Rightarrow> Inl e | (_, Inl e) \<Rightarrow> Inl e)"

definition build_session_response ::
  "unidata \<Rightarrow> import_settings \<Rightarrow> privacy_db \<Rightarrow> uuid \<Rightarrow> timestamp \<Rightarrow> upload_session \<Rightarrow> string + session_response" where
  "build_session_response ud st db t now s =
     (let parts = parts_of (ul_manifest s) in
      case int_keys ud parts of Inl e \<Rightarrow> Inl e | Inr nums \<Rightarrow>
     (case masked_output db t s of Inl e \<Rightarrow> Inl e | Inr (pv, pf) \<Rightarrow>
     (case each (part_detail parts) (sort nums) of Inl e \<Rightarrow> Inl e | Inr details \<Rightarrow>
     (case json_len (jget (ul_manifest s) ''columns'') of Inl e \<Rightarrow> Inl e | Inr n \<Rightarrow>
        Inr \<lparr>rsp_id = ul_id s, rsp_status = upload_text (ul_status s), rsp_part_size = ist_part_bytes st,
          rsp_part_count = part_count (ul_size s) (ist_part_bytes st), rsp_size = ul_size s, rsp_asset = ul_asset s,
          rsp_name = ul_name s, rsp_error = response_error now s, rsp_preview = pv, rsp_profile = pf,
          rsp_snapshot = ul_registered s, rsp_parts = sort nums, rsp_details = details, rsp_total_columns = n\<rparr>))))"

subsection \<open>Routes\<close>

text \<open>
  A route raises, which rolls the transaction back, or answers with a problem code or a result; both commit.
\<close>

type_synonym 'a reply = "string + (string + 'a) \<times> import_db"

record import_user =
  iur_tenant :: uuid
  iur_id :: uuid
  iur_role :: ident

definition ALLOWED_IMPORT_ROLES :: "ident list" where
  "ALLOWED_IMPORT_ROLES = map u [''WORKSPACE_ADMIN'', ''DATA_OWNER'', ''DATA_STEWARD'', ''DATA_ENGINEER'']"

definition may_import :: "import_user \<Rightarrow> bool" where
  "may_import user \<longleftrightarrow> iur_role user \<in> set ALLOWED_IMPORT_ROLES"

definition problem :: "string \<Rightarrow> import_db \<Rightarrow> 'a reply" where
  "problem code db = Inr (Inl code, db)"

definition respond :: "unidata \<Rightarrow> import_settings \<Rightarrow> uuid \<Rightarrow> timestamp \<Rightarrow> upload_session \<Rightarrow> import_db \<Rightarrow> session_response reply" where
  "respond ud st t now s db =
     (case build_session_response ud st (idb_privacy db) t now s of Inl e \<Rightarrow> Inl e | Inr r \<Rightarrow> Inr (Inr r, db))"

definition respond_updated ::
  "unidata \<Rightarrow> import_settings \<Rightarrow> uuid \<Rightarrow> timestamp \<Rightarrow> string + upload_session \<times> import_db \<Rightarrow> session_response reply" where
  "respond_updated ud st t now r = (case r of Inl e \<Rightarrow> Inl e | Inr (s, db) \<Rightarrow> respond ud st t now s db)"

text \<open>\<open>json.dumps\<close> with its default \<open>ensure_ascii\<close>: characters beyond the tilde become escapes of UTF-16 units.\<close>

definition ascii_cp :: "nat \<Rightarrow> ustr" where
  "ascii_cp c = (if c < 127 then [c] else if c < 65536 then [92, 117] @ hex_digits 4 c
     else [92, 117] @ hex_digits 4 (55296 + (c - 65536) div 1024) @ [92, 117] @ hex_digits 4 (56320 + (c - 65536) mod 1024))"

definition opt_uuid :: "uuid option \<Rightarrow> json" where
  "opt_uuid i = (case i of None \<Rightarrow> JNull | Some n \<Rightarrow> JStr (uuid_str n))"

definition csv_json :: "csv_options option \<Rightarrow> json" where
  "csv_json c = (case c of None \<Rightarrow> JNull
     | Some o1 \<Rightarrow> JObj [(u ''delimiter'', JStr (csv_delimiter o1)), (u ''encoding'', JStr (csv_encoding o1))])"

definition request_json :: "create_request \<Rightarrow> json" where
  "request_json q = JObj
     [(u ''client_request_id'', JStr (uuid_str (crq_client_request q))), (u ''asset_id'', opt_uuid (crq_asset q)),
      (u ''asset_name'', opt_str (crq_name q)), (u ''format'', JStr (crq_format q)),
      (u ''original_filename'', JStr (crq_filename q)), (u ''size_bytes'', JInt (crq_size q)),
      (u ''source'', (case crq_source q of None \<Rightarrow> JNull
         | Some s \<Rightarrow> JObj [(u ''bucket'', JStr (sob_bucket s)), (u ''key'', JStr (sob_key s))])),
      (u ''csv_options'', csv_json (crq_csv q))]"

definition request_fingerprint :: "number_text \<Rightarrow> (ustr \<Rightarrow> ustr) \<Rightarrow> create_request \<Rightarrow> ustr" where
  "request_fingerprint nt sha q = sha (concat (map ascii_cp (dumps nt True [44] [58] (request_json q))))"

definition same_request :: "ustr \<Rightarrow> create_request \<Rightarrow> upload_session \<Rightarrow> bool" where
  "same_request fp q s \<longleftrightarrow>
     (case crq_asset q of Some a \<Rightarrow> ul_asset s = Some a | None \<Rightarrow> ul_name s = crq_name q)
     \<and> jget_null (ul_manifest s) ''request_fingerprint'' = JStr fp"

definition imports_prefix :: "uuid \<Rightarrow> ustr" where
  "imports_prefix t = u ''imports/'' @ uuid_str t @ [47]"

definition fresh_staging_key :: "(nat \<Rightarrow> nat list) \<Rightarrow> uuid \<Rightarrow> uuid \<Rightarrow> ustr \<Rightarrow> ustr" where
  "fresh_staging_key lower t i fmt = imports_prefix t @ uuid_str i @ u ''/source.'' @ py_lower lower fmt"

definition first_manifest :: "import_settings \<Rightarrow> ustr \<Rightarrow> ustr \<Rightarrow> create_request \<Rightarrow> jdict" where
  "first_manifest st fp key q =
     [(u ''request_fingerprint'', JStr fp), (u ''client_request_id'', JStr (uuid_str (crq_client_request q))),
      (u ''original_filename'', JStr (crq_filename q)), (u ''format'', JStr (crq_format q)), (u ''csv_options'', csv_json (crq_csv q)),
      (u ''staging_bucket'', JStr (ist_bucket_staging st)), (u ''staging_key'', JStr key), (u ''parts'', JObj [])]"

definition new_session :: "import_user \<Rightarrow> timestamp \<Rightarrow> uuid \<Rightarrow> create_request \<Rightarrow> int \<Rightarrow> ustr \<Rightarrow> ustr option \<Rightarrow> ustr option \<Rightarrow>
    upload_status \<Rightarrow> jdict \<Rightarrow> upload_session" where
  "new_session user now i q sz key dest mp status manifest =
     \<lparr>ul_id = i, ul_tenant = iur_tenant user, ul_asset = crq_asset q, ul_name = crq_name q,
       ul_client_request = crq_client_request q, ul_format = crq_format q, ul_filename = crq_filename q, ul_size = sz,
       ul_staging_key = key, ul_destination = dest, ul_multipart = mp, ul_status = status, ul_manifest = manifest,
       ul_error = None, ul_sha = None, ul_created_by = iur_id user, ul_created_at = now,
       ul_expires_at = now + 24 * 3600 * 1000000, ul_registered = None, ul_owner = None, ul_generation = 0,
       ul_lease = None, ul_attempts = 0\<rparr>"

text \<open>Metadata with its ETag, and the two answers of the object store a route asks for.\<close>

record staged_metadata = object_metadata +
  om_etag :: ustr

record import_store =
  ios_head :: "object_ref \<Rightarrow> store_error + staged_metadata"
  ios_create_multipart :: "ustr \<Rightarrow> ustr \<Rightarrow> store_error + ustr"

definition source_ref_json :: "source_object \<Rightarrow> staged_metadata \<Rightarrow> json" where
  "source_ref_json src m = JObj [(u ''bucket'', JStr (sob_bucket src)), (u ''key'', JStr (sob_key src)),
     (u ''etag'', JStr (om_etag m)), (u ''version_id'', opt_str (om_version_id m)), (u ''size_bytes'', JInt (om_size_bytes m))]"

text \<open>From an object that is already in the staging bucket.\<close>

definition create_from_source :: "unidata \<Rightarrow> import_settings \<Rightarrow> import_store \<Rightarrow> import_user \<Rightarrow> timestamp \<Rightarrow> uuid \<Rightarrow>
    create_request \<Rightarrow> source_object \<Rightarrow> jdict \<Rightarrow> import_db \<Rightarrow> session_response reply" where
  "create_from_source ud st io user now i q src manifest db =
     (if sob_bucket src \<noteq> ist_bucket_staging st
         \<or> (iur_role user \<noteq> u ''WORKSPACE_ADMIN'' \<and> \<not> is_prefix (imports_prefix (iur_tenant user)) (sob_key src))
      then problem ''RESOURCE_NOT_FOUND'' db
      else let ref = \<lparr>or_bucket = sob_bucket src, or_key = sob_key src, or_version_id = None\<rparr> in
      (case ios_head io ref of
         Inl e \<Rightarrow> problem (store_code e) db
       | Inr m \<Rightarrow>
           if om_size_bytes m \<noteq> crq_size q \<or> ist_max_bytes st < om_size_bytes m then problem ''OBJECT_CHANGED'' db
           else respond_updated ud st (iur_tenant user) now
             (create_session (new_session user now i q (om_size_bytes m) (sob_key src) (Some (s3a_uri ref)) None UStaged
                (manifest @ [(u ''source_ref'', source_ref_json src m)])) db)))"

definition create_for_upload :: "unidata \<Rightarrow> import_settings \<Rightarrow> import_store \<Rightarrow> import_user \<Rightarrow> timestamp \<Rightarrow> uuid \<Rightarrow>
    create_request \<Rightarrow> ustr \<Rightarrow> jdict \<Rightarrow> import_db \<Rightarrow> session_response reply" where
  "create_for_upload ud st io user now i q key manifest db =
     (case ios_create_multipart io (ist_bucket_staging st) key of
        Inl e \<Rightarrow> problem ''STORAGE_UNAVAILABLE'' db
      | Inr mp \<Rightarrow> respond_updated ud st (iur_tenant user) now
          (create_session (new_session user now i q (crq_size q) key None (Some mp) UInitiated manifest) db))"

definition create_import_session :: "privacy_env \<Rightarrow> unidata \<Rightarrow> import_settings \<Rightarrow> import_store \<Rightarrow> import_user \<Rightarrow>
    timestamp \<Rightarrow> uuid \<Rightarrow> create_request \<Rightarrow> import_db \<Rightarrow> session_response reply" where
  "create_import_session ev ud st io user now i q db0 =
     (if \<not> may_import user then Inl ''Forbidden''
      else case ensure_initialized (pv_rule_id ev) (iur_tenant user) (idb_privacy db0) of Inl e \<Rightarrow> Inl e
      | Inr pdb \<Rightarrow>
     (let db = db0\<lparr>idb_privacy := pdb\<rparr>; fp = request_fingerprint (pv_nt ev) (pv_sha ev) q;
          key = fresh_staging_key (ud_lower ud) (iur_tenant user) i (crq_format q);
          manifest = first_manifest st fp key q in
      case get_by_client_request (iur_tenant user) (iur_id user) (crq_client_request q) db of
        Some s \<Rightarrow> if same_request fp q s then respond ud st (iur_tenant user) now s db else problem ''IMPORT_STATE_CONFLICT'' db
      | None \<Rightarrow>
          if (case crq_asset q of None \<Rightarrow> False
              | Some a \<Rightarrow> \<not> any_of (\<lambda>r. ae_tenant r = iur_tenant user \<and> ae_id r = a) (idb_assets db))
          then problem ''RESOURCE_NOT_FOUND'' db
          else if ist_max_bytes st < crq_size q then problem ''SIZE_LIMIT_EXCEEDED'' db
          else case crq_source q of
            Some src \<Rightarrow> create_from_source ud st io user now i q src manifest db
          | None \<Rightarrow> create_for_upload ud st io user now i q key manifest db))"

text \<open>Reads: one session, and the objects a user may choose from in the staging bucket.\<close>

definition get_import_session :: "unidata \<Rightarrow> import_settings \<Rightarrow> import_user \<Rightarrow> timestamp \<Rightarrow> uuid \<Rightarrow> import_db \<Rightarrow> string + session_response" where
  "get_import_session ud st user now i db =
     (if \<not> may_import user then Inl ''Forbidden''
      else case get_by_id (iur_tenant user) i db of
        None \<Rightarrow> Inl ''NotFound''
      | Some s \<Rightarrow> build_session_response ud st (idb_privacy db) (iur_tenant user) now s)"

definition whole_bucket :: "import_user \<Rightarrow> ustr \<Rightarrow> bool" where
  "whole_bucket user scope \<longleftrightarrow> iur_role user = u ''WORKSPACE_ADMIN'' \<and> scope = u ''staging''"

definition listing_prefix :: "import_user \<Rightarrow> ustr \<Rightarrow> ustr \<Rightarrow> ustr" where
  "listing_prefix user scope prefix =
     (let own = imports_prefix (iur_tenant user) in
      if whole_bucket user scope then prefix
      else if prefix \<noteq> [] \<and> \<not> is_prefix own prefix then own @ lstrip_by (\<lambda>c. c = 47) prefix
      else if prefix = [] then own else prefix)"

text \<open>\<open>list_objects\<close> of the object store gets the bucket, the prefix, the continuation token and the limit.\<close>

definition list_storage_objects :: "import_settings \<Rightarrow> (ustr \<Rightarrow> ustr \<Rightarrow> ustr option \<Rightarrow> int \<Rightarrow> store_error + (object_ref \<times> object_metadata) list \<times> ustr option) \<Rightarrow>
    import_user \<Rightarrow> ustr \<Rightarrow> ustr option \<Rightarrow> int \<Rightarrow> ustr \<Rightarrow> string + (object_ref \<times> object_metadata) list \<times> ustr option" where
  "list_storage_objects st list_objects user prefix token n scope =
     (if \<not> may_import user then Inl ''Forbidden''
      else if scope \<notin> {u ''tenant'', u ''staging''} then Inl ''InvalidScope''
      else if scope = u ''staging'' \<and> iur_role user \<noteq> u ''WORKSPACE_ADMIN'' then Inl ''Forbidden''
      else (case list_objects (ist_bucket_staging st) (listing_prefix user scope prefix) token n of
          Inl e \<Rightarrow> Inl ''StorageUnavailable'' | Inr r \<Rightarrow> Inr r))"

end
