(* ===== verification/ImportWorker.thy ===== *)
theory ImportWorker
  imports ImportSessions
begin

text \<open>
  The routes on an existing upload session (\<open>upload_part\<close>, \<open>complete_import\<close>, \<open>configure_import_session\<close>,
  \<open>abort_import_session\<close>) and \<open>workers/import_worker.py\<close>: claims, heartbeats and the processing of a claimed
  session, which ends in a fenced update.
\<close>

subsection \<open>Parts\<close>

text \<open>The bytes of the request stream; more than the declared length ends the reading.\<close>

fun receive_chunks :: "int \<Rightarrow> nat list \<Rightarrow> nat list list \<Rightarrow> nat list option" where
  "receive_chunks declared got [] = Some got"
| "receive_chunks declared got (c # cs) =
     (if declared < int (length (got @ c)) then None else receive_chunks declared (got @ c) cs)"

definition expected_length :: "int \<Rightarrow> int \<Rightarrow> int \<Rightarrow> int" where
  "expected_length sz part n = min part (sz - (n - 1) * part)"

definition expired :: "timestamp \<Rightarrow> upload_session \<Rightarrow> bool" where
  "expired now s \<longleftrightarrow> ul_expires_at s < now"

text \<open>The part that is on record, if its entry is not empty.\<close>

definition recorded_part :: "upload_session \<Rightarrow> int \<Rightarrow> jdict option" where
  "recorded_part s n = (case map_of (parts_of (ul_manifest s)) (int_text n) of
       Some (JObj (e # es)) \<Rightarrow> Some (e # es) | _ \<Rightarrow> None)"

definition store_part :: "(nat list \<Rightarrow> ustr) \<Rightarrow> (nat list \<Rightarrow> store_error + ustr) \<Rightarrow> upload_session \<Rightarrow> int \<Rightarrow> nat list \<Rightarrow>
    import_db \<Rightarrow> (json \<times> ustr) reply" where
  "store_part sha upload s n bytes db =
     (case recorded_part s n of
        Some p \<Rightarrow>
          if jget_null p ''sha256'' = JStr (sha bytes)
          then (case jget p ''etag'' of None \<Rightarrow> Inl ''KeyError'' | Some e \<Rightarrow> Inr (Inr (e, sha bytes), db))
          else problem ''PART_CHECKSUM_MISMATCH'' db
      | None \<Rightarrow>
          (case upload bytes of
             Inl e \<Rightarrow> Inl ''StorageError''
           | Inr etag \<Rightarrow> Inr (Inr (JStr etag, sha bytes), record_part (ul_id s) n etag (sha bytes) (int (length bytes)) db)))"

definition upload_part :: "(nat list \<Rightarrow> ustr) \<Rightarrow> import_settings \<Rightarrow> (nat list \<Rightarrow> store_error + ustr) \<Rightarrow> import_user \<Rightarrow>
    timestamp \<Rightarrow> uuid \<Rightarrow> int \<Rightarrow> int \<Rightarrow> nat list list \<Rightarrow> import_db \<Rightarrow> (json \<times> ustr) reply" where
  "upload_part sha st upload user now i n content_length chunks db =
     (if \<not> may_import user then Inl ''Forbidden''
      else case get_by_id (iur_tenant user) i db of
        None \<Rightarrow> problem ''RESOURCE_NOT_FOUND'' db
      | Some s \<Rightarrow>
          if expired now s then problem ''IMPORT_EXPIRED'' db
          else if ul_status s \<noteq> UInitiated \<and> ul_status s \<noteq> UUploading then problem ''IMPORT_STATE_CONFLICT'' db
          else if ul_multipart s = None \<or> ul_multipart s = Some [] then problem ''IMPORT_STATE_CONFLICT'' db
          else if n < 1 \<or> max 1 (float_parts (ul_size s) (ist_part_bytes st)) < n then problem ''INVALID_PART_NUMBER'' db
          else if ist_part_bytes st < content_length then problem ''SIZE_LIMIT_EXCEEDED'' db
          else if content_length \<noteq> expected_length (ul_size s) (ist_part_bytes st) n then problem ''CONTENT_LENGTH_MISMATCH'' db
          else (case receive_chunks content_length [] chunks of
              None \<Rightarrow> problem ''CONTENT_LENGTH_MISMATCH'' db
            | Some bytes \<Rightarrow>
                if int (length bytes) \<noteq> content_length then problem ''CONTENT_LENGTH_MISMATCH'' db
                else store_part sha upload s n bytes db))"

subsection \<open>Completion\<close>

definition unquote :: "ustr \<Rightarrow> ustr" where
  "unquote e = strip_by (\<lambda>c. c = 34) e"

definition recorded_size :: "json \<Rightarrow> int" where
  "recorded_size p = (case p of JObj d \<Rightarrow> (case jget d ''size_bytes'' of Some (JInt n) \<Rightarrow> n | _ \<Rightarrow> 0) | _ \<Rightarrow> 0)"

definition recorded_etag :: "jdict \<Rightarrow> int \<Rightarrow> ustr" where
  "recorded_etag ps n = (case map_of ps (int_text n) of
       Some (JObj d) \<Rightarrow> (case jget d ''etag'' of Some (JStr e) \<Rightarrow> e | _ \<Rightarrow> []) | _ \<Rightarrow> [])"

definition parts_complete :: "int \<Rightarrow> upload_session \<Rightarrow> part_etag list \<Rightarrow> bool" where
  "parts_complete part s ps \<longleftrightarrow>
     (let recorded = parts_of (ul_manifest s); expected = [1..float_parts (ul_size s) part]
      in distinct (map pt_number ps) \<and> set (map pt_number ps) = set expected
       \<and> set (map fst recorded) = set (map int_text expected)
       \<and> sum_list (map (\<lambda>(k, p). recorded_size p) recorded) = ul_size s
       \<and> list_all (\<lambda>p. unquote (recorded_etag recorded (pt_number p)) = unquote (pt_etag p)) ps)"

text \<open>When completing fails, the staged object is looked up: an earlier attempt may have succeeded.\<close>

record complete_store =
  cst_complete :: "part_etag list \<Rightarrow> store_error + object_ref \<times> object_metadata"
  cst_head :: "object_ref \<Rightarrow> store_error + object_ref \<times> object_metadata"

definition complete_or_reconcile :: "complete_store \<Rightarrow> import_settings \<Rightarrow> upload_session \<Rightarrow> part_etag list \<Rightarrow>
    string + object_ref \<times> object_metadata" where
  "complete_or_reconcile io st s ps =
     (case cst_complete io ps of
        Inr m \<Rightarrow> Inr m
      | Inl e \<Rightarrow>
          (case cst_head io \<lparr>or_bucket = ist_bucket_staging st, or_key = ul_staging_key s, or_version_id = None\<rparr> of
             Inl e \<Rightarrow> Inl ''STORAGE_UNAVAILABLE''
           | Inr m \<Rightarrow> if om_size_bytes (snd m) \<noteq> ul_size s then Inl ''OBJECT_CHANGED'' else Inr m))"

definition complete_import :: "unidata \<Rightarrow> import_settings \<Rightarrow> complete_store \<Rightarrow> import_user \<Rightarrow> timestamp \<Rightarrow> uuid \<Rightarrow>
    part_etag list \<Rightarrow> import_db \<Rightarrow> session_response reply" where
  "complete_import ud st io user now i ps db =
     (if \<not> may_import user then Inl ''Forbidden''
      else case get_by_id (iur_tenant user) i db of
        None \<Rightarrow> problem ''RESOURCE_NOT_FOUND'' db
      | Some s \<Rightarrow>
          if expired now s then problem ''IMPORT_EXPIRED'' db
          else if ul_status s = UStaged then respond ud st (iur_tenant user) now s db
          else if ul_status s \<noteq> UInitiated \<and> ul_status s \<noteq> UUploading then problem ''IMPORT_STATE_CONFLICT'' db
          else if ul_multipart s = None \<or> ul_multipart s = Some [] then problem ''IMPORT_STATE_CONFLICT'' db
          else if \<not> parts_complete (ist_part_bytes st) s ps then problem ''IMPORT_STATE_CONFLICT'' db
          else (case complete_or_reconcile io st s ps of
              Inl code \<Rightarrow> problem code db
            | Inr m \<Rightarrow>
                if om_size_bytes (snd m) \<noteq> ul_size s then problem ''OBJECT_CHANGED'' db
                else respond_updated ud st (iur_tenant user) now
                  (transition_staged i (iur_tenant user) None (Some (s3a_uri (fst m))) db)))"

subsection \<open>Reconfiguration and abort\<close>

definition column_error :: "upload_session \<Rightarrow> bool" where
  "column_error s \<longleftrightarrow> ul_status s = URejected \<and> (case jget_null (ul_manifest s) ''error_code'' of
       JStr c \<Rightarrow> c = u ''DUPLICATE_COLUMN_NAME'' \<or> c = u ''EMPTY_COLUMN_NAME'' | _ \<Rightarrow> False)"

definition configure_patch :: "ident list \<Rightarrow> jdict" where
  "configure_patch names = [(u ''column_names_mapping'', JArr (map JStr names)), (u ''preview'', JNull), (u ''profile'', JNull),
     (u ''error_code'', JNull), (u ''invalid_params'', JNull)]"

definition configure_import_session :: "unidata \<Rightarrow> import_settings \<Rightarrow> import_user \<Rightarrow> timestamp \<Rightarrow> uuid \<Rightarrow> ident list \<Rightarrow>
    import_db \<Rightarrow> session_response reply" where
  "configure_import_session ud st user now i names db =
     (if \<not> may_import user then Inl ''Forbidden''
      else case get_by_id (iur_tenant user) i db of
        None \<Rightarrow> problem ''RESOURCE_NOT_FOUND'' db
      | Some s \<Rightarrow>
          if expired now s then problem ''IMPORT_EXPIRED'' db
          else if ul_status s \<noteq> UVerified \<and> \<not> column_error s then problem ''IMPORT_STATE_CONFLICT'' db
          else respond_updated ud st (iur_tenant user) now
            (update_status i (iur_tenant user) UStaged None (configure_patch names) db))"

definition abort_import_session :: "unidata \<Rightarrow> import_settings \<Rightarrow> (upload_session \<Rightarrow> store_error + unit) \<Rightarrow> import_user \<Rightarrow>
    timestamp \<Rightarrow> uuid \<Rightarrow> import_db \<Rightarrow> session_response reply" where
  "abort_import_session ud st abort_multipart user now i db =
     (if \<not> may_import user then Inl ''Forbidden''
      else case get_by_id (iur_tenant user) i db of
        None \<Rightarrow> problem ''RESOURCE_NOT_FOUND'' db
      | Some s \<Rightarrow>
          if ul_status s \<notin> {UInitiated, UUploading, UStaged, UVerified, UAborted} then problem ''IMPORT_STATE_CONFLICT'' db
          else (case (if ul_multipart s \<noteq> None \<and> ul_multipart s \<noteq> Some [] \<and> ul_status s \<in> {UInitiated, UUploading}
                      then abort_multipart s else Inr ()) of
              Inl e \<Rightarrow> problem ''STORAGE_UNAVAILABLE'' db
            | Inr x \<Rightarrow> respond_updated ud st (iur_tenant user) now
                (update_status i (iur_tenant user) UAborted (Some (u ''USER_ABORTED'')) [] db)))"

subsection \<open>Leases\<close>

definition upload_seconds :: "int \<Rightarrow> int" where "upload_seconds n = n * 1000000"

definition claimable_upload :: "timestamp \<Rightarrow> upload_session \<Rightarrow> bool" where
  "claimable_upload tx s \<longleftrightarrow> ul_status s = UStaged
     \<or> (ul_status s = UVerifying \<and> (case ul_lease s of None \<Rightarrow> False | Some e \<Rightarrow> e < tx))"

text \<open>\<open>ORDER BY created_at LIMIT 1 FOR UPDATE SKIP LOCKED\<close>: \<open>locked\<close> rows are passed over.\<close>

definition next_upload :: "timestamp \<Rightarrow> (upload_session \<Rightarrow> bool) \<Rightarrow> import_db \<Rightarrow> upload_session option" where
  "next_upload tx locked db =
     (case sort_key ul_created_at (filter (\<lambda>s. claimable_upload tx s \<and> \<not> locked s) (idb_sessions db)) of
        [] \<Rightarrow> None | s # _ \<Rightarrow> Some s)"

definition failed_with :: "string \<Rightarrow> upload_session \<Rightarrow> upload_session" where
  "failed_with code s = s\<lparr>ul_status := UFailed, ul_error := Some (u code)\<rparr>"

definition leased_to :: "ident \<Rightarrow> timestamp \<Rightarrow> int \<Rightarrow> upload_session \<Rightarrow> upload_session" where
  "leased_to worker now secs s = s\<lparr>ul_status := UVerifying, ul_owner := Some worker, ul_generation := ul_generation s + 1,
     ul_attempts := ul_attempts s + 1, ul_lease := Some (now + upload_seconds secs)\<rparr>"

definition claim_next_session :: "import_settings \<Rightarrow> ident \<Rightarrow> timestamp \<Rightarrow> timestamp \<Rightarrow> (upload_session \<Rightarrow> bool) \<Rightarrow>
    import_db \<Rightarrow> upload_session option \<times> import_db" where
  "claim_next_session st worker now tx locked db =
     (case next_upload tx locked db of
        None \<Rightarrow> (None, db)
      | Some s \<Rightarrow>
          if expired now s then (None, update_sessions (\<lambda>r. ul_id r = ul_id s) (failed_with ''IMPORT_EXPIRED'') db)
          else if 3 < ul_attempts s + 1
          then (None, update_sessions (\<lambda>r. ul_id r = ul_id s) (failed_with ''IMPORT_RETRY_EXHAUSTED'') db)
          else (Some (leased_to worker now (ist_lease_seconds st) s),
                update_sessions (\<lambda>r. ul_id r = ul_id s) (leased_to worker now (ist_lease_seconds st)) db))"

definition holds_upload :: "ident \<Rightarrow> timestamp \<Rightarrow> uuid \<Rightarrow> int \<Rightarrow> upload_session \<Rightarrow> bool" where
  "holds_upload worker tx i gen s \<longleftrightarrow> ul_id s = i \<and> ul_generation s = gen \<and> ul_owner s = Some worker
     \<and> (case ul_lease s of None \<Rightarrow> False | Some e \<Rightarrow> tx \<le> e) \<and> ul_status s = UVerifying"

definition upload_heartbeat :: "import_settings \<Rightarrow> ident \<Rightarrow> timestamp \<Rightarrow> timestamp \<Rightarrow> uuid \<Rightarrow> int \<Rightarrow> import_db \<Rightarrow> bool \<times> import_db" where
  "upload_heartbeat st worker now tx i gen db =
     (any_of (holds_upload worker tx i gen) (idb_sessions db),
      update_sessions (holds_upload worker tx i gen) (\<lambda>s. s\<lparr>ul_lease := Some (now + upload_seconds (ist_lease_seconds st))\<rparr>) db)"

subsection \<open>Processing\<close>

record inspection =
  isp_raw_ref :: object_ref
  isp_canonical_ref :: object_ref
  isp_raw_sha :: ustr
  isp_canonical_sha :: ustr
  isp_raw_size :: int
  isp_canonical_size :: int
  isp_rows :: int
  isp_columns :: json
  isp_preview :: json
  isp_profile :: json
  isp_warnings :: "ident list"
  isp_normalization :: int
  isp_scan :: json

text \<open>An \<open>ImportInspectionException\<close>, one of the caught infrastructure errors, or any other exception.\<close>

datatype import_failure = Refused ident json | Broken | Uncaught string

record inspect_task =
  itk_source :: object_ref
  itk_bucket :: ustr
  itk_prefix :: ustr
  itk_format :: ustr
  itk_mapping :: json
  itk_delimiter :: json
  itk_private :: "ident list"
  itk_rules :: "privacy_detector_rule list"

definition declared_protection :: "privacy_db \<Rightarrow> uuid \<Rightarrow> uuid \<Rightarrow> int \<times> ident list" where
  "declared_protection db t a = (revision_of db t a,
     sort (map cl_column (filter (\<lambda>c. cl_tenant c = t \<and> cl_asset c = a \<and> cl_category c \<in> set SENSITIVE_CATEGORIES) (pd_classes db))))"

definition snapshot_prefix :: "upload_session \<Rightarrow> ustr" where
  "snapshot_prefix s = tenant_prefix (ul_tenant s) @ uuid_str (ul_id s) @ u ''/attempt-'' @ int_text (ul_generation s)"

definition stored_ref_json :: "object_ref \<Rightarrow> ustr \<Rightarrow> int \<Rightarrow> ustr \<Rightarrow> jdict" where
  "stored_ref_json r sha sz fmt = [(u ''bucket'', JStr (or_bucket r)), (u ''key'', JStr (or_key r)),
     (u ''version_id'', opt_str (or_version_id r)), (u ''content_sha256'', JStr sha), (u ''size_bytes'', JInt sz),
     (u ''format'', JStr fmt)]"

definition source_descriptor :: "ustr \<Rightarrow> inspection \<Rightarrow> jdict" where
  "source_descriptor fmt x = stored_ref_json (isp_raw_ref x) (isp_raw_sha x) (isp_raw_size x) fmt
     @ [(u ''canonical'', JObj (stored_ref_json (isp_canonical_ref x) (isp_canonical_sha x) (isp_canonical_size x) (u ''PARQUET'')
            @ [(u ''s3a_uri'', JStr (s3a_uri (isp_canonical_ref x)))])),
        (u ''normalization_version'', JInt (isp_normalization x))]"

definition verified_patch :: "ustr \<Rightarrow> inspection \<Rightarrow> pinned_rules \<Rightarrow> int \<Rightarrow> jdict" where
  "verified_patch fmt x pin version =
     [(u ''source_descriptor'', JObj (source_descriptor fmt x)), (u ''columns'', isp_columns x),
      (u ''exact_row_count'', JInt (isp_rows x)), (u ''preview'', isp_preview x), (u ''profile'', isp_profile x),
      (u ''warnings'', JArr (map JStr (isp_warnings x))), (u ''normalization_version'', JInt (isp_normalization x)),
      (u ''sensitive_scan'', isp_scan x), (u ''privacy_rules'', JArr (map rule_json (pin_rules_of pin))),
      (u ''privacy_config_version'', JInt (pin_config_version pin)), (u ''privacy_detector_digest'', JStr (pin_digest pin)),
      (u ''policy_version'', JInt version), (u ''error_code'', JNull), (u ''invalid_params'', JNull)]"

definition settle :: "ident \<Rightarrow> timestamp \<Rightarrow> upload_session \<Rightarrow> (upload_session \<Rightarrow> upload_session) \<Rightarrow> import_db \<Rightarrow> import_db" where
  "settle worker tx claimed f = update_sessions (holds_upload worker tx (ul_id claimed) (ul_generation claimed)) f"

definition patched :: "upload_status \<Rightarrow> ident option \<Rightarrow> jdict \<Rightarrow> upload_session \<Rightarrow> upload_session" where
  "patched status reason patch s =
     s\<lparr>ul_status := status, ul_error := reason, ul_manifest := merge_manifest (ul_manifest s) patch\<rparr>"

definition outcome_patch :: "ustr \<Rightarrow> pinned_rules \<Rightarrow> int \<Rightarrow> import_failure + inspection \<Rightarrow> jdict" where
  "outcome_patch fmt pin version outcome = (case outcome of
       Inr x \<Rightarrow> verified_patch fmt x pin version
     | Inl (Refused code params) \<Rightarrow> [(u ''error_code'', JStr code), (u ''invalid_params'', params)]
     | Inl f \<Rightarrow> [(u ''error_code'', JStr (u ''INTERNAL_WORKER_ERROR''))])"

definition settled :: "ustr \<Rightarrow> pinned_rules \<Rightarrow> int \<Rightarrow> import_failure + inspection \<Rightarrow> upload_session \<Rightarrow> upload_session" where
  "settled fmt pin version outcome s = (case outcome of
       Inr x \<Rightarrow> (patched UVerified None (outcome_patch fmt pin version outcome) s)\<lparr>ul_sha := Some (isp_raw_sha x),
           ul_destination := Some (s3a_uri (isp_canonical_ref x))\<rparr>
     | Inl (Refused code params) \<Rightarrow> patched URejected (Some code) (outcome_patch fmt pin version outcome) s
     | Inl f \<Rightarrow> patched UFailed (Some (u ''INTERNAL_WORKER_ERROR'')) (outcome_patch fmt pin version outcome) s)"

text \<open>The selected object of the manifest must still be the current one; \<open>head\<close> can fail.\<close>

definition source_check :: "(object_ref \<Rightarrow> import_failure + staged_metadata) \<Rightarrow> object_ref \<Rightarrow> json \<Rightarrow> import_failure + unit" where
  "source_check head ref selected =
     (if \<not> truthy selected then Inr ()
      else case head ref of
        Inl e \<Rightarrow> Inl e
      | Inr m \<Rightarrow> (case selected of
          JObj d \<Rightarrow> if JStr (om_etag m) \<noteq> jget_null d ''etag'' \<or> opt_str (om_version_id m) \<noteq> jget_null d ''version_id''
                       \<or> JInt (om_size_bytes m) \<noteq> jget_null d ''size_bytes''
                    then Inl (Refused (u ''OBJECT_CHANGED'') JNull) else Inr ()
        | _ \<Rightarrow> Inl (Uncaught ''AttributeError'')))"

record worker_world =
  ww_versioned :: bool
  ww_head :: "object_ref \<Rightarrow> import_failure + staged_metadata"
  ww_inspect :: "inspect_task \<Rightarrow> import_failure + inspection"

definition task_of :: "import_settings \<Rightarrow> upload_session \<Rightarrow> ident list \<Rightarrow> pinned_rules \<Rightarrow> ustr \<Rightarrow> inspect_task" where
  "task_of st c private pin bucket =
     \<lparr>itk_source = \<lparr>or_bucket = bucket, or_key = ul_staging_key c, or_version_id = None\<rparr>,
       itk_bucket = ist_bucket_snapshots st, itk_prefix = snapshot_prefix c, itk_format = ul_format c,
       itk_mapping = jget_null (ul_manifest c) ''column_names_mapping'',
       itk_delimiter = (case py_or (jget_null (ul_manifest c) ''csv_options'') (JObj []) of
           JObj d \<Rightarrow> (case jget d ''delimiter'' of None \<Rightarrow> JStr [44] | Some x \<Rightarrow> x) | _ \<Rightarrow> JNull),
       itk_private = private, itk_rules = pin_rules_of pin\<rparr>"

definition staging_bucket_of :: "import_settings \<Rightarrow> jdict \<Rightarrow> ustr" where
  "staging_bucket_of st m = (case py_or (jget_null m ''staging_bucket'') (JStr (ist_bucket_staging st)) of JStr b \<Rightarrow> b | _ \<Rightarrow> [])"

text \<open>
  The outcome of the inspection of a claimed session \<open>c\<close>; \<open>before\<close> and \<open>later\<close> are the privacy tables when
  it starts and when it is over: an asset whose protection changed meanwhile is refused.
\<close>

definition inspected :: "import_settings \<Rightarrow> worker_world \<Rightarrow> upload_session \<Rightarrow> pinned_rules \<Rightarrow> privacy_db \<Rightarrow> privacy_db \<Rightarrow>
    import_failure + inspection" where
  "inspected st w c pin before later =
     (let prot = (case ul_asset c of None \<Rightarrow> (0, []) | Some a \<Rightarrow> declared_protection before (ul_tenant c) a);
          task = task_of st c (snd prot) pin (staging_bucket_of st (ul_manifest c))
      in case source_check (ww_head w) (itk_source task) (jget_null (ul_manifest c) ''source_ref'') of Inl e \<Rightarrow> Inl e
      | Inr x \<Rightarrow> (case ww_inspect w task of Inl e \<Rightarrow> Inl e
        | Inr r \<Rightarrow>
            (if (case ul_asset c of None \<Rightarrow> False | Some a \<Rightarrow> fst (declared_protection later (ul_tenant c) a) \<noteq> fst prot)
             then Inl (Refused (u ''POLICY_CHANGED'') JNull) else Inr r)))"

text \<open>
  \<open>process_session\<close> is one transaction, which began at \<open>tx\<close>; \<open>meanwhile\<close> is what others commit during it. A
  manifest the database refuses to store raises an error that is not caught.
\<close>

definition settle_outcome :: "ident \<Rightarrow> timestamp \<Rightarrow> upload_session \<Rightarrow> pinned_rules \<Rightarrow> int \<Rightarrow> import_failure + inspection \<Rightarrow>
    import_db \<Rightarrow> string + import_db" where
  "settle_outcome worker tx c pin version outcome db =
     (case outcome of
        Inl (Uncaught e) \<Rightarrow> Inl e
      | _ \<Rightarrow> if \<not> jsonb_ok (JObj (outcome_patch (ul_format c) pin version outcome)) then Inl ''DataError''
             else Inr (settle worker tx c (settled (ul_format c) pin version outcome) db))"

definition process_session :: "privacy_env \<Rightarrow> import_settings \<Rightarrow> worker_world \<Rightarrow> ident \<Rightarrow> timestamp \<Rightarrow> upload_session \<Rightarrow>
    (import_db \<Rightarrow> import_db) \<Rightarrow> import_db \<Rightarrow> string + import_db" where
  "process_session ev st w worker tx c meanwhile db0 =
     (case load_pinned_rules (pv_nt ev) (pv_sha ev) (pv_rule_id ev) (ul_tenant c) (idb_privacy db0) of
        Inl e \<Rightarrow> Inl e
      | Inr (pin, pdb) \<Rightarrow>
          (let db = db0\<lparr>idb_privacy := pdb\<rparr>; later = meanwhile db in
           if \<not> ww_versioned w
           then Inr (settle worker tx c (patched UFailed (Some (u ''SNAPSHOT_VERSIONING_REQUIRED''))
                  [(u ''error_code'', JStr (u ''SNAPSHOT_VERSIONING_REQUIRED''))]) later)
           else settle_outcome worker tx c pin
                  (case ul_asset c of None \<Rightarrow> 0 | Some a \<Rightarrow> fst (declared_protection (idb_privacy db) (ul_tenant c) a))
                  (inspected st w c pin (idb_privacy db) (idb_privacy later)) later))"

end
