(* ===== verification/ImportRegister.thy ===== *)
theory ImportRegister
  imports ImportWorker AssessStore
begin

text \<open>
  \<open>services/dataset_import_service.py\<close>: \<open>register_snapshot\<close> turns a verified upload session into an immutable
  snapshot of a new or an existing asset, with the privacy scan that was made during the import. The route
  answers an \<open>ImportRegistrationError\<close> with a problem response, so the transaction commits; other exceptions
  roll it back.
\<close>

subsection \<open>JSON of the manifest\<close>

text \<open>The dictionary \<open>PrivacyScanner.finish\<close> returns.\<close>

definition finding_dict :: "finding \<Rightarrow> json" where
  "finding_dict f = JObj
     [(u ''column_name'', JStr (fi_column_name f)), (u ''path'', JStr (fi_path f)), (u ''category'', JStr (fi_category f)),
      (u ''detector_code'', JStr (fi_detector_code f)), (u ''rule_id'', opt_str (fi_rule_id f)),
      (u ''rule_revision'', opt_int (fi_rule_revision f)), (u ''matched_count'', JInt (int (fi_matched_count f))),
      (u ''observed_count'', JInt (int (fi_observed_count f))), (u ''method'', JStr (fi_method f)),
      (u ''detector_revision'', JStr (fi_detector_revision f)), (u ''confidence_score'', JFloat (fi_confidence_score f))]"

definition report_dict :: "scan_report \<Rightarrow> json" where
  "report_dict r = JObj
     [(u ''status'', JStr (u ''COMPLETE'')), (u ''detector_revision'', JStr BUILTIN_DETECTOR_REVISION),
      (u ''total_rows'', JInt (int (sr_total_rows r))), (u ''findings'', JArr (map finding_dict (sr_findings r))),
      (u ''sensitive_columns'', JArr (map JStr (sr_sensitive_columns r))),
      (u ''scope_missing_columns'', JArr (map listed_gap (sr_scope_missing r)))]"

text \<open>A value in an f-string; numbers and containers that do not occur there are left empty.\<close>

definition fmt_text :: "json \<Rightarrow> ustr" where
  "fmt_text v = (case v of JStr s \<Rightarrow> s | JNull \<Rightarrow> u ''None'' | JBool b \<Rightarrow> (if b then u ''True'' else u ''False'')
     | JInt i \<Rightarrow> int_text i | _ \<Rightarrow> [])"

definition jget_or :: "jdict \<Rightarrow> string \<Rightarrow> json \<Rightarrow> json" where
  "jget_or d k v = (case jget d k of None \<Rightarrow> v | Some x \<Rightarrow> x)"

definition as_dict :: "json \<Rightarrow> string + jdict" where
  "as_dict v = (case v of JObj d \<Rightarrow> Inr d | _ \<Rightarrow> Inl ''AttributeError'')"

text \<open>\<open>x in v\<close> for a text \<open>x\<close>.\<close>

definition json_in :: "ustr \<Rightarrow> json \<Rightarrow> string + bool" where
  "json_in x v = (case v of JArr xs \<Rightarrow> Inr (JStr x \<in> set xs) | JObj d \<Rightarrow> Inr (x \<in> fst ` set d)
     | JStr s \<Rightarrow> Inr (occurs x s) | _ \<Rightarrow> Inl ''TypeError'')"

definition json_count :: "json \<Rightarrow> string + int" where
  "json_count v = (case v of JInt i \<Rightarrow> Inr i | JBool b \<Rightarrow> Inr (if b then 1 else 0)
     | JFloat x \<Rightarrow> Inr (if 0 \<le> x then \<lfloor>x\<rfloor> else \<lceil>x\<rceil>) | _ \<Rightarrow> Inl ''TypeError'')"

definition opt_int_of :: "json \<Rightarrow> int option" where
  "opt_int_of v = (case v of JInt i \<Rightarrow> Some i | _ \<Rightarrow> None)"

definition opt_text_of :: "json \<Rightarrow> ustr option" where
  "opt_text_of v = (case v of JStr s \<Rightarrow> Some s | _ \<Rightarrow> None)"

subsection \<open>Pinned rules in JSON\<close>

definition kind_of_text :: "ident \<Rightarrow> rule_kind option" where
  "kind_of_text s = (if s = u ''BUILTIN'' then Some KBuiltin else if s = u ''COLUMN_NAME'' then Some KColumnName
     else if s = u ''VALUE_PATTERN'' then Some KValuePattern else None)"

definition texts_of :: "json \<Rightarrow> ustr list option" where
  "texts_of v = (case v of JArr xs \<Rightarrow>
       (if list_all (\<lambda>x. opt_text_of x \<noteq> None) xs then Some (map (\<lambda>x. the (opt_text_of x)) xs) else None)
     | _ \<Rightarrow> None)"

text \<open>\<open>PrivacyDetectorRule.model_validate\<close> on what \<open>model_dump\<close> wrote.\<close>

definition rule_of_json :: "json \<Rightarrow> privacy_detector_rule option" where
  "rule_of_json v = (case v of
       JObj d \<Rightarrow>
         (case (jget d ''rule_id'', jget d ''revision'', jget d ''code'', jget d ''kind'', jget d ''category'', jget d ''enabled'',
                jget d ''match_mode'', jget d ''case_sensitive'', texts_of (jget_null d ''columns'')) of
            (Some (JStr i), Some (JInt n), Some (JStr c), Some (JStr k), Some (JStr cat), Some (JBool en),
             Some (JStr mode), Some (JBool cs), Some cols) \<Rightarrow>
              (case (uuid_of_str i, kind_of_text k) of
                 (Some rid, Some kind) \<Rightarrow> Some
                   \<lparr>pr_rule_id = rid, pr_revision = n, pr_code = c, pr_kind = kind, pr_category = cat, pr_enabled = en,
                     pr_builtin_code = opt_text_of (jget_null d ''builtin_code''), pr_pattern = opt_text_of (jget_null d ''pattern''),
                     pr_full = (mode = u ''FULL''), pr_case_sensitive = cs, pr_columns = cols\<rparr>
               | _ \<Rightarrow> None)
          | _ \<Rightarrow> None)
     | _ \<Rightarrow> None)"

definition rules_of_json :: "json \<Rightarrow> privacy_detector_rule list" where
  "rules_of_json v = (case v of JArr xs \<Rightarrow> map (\<lambda>x. the (rule_of_json x)) (filter (\<lambda>x. rule_of_json x \<noteq> None) xs) | _ \<Rightarrow> [])"

subsection \<open>The steps of a registration\<close>

text \<open>\<open>re.sub(r"[^a-z0-9]+", "-", s)\<close>.\<close>

fun dash_runs :: "bool \<Rightarrow> ustr \<Rightarrow> ustr" where
  "dash_runs in_run [] = []"
| "dash_runs in_run (c # cs) =
     (if (97 \<le> c \<and> c \<le> 122) \<or> (48 \<le> c \<and> c \<le> 57) then c # dash_runs False cs
      else if in_run then dash_runs True cs else 45 # dash_runs True cs)"

definition asset_slug :: "(nat \<Rightarrow> nat list) \<Rightarrow> ustr \<Rightarrow> uuid \<Rightarrow> ustr" where
  "asset_slug lower name i =
     strip_by (\<lambda>c. c = 45) (dash_runs False (py_lower lower name)) @ [45] @ take 6 (hex_digits 32 i)"

definition find_entry :: "import_db \<Rightarrow> uuid \<Rightarrow> uuid \<Rightarrow> snapshot_entry option" where
  "find_entry db t s = find (\<lambda>r. se_id r = s \<and> se_tenant r = t) (idb_snapshots db)"

text \<open>The target asset: created under its name, or locked. The problem code of a failure leaves the tables as they were.\<close>

definition insert_asset :: "(nat \<Rightarrow> nat list) \<Rightarrow> uuid \<Rightarrow> timestamp \<Rightarrow> upload_session \<Rightarrow> uuid \<Rightarrow> import_db \<Rightarrow>
    string + (string + uuid) \<times> import_db" where
  "insert_asset lower user now s fresh db =
     (case ul_name s of
        None \<Rightarrow> Inl ''AttributeError''
      | Some n \<Rightarrow>
          (let name = py_strip n; slug = asset_slug lower name fresh in
           if any_of (\<lambda>a. ae_tenant a = ul_tenant s \<and> ae_name a = name) (idb_assets db)
           then Inr (Inl ''ASSET_NAME_CONFLICT'', db)
           else if any_of (\<lambda>a. ae_id a = fresh \<or> (ae_tenant a = ul_tenant s \<and> ae_slug a = slug)) (idb_assets db)
           then Inl ''UniqueViolation''
           else Inr (Inr fresh, db
             \<lparr>idb_assets := idb_assets db @ [\<lparr>ae_id = fresh, ae_tenant = ul_tenant s, ae_name = name, ae_slug = slug,
                 ae_format = ul_format s, ae_owner = user, ae_created_by = user, ae_created_at = now, ae_current = None,
                 ae_versions = 0\<rparr>],
               idb_privacy := (idb_privacy db)\<lparr>pd_assets := pd_assets (idb_privacy db)
                 @ [\<lparr>as_tenant = ul_tenant s, as_id = fresh\<rparr>]\<rparr>\<rparr>)))"

definition resolve_asset :: "(nat \<Rightarrow> nat list) \<Rightarrow> uuid \<Rightarrow> timestamp \<Rightarrow> upload_session \<Rightarrow> uuid \<Rightarrow> import_db \<Rightarrow>
    string + (string + uuid) \<times> import_db" where
  "resolve_asset lower user now s fresh db =
     (case ul_asset s of
        None \<Rightarrow> insert_asset lower user now s fresh db
      | Some a \<Rightarrow> if any_of (\<lambda>r. ae_tenant r = ul_tenant s \<and> ae_id r = a) (idb_assets db) then Inr (Inr a, db)
                  else Inr (Inl ''RESOURCE_NOT_FOUND'', db))"

definition same_raw :: "uuid \<Rightarrow> uuid \<Rightarrow> json \<Rightarrow> snapshot_entry \<Rightarrow> bool" where
  "same_raw t a sha r \<longleftrightarrow> se_tenant r = t \<and> se_asset r = a \<and> JStr (se_sha r) = sha \<and> se_object_file r"

definition canonical_sha :: "jdict \<Rightarrow> string + json" where
  "canonical_sha desc = (case as_dict (jget_or desc ''canonical'' (JObj [])) of
       Inl e \<Rightarrow> Inl e | Inr c \<Rightarrow> Inr (jget_null c ''content_sha256''))"

definition next_version :: "uuid \<Rightarrow> uuid \<Rightarrow> import_db \<Rightarrow> int" where
  "next_version t a db =
     fold max (map se_version (filter (\<lambda>r. se_tenant r = t \<and> se_asset r = a) (idb_snapshots db))) 0 + 1"

definition mark_registered :: "uuid \<Rightarrow> uuid \<Rightarrow> uuid \<Rightarrow> uuid \<Rightarrow> import_db \<Rightarrow> import_db" where
  "mark_registered t i a s = update_sessions (owned_by t i)
     (\<lambda>r. r\<lparr>ul_status := URegistered, ul_asset := Some a, ul_registered := Some s\<rparr>)"

text \<open>The schema document of the snapshot and its storage location.\<close>

definition schema_of :: "json \<Rightarrow> jdict \<Rightarrow> jdict" where
  "schema_of columns scan = [(u ''columns'', columns), (u ''privacy'', JObj
     [(u ''detector_revision'', jget_or scan ''detector_revision'' (JStr BUILTIN_DETECTOR_REVISION)),
      (u ''sensitive_columns'', jget_or scan ''sensitive_columns'' (JArr []))])]"

definition storage_of :: "jdict \<Rightarrow> ustr" where
  "storage_of c = (if truthy (jget_null c ''s3a_uri'') then fmt_text (jget_null c ''s3a_uri'')
     else u ''s3a://'' @ fmt_text (jget_null c ''bucket'') @ [47] @ fmt_text (jget_null c ''key''))"

definition parent_of :: "json \<Rightarrow> string + uuid option" where
  "parent_of v = (if \<not> truthy v then Inr None
     else case uuid_of_str (fmt_text v) of None \<Rightarrow> Inl ''ValueError'' | Some n \<Rightarrow> Inr (Some n))"

text \<open>Keys and checks of the snapshot table.\<close>

definition insert_snapshot :: "snapshot_entry \<Rightarrow> import_db \<Rightarrow> string + import_db" where
  "insert_snapshot r db =
     (if any_of (\<lambda>x. se_id x = se_id r \<or> (se_tenant x = se_tenant r \<and> se_asset x = se_asset r \<and> se_version x = se_version r)
           \<or> (se_object_file x \<and> se_object_file r \<and> se_tenant x = se_tenant r \<and> se_asset x = se_asset r \<and> se_sha x = se_sha r))
         (idb_snapshots db)
         \<or> se_version r < 1 \<or> length (se_sha r) \<noteq> 64 \<or> se_rows r < 0 \<or> se_columns r \<le> 0
      then Inl ''IntegrityError''
      else Inr (db\<lparr>idb_snapshots := idb_snapshots db @ [r],
        idb_privacy := (idb_privacy db)\<lparr>pd_snapshots := pd_snapshots (idb_privacy db)
          @ [\<lparr>ps_tenant = se_tenant r, ps_id = se_id r, ps_asset = se_asset r, ps_schema = Some (se_schema r),
               ps_manifest = Some (se_manifest r)\<rparr>]\<rparr>\<rparr>))"

text \<open>The completed scan, kept only when the manifest names a configuration.\<close>

definition import_job :: "timestamp \<Rightarrow> uuid \<Rightarrow> uuid \<Rightarrow> uuid \<Rightarrow> uuid \<Rightarrow> int \<Rightarrow> jdict \<Rightarrow> jdict \<Rightarrow> int \<Rightarrow> ustr \<Rightarrow> job_row" where
  "import_job tx scan t s user rows manifest scanned version digest =
     \<lparr>jb_id = scan, jb_tenant = t, jb_snapshot = s, jb_requested_by = user, jb_state = SComplete, jb_purpose = Apply,
       jb_rules = rules_of_json (jget_or manifest ''privacy_rules'' (JArr [])), jb_config_version = version, jb_digest = digest,
       jb_created_at = tx, jb_owner = None, jb_generation = 0, jb_expires = None, jb_attempts = 0, jb_error = None,
       jb_summary = Some (JObj [(u ''total_rows'', JInt rows),
         (u ''scope_missing_columns'', jget_or scanned ''scope_missing_columns'' (JArr []))])\<rparr>"

definition insert_import_job :: "timestamp \<Rightarrow> uuid \<Rightarrow> uuid \<Rightarrow> uuid \<Rightarrow> uuid \<Rightarrow> int \<Rightarrow> jdict \<Rightarrow> jdict \<Rightarrow> privacy_db \<Rightarrow>
    string + uuid option \<times> privacy_db" where
  "insert_import_job tx scan t s user rows manifest scanned db =
     (case jget_null manifest ''privacy_config_version'' of
        JNull \<Rightarrow> Inr (None, db)
      | JInt version \<Rightarrow>
          (case jget manifest ''privacy_detector_digest'' of
             None \<Rightarrow> Inl ''KeyError''
           | Some (JStr digest) \<Rightarrow>
               if version < 0 \<or> \<not> hex64 digest \<or> (case jget_or manifest ''privacy_rules'' (JArr []) of JArr xs \<Rightarrow> False | _ \<Rightarrow> True)
                  \<or> any_of (\<lambda>j. jb_id j = scan) (pd_jobs db)
               then Inl ''IntegrityError''
               else Inr (Some scan, db\<lparr>pd_jobs := pd_jobs db @ [import_job tx scan t s user rows manifest scanned version digest]\<rparr>)
           | Some x \<Rightarrow> Inl ''IntegrityError'')
      | _ \<Rightarrow> Inl ''IntegrityError'')"

definition import_finding :: "(ustr \<Rightarrow> uuid) \<Rightarrow> uuid \<Rightarrow> uuid \<Rightarrow> uuid option \<Rightarrow> json \<Rightarrow> string + find_row" where
  "import_finding uuid5 t s scan v = (case as_dict v of Inl e \<Rightarrow> Inl e | Inr d \<Rightarrow>
     (case (jget d ''column_name'', jget d ''category'') of
        (Some (JStr col), Some (JStr cat)) \<Rightarrow>
          (let path = fmt_text (jget_or d ''path'' (JStr [])); code = fmt_text (jget_null d ''detector_code'');
               revision = fmt_text (jget_or d ''detector_revision'' (JStr BUILTIN_DETECTOR_REVISION)) in
           case (json_count (jget_or d ''matched_count'' (JInt 0)), json_count (jget_or d ''observed_count'' (JInt 0))) of
             (Inr m, Inr n) \<Rightarrow>
               if m < 0 \<or> n < m then Inl ''IntegrityError''
               else Inr \<lparr>fr_id = generate_finding_id uuid5 (case scan of None \<Rightarrow> s | Some i \<Rightarrow> i) col path code revision,
                 fr_tenant = t, fr_snapshot = s, fr_column = col, fr_path = path, fr_category = cat, fr_status = u ''DETECTED'',
                 fr_code = code, fr_matched = nat m, fr_observed = nat n, fr_rule_id = opt_text_of (jget_null d ''rule_id''),
                 fr_rule_revision = (if truthy (jget_null d ''rule_id'') then opt_int_of (jget_null d ''rule_revision'') else None),
                 fr_scan = scan, fr_reason = None, fr_reviewed_by = None, fr_reviewed_at = None\<rparr>
           | _ \<Rightarrow> Inl ''IntegrityError'')
      | (None, _) \<Rightarrow> Inl ''KeyError'' | (_, None) \<Rightarrow> Inl ''KeyError'' | _ \<Rightarrow> Inl ''IntegrityError''))"

text \<open>\<open>ON CONFLICT DO NOTHING\<close> on the primary key and on the identity of a rule's finding within a scan.\<close>

definition same_finding :: "find_row \<Rightarrow> find_row \<Rightarrow> bool" where
  "same_finding f g \<longleftrightarrow> fr_id f = fr_id g
     \<or> (fr_scan f \<noteq> None \<and> fr_rule_id f \<noteq> None \<and> fr_rule_revision f \<noteq> None \<and> fr_tenant f = fr_tenant g \<and> fr_scan f = fr_scan g
        \<and> fr_column f = fr_column g \<and> fr_path f = fr_path g \<and> fr_rule_id f = fr_rule_id g \<and> fr_rule_revision f = fr_rule_revision g)"

definition add_finding :: "find_row \<Rightarrow> find_row list \<Rightarrow> find_row list" where
  "add_finding f fs = (if any_of (same_finding f) fs then fs else fs @ [f])"

definition insert_findings :: "(ustr \<Rightarrow> uuid) \<Rightarrow> uuid \<Rightarrow> uuid \<Rightarrow> uuid option \<Rightarrow> jdict \<Rightarrow> privacy_db \<Rightarrow> string + privacy_db" where
  "insert_findings uuid5 t s scan scanned db =
     (case iter_json (Some (py_or (jget_null scanned ''findings'') (JArr []))) of Inl e \<Rightarrow> Inl e | Inr xs \<Rightarrow>
     (case each (import_finding uuid5 t s scan) xs of Inl e \<Rightarrow> Inl e
      | Inr rows \<Rightarrow> Inr (db\<lparr>pd_findings := fold add_finding rows (pd_findings db)\<rparr>)))"

subsection \<open>Registration\<close>

definition published_snapshot :: "uuid \<Rightarrow> timestamp \<Rightarrow> uuid \<Rightarrow> uuid \<Rightarrow> uuid \<Rightarrow> jdict \<Rightarrow> jdict \<Rightarrow> ustr \<Rightarrow> ustr \<Rightarrow> jdict \<Rightarrow> int \<Rightarrow> nat \<Rightarrow>
    uuid option \<Rightarrow> int \<Rightarrow> snapshot_entry" where
  "published_snapshot user now t a s manifest desc sha storage schema rows cols parent version =
     \<lparr>se_id = s, se_tenant = t, se_asset = a, se_version = version, se_parent = parent, se_object_file = True,
       se_descriptor = desc, se_sha = sha, se_storage = storage, se_schema = schema, se_rows = rows, se_columns = int cols,
       se_created_by = user, se_captured_at = now, se_manifest = manifest\<rparr>"

definition bump_asset :: "uuid \<Rightarrow> uuid \<Rightarrow> uuid \<Rightarrow> import_db \<Rightarrow> import_db" where
  "bump_asset t a s db = db\<lparr>idb_assets := map (\<lambda>r. if ae_tenant r = t \<and> ae_id r = a
     then r\<lparr>ae_current := Some s, ae_versions := ae_versions r + 1\<rparr> else r) (idb_assets db)\<rparr>"

record import_ids =
  iid_asset :: uuid
  iid_snapshot :: uuid
  iid_scan :: uuid

text \<open>Steps 4 to 7: a new version of the asset.\<close>

definition add_version :: "privacy_env \<Rightarrow> timestamp \<Rightarrow> timestamp \<Rightarrow> uuid \<Rightarrow> import_ids \<Rightarrow> upload_session \<Rightarrow> uuid \<Rightarrow> jdict \<Rightarrow> jdict \<Rightarrow>
    import_db \<Rightarrow> string + snapshot_entry \<times> import_db" where
  "add_version ev now tx user ids s a desc canonical db =
     (let m = ul_manifest s; t = ul_tenant s; columns = py_or (jget_null m ''columns'') (JArr []) in
      case as_dict (py_or (jget_null m ''sensitive_scan'') (JObj [])) of Inl e \<Rightarrow> Inl e | Inr scanned \<Rightarrow>
     (case (json_count (py_or (jget_null m ''exact_row_count'') (JInt 0)), json_len (Some columns),
            parent_of (jget_null m ''parent_snapshot_id''), jget_null desc ''content_sha256'') of
        (Inr rows, Inr cols, Inr parent, JStr sha) \<Rightarrow>
          (let r = published_snapshot user now t a (iid_snapshot ids) m desc sha (storage_of canonical) (schema_of columns scanned)
                 rows cols parent (next_version t a db) in
           case insert_snapshot r db of Inl e \<Rightarrow> Inl e | Inr db1 \<Rightarrow>
          (case insert_import_job tx (iid_scan ids) t (iid_snapshot ids) user rows m scanned (idb_privacy db1) of Inl e \<Rightarrow> Inl e
           | Inr (scan, p1) \<Rightarrow>
          (case insert_findings (pv_uuid5 ev) t (iid_snapshot ids) scan scanned p1 of Inl e \<Rightarrow> Inl e
           | Inr p2 \<Rightarrow> Inr (r, mark_registered t (ul_id s) a (iid_snapshot ids)
               (bump_asset t a (iid_snapshot ids) (db1\<lparr>idb_privacy := p2\<rparr>))))))
      | (Inl e, _) \<Rightarrow> Inl e | (_, Inl e, _) \<Rightarrow> Inl e | (_, _, Inl e, _) \<Rightarrow> Inl e | _ \<Rightarrow> Inl ''IntegrityError''))"

text \<open>Steps 2 and 3, for a verified session with its descriptor.\<close>

definition register_verified :: "privacy_env \<Rightarrow> (nat \<Rightarrow> nat list) \<Rightarrow> timestamp \<Rightarrow> timestamp \<Rightarrow> uuid \<Rightarrow> import_ids \<Rightarrow> upload_session \<Rightarrow>
    jdict \<Rightarrow> import_db \<Rightarrow> snapshot_entry reply" where
  "register_verified ev lower now tx user ids s desc db0 =
     (case as_dict (jget_or desc ''canonical'' (JObj [])) of Inl e \<Rightarrow> Inl e | Inr canonical \<Rightarrow>
     (case resolve_asset lower user now s (iid_asset ids) db0 of
        Inl e \<Rightarrow> Inl e
      | Inr (Inl code, db) \<Rightarrow> problem code db
      | Inr (Inr a, db) \<Rightarrow>
          (case find (same_raw (ul_tenant s) a (jget_null desc ''content_sha256'')) (idb_snapshots db) of
             Some r \<Rightarrow>
               (case canonical_sha (se_descriptor r) of Inl e \<Rightarrow> Inl e
                | Inr sha \<Rightarrow>
                    if sha = jget_null canonical ''content_sha256''
                    then Inr (Inr r, mark_registered (ul_tenant s) (ul_id s) a (se_id r) db)
                    else problem ''REIMPORT_MAPPING_CONFLICT'' db)
           | None \<Rightarrow> (case add_version ev now tx user ids s a desc canonical db of
               Inl e \<Rightarrow> Inl e | Inr (r, db1) \<Rightarrow> Inr (Inr r, db1)))))"

definition unacknowledged :: "ustr list \<Rightarrow> jdict \<Rightarrow> string + bool" where
  "unacknowledged acks m = (case json_in (u ''SINGLE_COLUMN_INPUT'') (py_or (jget_null m ''warnings'') (JArr [])) of
     Inl e \<Rightarrow> Inl e | Inr b \<Rightarrow> Inr (b \<and> u ''SINGLE_COLUMN_INPUT'' \<notin> set acks))"

definition register_snapshot :: "privacy_env \<Rightarrow> (nat \<Rightarrow> nat list) \<Rightarrow> timestamp \<Rightarrow> timestamp \<Rightarrow> uuid \<Rightarrow> uuid \<Rightarrow> uuid \<Rightarrow> ustr list \<Rightarrow>
    import_ids \<Rightarrow> import_db \<Rightarrow> snapshot_entry reply" where
  "register_snapshot ev lower now tx i t user acks ids db =
     (case get_by_id t i db of
        None \<Rightarrow> problem ''RESOURCE_NOT_FOUND'' db
      | Some s \<Rightarrow>
          (case (if ul_status s = URegistered then (case ul_registered s of None \<Rightarrow> None | Some r \<Rightarrow> find_entry db t r) else None) of
             Some r \<Rightarrow> Inr (Inr r, db)
           | None \<Rightarrow>
               if expired now s then problem ''IMPORT_EXPIRED'' db
               else if ul_status s \<noteq> UVerified then problem ''IMPORT_STATE_CONFLICT'' db
               else (case unacknowledged acks (ul_manifest s) of
                   Inl e \<Rightarrow> Inl e
                 | Inr True \<Rightarrow> problem ''WARNING_ACKNOWLEDGMENT_REQUIRED'' db
                 | Inr False \<Rightarrow>
                     if \<not> truthy (jget_null (ul_manifest s) ''source_descriptor'') then problem ''MALFORMED_IMPORT'' db
                     else (case as_dict (jget_null (ul_manifest s) ''source_descriptor'') of
                         Inl e \<Rightarrow> Inl e
                       | Inr desc \<Rightarrow> register_verified ev lower now tx user ids s desc db))))"

definition register_import_snapshot :: "privacy_env \<Rightarrow> (nat \<Rightarrow> nat list) \<Rightarrow> timestamp \<Rightarrow> timestamp \<Rightarrow> uuid \<Rightarrow> import_user \<Rightarrow>
    ustr list \<Rightarrow> import_ids \<Rightarrow> import_db \<Rightarrow> snapshot_entry reply" where
  "register_import_snapshot ev lower now tx i user acks ids db =
     (if \<not> may_import user then Inl ''Forbidden''
      else register_snapshot ev lower now tx i (iur_tenant user) (iur_id user) acks ids db)"

subsection \<open>Calls\<close>

text \<open>Everything that changes an upload session, and the calls of the privacy services in between.\<close>

datatype import_call =
    CreateImport import_store import_user timestamp uuid create_request
  | UploadPart "nat list \<Rightarrow> store_error + ustr" import_user timestamp uuid int int "nat list list"
  | CompleteImport complete_store import_user timestamp uuid "part_etag list"
  | ConfigureImport import_user timestamp uuid "ident list"
  | AbortImport "upload_session \<Rightarrow> store_error + unit" import_user timestamp uuid
  | RegisterImport timestamp timestamp uuid import_user "ustr list" import_ids
  | ClaimImport ident timestamp timestamp "upload_session \<Rightarrow> bool"
  | BeatImport ident timestamp timestamp uuid int
  | SettleImport worker_world ident timestamp upload_session "privacy_call list"
  | PrivacyCall privacy_call

record import_env =
  iev_privacy :: privacy_env
  iev_ud :: unidata
  iev_settings :: import_settings
  iev_sha :: "nat list \<Rightarrow> ustr"

definition committed :: "import_db \<Rightarrow> 'a reply \<Rightarrow> import_db" where
  "committed db r = (case r of Inl e \<Rightarrow> db | Inr x \<Rightarrow> snd x)"

definition privacy_calls :: "privacy_env \<Rightarrow> privacy_call list \<Rightarrow> import_db \<Rightarrow> import_db" where
  "privacy_calls ev cs db = db\<lparr>idb_privacy := fold (call ev) cs (idb_privacy db)\<rparr>"

fun import_step :: "import_env \<Rightarrow> import_call \<Rightarrow> import_db \<Rightarrow> import_db" where
  "import_step ie (CreateImport io user now i q) db =
     committed db (create_import_session (iev_privacy ie) (iev_ud ie) (iev_settings ie) io user now i q db)"
| "import_step ie (UploadPart up user now i n len chunks) db =
     committed db (upload_part (iev_sha ie) (iev_settings ie) up user now i n len chunks db)"
| "import_step ie (CompleteImport io user now i ps) db =
     committed db (complete_import (iev_ud ie) (iev_settings ie) io user now i ps db)"
| "import_step ie (ConfigureImport user now i names) db =
     committed db (configure_import_session (iev_ud ie) (iev_settings ie) user now i names db)"
| "import_step ie (AbortImport ab user now i) db =
     committed db (abort_import_session (iev_ud ie) (iev_settings ie) ab user now i db)"
| "import_step ie (RegisterImport now tx i user acks ids) db =
     committed db (register_import_snapshot (iev_privacy ie) (ud_lower (iev_ud ie)) now tx i user acks ids db)"
| "import_step ie (ClaimImport worker now tx locked) db = snd (claim_next_session (iev_settings ie) worker now tx locked db)"
| "import_step ie (BeatImport worker now tx i gen) db = snd (upload_heartbeat (iev_settings ie) worker now tx i gen db)"
| "import_step ie (SettleImport w worker tx c cs) db =
     (case process_session (iev_privacy ie) (iev_settings ie) w worker tx c (privacy_calls (iev_privacy ie) cs) db of
        Inl e \<Rightarrow> privacy_calls (iev_privacy ie) cs db | Inr db' \<Rightarrow> db')"
| "import_step ie (PrivacyCall c) db = privacy_calls (iev_privacy ie) [c] db"

end
