(* ===== verification/TabularImport.thy ===== *)
theory TabularImport
  imports ImportRegister Redaction
begin

text \<open>
  \<open>adapters/source/tabular_import.py\<close>: the inspection of an uploaded CSV or JSONL file, its redacted preview
  and profile, and the copy and canonical file in object storage. The \<open>csv\<close> module is modelled as the state
  machine it is, with the options the code sets. Parameters: the bytes pyarrow writes for a table, SHA-256,
  \<open>strptime\<close> and \<open>isoformat\<close>, the texts \<open>Decimal\<close> accepts, and Unicode tables. A text is decoded as a whole,
  so of two faults in one file the model may report the other one. The Parquet branch is not modelled.
\<close>

subsection \<open>Texts\<close>

record tab_lib =
  tl_ud :: unidata
  tl_nt :: number_text
  tl_re :: re2
  tl_sha :: "nat list \<Rightarrow> ustr"
  tl_parquet :: "ident list \<Rightarrow> nat \<Rightarrow> ustr option list list \<Rightarrow> nat list"
  tl_strptime :: "ustr \<Rightarrow> ustr \<Rightarrow> timestamp option"
  tl_iso :: "timestamp \<Rightarrow> ustr"
  tl_decimal :: "ustr \<Rightarrow> (rat \<times> ustr) option"
  tl_float :: "pyfloat \<Rightarrow> ustr"
  tl_recursion :: nat
  tl_reserve :: bool

definition continuation :: "nat \<Rightarrow> bool" where
  "continuation b \<longleftrightarrow> 128 \<le> b \<and> b < 192"

text \<open>Strict UTF-8: no overlong forms, no surrogates, nothing beyond U+10FFFF.\<close>

fun utf8_decode :: "nat list \<Rightarrow> ustr option" where
  "utf8_decode [] = Some []"
| "utf8_decode (a # bs) =
     (if a < 128 then map_option (Cons a) (utf8_decode bs)
      else case bs of
        [] \<Rightarrow> None
      | b # cs \<Rightarrow>
          if \<not> continuation b then None
          else if 194 \<le> a \<and> a < 224 then map_option (Cons ((a - 192) * 64 + (b - 128))) (utf8_decode cs)
          else (case cs of
              [] \<Rightarrow> None
            | c # ds \<Rightarrow>
                if \<not> continuation c then None
                else if 224 \<le> a \<and> a < 240
                then (let n = (a - 224) * 4096 + (b - 128) * 64 + (c - 128) in
                      if n < 2048 \<or> (55296 \<le> n \<and> n \<le> 57343) then None else map_option (Cons n) (utf8_decode ds))
                else (case ds of
                    [] \<Rightarrow> None
                  | d # es \<Rightarrow>
                      if \<not> continuation d \<or> a < 240 \<or> 245 \<le> a then None
                      else (let n = (a - 240) * 262144 + (b - 128) * 4096 + (c - 128) * 64 + (d - 128) in
                            if n < 65536 \<or> 1114111 < n then None else map_option (Cons n) (utf8_decode es)))))"

text \<open>The codec \<open>utf-8-sig\<close>: one byte order mark at the start is dropped.\<close>

definition decode_sig :: "nat list \<Rightarrow> ustr option" where
  "decode_sig bs = utf8_decode (if take 3 bs = [239, 187, 191] then drop 3 bs else bs)"

text \<open>Lines with their ends, cut at any of the three line ends.\<close>

fun text_lines :: "ustr \<Rightarrow> ustr \<Rightarrow> ustr list" where
  "text_lines acc [] = (if acc = [] then [] else [rev acc])"
| "text_lines acc (c # cs) =
     (if c = 10 \<or> (c = 13 \<and> take 1 cs \<noteq> [10]) then rev (c # acc) # text_lines [] cs else text_lines (c # acc) cs)"

text \<open>\<open>len(json.dumps(v).encode())\<close> with the default separators.\<close>

definition dumped_size :: "number_text \<Rightarrow> json \<Rightarrow> nat" where
  "dumped_size nt v = length (concat (map ascii_cp (dumps nt False [44, 32] [58, 32] v)))"

definition MAX_JSON :: nat where "MAX_JSON = 500 * 1024"
definition MAX_RECORD :: nat where "MAX_RECORD = 8 * 1024 * 1024"
definition MAX_SAMPLE :: nat where "MAX_SAMPLE = 16 * 1024 * 1024"
definition PREVIEW_ROWS :: nat where "PREVIEW_ROWS = 50"

definition refused :: "string \<Rightarrow> import_failure" where
  "refused code = Refused (u code) JNull"

subsection \<open>The csv module\<close>

datatype csv_state = StartRecord | StartField | InField | InQuoted | QuoteInQuoted | EatCrnl

record csv_acc =
  ca_state :: csv_state
  ca_field :: ustr
  ca_fields :: "ustr list"

definition FIELD_LIMIT :: nat where "FIELD_LIMIT = 8 * 1024 * 1024"

definition add_char :: "nat \<Rightarrow> csv_state \<Rightarrow> csv_acc \<Rightarrow> csv_acc option" where
  "add_char c st a = (if FIELD_LIMIT \<le> length (ca_field a) then None
     else Some (a\<lparr>ca_state := st, ca_field := ca_field a @ [c]\<rparr>))"

definition save_field :: "csv_state \<Rightarrow> csv_acc \<Rightarrow> csv_acc option" where
  "save_field st a = Some \<lparr>ca_state = st, ca_field = [], ca_fields = ca_fields a @ [ca_field a]\<rparr>"

text \<open>One character, or None for the end of a line; None as a result is \<open>csv.Error\<close>.\<close>

definition line_end :: "nat option \<Rightarrow> bool" where
  "line_end c \<longleftrightarrow> (case c of None \<Rightarrow> True | Some x \<Rightarrow> x = 10 \<or> x = 13)"

definition after_end :: "nat option \<Rightarrow> csv_state" where
  "after_end c = (if c = None then StartRecord else EatCrnl)"

definition field_char :: "nat \<Rightarrow> nat option \<Rightarrow> csv_acc \<Rightarrow> csv_acc option" where
  "field_char delim c a =
     (if line_end c then save_field (after_end c) a
      else if c = Some 34 then Some (a\<lparr>ca_state := InQuoted\<rparr>)
      else if c = Some delim then save_field StartField a
      else add_char (the c) InField a)"

definition csv_char :: "nat \<Rightarrow> nat option \<Rightarrow> csv_acc \<Rightarrow> csv_acc option" where
  "csv_char delim c a =
     (case ca_state a of
        StartRecord \<Rightarrow> (if c = None then Some a else if line_end c then Some (a\<lparr>ca_state := EatCrnl\<rparr>) else field_char delim c a)
      | StartField \<Rightarrow> field_char delim c a
      | InField \<Rightarrow> (if line_end c then save_field (after_end c) a else if c = Some delim then save_field StartField a
                   else add_char (the c) InField a)
      | InQuoted \<Rightarrow> (if c = None then Some a else if c = Some 34 then Some (a\<lparr>ca_state := QuoteInQuoted\<rparr>)
                    else add_char (the c) InQuoted a)
      | QuoteInQuoted \<Rightarrow> (if c = Some 34 then add_char 34 InQuoted a else if c = Some delim then save_field StartField a
                         else if line_end c then save_field (after_end c) a else None)
      | EatCrnl \<Rightarrow> (if c = None then Some (a\<lparr>ca_state := StartRecord\<rparr>) else if line_end c then Some a else None))"

fun csv_line :: "nat \<Rightarrow> ustr \<Rightarrow> csv_acc \<Rightarrow> csv_acc option" where
  "csv_line delim [] a = csv_char delim None a"
| "csv_line delim (c # cs) a = (case csv_char delim (Some c) a of None \<Rightarrow> None | Some a1 \<Rightarrow> csv_line delim cs a1)"

definition csv_start :: csv_acc where
  "csv_start = \<lparr>ca_state = StartRecord, ca_field = [], ca_fields = []\<rparr>"

text \<open>The rows the reader yields and whether it ends with \<open>csv.Error\<close>.\<close>

fun csv_rows :: "nat \<Rightarrow> csv_acc \<Rightarrow> ustr list \<Rightarrow> ustr list list \<times> bool" where
  "csv_rows delim a [] = ([], ca_field a \<noteq> [] \<or> ca_state a = InQuoted)"
| "csv_rows delim a (l # ls) =
     (case csv_line delim l a of
        None \<Rightarrow> ([], True)
      | Some a1 \<Rightarrow>
          if ca_state a1 = StartRecord
          then (let r = csv_rows delim csv_start ls in (ca_fields a1 # fst r, snd r))
          else csv_rows delim a1 ls)"

definition csv_reader :: "nat \<Rightarrow> ustr \<Rightarrow> ustr list list \<times> bool" where
  "csv_reader delim text = csv_rows delim csv_start (text_lines [] text)"

subsection \<open>Preview\<close>

definition FINANCIAL_TOKENS :: "ustr list" where
  "FINANCIAL_TOKENS = map u [''account'', ''iban'', ''routing'', ''ssn'', ''card'', ''pan'', ''bank'', ''credit'']"

definition IDENTIFIER_TOKENS :: "ustr list" where
  "IDENTIFIER_TOKENS = map u [''id'', ''account'', ''iban'', ''routing'', ''code'', ''ssn'', ''card'', ''pan'']"

definition plain_name :: "unidata \<Rightarrow> ident \<Rightarrow> ustr" where
  "plain_name ud name = map (\<lambda>c. if c = 45 then 95 else c) (py_lower (ud_lower ud) name)"

definition has_token :: "unidata \<Rightarrow> ustr list \<Rightarrow> ident \<Rightarrow> bool" where
  "has_token ud tokens name \<longleftrightarrow> any_of (\<lambda>t. t \<in> set tokens) (split_on 95 (plain_name ud name))"

definition mask_preview_cell :: "unidata \<Rightarrow> ident list \<Rightarrow> ident \<Rightarrow> json \<Rightarrow> json" where
  "mask_preview_cell ud sens k v =
     (if k \<in> set sens then mask_value v else if has_token ud FINANCIAL_TOKENS k then JStr REDACTED_SENTINEL else v)"

fun redact_structured_value :: "nat \<Rightarrow> unidata \<Rightarrow> json \<Rightarrow> json" where
  "redact_structured_value 0 ud v = v"
| "redact_structured_value (Suc n) ud v = (case v of
       JObj d \<Rightarrow> JObj (map (\<lambda>(k, x). (k, redact_structured_value n ud x)) (redact_sample_row ud d))
     | JArr xs \<Rightarrow> JArr (map (redact_structured_value n ud) xs)
     | _ \<Rightarrow> v)"

definition looks_structured :: "ustr \<Rightarrow> bool" where
  "looks_structured s \<longleftrightarrow> (is_prefix [123] s \<and> ends_with s [125]) \<or> (is_prefix [91] s \<and> ends_with s [93])"

definition cap_text :: "ustr \<Rightarrow> ustr" where
  "cap_text s = (if 256 < length s then take 253 s @ u ''...'' else s)"

text \<open>
  A text that looks like JSON is parsed, redacted inside and printed again; only the errors of the strict
  parser are caught. The depth of a parsed value is at most \<open>MAX_DEPTH\<close>, which bounds the recursion.
\<close>

definition cap_cell :: "tab_lib \<Rightarrow> json \<Rightarrow> string + json" where
  "cap_cell lib v = (case v of
       JStr s \<Rightarrow>
         (if looks_structured (py_strip s)
          then (case parse_structured_json (tl_recursion lib) (py_strip s) of
              Inr x \<Rightarrow> Inr (JStr (cap_text (canonical_compact_json (tl_float lib) (redact_structured_value (MAX_DEPTH + 1) (tl_ud lib) x))))
            | Inl DecimalInvalidOperation \<Rightarrow> Inl ''InvalidOperation''
            | Inl e \<Rightarrow> Inr (JStr (cap_text s)))
          else Inr (JStr (cap_text s)))
     | _ \<Rightarrow> Inr JNull)"

definition preview_row :: "tab_lib \<Rightarrow> ident list \<Rightarrow> jdict \<Rightarrow> string + json" where
  "preview_row lib sens r =
     (let masked = redact_sample_row (tl_ud lib) (map (\<lambda>(k, v). (k, mask_preview_cell (tl_ud lib) sens k v)) r) in
      case each (\<lambda>(k, v). case cap_cell lib v of Inl e \<Rightarrow> Inl e | Inr x \<Rightarrow> Inr (k, x)) masked of
        Inl e \<Rightarrow> Inl e | Inr cells \<Rightarrow> Inr (JObj cells))"

text \<open>Rows are dropped from the end until the encoded list fits.\<close>

function fit_rows :: "number_text \<Rightarrow> nat \<Rightarrow> json list \<Rightarrow> json list" where
  "fit_rows nt budget xs = (if xs = [] \<or> dumped_size nt (JArr xs) \<le> budget then xs else fit_rows nt budget (butlast xs))"
  by pat_completeness auto
termination by (relation "measure (\<lambda>(nt, b, xs). length xs)") auto

declare fit_rows.simps [simp del]

definition build_preview :: "tab_lib \<Rightarrow> ident list \<Rightarrow> jdict list \<Rightarrow> string + json list" where
  "build_preview lib sens rows =
     (case each (preview_row lib sens) (take PREVIEW_ROWS rows) of Inl e \<Rightarrow> Inl e | Inr xs \<Rightarrow> Inr (fit_rows (tl_nt lib) MAX_JSON xs))"

subsection \<open>Profile\<close>

definition is_identifier_name :: "unidata \<Rightarrow> ident \<Rightarrow> bool" where
  "is_identifier_name ud name \<longleftrightarrow> has_token ud IDENTIFIER_TOKENS name \<or> ends_with (plain_name ud name) (u ''id'')"

text \<open>\<open>^(0|-?[1-9]\d*)$\<close>, whose end also matches before a final line feed, and \<open>int(v)\<close>.\<close>

definition integer_text :: "unidata \<Rightarrow> ustr \<Rightarrow> bool" where
  "integer_text ud v =
     (let s = (if v \<noteq> [] \<and> last v = 10 then butlast v else v); body = (if is_prefix [45] s then tl s else s)
      in s = [48] \<or> (case body of [] \<Rightarrow> False | c # cs \<Rightarrow> 49 \<le> c \<and> c \<le> 57 \<and> list_all (is_decimal ud) cs))"

definition integer_values :: "unidata \<Rightarrow> ustr list \<Rightarrow> int list" where
  "integer_values ud vs = map (\<lambda>v. the (py_int ud v)) (filter (\<lambda>v. integer_text ud v \<and> py_int ud v \<noteq> None) vs)"

definition decimal_values :: "tab_lib \<Rightarrow> ustr list \<Rightarrow> (rat \<times> ustr) list" where
  "decimal_values lib vs = map (\<lambda>v. the (tl_decimal lib v)) (filter (\<lambda>v. tl_decimal lib v \<noteq> None) vs)"

definition reached :: "nat \<Rightarrow> nat \<Rightarrow> bool" where
  "reached k n \<longleftrightarrow> 95 / 100 \<le> fdiv (of_nat k) (of_nat n)"

definition TIMESTAMP_FORMATS :: "(ustr \<times> ustr) list" where
  "TIMESTAMP_FORMATS = map (\<lambda>(a, b). (u a, u b))
     [(''%Y/%m/%d %H:%M'', ''yyyy/MM/dd HH:mm''), (''%Y-%m-%d %H:%M:%S'', ''yyyy-MM-dd HH:mm:ss''),
      (''%Y-%m-%dT%H:%M:%S'', ''yyyy-MM-dd'' @ [CHR 39] @ ''T'' @ [CHR 39] @ ''HH:mm:ss''),
      (''%Y-%m-%dT%H:%M:%SZ'', ''yyyy-MM-dd'' @ [CHR 39] @ ''T'' @ [CHR 39] @ ''HH:mm:ss'' @ [CHR 39] @ ''Z'' @ [CHR 39]),
      (''%Y-%m-%dT%H:%M:%S.%fZ'',
        ''yyyy-MM-dd'' @ [CHR 39] @ ''T'' @ [CHR 39] @ ''HH:mm:ss.SSSSSS'' @ [CHR 39] @ ''Z'' @ [CHR 39])]"

definition parsed_with :: "tab_lib \<Rightarrow> ustr \<Rightarrow> ustr list \<Rightarrow> timestamp list" where
  "parsed_with lib fmt vs = map (\<lambda>v. the (tl_strptime lib v fmt)) (filter (\<lambda>v. tl_strptime lib v fmt \<noteq> None) vs)"

text \<open>The first format with the most matches.\<close>

definition best_format :: "tab_lib \<Rightarrow> ustr list \<Rightarrow> ustr option \<times> timestamp list" where
  "best_format lib vs = fold (\<lambda>(py, canon) best. let ms = parsed_with lib py vs in
     if length (snd best) < length ms then (Some canon, ms) else best) TIMESTAMP_FORMATS (None, [])"

definition min_of :: "'a::linorder list \<Rightarrow> 'a" where "min_of xs = hd (sort xs)"
definition max_of :: "'a::linorder list \<Rightarrow> 'a" where "max_of xs = last (sort xs)"

text \<open>\<open>^\d{4}-\d{2}-\d{2}$\<close>.\<close>

definition date_text :: "unidata \<Rightarrow> ustr \<Rightarrow> bool" where
  "date_text ud v =
     (let s = (if v \<noteq> [] \<and> last v = 10 then butlast v else v)
      in length s = 10 \<and> list_all (\<lambda>i. if i = 4 \<or> i = 7 then s ! i = 45 else is_decimal ud (s ! i)) [0..<10])"

record profile_stats =
  pst_hint :: string
  pst_count :: nat
  pst_format :: "ustr option"
  pst_min :: "json option"
  pst_max :: "json option"

definition plain_stats :: "string \<Rightarrow> nat \<Rightarrow> profile_stats" where
  "plain_stats hint n = \<lparr>pst_hint = hint, pst_count = n, pst_format = None, pst_min = None, pst_max = None\<rparr>"

definition infer_profile_stats :: "tab_lib \<Rightarrow> ident \<Rightarrow> ustr list \<Rightarrow> profile_stats" where
  "infer_profile_stats lib name vs =
     (let ud = tl_ud lib; n = length vs; ints = integer_values ud vs; decs = decimal_values lib vs; best = best_format lib vs;
          dates = filter (\<lambda>v. date_text ud v \<and> tl_strptime lib v (u ''%Y-%m-%d'') \<noteq> None) vs;
          bools = filter (\<lambda>v. py_lower (ud_lower ud) v \<in> {u ''true'', u ''false''}) vs
      in if vs = [] then plain_stats ''STRING'' 0
         else if \<not> is_identifier_name ud name \<and> reached (length ints) n
         then \<lparr>pst_hint = ''INTEGER'', pst_count = length ints, pst_format = None,
                pst_min = Some (JInt (min_of ints)), pst_max = Some (JInt (max_of ints))\<rparr>
         else if \<not> is_identifier_name ud name \<and> reached (length decs) n
         then \<lparr>pst_hint = ''DOUBLE'', pst_count = length decs, pst_format = None,
                pst_min = Some (JStr (snd (hd (sort_key fst decs)))),
                pst_max = Some (JStr (snd (hd (filter (\<lambda>d. fst d = fst (last (sort_key fst decs))) decs))))\<rparr>
         else if fst best \<noteq> None \<and> reached (length (snd best)) n
         then \<lparr>pst_hint = ''TIMESTAMP'', pst_count = length (snd best), pst_format = fst best,
                pst_min = Some (JStr (tl_iso lib (min_of (snd best)))), pst_max = Some (JStr (tl_iso lib (max_of (snd best))))\<rparr>
         else if reached (length dates) n
         then \<lparr>pst_hint = ''DATE'', pst_count = length dates, pst_format = None, pst_min = Some (JStr (min_of dates)),
                pst_max = Some (JStr (max_of dates))\<rparr>
         else if reached (length bools) n then plain_stats ''BOOLEAN'' (length bools)
         else plain_stats ''STRING'' n)"

definition opt_entry :: "string \<Rightarrow> json option \<Rightarrow> jdict" where
  "opt_entry k v = (case v of None \<Rightarrow> [] | Some x \<Rightarrow> [(u k, x)])"

definition column_stats :: "tab_lib \<Rightarrow> ident list \<Rightarrow> ident list \<Rightarrow> nat \<Rightarrow> ident \<Rightarrow> ustr option list \<Rightarrow> json" where
  "column_stats lib containers sens sample_size name vals =
     (let present = map the (filter (\<lambda>v. v \<noteq> None) vals);
          nulls = length (filter (\<lambda>v. v = None) vals);
          st = (if name \<in> set containers then plain_stats ''JSON'' (sample_size - nulls) else infer_profile_stats lib name present);
          shown = (\<lambda>v. if name \<in> set sens then None else v)
      in JObj ([(u ''name'', JStr name), (u ''type_hint'', JStr (u (pst_hint st))), (u ''null_count'', JInt (int nulls)),
           (u ''non_null_count'', JInt (int (sample_size - nulls))),
           (u ''distinct_count'', JInt (int (length (remdups (take 1000 present))))),
           (u ''parse_success_count'', JInt (int (pst_count st))), (u ''sample_rows'', JInt (int sample_size))]
         @ opt_entry ''timestamp_format'' (map_option JStr (pst_format st))
         @ opt_entry ''min'' (shown (pst_min st)) @ opt_entry ''max'' (shown (pst_max st))))"

definition build_profile :: "tab_lib \<Rightarrow> ident list \<Rightarrow> ustr option list list \<Rightarrow> nat \<Rightarrow> ident list \<Rightarrow> ident list \<Rightarrow> jdict" where
  "build_profile lib names sample rows containers sens =
     [(u ''sample_rows'', JInt (int (length sample))), (u ''is_sample'', JBool True), (u ''total_rows'', JInt (int rows)),
      (u ''columns'', JArr (map (\<lambda>i. column_stats lib containers sens (length sample) (names ! i) (map (\<lambda>r. r ! i) sample))
         [0..<length names]))]"

subsection \<open>Rows\<close>

record intake =
  ink_rows :: nat
  ink_scanner :: scanner
  ink_preview :: "jdict list"
  ink_sample :: "ustr option list list"
  ink_sample_bytes :: nat
  ink_warnings :: "ident list"
  ink_batch :: nat
  ink_batch_bytes :: nat
  ink_table :: "ustr option list list"

definition cell_json :: "ustr option \<Rightarrow> json" where
  "cell_json v = (case v of None \<Rightarrow> JNull | Some s \<Rightarrow> JStr s)"

definition row_dict :: "ident list \<Rightarrow> json list \<Rightarrow> jdict" where
  "row_dict names vals = dict_of (zip names vals)"

text \<open>\<open>sum(len(v.encode("utf-8")) for v in row if v is not None)\<close>; a lone surrogate cannot be encoded.\<close>

definition row_bytes :: "ustr option list \<Rightarrow> nat option" where
  "row_bytes vals = utf8_size (concat (map (\<lambda>v. case v of None \<Rightarrow> [] | Some s \<Rightarrow> s) vals))"

definition feed_failure :: "string \<Rightarrow> import_failure" where
  "feed_failure e = refused (if e = ''PrivacyScanLimitExceededException'' then ''PRIVACY_SCAN_LIMIT_EXCEEDED'' else ''PRIVACY_SCAN_FAILED'')"

definition feed_scanner :: "tab_lib \<Rightarrow> jdict \<Rightarrow> intake \<Rightarrow> import_failure + intake" where
  "feed_scanner lib row ink =
     (case feed_row (tl_ud lib) (tl_nt lib) row (ink_scanner ink) of
        Inl e \<Rightarrow> Inl (feed_failure e) | Inr sc \<Rightarrow> Inr (ink\<lparr>ink_scanner := sc\<rparr>))"

definition PROFILE_SAMPLE_LIMIT :: ident where "PROFILE_SAMPLE_LIMIT = u ''PROFILE_SAMPLE_LIMIT''"

definition flush :: "tab_lib \<Rightarrow> intake \<Rightarrow> import_failure + intake" where
  "flush lib ink = (if tl_reserve lib then Inr (ink\<lparr>ink_batch := 0, ink_batch_bytes := 0\<rparr>) else Inl (refused ''IMPORT_STORAGE_FULL''))"

definition take_row :: "tab_lib \<Rightarrow> ident list \<Rightarrow> ustr option list \<Rightarrow> nat \<Rightarrow> intake \<Rightarrow> import_failure + intake" where
  "take_row lib names vals size_of_row ink =
     (let n = Suc (ink_rows ink);
          fits = n \<le> 1000 \<and> ink_sample_bytes ink + size_of_row \<le> MAX_SAMPLE;
          ink1 = ink\<lparr>ink_rows := n,
            ink_preview := (if n \<le> PREVIEW_ROWS then ink_preview ink @ [row_dict names (map cell_json vals)] else ink_preview ink),
            ink_sample := (if fits then ink_sample ink @ [vals] else ink_sample ink),
            ink_sample_bytes := (if fits then ink_sample_bytes ink + size_of_row else ink_sample_bytes ink),
            ink_warnings := (if \<not> fits \<and> n \<le> 1000 \<and> PROFILE_SAMPLE_LIMIT \<notin> set (ink_warnings ink)
                             then ink_warnings ink @ [PROFILE_SAMPLE_LIMIT] else ink_warnings ink),
            ink_batch := Suc (ink_batch ink), ink_batch_bytes := ink_batch_bytes ink + size_of_row,
            ink_table := ink_table ink @ [vals]\<rparr>
      in if 8192 \<le> ink_batch ink1 \<or> MAX_SAMPLE \<le> ink_batch_bytes ink1 then flush lib ink1 else Inr ink1)"

definition start_intake :: "scanner \<Rightarrow> ident list \<Rightarrow> intake" where
  "start_intake sc warnings = \<lparr>ink_rows = 0, ink_scanner = sc, ink_preview = [], ink_sample = [], ink_sample_bytes = 0,
     ink_warnings = warnings, ink_batch = 0, ink_batch_bytes = 0, ink_table = []\<rparr>"

record tab_result =
  tbr_rows :: nat
  tbr_columns :: json
  tbr_preview :: "json list"
  tbr_profile :: jdict
  tbr_warnings :: "ident list"
  tbr_version :: nat
  tbr_scan :: scan_report
  tbr_table :: "ustr option list list"
  tbr_names :: "ident list"

text \<open>What is done after the last row.\<close>

definition conclude :: "tab_lib \<Rightarrow> ident list \<Rightarrow> json \<Rightarrow> nat \<Rightarrow> ident list \<Rightarrow> intake \<Rightarrow> import_failure + tab_result" where
  "conclude lib names columns version containers ink =
     (let r = finish (tl_ud lib) (ink_scanner ink); sens = sr_sensitive_columns r in
      case build_preview lib sens (ink_preview ink) of
        Inl e \<Rightarrow> Inl (Uncaught e)
      | Inr pv \<Rightarrow> Inr \<lparr>tbr_rows = ink_rows ink, tbr_columns = columns, tbr_preview = pv,
          tbr_profile = build_profile lib names (ink_sample ink) (ink_rows ink) containers sens,
          tbr_warnings = ink_warnings ink, tbr_version = version, tbr_scan = r, tbr_table = ink_table ink, tbr_names = names\<rparr>)"

definition final_flush :: "tab_lib \<Rightarrow> intake \<Rightarrow> import_failure + intake" where
  "final_flush lib ink = (if ink_batch ink = 0 then Inr ink else flush lib ink)"

subsection \<open>CSV\<close>

definition positions :: "ident \<Rightarrow> ident list \<Rightarrow> nat list" where
  "positions x xs = filter (\<lambda>i. xs ! i = x) [0..<length xs]"

definition header_error :: "ident list \<Rightarrow> import_failure option" where
  "header_error names =
     (let blanks = positions [] names; dups = filter (\<lambda>x. 1 < length (positions x names)) (rev (remdups (rev names))) in
      if blanks \<noteq> [] then Some (Refused (u ''EMPTY_COLUMN_NAME'') (JArr (map (\<lambda>p. JObj
          [(u ''name'', JStr (u ''col_'' @ nat_text p)), (u ''code'', JStr (u ''EMPTY_COLUMN_NAME'')), (u ''index'', JInt (int p))]) blanks)))
      else if dups \<noteq> [] then Some (Refused (u ''DUPLICATE_COLUMN_NAME'') (JArr (map (\<lambda>k. JObj
          [(u ''name'', JStr k), (u ''code'', JStr (u ''DUPLICATE_COLUMN_NAME'')),
           (u ''indices'', JArr (map (\<lambda>p. JInt (int p)) (positions k names)))]) dups)))
      else None)"

definition column_json :: "nat \<Rightarrow> ident \<Rightarrow> ident \<Rightarrow> jdict \<Rightarrow> json" where
  "column_json i original name extra = JObj ([(u ''index'', JInt (int i)), (u ''original_name'', JStr original), (u ''name'', JStr name),
     (u ''type'', JStr (u ''STRING'')), (u ''nullable'', JBool True)] @ extra)"

definition single_column :: "ident list \<Rightarrow> ident list" where
  "single_column names = (if length names = 1 then [u ''SINGLE_COLUMN_INPUT''] else [])"

text \<open>The final column names, when the header is acceptable; a mapping overrides blank and repeated names.\<close>

definition csv_names :: "ident list \<Rightarrow> ident list \<Rightarrow> import_failure + ident list" where
  "csv_names mapping raw =
     (if 1000 < length raw then Inl (refused ''TOO_MANY_COLUMNS'')
      else if mapping = [] then (case header_error raw of Some e \<Rightarrow> Inl e | None \<Rightarrow> Inr raw)
      else if length mapping \<noteq> length raw then Inl (refused ''INVALID_COLUMN_MAPPING'') else Inr mapping)"

definition csv_columns :: "ident list \<Rightarrow> ident list \<Rightarrow> json" where
  "csv_columns raw names = JArr (map (\<lambda>i. column_json i (raw ! i) (names ! i) []) [0..<length names])"

definition clean_cell :: "ustr \<Rightarrow> ustr option" where
  "clean_cell c = (if c = [] then None else Some c)"

definition csv_row :: "tab_lib \<Rightarrow> ident list \<Rightarrow> ustr list \<Rightarrow> intake \<Rightarrow> import_failure + intake" where
  "csv_row lib names row ink =
     (if length row \<noteq> length names then Inl (refused ''MALFORMED_CSV'')
      else let vals = map clean_cell row in
      case row_bytes vals of None \<Rightarrow> Inl Broken
      | Some n \<Rightarrow>
          if MAX_RECORD < n then Inl (refused ''RECORD_TOO_LARGE'')
          else (case feed_scanner lib (row_dict names (map cell_json vals)) ink of
              Inl e \<Rightarrow> Inl e | Inr ink1 \<Rightarrow> take_row lib names vals n ink1))"

fun csv_body :: "tab_lib \<Rightarrow> ident list \<Rightarrow> ustr list list \<Rightarrow> intake \<Rightarrow> import_failure + intake" where
  "csv_body lib names [] ink = Inr ink"
| "csv_body lib names (r # rs) ink = (case csv_row lib names r ink of Inl e \<Rightarrow> Inl e | Inr ink1 \<Rightarrow> csv_body lib names rs ink1)"

definition process_csv :: "tab_lib \<Rightarrow> nat \<Rightarrow> ident list \<Rightarrow> ident list \<Rightarrow> privacy_detector_rule list \<Rightarrow> nat list \<Rightarrow>
    import_failure + tab_result" where
  "process_csv lib delim mapping private rules bytes =
     (case decode_sig bytes of None \<Rightarrow> Inl (refused ''MALFORMED_CSV'') | Some text \<Rightarrow>
     (case csv_reader delim text of
        ([], True) \<Rightarrow> Inl (refused ''MALFORMED_CSV'')
      | ([], False) \<Rightarrow> Inl (refused ''EMPTY_DATASET'')
      | (header # rows, broken) \<Rightarrow>
          (let raw = map py_strip header in
           if list_all (\<lambda>h. h = []) raw then Inl (refused ''EMPTY_DATASET'')
           else case csv_names mapping raw of Inl e \<Rightarrow> Inl e | Inr names \<Rightarrow>
             (let columns = csv_columns raw names in
              if MAX_JSON < dumped_size (tl_nt lib) columns then Inl (refused ''SCHEMA_TOO_LARGE'')
              else case scanner_init (tl_re lib) names private (Some rules) of Inl e \<Rightarrow> Inl Broken | Inr sc \<Rightarrow>
                (case csv_body lib names rows (start_intake sc (single_column names)) of Inl e \<Rightarrow> Inl e | Inr ink \<Rightarrow>
                   if broken then Inl (refused ''MALFORMED_CSV'')
                   else (case final_flush lib ink of Inl e \<Rightarrow> Inl e | Inr ink1 \<Rightarrow>
                     if ink_rows ink1 = 0 then Inl (refused ''EMPTY_DATASET'')
                     else conclude lib names columns 1 [] ink1))))))"

subsection \<open>JSONL\<close>

text \<open>Universal newlines: every line ends with a single line feed, except perhaps the last.\<close>

definition jsonl_lines :: "ustr \<Rightarrow> ustr list" where
  "jsonl_lines text = map (\<lambda>l. let body = takeWhile (\<lambda>c. c \<noteq> 10 \<and> c \<noteq> 13) l in if length body < length l then body @ [10] else body)
     (text_lines [] text)"

record key_survey =
  ksv_keys :: "ident list"
  ksv_kinds :: "(ident \<times> ustr) list"
  ksv_rows :: "jdict list"

definition container_kind :: "ustr \<Rightarrow> bool" where
  "container_kind k \<longleftrightarrow> k = u ''OBJECT'' \<or> k = u ''ARRAY''"

definition see_key :: "ident \<Rightarrow> json \<Rightarrow> key_survey \<Rightarrow> import_failure + key_survey" where
  "see_key k v sv =
     (let keys = (if k \<in> set (ksv_keys sv) then ksv_keys sv else ksv_keys sv @ [k]) in
      if 1000 < length keys then Inl (refused ''TOO_MANY_COLUMNS'')
      else Inr (sv\<lparr>ksv_keys := keys, ksv_kinds := List.insert (k, classify_value_kind v) (ksv_kinds sv)\<rparr>))"

fun see_keys :: "jdict \<Rightarrow> key_survey \<Rightarrow> import_failure + key_survey" where
  "see_keys [] sv = Inr sv"
| "see_keys ((k, v) # d) sv = (case see_key k v sv of Inl e \<Rightarrow> Inl e | Inr sv1 \<Rightarrow> see_keys d sv1)"

definition survey_line :: "tab_lib \<Rightarrow> ustr \<Rightarrow> key_survey \<Rightarrow> import_failure + key_survey" where
  "survey_line lib line sv =
     (if (case utf8_size line of None \<Rightarrow> False | Some n \<Rightarrow> MAX_RECORD < n) then Inl (refused ''RECORD_TOO_LARGE'')
      else if py_strip line = [] then Inr sv
      else case parse_structured_json (tl_recursion lib) (py_strip line) of
        Inl NESTING_TOO_DEEP \<Rightarrow> Inl (refused ''NESTING_TOO_DEEP'')
      | Inl e \<Rightarrow> Inl (refused ''MALFORMED_JSONL'')
      | Inr (JObj d) \<Rightarrow> see_keys d (sv\<lparr>ksv_rows := ksv_rows sv @ [d]\<rparr>)
      | Inr v \<Rightarrow> Inl (refused ''NESTED_DATA_UNSUPPORTED''))"

fun survey :: "tab_lib \<Rightarrow> ustr list \<Rightarrow> key_survey \<Rightarrow> import_failure + key_survey" where
  "survey lib [] sv = Inr sv"
| "survey lib (l # ls) sv = (case survey_line lib l sv of Inl e \<Rightarrow> Inl e | Inr sv1 \<Rightarrow> survey lib ls sv1)"

definition kinds_of :: "key_survey \<Rightarrow> ident \<Rightarrow> ustr list" where
  "kinds_of sv k = sorted_set (map snd (filter (\<lambda>p. fst p = k) (ksv_kinds sv)))"

definition is_container_key :: "key_survey \<Rightarrow> ident \<Rightarrow> bool" where
  "is_container_key sv k \<longleftrightarrow> any_of container_kind (kinds_of sv k)"

definition jsonl_names :: "ident list \<Rightarrow> ident list \<Rightarrow> import_failure + ident list" where
  "jsonl_names mapping keys =
     (let names = (if mapping = [] then keys else mapping) in
      if length names \<noteq> length keys \<or> \<not> distinct names \<or> [] \<in> set names then Inl (refused ''INVALID_COLUMN_MAPPING'') else Inr names)"

definition jsonl_columns :: "key_survey \<Rightarrow> ident list \<Rightarrow> json" where
  "jsonl_columns sv names = JArr (map (\<lambda>i. let k = ksv_keys sv ! i in column_json i k (names ! i)
     (if is_container_key sv k then [(u ''structural_encoding'', JStr (u ''JSON'')), (u ''logical_types'', JArr (map JStr (kinds_of sv k)))]
      else [])) [0..<length names])"

definition jsonl_cell :: "tab_lib \<Rightarrow> key_survey \<Rightarrow> jdict \<Rightarrow> ident \<Rightarrow> ustr option" where
  "jsonl_cell lib sv d k = (case map_of d k of None \<Rightarrow> None | Some JNull \<Rightarrow> None
     | Some v \<Rightarrow> if is_container_key sv k then Some (canonical_compact_json (tl_float lib) v)
         else (case v of JBool b \<Rightarrow> Some (if b then u ''true'' else u ''false'') | JInt i \<Rightarrow> Some (int_text i)
           | JDec s c e \<Rightarrow> Some (decimal_str (tl_nt lib) s c e) | JFloat x \<Rightarrow> Some (float_repr (tl_nt lib) x)
           | JStr s \<Rightarrow> Some s | _ \<Rightarrow> None))"

definition jsonl_row :: "tab_lib \<Rightarrow> key_survey \<Rightarrow> ident list \<Rightarrow> jdict \<Rightarrow> intake \<Rightarrow> import_failure + intake" where
  "jsonl_row lib sv names d ink =
     (case feed_scanner lib (row_dict names (map (\<lambda>k. case map_of d k of None \<Rightarrow> JNull | Some v \<Rightarrow> v) (ksv_keys sv))) ink of
        Inl e \<Rightarrow> Inl e
      | Inr ink1 \<Rightarrow>
          (let vals = map (jsonl_cell lib sv d) (ksv_keys sv) in
           case row_bytes vals of None \<Rightarrow> Inl Broken
           | Some n \<Rightarrow> if MAX_RECORD < n then Inl (refused ''RECORD_TOO_LARGE'') else take_row lib names vals n ink1))"

fun jsonl_body :: "tab_lib \<Rightarrow> key_survey \<Rightarrow> ident list \<Rightarrow> jdict list \<Rightarrow> intake \<Rightarrow> import_failure + intake" where
  "jsonl_body lib sv names [] ink = Inr ink"
| "jsonl_body lib sv names (d # ds) ink =
     (case jsonl_row lib sv names d ink of Inl e \<Rightarrow> Inl e | Inr ink1 \<Rightarrow> jsonl_body lib sv names ds ink1)"

definition jsonl_warnings :: "key_survey \<Rightarrow> ident list \<Rightarrow> ident list" where
  "jsonl_warnings sv names = single_column names
     @ (if any_of (\<lambda>k. 1 < length (kinds_of sv k)) (ksv_keys sv) then [u ''MIXED_SCALAR_TYPES''] else [])"

text \<open>The second pass parses the same lines again; undecodable bytes raise a \<open>UnicodeDecodeError\<close> here.\<close>

definition process_jsonl :: "tab_lib \<Rightarrow> ident list \<Rightarrow> ident list \<Rightarrow> privacy_detector_rule list \<Rightarrow> nat list \<Rightarrow>
    import_failure + tab_result" where
  "process_jsonl lib mapping private rules bytes =
     (case decode_sig bytes of None \<Rightarrow> Inl Broken | Some text \<Rightarrow>
     (case survey lib (jsonl_lines text) \<lparr>ksv_keys = [], ksv_kinds = [], ksv_rows = []\<rparr> of Inl e \<Rightarrow> Inl e | Inr sv \<Rightarrow>
        if ksv_keys sv = [] then Inl (refused ''EMPTY_DATASET'')
        else case jsonl_names mapping (ksv_keys sv) of Inl e \<Rightarrow> Inl e | Inr names \<Rightarrow>
          (let columns = jsonl_columns sv names; containers = filter (\<lambda>n. any_of (\<lambda>i. names ! i = n \<and> is_container_key sv (ksv_keys sv ! i)) [0..<length names]) names in
           if MAX_JSON < dumped_size (tl_nt lib) columns then Inl (refused ''SCHEMA_TOO_LARGE'')
           else case scanner_init (tl_re lib) names private (Some rules) of Inl e \<Rightarrow> Inl Broken | Inr sc \<Rightarrow>
             (case jsonl_body lib sv names (ksv_rows sv) (start_intake sc (jsonl_warnings sv names)) of Inl e \<Rightarrow> Inl e | Inr ink \<Rightarrow>
               (case final_flush lib ink of Inl e \<Rightarrow> Inl e
                | Inr ink1 \<Rightarrow> conclude lib names columns (if containers = [] then 1 else 2) containers ink1)))))"

subsection \<open>Inspection\<close>

record tab_store =
  tbs_before :: "object_ref \<Rightarrow> import_failure + staged_metadata"
  tbs_after :: "object_ref \<Rightarrow> import_failure + staged_metadata"
  tbs_free :: int
  tbs_copy :: "object_ref \<Rightarrow> ustr \<Rightarrow> ustr \<Rightarrow> ustr \<Rightarrow> import_failure + staged_metadata"
  tbs_read :: "object_ref \<Rightarrow> import_failure + nat list"
  tbs_put :: "ustr \<Rightarrow> ustr \<Rightarrow> nat list \<Rightarrow> import_failure + staged_metadata"

definition BINARY_MAGICS :: "nat list list" where
  "BINARY_MAGICS = [[37, 80, 68, 70], [80, 75, 3, 4], [137, 80, 78, 71], [255, 216, 255], [71, 73, 70, 56]]"

definition binary_magic :: "nat list \<Rightarrow> ustr \<Rightarrow> bool" where
  "binary_magic bytes fmt \<longleftrightarrow> any_of (\<lambda>m. is_prefix m bytes) BINARY_MAGICS
     \<or> (fmt \<in> {u ''CSV'', u ''JSONL''} \<and> is_prefix (u ''PAR1'') bytes)"

definition source_changed :: "staged_metadata \<Rightarrow> staged_metadata \<Rightarrow> bool" where
  "source_changed before now \<longleftrightarrow> om_etag now \<noteq> om_etag before \<or> om_size_bytes now \<noteq> om_size_bytes before
     \<or> (om_version_id before \<noteq> None \<and> om_version_id before \<noteq> Some [] \<and> om_version_id now \<noteq> om_version_id before)"

definition under_prefix :: "ustr \<Rightarrow> ustr \<Rightarrow> ustr" where
  "under_prefix prefix name = rstrip_by (\<lambda>c. c = 47) prefix @ [47] @ name"

definition mapping_of :: "json \<Rightarrow> ident list" where
  "mapping_of v = (case texts_of v of None \<Rightarrow> [] | Some xs \<Rightarrow> xs)"

text \<open>The formats of the sessions are upper case; \<open>parquet\<close> stands for the branch that reads Parquet files.\<close>

definition process_file :: "tab_lib \<Rightarrow> (inspect_task \<Rightarrow> nat list \<Rightarrow> import_failure + tab_result) \<Rightarrow> inspect_task \<Rightarrow> nat list \<Rightarrow>
    import_failure + tab_result" where
  "process_file lib parquet task bytes =
     (if binary_magic bytes (itk_format task) then Inl (refused ''UNSUPPORTED_FORMAT'')
      else if itk_format task = u ''CSV''
      then (case itk_delimiter task of
          JStr [d] \<Rightarrow> process_csv lib d (mapping_of (itk_mapping task)) (itk_private task) (itk_rules task) bytes
        | _ \<Rightarrow> Inl (Uncaught ''TypeError''))
      else if itk_format task = u ''JSONL''
      then process_jsonl lib (mapping_of (itk_mapping task)) (itk_private task) (itk_rules task) bytes
      else if itk_format task = u ''PARQUET'' then parquet task bytes
      else Inl (refused ''UNSUPPORTED_FORMAT''))"

definition inspection_of :: "object_ref \<Rightarrow> object_ref \<Rightarrow> ustr \<Rightarrow> ustr \<Rightarrow> int \<Rightarrow> int \<Rightarrow> tab_result \<Rightarrow> inspection" where
  "inspection_of raw canonical rsha csha rsize csize r =
     \<lparr>isp_raw_ref = raw, isp_canonical_ref = canonical, isp_raw_sha = rsha, isp_canonical_sha = csha, isp_raw_size = rsize,
       isp_canonical_size = csize, isp_rows = int (tbr_rows r), isp_columns = tbr_columns r, isp_preview = JArr (tbr_preview r),
       isp_profile = JObj (tbr_profile r), isp_warnings = tbr_warnings r, isp_normalization = int (tbr_version r),
       isp_scan = report_dict (tbr_scan r)\<rparr>"

definition inspect_and_normalize :: "tab_lib \<Rightarrow> (inspect_task \<Rightarrow> nat list \<Rightarrow> import_failure + tab_result) \<Rightarrow> tab_store \<Rightarrow>
    inspect_task \<Rightarrow> import_failure + inspection" where
  "inspect_and_normalize lib parquet io task =
     (case tbs_before io (itk_source task) of Inl e \<Rightarrow> Inl e | Inr before \<Rightarrow>
        if om_size_bytes before = 0 then Inl (refused ''EMPTY_DATASET'')
        else if tbs_free io < 2 * om_size_bytes before + 256 * 1024 * 1024 then Inl (refused ''IMPORT_STORAGE_FULL'')
        else let key = under_prefix (itk_prefix task) (u ''source.'' @ py_lower (ud_lower (tl_ud lib)) (itk_format task)) in
          case tbs_copy io (itk_source task) (itk_bucket task) key (om_etag before) of Inl e \<Rightarrow> Inl e | Inr frozen \<Rightarrow>
         (let raw = \<lparr>or_bucket = itk_bucket task, or_key = key, or_version_id = om_version_id frozen\<rparr> in
          case tbs_read io raw of Inl e \<Rightarrow> Inl e | Inr bytes \<Rightarrow>
            if bytes \<noteq> [] \<and> \<not> tl_reserve lib then Inl (refused ''IMPORT_STORAGE_FULL'')
            else case tbs_after io (itk_source task) of Inl e \<Rightarrow> Inl e | Inr now \<Rightarrow>
              if source_changed before now then Inl (refused ''OBJECT_CHANGED'')
              else case process_file lib parquet task bytes of Inl e \<Rightarrow> Inl e | Inr r \<Rightarrow>
               (let out = tl_parquet lib (tbr_names r) (tbr_version r) (tbr_table r);
                    ckey = under_prefix (itk_prefix task) (u ''canonical.parquet'') in
                case tbs_put io (itk_bucket task) ckey out of Inl e \<Rightarrow> Inl e | Inr m \<Rightarrow>
                  Inr (inspection_of raw \<lparr>or_bucket = itk_bucket task, or_key = ckey, or_version_id = om_version_id m\<rparr>
                    (tl_sha lib bytes) (tl_sha lib out) (int (length bytes)) (int (length out)) r))))"

end
