(* ===== verification/ImportLifecycle.thy ===== *)
theory ImportLifecycle
  imports ImportRegister
begin

text \<open>
  What an upload session promises its users: an abstract life cycle with a lease generation, and the proof that
  every call of \<open>import_step\<close> refines it. From it follow that the rows satisfy the checks of their table,
  that a registered session is final and that a worker whose lease was taken over can no longer settle it.
\<close>

subsection \<open>The abstract life cycle\<close>

datatype phase = Receiving | Waiting | Held | Checked | TurnedAway | Over | Published uuid

inductive lifecycle :: "phase \<times> int \<Rightarrow> phase \<times> int \<Rightarrow> bool" where
  staged: "lifecycle (Receiving, g) (Waiting, g)"
| claimed: "p = Waiting \<or> p = Held \<Longrightarrow> lifecycle (p, g) (Held, g + 1)"
| lapsed: "p = Waiting \<or> p = Held \<Longrightarrow> lifecycle (p, g) (Over, g)"
| settled: "q = Checked \<or> q = TurnedAway \<or> q = Over \<Longrightarrow> lifecycle (Held, g) (q, g)"
| reconfigured: "p = Checked \<or> p = TurnedAway \<Longrightarrow> lifecycle (p, g) (Waiting, g)"
| aborted: "p = Receiving \<or> p = Waiting \<or> p = Checked \<Longrightarrow> lifecycle (p, g) (Over, g)"
| registered: "lifecycle (Checked, g) (Published s, g)"

inductive_cases lifecycle_from: "lifecycle (p, g) x"

definition phase_of :: "upload_session \<Rightarrow> phase" where
  "phase_of s = (case ul_status s of UInitiated \<Rightarrow> Receiving | UUploading \<Rightarrow> Receiving | UStaged \<Rightarrow> Waiting | UVerifying \<Rightarrow> Held
     | UVerified \<Rightarrow> Checked | URejected \<Rightarrow> TurnedAway | UAborted \<Rightarrow> Over | UFailed \<Rightarrow> Over
     | URegistered \<Rightarrow> Published (case ul_registered s of None \<Rightarrow> 0 | Some i \<Rightarrow> i))"

definition abs_session :: "upload_session \<Rightarrow> phase \<times> int" where
  "abs_session s = (phase_of s, ul_generation s)"

lemma final_phase: "lifecycle x y \<Longrightarrow> fst x \<noteq> Over \<and> (\<forall>s. fst x \<noteq> Published s)"
  by (cases rule: lifecycle.cases) auto

lemma lifecycle_generation: "lifecycle x y \<Longrightarrow> snd x \<le> snd y"
  by (cases rule: lifecycle.cases) auto

subsection \<open>Steps of one session\<close>

definition same_upload :: "upload_session \<Rightarrow> upload_session \<Rightarrow> bool" where
  "same_upload s r \<longleftrightarrow> ul_id r = ul_id s \<and> ul_tenant r = ul_tenant s \<and> ul_name r = ul_name s \<and> ul_size r = ul_size s
     \<and> ul_client_request r = ul_client_request s \<and> ul_created_by r = ul_created_by s \<and> ul_expires_at r = ul_expires_at s
     \<and> ul_staging_key r = ul_staging_key s \<and> ul_multipart r = ul_multipart s \<and> ul_format r = ul_format s"

definition session_step :: "upload_session \<Rightarrow> upload_session \<Rightarrow> bool" where
  "session_step s r \<longleftrightarrow> same_upload s r \<and> lifecycle\<^sup>=\<^sup>= (abs_session s) (abs_session r)
     \<and> (ul_status r \<noteq> URegistered \<longrightarrow> ul_asset r = ul_asset s \<and> ul_registered r = ul_registered s)
     \<and> (ul_status r = URegistered \<longrightarrow> ul_asset r \<noteq> None \<and> ul_registered r \<noteq> None \<or> r = s)
     \<and> (ul_status s = URegistered \<longrightarrow> r = s)
     \<and> ul_attempts r - ul_attempts s = ul_generation r - ul_generation s \<and> (ul_attempts r = ul_attempts s \<or> ul_attempts r \<le> 3)"

definition fresh_upload :: "upload_session \<Rightarrow> bool" where
  "fresh_upload s \<longleftrightarrow> session_target_ok s \<and> ul_generation s = 0 \<and> ul_attempts s = 0 \<and> ul_registered s = None
     \<and> (ul_status s = UInitiated \<or> ul_status s = UStaged)"

definition imports_step :: "import_db \<Rightarrow> import_db \<Rightarrow> bool" where
  "imports_step db db' \<longleftrightarrow> (\<exists>ks new. idb_sessions db' = ks @ new \<and> list_all2 session_step (idb_sessions db) ks
     \<and> list_all fresh_upload new \<and> distinct (map ul_id (idb_sessions db')))"

definition sessions_ok :: "import_db \<Rightarrow> bool" where
  "sessions_ok db \<longleftrightarrow> distinct (map ul_id (idb_sessions db))
     \<and> (\<forall>s \<in> set (idb_sessions db). session_target_ok s \<and> 0 \<le> ul_generation s
          \<and> ul_attempts s = ul_generation s \<and> ul_generation s \<le> 3 \<and> (ul_status s = URegistered) = (ul_registered s \<noteq> None))"

lemma session_step_refl [simp]: "session_step s s"
  by (simp add: session_step_def same_upload_def)

lemma steps_refl: "list_all2 session_step xs xs"
  by (simp add: list_all2_refl)

lemma step_same: "sessions_ok db \<Longrightarrow> idb_sessions db' = idb_sessions db \<Longrightarrow> imports_step db db'"
  unfolding imports_step_def sessions_ok_def by (rule exI [of _ "idb_sessions db"], rule exI [of _ "[]"]) (simp add: steps_refl)

lemma step_ids: "list_all2 session_step xs ys \<Longrightarrow> map ul_id ys = map ul_id xs"
  by (induction rule: list_all2_induct) (simp_all add: session_step_def same_upload_def)

lemma step_rows:
  assumes "sessions_ok db" "list_all2 session_step (idb_sessions db) ks"
  shows "imports_step db (db\<lparr>idb_sessions := ks\<rparr>)"
  unfolding imports_step_def using assms(2) step_ids [OF assms(2)] assms(1)
  by - (rule exI [of _ ks], rule exI [of _ "[]"], simp add: sessions_ok_def)

lemma step_update:
  assumes "sessions_ok db" "\<And>s. s \<in> set (idb_sessions db) \<Longrightarrow> p s \<Longrightarrow> session_step s (f s)"
  shows "imports_step db (update_sessions p f db)"
  unfolding update_sessions_def by (rule step_rows [OF assms(1)]) (use assms(2) in \<open>simp add: list_all2_conv_all_nth\<close>)

lemma imports_ok:
  assumes "sessions_ok db" "imports_step db db'"
  shows "sessions_ok db'"
proof -
  obtain ks new where k: "idb_sessions db' = ks @ new" "list_all2 session_step (idb_sessions db) ks" "list_all fresh_upload new"
    "distinct (map ul_id (idb_sessions db'))" using assms(2) unfolding imports_step_def by blast
  have "session_target_ok r \<and> 0 \<le> ul_generation r \<and> ul_attempts r = ul_generation r \<and> ul_generation r \<le> 3 \<and> (ul_status r = URegistered) = (ul_registered r \<noteq> None)"
    if r: "r \<in> set (idb_sessions db')" for r
  proof (cases "r \<in> set ks")
    case True
    then obtain s where s: "s \<in> set (idb_sessions db)" "session_step s r" using list_all2_right [OF k(2)] by blast
    have ok: "session_target_ok s" "0 \<le> ul_generation s" "ul_attempts s = ul_generation s" "ul_generation s \<le> 3" "(ul_status s = URegistered) = (ul_registered s \<noteq> None)"
      using assms(1) s(1) by (auto simp: sessions_ok_def)
    have g: "ul_generation s \<le> ul_generation r"
      using s(2) lifecycle_generation [of "abs_session s" "abs_session r"] by (auto simp: session_step_def abs_session_def)
    show ?thesis
    proof (cases "r = s")
      case False
      with s(2) have ns: "ul_status s \<noteq> URegistered" by (auto simp: session_step_def)
      show ?thesis using s(2) ok g ns False
        by (cases "ul_status r = URegistered") (auto simp: session_step_def session_target_ok_def same_upload_def)
    qed (use ok in simp)
  next
    case False
    then have "fresh_upload r" using r k(1,3) by (auto simp: list_all_iff)
    then show ?thesis by (auto simp: fresh_upload_def)
  qed
  then show ?thesis using k(4) by (simp add: sessions_ok_def)
qed

lemma get_by_id_in: "get_by_id t i db = Some s \<Longrightarrow> s \<in> set (idb_sessions db) \<and> ul_id s = i \<and> ul_tenant s = t"
  by (auto simp: get_by_id_def owned_by_def find_Some_iff)

lemma same_session: "sessions_ok db \<Longrightarrow> s \<in> set (idb_sessions db) \<Longrightarrow> r \<in> set (idb_sessions db) \<Longrightarrow> ul_id r = ul_id s \<Longrightarrow> r = s"
  by (auto simp: sessions_ok_def distinct_map dest: inj_onD)

lemma get_by_id_ok:
  assumes "sessions_ok db" "s \<in> set (idb_sessions db)" "owned_by t i s"
  shows "get_by_id t i db = Some s"
proof -
  have "get_by_id t i db \<noteq> None" using assms(2,3) by (auto simp: get_by_id_def find_None_iff)
  then obtain x where x: "get_by_id t i db = Some x" by blast
  have "x = s" by (rule same_session [OF assms(1,2)]) (use get_by_id_in [OF x] assms(3) in \<open>auto simp: owned_by_def\<close>)
  then show ?thesis using x by simp
qed

lemma step_owned:
  assumes "sessions_ok db" "get_by_id t i db = Some s" "session_step s (f s)"
  shows "imports_step db (update_sessions (owned_by t i) f db)"
  using assms same_session [OF assms(1)] get_by_id_in [OF assms(2)]
  by (intro step_update) (auto simp: owned_by_def)

text \<open>A change of the other tables on the way does not matter.\<close>

lemma step_cong: "imports_step db db' \<Longrightarrow> idb_sessions db0 = idb_sessions db \<Longrightarrow> idb_sessions db1 = idb_sessions db' \<Longrightarrow> imports_step db0 db1"
  by (simp add: imports_step_def)

lemma ok_cong: "sessions_ok db \<Longrightarrow> idb_sessions db' = idb_sessions db \<Longrightarrow> sessions_ok db'"
  by (simp add: sessions_ok_def)

subsection \<open>Every call refines it\<close>

lemma committed_simps [simp]:
  "committed db (Inl e) = db" "committed db (Inr (x, db')) = db'" "committed db (problem code db') = db'"
  by (simp_all add: committed_def problem_def)

lemma committed_respond [simp]: "committed db (respond ud st t now s db) = db"
  by (simp add: respond_def split: sum.split)

lemma committed_updated:
  assumes "P db" "\<And>s db'. x = Inr (s, db') \<Longrightarrow> P db'"
  shows "P (committed db (respond_updated ud st t now x))"
  using assms by (auto simp: respond_updated_def respond_def split: sum.split)

lemma committed_cases: "(\<And>x db'. r = Inr (x, db') \<Longrightarrow> P db') \<Longrightarrow> P db \<Longrightarrow> P (committed db r)"
  by (cases r) (auto simp: committed_def)

lemma session_stepI:
  assumes "same_upload s r" "lifecycle\<^sup>=\<^sup>= (abs_session s) (abs_session r)" "ul_asset r = ul_asset s" "ul_registered r = ul_registered s"
    "ul_status r \<noteq> URegistered" "ul_status s \<noteq> URegistered"
    "ul_attempts r - ul_attempts s = ul_generation r - ul_generation s" "ul_attempts r = ul_attempts s \<or> ul_attempts r \<le> 3"
  shows "session_step s r"
  using assms by (auto simp: session_step_def)

lemma create_session_step:
  assumes "sessions_ok db" "create_session s db = Inr (r, db')" "fresh_upload s"
  shows "imports_step db db'"
proof -
  have d: "idb_sessions db' = idb_sessions db @ [s]" "\<forall>r \<in> set (idb_sessions db). ul_id r \<noteq> ul_id s"
    using assms(2) by (auto simp: create_session_def any_of_iff split: if_splits)
  show ?thesis unfolding imports_step_def
    using d assms(1,3) by - (rule exI [of _ "idb_sessions db"], rule exI [of _ "[s]"], auto simp: sessions_ok_def steps_refl)
qed

lemma created_ok: "create_session s db = Inr (r, db') \<Longrightarrow> session_target_ok s"
  by (auto simp: create_session_def split: if_splits)

lemma returning_step:
  assumes "sessions_ok db" "returning t i f db = Inr (x, db')" "\<And>s. get_by_id t i db = Some s \<Longrightarrow> session_step s (f s)"
  shows "imports_step db db'"
proof -
  obtain s where s: "get_by_id t i db = Some s" "db' = update_sessions (owned_by t i) f db"
    using assms(2) by (auto simp: returning_def split: option.splits)
  show ?thesis unfolding s(2) by (rule step_owned [where s = s]) (use assms(1,3) s(1) in auto)
qed

lemma new_session_step:
  assumes "sessions_ok db" "create_session (new_session user now i q sz key dest mp status m) (db\<lparr>idb_privacy := pdb\<rparr>) = Inr (x, db')"
    "status = UInitiated \<or> status = UStaged"
  shows "imports_step db db'"
proof -
  let ?db = "db\<lparr>idb_privacy := pdb\<rparr>"
  have ok: "sessions_ok ?db" using assms(1) by (rule ok_cong) simp
  have "imports_step ?db db'"
    using create_session_step [OF ok assms(2)] created_ok [OF assms(2)] assms(3) by (auto simp: fresh_upload_def new_session_def)
  then show ?thesis by (rule step_cong) simp_all
qed

lemma create_import_step:
  assumes "sessions_ok db"
  shows "imports_step db (committed db (create_import_session ev ud st io user now i q db))"
proof (cases "may_import user \<and> (\<exists>p. ensure_initialized (pv_rule_id ev) (iur_tenant user) (idb_privacy db) = Inr p)")
  case False
  then have "\<exists>e. create_import_session ev ud st io user now i q db = Inl e"
    by (auto simp: create_import_session_def split: sum.split)
  then show ?thesis using step_same [OF assms refl] by auto
next
  case True
  then obtain p where p: "may_import user" "ensure_initialized (pv_rule_id ev) (iur_tenant user) (idb_privacy db) = Inr p" by blast
  let ?db = "db\<lparr>idb_privacy := p\<rparr>"
  have same: "imports_step db db" "imports_step db ?db" using step_same [OF assms] by simp_all
  have r: "imports_step db (committed db (respond ud st t now s ?db))" for t s
    by (rule committed_cases [where P = "imports_step db"]) (use same in \<open>auto simp: respond_def split: sum.splits\<close>)
  have src: "imports_step db (committed db (create_from_source ud st io user now i q src m ?db))" for src m
    unfolding create_from_source_def Let_def
    by (auto simp: same split: sum.split intro!: committed_updated [where P = "imports_step db"] intro: new_session_step [OF assms])
  have upl: "imports_step db (committed db (create_for_upload ud st io user now i q key m ?db))" for key m
    unfolding create_for_upload_def
    by (auto simp: same split: sum.split intro!: committed_updated [where P = "imports_step db"] intro: new_session_step [OF assms])
  show ?thesis unfolding create_import_session_def Let_def p(2)
    using p(1) by (simp add: same r src upl split: option.split)
qed

lemma upload_step:
  assumes "sessions_ok db"
  shows "imports_step db (committed db (upload_part sha st up user now i n len chunks db))"
proof -
  have same: "imports_step db db" using step_same [OF assms] by simp
  have rec: "imports_step db (record_part (ul_id s) n etag d sz db)"
    if s: "get_by_id (iur_tenant user) i db = Some s" "ul_status s = UInitiated \<or> ul_status s = UUploading" for s etag d sz
  proof -
    have "session_step s (with_part n etag d sz s)"
      using s(2) by (intro session_stepI) (auto simp: same_upload_def with_part_def abs_session_def phase_of_def)
    then show ?thesis unfolding record_part_def
      using same_session [OF assms] get_by_id_in [OF s(1)] by (intro step_update [OF assms]) auto
  qed
  have sp: "imports_step db (committed db (store_part sha up s n bytes db))"
    if "get_by_id (iur_tenant user) i db = Some s" "ul_status s = UInitiated \<or> ul_status s = UUploading" for s bytes
    unfolding store_part_def using rec [OF that] same by (auto split: option.split sum.split)
  show ?thesis unfolding upload_part_def using sp same by (auto split: option.split)
qed

lemma complete_step:
  assumes "sessions_ok db"
  shows "imports_step db (committed db (complete_import ud st io user now i ps db))"
proof -
  have same: "imports_step db db" using step_same [OF assms] by simp
  have st: "imports_step db db'"
    if "get_by_id (iur_tenant user) i db = Some s" "ul_status s = UInitiated \<or> ul_status s = UUploading"
      "transition_staged i (iur_tenant user) None dest db = Inr (x, db')" for s dest x db'
    using that unfolding transition_staged_def
    by (intro returning_step [OF assms]) (auto intro!: session_stepI lifecycle.staged simp: same_upload_def abs_session_def phase_of_def)
  show ?thesis unfolding complete_import_def using same st
    by (auto split: option.split sum.split intro!: committed_updated [where P = "imports_step db"])
qed

lemma update_status_returning:
  "update_status i t status reason patch db = Inr r \<Longrightarrow>
     returning t i (\<lambda>s. s\<lparr>ul_status := status, ul_error := reason, ul_manifest := merge_manifest (ul_manifest s) patch\<rparr>) db = Inr r"
  by (simp add: update_status_def split: if_splits)

lemma configure_step:
  assumes "sessions_ok db"
  shows "imports_step db (committed db (configure_import_session ud st user now i names db))"
proof -
  have same: "imports_step db db" using step_same [OF assms] by simp
  have st: "imports_step db db'"
    if "get_by_id (iur_tenant user) i db = Some s" "ul_status s = UVerified \<or> ul_status s = URejected"
      "update_status i (iur_tenant user) UStaged None patch db = Inr (x, db')" for s patch x db'
    using that(1,2) update_status_returning [OF that(3)]
    by (intro returning_step [OF assms]) (auto intro!: session_stepI lifecycle.reconfigured simp: same_upload_def abs_session_def phase_of_def)
  show ?thesis unfolding configure_import_session_def using same st
    by (auto simp: column_error_def split: option.split intro!: committed_updated [where P = "imports_step db"])
qed

lemma abort_step:
  assumes "sessions_ok db"
  shows "imports_step db (committed db (abort_import_session ud st ab user now i db))"
proof -
  have same: "imports_step db db" using step_same [OF assms] by simp
  have st: "imports_step db db'"
    if "get_by_id (iur_tenant user) i db = Some s" "ul_status s \<in> {UInitiated, UUploading, UStaged, UVerified, UAborted}"
      "update_status i (iur_tenant user) UAborted reason patch db = Inr (x, db')" for s reason patch x db'
    using that(1,2) update_status_returning [OF that(3)]
    by (intro returning_step [OF assms]) (auto intro!: session_stepI lifecycle.aborted simp: same_upload_def abs_session_def phase_of_def)
  show ?thesis unfolding abort_import_session_def using same st
    by (auto split: option.split sum.split intro!: committed_updated [where P = "imports_step db"])
qed

lemma next_upload_in:
  assumes "next_upload tx locked db = Some s"
  shows "s \<in> set (idb_sessions db) \<and> claimable_upload tx s"
proof -
  obtain rest where "sort_key ul_created_at (filter (\<lambda>s. claimable_upload tx s \<and> \<not> locked s) (idb_sessions db)) = s # rest"
    using assms by (auto simp: next_upload_def split: list.splits)
  then have "s \<in> set (sort_key ul_created_at (filter (\<lambda>s. claimable_upload tx s \<and> \<not> locked s) (idb_sessions db)))" by simp
  then show ?thesis by simp
qed

lemma claim_step:
  assumes "sessions_ok db"
  shows "imports_step db (snd (claim_next_session st worker now tx locked db))"
proof (cases "next_upload tx locked db")
  case None
  then show ?thesis using step_same [OF assms] by (simp add: claim_next_session_def)
next
  case (Some s)
  have s: "s \<in> set (idb_sessions db)" "ul_status s = UStaged \<or> ul_status s = UVerifying"
    using next_upload_in [OF Some] by (auto simp: claimable_upload_def)
  have up: "imports_step db (update_sessions (\<lambda>r. ul_id r = ul_id s) f db)" if "session_step s (f s)" for f
    using that same_session [OF assms s(1)] by (intro step_update [OF assms]) auto
  have "session_step s (failed_with code s)" for code using s(2)
    by (intro session_stepI) (auto simp: failed_with_def same_upload_def abs_session_def phase_of_def intro!: lifecycle.lapsed)
  moreover have "session_step s (leased_to worker now k s)" if "\<not> 3 < ul_attempts s + 1" for k using s(2) that
    by (intro session_stepI) (auto simp: leased_to_def same_upload_def abs_session_def phase_of_def intro!: lifecycle.claimed)
  ultimately show ?thesis using Some up by (simp add: claim_next_session_def del: not_less)
qed

lemma beat_step: "sessions_ok db \<Longrightarrow> imports_step db (snd (upload_heartbeat st worker now tx i gen db))"
  unfolding upload_heartbeat_def snd_conv
proof (rule step_update)
  fix s assume "holds_upload worker tx i gen s"
  then have "ul_status s = UVerifying" by (simp add: holds_upload_def)
  then show "session_step s (s\<lparr>ul_lease := Some (now + upload_seconds (ist_lease_seconds st))\<rparr>)"
    by (intro session_stepI) (simp_all add: same_upload_def abs_session_def phase_of_def)
qed

lemma patched_step:
  assumes "ul_status s = UVerifying" "status = UVerified \<or> status = URejected \<or> status = UFailed"
  shows "session_step s (patched status reason patch s)"
  using assms by (intro session_stepI) (auto simp: patched_def same_upload_def abs_session_def phase_of_def intro!: lifecycle.settled)

lemma settled_step: "ul_status s = UVerifying \<Longrightarrow> session_step s (settled fmt pin v outcome s)"
  by (rule session_stepI) (auto simp: settled_def patched_def same_upload_def abs_session_def phase_of_def
      split: sum.split import_failure.split intro!: lifecycle.settled)

lemma settle_step:
  assumes "sessions_ok db" "\<And>s. ul_status s = UVerifying \<Longrightarrow> session_step s (f s)"
  shows "imports_step db (settle worker tx c f db)"
  unfolding settle_def by (rule step_update [OF assms(1)]) (use assms(2) in \<open>auto simp: holds_upload_def\<close>)

text \<open>What processing does to the sessions: nothing, or the fenced update.\<close>

lemma process_result:
  assumes "process_session ev st w worker tx c (privacy_calls ev cs) db = Inr db'"
  obtains f pdb where "db' = settle worker tx c f (db\<lparr>idb_privacy := pdb\<rparr>)" "\<forall>s. ul_status s = UVerifying \<longrightarrow> session_step s (f s)"
proof -
  obtain pin pdb where p: "load_pinned_rules (pv_nt ev) (pv_sha ev) (pv_rule_id ev) (ul_tenant c) (idb_privacy db) = Inr (pin, pdb)"
    using assms by (auto simp: process_session_def split: sum.splits)
  let ?later = "db\<lparr>idb_privacy := fold (call ev) cs pdb\<rparr>"
  have l: "privacy_calls ev cs (db\<lparr>idb_privacy := pdb\<rparr>) = ?later" by (simp add: privacy_calls_def)
  have "\<exists>f. db' = settle worker tx c f ?later \<and> (\<forall>s. ul_status s = UVerifying \<longrightarrow> session_step s (f s))"
  proof (cases "ww_versioned w")
    case False
    then show ?thesis using assms p patched_step by (auto simp: process_session_def Let_def l)
  next
    case True
    obtain pin' v outcome where "db' = settle worker tx c (settled (ul_format c) pin' v outcome) ?later"
      using assms p True
      by (auto simp: process_session_def settle_outcome_def Let_def l split: sum.splits import_failure.splits if_splits)
    then show ?thesis using settled_step by blast
  qed
  then show thesis using that by blast
qed

lemma settle_import_step:
  assumes "sessions_ok db"
  shows "imports_step db (import_step ie (SettleImport w worker tx c cs) db)"
proof (cases "process_session (iev_privacy ie) (iev_settings ie) w worker tx c (privacy_calls (iev_privacy ie) cs) db")
  case (Inl e)
  then show ?thesis using step_same [OF assms] by (simp add: privacy_calls_def)
next
  case (Inr db')
  obtain f pdb where f: "db' = settle worker tx c f (db\<lparr>idb_privacy := pdb\<rparr>)" "\<forall>s. ul_status s = UVerifying \<longrightarrow> session_step s (f s)"
    using Inr by (rule process_result)
  have "imports_step (db\<lparr>idb_privacy := pdb\<rparr>) db'"
    unfolding f(1) by (rule settle_step) (use assms f(2) in \<open>auto simp: sessions_ok_def\<close>)
  then show ?thesis using Inr by (auto intro: step_cong)
qed

subsection \<open>Registration\<close>

lemma resolve_asset_result:
  assumes "resolve_asset lower user now s fresh db = Inr (r, db')"
  shows "idb_sessions db' = idb_sessions db" "idb_snapshots db' = idb_snapshots db"
  using assms by (auto simp: resolve_asset_def insert_asset_def Let_def split: option.splits if_splits)

lemma insert_snapshot_result:
  assumes "insert_snapshot r db = Inr db'"
  shows "idb_sessions db' = idb_sessions db" "idb_snapshots db' = idb_snapshots db @ [r]" "idb_assets db' = idb_assets db"
  using assms by (auto simp: insert_snapshot_def split: if_splits)

text \<open>The shape of a new version.\<close>

lemma add_version_result:
  assumes "add_version ev now tx user ids s a desc canonical db = Inr (r, db')"
  obtains db1 p scanned scan p1 rows cols parent sha where
    "as_dict (py_or (jget_null (ul_manifest s) ''sensitive_scan'') (JObj [])) = Inr scanned"
    "jget_null desc ''content_sha256'' = JStr sha"
    "json_len (Some (py_or (jget_null (ul_manifest s) ''columns'') (JArr []))) = Inr cols"
    "r = published_snapshot user now (ul_tenant s) a (iid_snapshot ids) (ul_manifest s) desc sha (storage_of canonical)
       (schema_of (py_or (jget_null (ul_manifest s) ''columns'') (JArr [])) scanned) rows cols parent (next_version (ul_tenant s) a db)"
    "insert_snapshot r db = Inr db1"
    "insert_import_job tx (iid_scan ids) (ul_tenant s) (iid_snapshot ids) user rows (ul_manifest s) scanned (idb_privacy db1) = Inr (scan, p1)"
    "insert_findings (pv_uuid5 ev) (ul_tenant s) (iid_snapshot ids) scan scanned p1 = Inr p"
    "db' = mark_registered (ul_tenant s) (ul_id s) a (iid_snapshot ids) (bump_asset (ul_tenant s) a (iid_snapshot ids) (db1\<lparr>idb_privacy := p\<rparr>))"
  using assms by (auto simp: add_version_def Let_def split: sum.splits json.splits prod.splits)

definition registering :: "upload_session \<Rightarrow> import_db \<Rightarrow> snapshot_entry \<Rightarrow> import_db \<Rightarrow> bool" where
  "registering s db r db' \<longleftrightarrow> (\<exists>a db1. idb_sessions db1 = idb_sessions db
     \<and> idb_sessions db' = idb_sessions (mark_registered (ul_tenant s) (ul_id s) a (se_id r) db1)
     \<and> se_tenant r = ul_tenant s \<and> se_asset r = a \<and> r \<in> set (idb_snapshots db'))"

lemma add_version_registering:
  assumes "add_version ev now tx user ids s a desc canonical db = Inr (r, db')"
  shows "registering s db r db'" "idb_snapshots db' = idb_snapshots db @ [r]"
proof -
  obtain db1 p scanned scan p1 rows cols parent sha where
    r: "r = published_snapshot user now (ul_tenant s) a (iid_snapshot ids) (ul_manifest s) desc sha (storage_of canonical)
       (schema_of (py_or (jget_null (ul_manifest s) ''columns'') (JArr [])) scanned) rows cols parent (next_version (ul_tenant s) a db)"
    and i: "insert_snapshot r db = Inr db1"
    and d: "db' = mark_registered (ul_tenant s) (ul_id s) a (iid_snapshot ids) (bump_asset (ul_tenant s) a (iid_snapshot ids) (db1\<lparr>idb_privacy := p\<rparr>))"
    using assms by (rule add_version_result)
  note db1 = insert_snapshot_result [OF i]
  show "idb_snapshots db' = idb_snapshots db @ [r]"
    using db1 by (simp add: d mark_registered_def update_sessions_def bump_asset_def)
  then show "registering s db r db'" unfolding registering_def
    using db1(1) by (intro exI [of _ a] exI [of _ "bump_asset (ul_tenant s) a (iid_snapshot ids) (db1\<lparr>idb_privacy := p\<rparr>)"])
      (simp add: d mark_registered_def update_sessions_def bump_asset_def r published_snapshot_def)
qed

lemma register_verified_result:
  assumes "register_verified ev lower now tx user ids s desc db = Inr (x, db')"
  shows "(case x of Inl code \<Rightarrow> idb_sessions db' = idb_sessions db \<and> idb_snapshots db' = idb_snapshots db
    | Inr r \<Rightarrow> registering s db r db' \<and> (idb_snapshots db' = idb_snapshots db \<or> idb_snapshots db' = idb_snapshots db @ [r]))"
proof -
  obtain canonical where c: "as_dict (jget_or desc ''canonical'' (JObj [])) = Inr canonical"
    using assms by (auto simp: register_verified_def split: sum.splits)
  obtain y dba where ra: "resolve_asset lower user now s (iid_asset ids) db = Inr (y, dba)"
    using assms c by (auto simp: register_verified_def split: sum.splits)
  note same = resolve_asset_result [OF ra]
  show ?thesis
  proof (cases y)
    case (Inl code)
    then have "x = Inl code" "db' = dba" using assms c ra by (simp_all add: register_verified_def problem_def)
    then show ?thesis using same by simp
  next
    case (Inr a)
    show ?thesis
    proof (cases "find (same_raw (ul_tenant s) a (jget_null desc ''content_sha256'')) (idb_snapshots dba)")
      case None
      then obtain r where r: "x = Inr r" "add_version ev now tx user ids s a desc canonical dba = Inr (r, db')"
        using assms c ra Inr by (auto simp: register_verified_def split: sum.splits)
      show ?thesis using add_version_registering [OF r(2)] same by (auto simp: r(1) registering_def)
    next
      case (Some r)
      have rin: "r \<in> set (idb_snapshots dba)" "se_tenant r = ul_tenant s" "se_asset r = a"
        using Some by (auto simp: find_Some_iff same_raw_def)
      have "(x = Inr r \<and> db' = mark_registered (ul_tenant s) (ul_id s) a (se_id r) dba) \<or> (\<exists>code. x = Inl code \<and> db' = dba)"
        using assms c ra Inr Some by (auto simp: register_verified_def problem_def split: sum.splits if_splits)
      then show ?thesis
      proof (elim disjE conjE exE)
        assume d: "x = Inr r" "db' = mark_registered (ul_tenant s) (ul_id s) a (se_id r) dba"
        have "registering s db r db'" unfolding registering_def
          using rin same by (intro exI [of _ a] exI [of _ dba]) (simp add: d mark_registered_def update_sessions_def)
        then show ?thesis using same by (simp add: d mark_registered_def update_sessions_def)
      qed (use same in simp)
    qed
  qed
qed

text \<open>A registration answers from the table, refuses, or moves a verified session to its snapshot.\<close>

lemma register_result:
  assumes "register_snapshot ev lower now tx i t user acks ids db = Inr (x, db')"
  obtains (refused) code where "x = Inl code" "idb_sessions db' = idb_sessions db" "idb_snapshots db' = idb_snapshots db"
  | (again) s r where "x = Inr r" "db' = db" "get_by_id t i db = Some s" "ul_status s = URegistered" "ul_registered s = Some (se_id r)"
      "find_entry db t (se_id r) = Some r"
  | (published) s desc r where "x = Inr r" "get_by_id t i db = Some s" "ul_status s = UVerified" "registering s db r db'"
      "idb_snapshots db' = idb_snapshots db \<or> idb_snapshots db' = idb_snapshots db @ [r]"
      "jget_null (ul_manifest s) ''source_descriptor'' = JObj desc" "\<not> expired now s"
      "register_verified ev lower now tx user ids s desc db = Inr (Inr r, db')"
proof -
  show thesis
  proof (cases "get_by_id t i db")
    case None
    then show ?thesis using assms refused by (auto simp: register_snapshot_def problem_def)
  next
    case (Some s)
    let ?old = "if ul_status s = URegistered then (case ul_registered s of None \<Rightarrow> None | Some r \<Rightarrow> find_entry db t r) else None"
    show ?thesis
    proof (cases ?old)
      case o: (Some r)
      have "ul_status s = URegistered" "ul_registered s = Some (se_id r)" "find_entry db t (se_id r) = Some r"
        using o by (auto simp: find_entry_def find_Some_iff split: if_splits option.splits)
      then show ?thesis using assms Some o by (intro again) (auto simp: register_snapshot_def)
    next
      case o: None
      show ?thesis
      proof (cases "expired now s \<or> ul_status s \<noteq> UVerified")
        case True
        then have "\<exists>code. x = Inl code \<and> db' = db" using assms Some o
          by (cases "expired now s") (auto simp: register_snapshot_def problem_def split: if_splits)
        then show ?thesis by (auto intro: refused)
      next
        case False
        obtain b where b: "unacknowledged acks (ul_manifest s) = Inr b" using assms Some o False
          by (cases "unacknowledged acks (ul_manifest s)") (simp_all add: register_snapshot_def)
        show ?thesis
        proof (cases "b \<or> \<not> truthy (jget_null (ul_manifest s) ''source_descriptor'')")
          case True
          then have "\<exists>code. x = Inl code \<and> db' = db" using assms Some o False b
            by (cases b) (auto simp: register_snapshot_def problem_def)
          then show ?thesis by (auto intro: refused)
        next
          case tr: False
          then have eq: "(case as_dict (jget_null (ul_manifest s) ''source_descriptor'') of Inl e \<Rightarrow> Inl e
              | Inr desc \<Rightarrow> register_verified ev lower now tx user ids s desc db) = Inr (x, db')"
            using assms Some o False b by (simp add: register_snapshot_def)
          then obtain desc where d: "jget_null (ul_manifest s) ''source_descriptor'' = JObj desc"
            "register_verified ev lower now tx user ids s desc db = Inr (x, db')"
            by (auto simp: as_dict_def split: sum.splits json.splits)
          note res = register_verified_result [OF d(2)]
          show ?thesis
          proof (cases x)
            case (Inl code)
            then show ?thesis using res by (intro refused) auto
          next
            case (Inr r)
            then show ?thesis using res d Some False by (intro published) auto
          qed
        qed
      qed
    qed
  qed
qed

lemma registering_step:
  assumes "sessions_ok db" "get_by_id t i db = Some s" "ul_status s = UVerified" "registering s db r db'"
  shows "imports_step db db'"
proof -
  obtain a db1 where d: "idb_sessions db1 = idb_sessions db"
    "idb_sessions db' = idb_sessions (mark_registered (ul_tenant s) (ul_id s) a (se_id r) db1)"
    using assms(4) by (auto simp: registering_def)
  let ?f = "\<lambda>r'. r'\<lparr>ul_status := URegistered, ul_asset := Some a, ul_registered := Some (se_id r)\<rparr>"
  have "session_step s (?f s)"
    using assms(3) by (auto simp: session_step_def same_upload_def abs_session_def phase_of_def intro!: lifecycle.registered)
  moreover have g: "get_by_id (ul_tenant s) (ul_id s) db = Some s" using assms(2) get_by_id_in [OF assms(2)] by simp
  ultimately have "imports_step db (update_sessions (owned_by (ul_tenant s) (ul_id s)) ?f db)"
    by (intro step_owned [OF assms(1)])
  then show ?thesis using d by (elim step_cong) (simp_all add: mark_registered_def update_sessions_def)
qed

lemma register_step:
  assumes "sessions_ok db"
  shows "imports_step db (committed db (register_import_snapshot ev lower now tx i user acks ids db))"
proof (rule committed_cases [where P = "imports_step db"])
  fix x db' assume "register_import_snapshot ev lower now tx i user acks ids db = Inr (x, db')"
  then have "register_snapshot ev lower now tx i (iur_tenant user) (iur_id user) acks ids db = Inr (x, db')"
    by (auto simp: register_import_snapshot_def split: if_splits)
  then show "imports_step db db'"
  proof (cases rule: register_result)
    case (refused code)
    then show ?thesis using step_same [OF assms] by simp
  next
    case (again s r)
    then show ?thesis using step_same [OF assms] by simp
  next
    case (published s desc r)
    then show ?thesis using registering_step [OF assms] by blast
  qed
qed (use step_same [OF assms] in simp)

lemma import_step_step: "sessions_ok db \<Longrightarrow> imports_step db (import_step ie c db)"
proof (cases c)
  case (SettleImport w worker tx s cs)
  assume "sessions_ok db"
  then show ?thesis unfolding SettleImport by (rule settle_import_step)
qed (auto simp: privacy_calls_def create_import_step upload_step complete_step configure_step abort_step register_step claim_step beat_step
    intro: step_same)

lemma calls_sessions_ok: "sessions_ok db \<Longrightarrow> sessions_ok (fold (import_step ie) cs db)"
  by (induction cs arbitrary: db) (auto intro: imports_ok import_step_step)

lemma no_sessions_ok: "idb_sessions db = [] \<Longrightarrow> sessions_ok db"
  by (simp add: sessions_ok_def)

lemma session_later:
  assumes "sessions_ok db" "s \<in> set (idb_sessions db)"
  shows "\<exists>r \<in> set (idb_sessions (fold (import_step ie) cs db)). same_upload s r \<and> lifecycle\<^sup>*\<^sup>* (abs_session s) (abs_session r)
    \<and> (ul_status s = URegistered \<longrightarrow> r = s)"
  using assms
proof (induction cs arbitrary: db s)
  case Nil
  then show ?case by (auto simp: same_upload_def)
next
  case (Cons c cs)
  obtain ks new where k: "idb_sessions (import_step ie c db) = ks @ new" "list_all2 session_step (idb_sessions db) ks"
    using import_step_step [OF Cons.prems(1)] unfolding imports_step_def by blast
  obtain r where r: "r \<in> set (idb_sessions (import_step ie c db))" "session_step s r"
    using list_all2_left [OF k(2) Cons.prems(2)] k(1) by auto
  have ok: "sessions_ok (import_step ie c db)" using imports_ok [OF Cons.prems(1) import_step_step [OF Cons.prems(1)]] .
  obtain q where q: "q \<in> set (idb_sessions (fold (import_step ie) cs (import_step ie c db)))" "same_upload r q"
    "lifecycle\<^sup>*\<^sup>* (abs_session r) (abs_session q)" "ul_status r = URegistered \<longrightarrow> q = r" using Cons.IH [OF ok r(1)] by blast
  have "lifecycle\<^sup>*\<^sup>* (abs_session s) (abs_session r)" using r(2) by (auto simp: session_step_def)
  then have "lifecycle\<^sup>*\<^sup>* (abs_session s) (abs_session q)" using q(3) by (rule rtranclp_trans)
  moreover have "same_upload s q" using r(2) q(2) by (simp add: session_step_def same_upload_def)
  moreover have "ul_status s = URegistered \<longrightarrow> q = s" using r(2) q(4) by (auto simp: session_step_def)
  ultimately show ?case using q(1) by auto
qed

text \<open>C8: 
  Refinement: whatever call is made in a reachable state, each session keeps its identity and either stays
  where it is in the abstract life cycle or makes one of its steps, and new sessions start at its beginning.
\<close>

theorem upload_refines_lifecycle:
  assumes "idb_sessions db0 = []"
  shows "\<exists>ks new. idb_sessions (import_step ie c (fold (import_step ie) cs db0)) = ks @ new
    \<and> list_all2 (\<lambda>s r. ul_id r = ul_id s \<and> ul_tenant r = ul_tenant s \<and> lifecycle\<^sup>=\<^sup>= (abs_session s) (abs_session r))
        (idb_sessions (fold (import_step ie) cs db0)) ks
    \<and> list_all (\<lambda>s. abs_session s = (Receiving, 0) \<or> abs_session s = (Waiting, 0)) new"
proof -
  let ?db = "fold (import_step ie) cs db0"
  have ok: "sessions_ok ?db" using calls_sessions_ok [OF no_sessions_ok [OF assms]] .
  obtain ks new where k: "idb_sessions (import_step ie c ?db) = ks @ new" "list_all2 session_step (idb_sessions ?db) ks"
    "list_all fresh_upload new" using import_step_step [OF ok] unfolding imports_step_def by blast
  have "list_all2 (\<lambda>s r. ul_id r = ul_id s \<and> ul_tenant r = ul_tenant s \<and> lifecycle\<^sup>=\<^sup>= (abs_session s) (abs_session r)) (idb_sessions ?db) ks"
    by (rule list_all2_mono [OF k(2)]) (simp add: session_step_def same_upload_def)
  moreover have "list_all (\<lambda>s. abs_session s = (Receiving, 0) \<or> abs_session s = (Waiting, 0)) new"
    using k(3) by (auto simp: list_all_iff fresh_upload_def abs_session_def phase_of_def)
  ultimately show ?thesis using k(1) by blast
qed


end
