(* ===== verification/ImportCatalog.thy ===== *)
theory ImportCatalog
  imports ImportLifecycle
begin

text \<open>
  What registration promises of the snapshot catalogue: rows are only ever appended, the versions of an asset
  are numbered without gaps, the asset row counts them and points at the newest, and a registered session
  answers with its snapshot for ever.
\<close>

subsection \<open>Who writes the catalogue\<close>

definition same_catalog :: "import_db \<Rightarrow> import_db \<Rightarrow> bool" where
  "same_catalog db db' \<longleftrightarrow> idb_snapshots db' = idb_snapshots db \<and> idb_assets db' = idb_assets db"

lemma same_catalog_refl [simp]: "same_catalog db db"
  by (simp add: same_catalog_def)

lemma same_catalog_updates [simp]:
  "same_catalog db (update_sessions p f db') = same_catalog db db'" "same_catalog db (db'\<lparr>idb_privacy := q\<rparr>) = same_catalog db db'"
  "same_catalog db (record_part i n e d sz db') = same_catalog db db'" "same_catalog db (privacy_calls ev cs db') = same_catalog db db'"
  "same_catalog db (settle worker tx c f db') = same_catalog db db'"
  by (simp_all add: same_catalog_def update_sessions_def record_part_def privacy_calls_def settle_def)

lemma create_same: "create_session s db = Inr (x, db') \<Longrightarrow> same_catalog db db'"
  by (auto simp: create_session_def same_catalog_def split: if_splits)

lemma returning_same: "returning t i f db = Inr (x, db') \<Longrightarrow> same_catalog db db'"
  by (auto simp: returning_def split: option.splits)

lemma status_same:
  "transition_staged i t sha dest db = Inr (x, db') \<Longrightarrow> same_catalog db db'"
  "update_status i t status reason patch db = Inr (x, db') \<Longrightarrow> same_catalog db db'"
  by (auto simp: transition_staged_def dest: returning_same dest!: update_status_returning)

lemma create_import_same: "same_catalog db (committed db (create_import_session ev ud st io user now i q db))"
proof (cases "may_import user \<and> (\<exists>p. ensure_initialized (pv_rule_id ev) (iur_tenant user) (idb_privacy db) = Inr p)")
  case False
  then have "\<exists>e. create_import_session ev ud st io user now i q db = Inl e"
    by (auto simp: create_import_session_def split: sum.split)
  then show ?thesis by auto
next
  case True
  then obtain p where p: "may_import user" "ensure_initialized (pv_rule_id ev) (iur_tenant user) (idb_privacy db) = Inr p" by blast
  let ?db = "db\<lparr>idb_privacy := p\<rparr>"
  have c: "same_catalog db db'" if "create_session s ?db = Inr (x, db')" for s x db'
    using create_same [OF that] by (simp add: same_catalog_def)
  have r: "same_catalog db (committed db (respond ud st t now s ?db))" for t s
    by (rule committed_cases [where P = "same_catalog db"]) (auto simp: respond_def split: sum.splits)
  have src: "same_catalog db (committed db (create_from_source ud st io user now i q src m ?db))" for src m
    unfolding create_from_source_def Let_def
    by (auto split: sum.split intro!: committed_updated [where P = "same_catalog db"] intro: c)
  have upl: "same_catalog db (committed db (create_for_upload ud st io user now i q key m ?db))" for key m
    unfolding create_for_upload_def
    by (auto split: sum.split intro!: committed_updated [where P = "same_catalog db"] intro: c)
  show ?thesis unfolding create_import_session_def Let_def p(2)
    using p(1) by (simp add: r src upl split: option.split)
qed

lemma upload_same: "same_catalog db (committed db (upload_part sha st up user now i n len chunks db))"
proof -
  have "same_catalog db (committed db (store_part sha up s n bytes db))" for s bytes
    unfolding store_part_def by (auto split: option.split sum.split)
  then show ?thesis unfolding upload_part_def by (auto split: option.split)
qed

lemma complete_same: "same_catalog db (committed db (complete_import ud st io user now i ps db))"
  unfolding complete_import_def
  by (auto split: option.split sum.split intro!: committed_updated [where P = "same_catalog db"] dest: status_same)

lemma configure_same: "same_catalog db (committed db (configure_import_session ud st user now i names db))"
  unfolding configure_import_session_def
  by (auto split: option.split sum.split intro!: committed_updated [where P = "same_catalog db"] dest: status_same)

lemma abort_same: "same_catalog db (committed db (abort_import_session ud st ab user now i db))"
  unfolding abort_import_session_def
  by (auto split: option.split sum.split intro!: committed_updated [where P = "same_catalog db"] dest: status_same)

lemma claim_same: "same_catalog db (snd (claim_next_session st worker now tx locked db))"
  by (simp add: claim_next_session_def split: option.split)

lemma settle_import_same: "same_catalog db (import_step ie (SettleImport w worker tx c cs) db)"
proof (cases "process_session (iev_privacy ie) (iev_settings ie) w worker tx c (privacy_calls (iev_privacy ie) cs) db")
  case (Inr db')
  obtain f pdb where "db' = settle worker tx c f (db\<lparr>idb_privacy := pdb\<rparr>)" using Inr by (rule process_result)
  then show ?thesis using Inr by simp
qed simp

fun registers :: "import_call \<Rightarrow> bool" where
  "registers (RegisterImport now tx i user acks ids) = True"
| "registers c = False"

lemma step_same_catalog: "\<not> registers c \<Longrightarrow> same_catalog db (import_step ie c db)"
  by (cases c) (auto simp: create_import_same upload_same complete_same configure_same abort_same claim_same upload_heartbeat_def
      simp del: import_step.simps(9) intro: settle_import_same)

subsection \<open>The invariant\<close>

definition versions_of :: "import_db \<Rightarrow> uuid \<Rightarrow> uuid \<Rightarrow> snapshot_entry list" where
  "versions_of db t a = filter (\<lambda>r. se_tenant r = t \<and> se_asset r = a) (idb_snapshots db)"

definition newest :: "snapshot_entry list \<Rightarrow> uuid option" where
  "newest rs = (if rs = [] then None else Some (se_id (last rs)))"

definition catalog_ok :: "import_db \<Rightarrow> bool" where
  "catalog_ok db \<longleftrightarrow> distinct (map se_id (idb_snapshots db)) \<and> distinct (map ae_id (idb_assets db))
     \<and> (\<forall>t a. map se_version (versions_of db t a) = [1..int (length (versions_of db t a))])
     \<and> (\<forall>x \<in> set (idb_assets db). ae_versions x = int (length (versions_of db (ae_tenant x) (ae_id x)))
          \<and> ae_current x = newest (versions_of db (ae_tenant x) (ae_id x)))
     \<and> (\<forall>r \<in> set (idb_snapshots db). \<exists>x \<in> set (idb_assets db). ae_tenant x = se_tenant r \<and> ae_id x = se_asset r)
     \<and> (\<forall>t a. distinct (map se_sha (filter se_object_file (versions_of db t a))))"

lemma catalog_cong: "catalog_ok db \<Longrightarrow> same_catalog db db' \<Longrightarrow> catalog_ok db'"
  by (simp add: catalog_ok_def same_catalog_def versions_of_def)

lemma fold_max_upto: "0 \<le> m \<Longrightarrow> fold max [1..int n] m = max m (int n)"
proof (induction n)
  case (Suc n)
  have "[1..int (Suc n)] = [1..int n] @ [int (Suc n)]" using upto_rec2 [of 1 "int (Suc n)"] by simp
  then show ?case using Suc by simp
qed simp

lemma next_version_count: "catalog_ok db \<Longrightarrow> next_version t a db = int (length (versions_of db t a)) + 1"
  using fold_max_upto [of 0 "length (versions_of db t a)"] by (simp add: next_version_def catalog_ok_def versions_of_def [symmetric])

lemma versions_append: "idb_snapshots db' = idb_snapshots db @ [r] \<Longrightarrow>
    versions_of db' t a = versions_of db t a @ (if se_tenant r = t \<and> se_asset r = a then [r] else [])"
  by (simp add: versions_of_def)

lemma resolve_catalog:
  assumes "catalog_ok db" "resolve_asset lower user now s fresh db = Inr (y, db')"
  shows "catalog_ok db'" "y = Inr a \<Longrightarrow> \<exists>x \<in> set (idb_assets db'). ae_tenant x = ul_tenant s \<and> ae_id x = a"
proof -
  have "same_catalog db db' \<and> (y = Inr a \<longrightarrow> (\<exists>x \<in> set (idb_assets db'). ae_tenant x = ul_tenant s \<and> ae_id x = a))
    \<or> (\<exists>x. idb_snapshots db' = idb_snapshots db \<and> idb_assets db' = idb_assets db @ [x] \<and> y = Inr (ae_id x) \<and> ae_tenant x = ul_tenant s
        \<and> ae_id x \<notin> ae_id ` set (idb_assets db) \<and> ae_versions x = 0 \<and> ae_current x = None)"
    using assms(2) by (auto simp: resolve_asset_def insert_asset_def Let_def any_of_iff same_catalog_def split: option.splits if_splits)
  then have "catalog_ok db' \<and> (y = Inr a \<longrightarrow> (\<exists>x \<in> set (idb_assets db'). ae_tenant x = ul_tenant s \<and> ae_id x = a))"
  proof (elim disjE conjE exE)
    assume "same_catalog db db'" "y = Inr a \<longrightarrow> (\<exists>x \<in> set (idb_assets db'). ae_tenant x = ul_tenant s \<and> ae_id x = a)"
    then show ?thesis using catalog_cong [OF assms(1)] by blast
  next
    fix x assume n: "idb_snapshots db' = idb_snapshots db" "idb_assets db' = idb_assets db @ [x]" "y = Inr (ae_id x)" "ae_tenant x = ul_tenant s"
      "ae_id x \<notin> ae_id ` set (idb_assets db)" "ae_versions x = 0" "ae_current x = None"
    have none: "versions_of db (ae_tenant x) (ae_id x) = []"
      using assms(1) n(5) by (fastforce simp: catalog_ok_def versions_of_def filter_empty_conv image_iff)
    have v: "versions_of db' t b = versions_of db t b" for t b by (simp add: versions_of_def n(1))
    show ?thesis using assms(1) n none by (auto simp: catalog_ok_def v newest_def)
  qed
  then show "catalog_ok db'" "y = Inr a \<Longrightarrow> \<exists>x \<in> set (idb_assets db'). ae_tenant x = ul_tenant s \<and> ae_id x = a" by auto
qed

lemma add_version_catalog:
  assumes "catalog_ok db" "add_version ev now tx user ids s a desc canonical db = Inr (r, db')"
    "\<exists>x \<in> set (idb_assets db). ae_tenant x = ul_tenant s \<and> ae_id x = a"
  shows "catalog_ok db'"
proof -
  obtain db1 p scanned scan p1 rows cols parent sha where
    r: "r = published_snapshot user now (ul_tenant s) a (iid_snapshot ids) (ul_manifest s) desc sha (storage_of canonical)
       (schema_of (py_or (jget_null (ul_manifest s) ''columns'') (JArr [])) scanned) rows cols parent (next_version (ul_tenant s) a db)"
    and i: "insert_snapshot r db = Inr db1"
    and d: "db' = mark_registered (ul_tenant s) (ul_id s) a (iid_snapshot ids) (bump_asset (ul_tenant s) a (iid_snapshot ids) (db1\<lparr>idb_privacy := p\<rparr>))"
    using assms(2) by (rule add_version_result)
  have f: "se_tenant r = ul_tenant s" "se_asset r = a" "se_id r = iid_snapshot ids" "se_object_file r"
    "se_version r = int (length (versions_of db (ul_tenant s) a)) + 1"
    using next_version_count [OF assms(1)] by (simp_all add: r published_snapshot_def)
  have sn: "idb_snapshots db' = idb_snapshots db @ [r]" using add_version_registering(2) [OF assms(2)] .
  have as: "idb_assets db' = map (\<lambda>x. if ae_tenant x = ul_tenant s \<and> ae_id x = a
      then x\<lparr>ae_current := Some (se_id r), ae_versions := ae_versions x + 1\<rparr> else x) (idb_assets db)"
    using insert_snapshot_result(3) [OF i] by (simp add: d f mark_registered_def update_sessions_def bump_asset_def)
  have new: "se_id r \<notin> se_id ` set (idb_snapshots db)"
    "\<forall>x \<in> set (idb_snapshots db). se_object_file x \<and> se_tenant x = se_tenant r \<and> se_asset x = se_asset r \<longrightarrow> se_sha x \<noteq> se_sha r"
    using i f(4) by (auto simp: insert_snapshot_def any_of_iff split: if_splits)
  note v = versions_append [OF sn]
  have up: "[1..1 + int n] = [1..int n] @ [1 + int n]" for n using upto_rec2 [of 1 "1 + int n"] by simp
  have ids: "map ae_id (idb_assets db') = map ae_id (idb_assets db)" by (simp add: as)
  have 1: "distinct (map se_id (idb_snapshots db'))" "distinct (map ae_id (idb_assets db'))"
    using assms(1) new(1) by (auto simp: catalog_ok_def sn ids)
  have 2: "map se_version (versions_of db' t b) = [1..int (length (versions_of db' t b))]" for t b
    using assms(1) f by (auto simp: catalog_ok_def v up add.commute)
  have 3: "ae_versions x = int (length (versions_of db' (ae_tenant x) (ae_id x))) \<and> ae_current x = newest (versions_of db' (ae_tenant x) (ae_id x))"
    if "x \<in> set (idb_assets db')" for x
    using that assms(1) f by (auto simp: as v catalog_ok_def newest_def)
  have 4: "\<exists>x \<in> set (idb_assets db'). ae_tenant x = se_tenant q \<and> ae_id x = se_asset q" if "q \<in> set (idb_snapshots db')" for q
  proof -
    have "\<exists>x \<in> set (idb_assets db). ae_tenant x = se_tenant q \<and> ae_id x = se_asset q"
      using that assms(1,3) f by (auto simp: sn catalog_ok_def)
    then have "(se_tenant q, se_asset q) \<in> set (map (\<lambda>x. (ae_tenant x, ae_id x)) (idb_assets db))" by force
    also have "map (\<lambda>x. (ae_tenant x, ae_id x)) (idb_assets db) = map (\<lambda>x. (ae_tenant x, ae_id x)) (idb_assets db')"
      by (simp add: as)
    finally show ?thesis by auto
  qed
  have 5: "distinct (map se_sha (filter se_object_file (versions_of db' t b)))" for t b
  proof -
    have d: "distinct (map se_sha (filter se_object_file (versions_of db t b)))" using assms(1) by (simp add: catalog_ok_def)
    have "se_sha r \<notin> set (map se_sha (filter se_object_file (versions_of db t b)))" if "se_tenant r = t" "se_asset r = b"
      using that new(2) by (auto simp: versions_of_def)
    then show ?thesis using d f(4) unfolding v by (cases "se_tenant r = t \<and> se_asset r = b") auto
  qed
  show ?thesis unfolding catalog_ok_def using 1 2 3 4 5 by blast
qed

lemma register_verified_catalog:
  assumes "catalog_ok db" "register_verified ev lower now tx user ids s desc db = Inr (x, db')"
  shows "catalog_ok db'"
proof -
  obtain canonical where c: "as_dict (jget_or desc ''canonical'' (JObj [])) = Inr canonical"
    using assms(2) by (auto simp: register_verified_def split: sum.splits)
  obtain y dba where ra: "resolve_asset lower user now s (iid_asset ids) db = Inr (y, dba)"
    using assms(2) c by (auto simp: register_verified_def split: sum.splits)
  note res = resolve_catalog [OF assms(1) ra]
  show ?thesis
  proof (cases y)
    case (Inl code)
    then show ?thesis using assms(2) c ra res(1) by (simp add: register_verified_def problem_def)
  next
    case (Inr a)
    show ?thesis
    proof (cases "find (same_raw (ul_tenant s) a (jget_null desc ''content_sha256'')) (idb_snapshots dba)")
      case None
      then obtain r where "add_version ev now tx user ids s a desc canonical dba = Inr (r, db')"
        using assms(2) c ra Inr by (auto simp: register_verified_def split: sum.splits)
      then show ?thesis using add_version_catalog [OF res(1)] res(2) [OF Inr] by blast
    next
      case (Some r)
      then have "same_catalog dba db'"
        using assms(2) c ra Inr by (auto simp: register_verified_def problem_def mark_registered_def split: sum.splits if_splits)
      then show ?thesis using catalog_cong [OF res(1)] by blast
    qed
  qed
qed

lemma register_catalog:
  assumes "catalog_ok db"
  shows "catalog_ok (committed db (register_import_snapshot ev lower now tx i user acks ids db))"
proof (rule committed_cases [where P = catalog_ok])
  fix x db' assume "register_import_snapshot ev lower now tx i user acks ids db = Inr (x, db')"
  then have r: "register_snapshot ev lower now tx i (iur_tenant user) (iur_id user) acks ids db = Inr (x, db')"
    by (auto simp: register_import_snapshot_def split: if_splits)
  then consider "db' = db" | s desc y where "register_verified ev lower now tx (iur_id user) ids s desc db = Inr (y, db')"
    by (auto simp: register_snapshot_def problem_def split: option.splits if_splits sum.splits bool.splits)
  then show "catalog_ok db'" using assms register_verified_catalog by (cases) auto
qed (rule assms)

lemma calls_catalog: "catalog_ok db \<Longrightarrow> catalog_ok (fold (import_step ie) cs db)"
proof (induction cs arbitrary: db)
  case (Cons c cs)
  have "catalog_ok (import_step ie c db)"
  proof (cases "registers c")
    case True
    then show ?thesis using register_catalog [OF Cons.prems] by (cases c) auto
  next
    case False
    then show ?thesis using catalog_cong [OF Cons.prems step_same_catalog] by blast
  qed
  then show ?case using Cons.IH by simp
qed simp

lemma step_appends: "\<exists>new. idb_snapshots (import_step ie c db) = idb_snapshots db @ new"
proof (cases "registers c")
  case True
  then obtain now tx i user acks ids where c: "c = RegisterImport now tx i user acks ids" by (cases c) auto
  show ?thesis unfolding c import_step.simps
  proof (rule committed_cases [where P = "\<lambda>db'. \<exists>new. idb_snapshots db' = idb_snapshots db @ new"])
    fix x db' assume "register_import_snapshot (iev_privacy ie) (ud_lower (iev_ud ie)) now tx i user acks ids db = Inr (x, db')"
    then have "register_snapshot (iev_privacy ie) (ud_lower (iev_ud ie)) now tx i (iur_tenant user) (iur_id user) acks ids db = Inr (x, db')"
      by (auto simp: register_import_snapshot_def split: if_splits)
    then show "\<exists>new. idb_snapshots db' = idb_snapshots db @ new" by (cases rule: register_result) auto
  qed simp
next
  case False
  then show ?thesis using step_same_catalog [OF False, of db ie] by (simp add: same_catalog_def)
qed

lemma calls_append: "\<exists>new. idb_snapshots (fold (import_step ie) cs db) = idb_snapshots db @ new"
proof (induction cs arbitrary: db)
  case (Cons c cs)
  obtain new where "idb_snapshots (import_step ie c db) = idb_snapshots db @ new" using step_appends by blast
  moreover obtain more where "idb_snapshots (fold (import_step ie) cs (import_step ie c db)) = idb_snapshots (import_step ie c db) @ more"
    using Cons.IH by blast
  ultimately show ?case by auto
qed simp

definition empty_imports :: "import_db \<Rightarrow> bool" where
  "empty_imports db \<longleftrightarrow> idb_sessions db = [] \<and> idb_assets db = [] \<and> idb_snapshots db = []"

lemma empty_ok: "empty_imports db \<Longrightarrow> sessions_ok db \<and> catalog_ok db"
  by (simp add: empty_imports_def sessions_ok_def catalog_ok_def versions_of_def)

text \<open>C16: 
  In every reachable state the versions of each asset are numbered 1, 2, 3 and so on in the order of their
  registration, no two of them have the same raw content, and the asset row counts them and points at the
  last; whatever calls follow, no registered snapshot is changed or removed.
\<close>

theorem snapshot_versions:
  assumes "empty_imports db0"
  shows "let db = fold (import_step ie) cs db0 in
      (\<forall>t a. map se_version (versions_of db t a) = [1..int (length (versions_of db t a))]
        \<and> distinct (map se_sha (filter se_object_file (versions_of db t a))))
    \<and> (\<forall>x \<in> set (idb_assets db). ae_versions x = int (length (versions_of db (ae_tenant x) (ae_id x)))
        \<and> ae_current x = newest (versions_of db (ae_tenant x) (ae_id x)))
    \<and> (\<exists>new. idb_snapshots (fold (import_step ie) later db) = idb_snapshots db @ new)"
proof -
  have "catalog_ok (fold (import_step ie) cs db0)" using calls_catalog empty_ok [OF assms] by blast
  then show ?thesis using calls_append unfolding catalog_ok_def Let_def by blast
qed

text \<open>C26: 
  After a successful registration every later registration of the session, by whoever and with whatever
  arguments, answers with the same snapshot and changes nothing, whatever happened in between.
\<close>

theorem registered_for_ever:
  assumes "empty_imports db0" "db = fold (import_step ie) cs db0"
    and "register_snapshot (iev_privacy ie) (ud_lower (iev_ud ie)) now tx i t user acks ids db = Inr (Inr r, db1)"
  shows "register_snapshot ev lower now' tx' i t user' acks' ids' (fold (import_step ie) later db1) = Inr (Inr r, fold (import_step ie) later db1)"
proof -
  have ok: "sessions_ok db" "catalog_ok db"
    using calls_sessions_ok calls_catalog empty_ok [OF assms(1)] unfolding assms(2) by blast+
  let ?db = "fold (import_step ie) later db1"
  have c: "catalog_ok db1"
    using assms(3) register_verified_catalog [OF ok(2)] ok(2)
    by (auto simp: register_snapshot_def problem_def split: option.splits if_splits sum.splits bool.splits)
  have "sessions_ok db1 \<and> r \<in> set (idb_snapshots db1) \<and> se_tenant r = t
    \<and> (\<exists>s. s \<in> set (idb_sessions db1) \<and> owned_by t i s \<and> ul_status s = URegistered \<and> ul_registered s = Some (se_id r))"
    using assms(3)
  proof (cases rule: register_result)
    case (refused code)
    then show ?thesis by simp
  next
    case (again s r')
    then show ?thesis using ok(1) get_by_id_in [OF again(3)] by (auto simp: find_entry_def find_Some_iff owned_by_def)
  next
    case (published s desc r')
    have r: "r' = r" using published(1) by simp
    note s = get_by_id_in [OF published(2)]
    obtain a db2 where d: "idb_sessions db2 = idb_sessions db"
      "idb_sessions db1 = idb_sessions (mark_registered (ul_tenant s) (ul_id s) a (se_id r) db2)"
      "se_tenant r = ul_tenant s" "r \<in> set (idb_snapshots db1)" using published(4) by (auto simp: registering_def r)
    have "sessions_ok db1" by (rule imports_ok [OF ok(1) registering_step [OF ok(1) published(2-4)]])
    moreover have "s\<lparr>ul_status := URegistered, ul_asset := Some a, ul_registered := Some (se_id r)\<rparr> \<in> set (idb_sessions db1)"
      using s d(1) by (force simp: d(2) mark_registered_def update_sessions_def owned_by_def)
    ultimately show ?thesis using s d(3,4)
      by (intro conjI exI [of _ "s\<lparr>ul_status := URegistered, ul_asset := Some a, ul_registered := Some (se_id r)\<rparr>"]) (simp_all add: owned_by_def)
  qed
  then obtain s where s: "sessions_ok db1" "r \<in> set (idb_snapshots db1)" "se_tenant r = t" "s \<in> set (idb_sessions db1)"
    "owned_by t i s" "ul_status s = URegistered" "ul_registered s = Some (se_id r)" by blast
  obtain q where "q \<in> set (idb_sessions ?db)" "ul_status s = URegistered \<longrightarrow> q = s"
    using session_later [OF s(1,4)] by blast
  then have sin: "s \<in> set (idb_sessions ?db)" using s(6) by simp
  have ok2: "sessions_ok ?db" "catalog_ok ?db" using calls_sessions_ok [OF s(1)] calls_catalog [OF c] by blast+
  have g: "get_by_id t i ?db = Some s" by (rule get_by_id_ok [OF ok2(1) sin s(5)])
  have rin: "r \<in> set (idb_snapshots ?db)" using s(2) calls_append [of ie later db1] by auto
  have f: "find_entry ?db t (se_id r) = Some r"
  proof -
    have "\<exists>x. find_entry ?db t (se_id r) = Some x" using rin s(3) by (cases "find_entry ?db t (se_id r)") (auto simp: find_entry_def find_None_iff)
    then obtain x where x: "find_entry ?db t (se_id r) = Some x" by blast
    then have "x \<in> set (idb_snapshots ?db)" "se_id x = se_id r" by (auto simp: find_entry_def find_Some_iff)
    then have "x = r" using ok2(2) rin by (auto simp: catalog_ok_def distinct_map dest: inj_onD)
    then show ?thesis using x by simp
  qed
  show ?thesis using g s(6,7) f by (simp add: register_snapshot_def)
qed

end
