(* ===== verification/ImportProps.thy ===== *)
theory ImportProps
  imports ImportCatalog
begin

text \<open>
  Leases of import workers: a superseded worker is refused for ever, reconfigurations use up the three
  attempts, and a lost lease is not noticed by the transaction that began before it ended. Sizes of parts:
  the float quotient counts them exactly.
\<close>

subsection \<open>Superseded workers\<close>

definition upload_superseded :: "import_db \<Rightarrow> uuid \<Rightarrow> int \<Rightarrow> bool" where
  "upload_superseded db i gen \<longleftrightarrow> (\<exists>s \<in> set (idb_sessions db). ul_id s = i
     \<and> (gen < ul_generation s \<or> (ul_generation s = gen \<and> ul_status s \<noteq> UVerifying)))"

lemma held_iff: "phase_of s = Held \<longleftrightarrow> ul_status s = UVerifying"
  by (simp add: phase_of_def split: upload_status.split)

lemma lifecycle_superseded:
  "lifecycle\<^sup>*\<^sup>* x y \<Longrightarrow> g < snd x \<or> (snd x = g \<and> fst x \<noteq> Held) \<Longrightarrow> g < snd y \<or> (snd y = g \<and> fst y \<noteq> Held)"
proof (induction rule: rtranclp_induct)
  case (step y z)
  then show ?case by (cases rule: lifecycle.cases [OF step.hyps(2)]) auto
qed

lemma superseded_later:
  assumes "sessions_ok db" "upload_superseded db i gen"
  shows "upload_superseded (fold (import_step ie) cs db) i gen"
proof -
  obtain s where s: "s \<in> set (idb_sessions db)" "ul_id s = i" "gen < ul_generation s \<or> (ul_generation s = gen \<and> ul_status s \<noteq> UVerifying)"
    using assms(2) by (auto simp: upload_superseded_def)
  obtain r where r: "r \<in> set (idb_sessions (fold (import_step ie) cs db))" "same_upload s r" "lifecycle\<^sup>*\<^sup>* (abs_session s) (abs_session r)"
    using session_later [OF assms(1) s(1)] by blast
  have "gen < ul_generation r \<or> (ul_generation r = gen \<and> ul_status r \<noteq> UVerifying)"
    using lifecycle_superseded [OF r(3), of gen] s(3) by (auto simp: abs_session_def held_iff)
  then show ?thesis using r(1,2) s(2) by (auto simp: upload_superseded_def same_upload_def)
qed

lemma superseded_not_held:
  assumes "sessions_ok db" "upload_superseded db i gen" "r \<in> set (idb_sessions db)"
  shows "\<not> holds_upload worker tx i gen r"
proof
  assume h: "holds_upload worker tx i gen r"
  obtain s where s: "s \<in> set (idb_sessions db)" "ul_id s = i" "gen < ul_generation s \<or> (ul_generation s = gen \<and> ul_status s \<noteq> UVerifying)"
    using assms(2) by (auto simp: upload_superseded_def)
  have "s = r" by (rule same_session [OF assms(1,3) s(1)]) (use h s(2) in \<open>simp add: holds_upload_def\<close>)
  then show False using h s(3) by (auto simp: holds_upload_def)
qed

text \<open>C11: 
  Once a session was leased again or left the state VERIFYING, the worker of the old lease can neither extend
  it nor settle the session: in every later state its heartbeat fails and what it finally writes changes no
  session.
\<close>

theorem stale_import_refused:
  assumes "idb_sessions db0 = []" "db = fold (import_step ie) cs db0" "upload_superseded db (ul_id c) (ul_generation c)"
    and "later = fold (import_step ie) more_calls db"
  shows "\<not> fst (upload_heartbeat st worker now tx (ul_id c) (ul_generation c) later)
    \<and> (\<forall>final. process_session (iev_privacy ie) st w worker tx c (privacy_calls (iev_privacy ie) ps) later = Inr final
        \<longrightarrow> idb_sessions final = idb_sessions later)"
proof -
  have ok: "sessions_ok db" using calls_sessions_ok [OF no_sessions_ok [OF assms(1)]] by (simp add: assms(2))
  have l: "sessions_ok later" "upload_superseded later (ul_id c) (ul_generation c)"
    using calls_sessions_ok [OF ok] superseded_later [OF ok assms(3)] by (simp_all add: assms(4))
  note no = superseded_not_held [OF l]
  have "idb_sessions final = idb_sessions later"
    if p: "process_session (iev_privacy ie) st w worker tx c (privacy_calls (iev_privacy ie) ps) later = Inr final" for final
  proof -
    obtain f pdb where "final = settle worker tx c f (later\<lparr>idb_privacy := pdb\<rparr>)" using p by (rule process_result)
    then have "idb_sessions final = map (\<lambda>s. if holds_upload worker tx (ul_id c) (ul_generation c) s then f s else s) (idb_sessions later)"
      by (simp add: settle_def update_sessions_def)
    also have "\<dots> = idb_sessions later" by (rule map_idI) (simp add: no)
    finally show ?thesis .
  qed
  moreover have "\<not> fst (upload_heartbeat st worker now tx (ul_id c) (ul_generation c) later)"
    using no by (auto simp: upload_heartbeat_def any_of_iff)
  ultimately show ?thesis by blast
qed

subsection \<open>Attempts\<close>

lemma next_upload_only:
  assumes "s \<in> set (idb_sessions db)" "claimable_upload tx s" "\<not> locked s" "\<forall>r \<in> set (idb_sessions db). claimable_upload tx r \<longrightarrow> r = s"
  shows "next_upload tx locked db = Some s"
proof -
  let ?xs = "sort_key ul_created_at (filter (\<lambda>s. claimable_upload tx s \<and> \<not> locked s) (idb_sessions db))"
  have "set ?xs = {s}" unfolding set_sort set_filter using assms by blast
  then obtain x rest where "?xs = x # rest" "x = s" by (cases ?xs) auto
  then show ?thesis by (simp add: next_upload_def)
qed

text \<open>C39: 
  The three attempts are never given back: a session that three workers verified without a failure and that
  its user reconfigures once more is failed with IMPORT_RETRY_EXHAUSTED at the next claim.
\<close>

theorem reconfiguration_exhausts_attempts:
  assumes "sessions_ok db" "get_by_id t i db = Some s" "ul_status s = UVerified" "ul_attempts s = 3" "now \<le> ul_expires_at s"
    and "\<forall>r \<in> set (idb_sessions db). \<not> claimable_upload tx r"
    and "configure_import_session ud st \<lparr>iur_tenant = t, iur_id = user, iur_role = u ''DATA_STEWARD''\<rparr> now i names db = Inr (Inr resp, db1)"
    and "tx' = tx" "later \<le> ul_expires_at s"
  shows "\<exists>r. claim_next_session st worker later tx' (\<lambda>s. False) db1 = (None, r)
    \<and> (\<exists>x. get_by_id t i r = Some x \<and> ul_status x = UFailed \<and> ul_error x = Some (u ''IMPORT_RETRY_EXHAUSTED''))"
proof -
  let ?f = "\<lambda>s. s\<lparr>ul_status := UStaged, ul_error := None, ul_manifest := merge_manifest (ul_manifest s) (configure_patch names)\<rparr>"
  have m: "may_import \<lparr>iur_tenant = t, iur_id = user, iur_role = u ''DATA_STEWARD''\<rparr>"
    by (simp add: may_import_def ALLOWED_IMPORT_ROLES_def)
  have g: "s \<in> set (idb_sessions db)" "ul_id s = i" "ul_tenant s = t" using get_by_id_in [OF assms(2)] by auto
  have db1: "db1 = update_sessions (owned_by t i) ?f db"
    using assms(2,3,5,7) m
    by (auto simp: configure_import_session_def expired_def problem_def respond_updated_def update_status_def returning_def respond_def
        split: sum.splits if_splits)
  have one: "owned_by t i r \<longleftrightarrow> r = s" if "r \<in> set (idb_sessions db)" for r
    using same_session [OF assms(1) g(1) that] g(2,3) by (auto simp: owned_by_def)
  have rows: "set (idb_sessions db1) = (\<lambda>r. if r = s then ?f s else r) ` set (idb_sessions db)"
    using one by (auto simp: db1 update_sessions_def)
  have fin: "?f s \<in> set (idb_sessions db1)" using g(1) by (simp add: rows image_iff)
  have nxt: "next_upload tx' (\<lambda>s. False) db1 = Some (?f s)"
  proof (rule next_upload_only)
    show "?f s \<in> set (idb_sessions db1)" by (rule fin)
    show "claimable_upload tx' (?f s)" by (simp add: claimable_upload_def)
    show "\<forall>r \<in> set (idb_sessions db1). claimable_upload tx' r \<longrightarrow> r = ?f s"
      using assms(6) by (auto simp: rows assms(8))
  qed simp
  let ?r = "update_sessions (\<lambda>r. ul_id r = i) (failed_with ''IMPORT_RETRY_EXHAUSTED'') db1"
  have c: "claim_next_session st worker later tx' (\<lambda>s. False) db1 = (None, ?r)"
    using assms(4,9) g(2) by (simp add: claim_next_session_def nxt expired_def)
  have "get_by_id t i ?r = Some (failed_with ''IMPORT_RETRY_EXHAUSTED'' (?f s))"
  proof -
    have ok: "sessions_ok ?r"
    proof -
      have "sessions_ok db1" using imports_ok [OF assms(1) configure_step [OF assms(1)]] assms(7) by (metis committed_simps(2))
      then have "imports_step db1 (snd (claim_next_session st worker later tx' (\<lambda>s. False) db1))" by (rule claim_step)
      then show ?thesis using imports_ok \<open>sessions_ok db1\<close> c by simp
    qed
    have inr: "failed_with ''IMPORT_RETRY_EXHAUSTED'' (?f s) \<in> set (idb_sessions ?r)"
      using fin g(2) by (force simp: update_sessions_def)
    show ?thesis by (rule get_by_id_ok [OF ok inr]) (use g(2,3) in \<open>simp add: owned_by_def failed_with_def\<close>)
  qed
  then show ?thesis using c by (auto simp: failed_with_def)
qed

subsection \<open>Lost leases\<close>

text \<open>
  A lease that has ended is noticed by the heartbeat, which runs in a transaction of its own, and not by the
  final update: processing compares the end of the lease with the start of its own transaction, so the worker
  whose heartbeat just failed still settles the session.
\<close>

theorem lost_lease_still_settles:
  assumes "sessions_ok db" "s \<in> set (idb_sessions db)" "holds_upload worker tx (ul_id s) (ul_generation s) s"
    and "ul_lease s = Some e" "e < now"
  shows "\<not> fst (upload_heartbeat st worker now now (ul_id s) (ul_generation s) db)
    \<and> f s \<in> set (idb_sessions (settle worker tx s f (snd (upload_heartbeat st worker now now (ul_id s) (ul_generation s) db))))"
proof -
  have no: "\<not> holds_upload worker now (ul_id s) (ul_generation s) r" if "r \<in> set (idb_sessions db)" for r
    using same_session [OF assms(1,2) that] assms(4,5) by (auto simp: holds_upload_def)
  then have same: "snd (upload_heartbeat st worker now now (ul_id s) (ul_generation s) db) = db"
    by (simp add: upload_heartbeat_def update_sessions_def map_idI)
  show ?thesis using no assms(2,3) unfolding same by (force simp: upload_heartbeat_def any_of_iff settle_def update_sessions_def)
qed

subsection \<open>Parts\<close>

text \<open>The quotient of two integers below 2^53, rounded to a float, has the exact ceiling.\<close>

lemma ceiling_div:
  fixes sz part :: int
  assumes "0 < part"
  shows "part * (- ((- sz) div part) - 1) < sz" "sz \<le> part * - ((- sz) div part)"
proof -
  define m where "m = (- sz) div part"
  have "part * m + (- sz) mod part = - sz" by (simp add: m_def)
  moreover have "0 \<le> (- sz) mod part" "(- sz) mod part < part" using assms by simp_all
  ultimately have "part * (- m - 1) < sz" "sz \<le> part * - m" by (simp_all add: right_diff_distrib)
  then show "part * (- ((- sz) div part) - 1) < sz" "sz \<le> part * - ((- sz) div part)" by (simp_all add: m_def)
qed

theorem part_count_exact:
  assumes "0 < sz" "sz < 2 ^ 53" "0 < part"
  shows "float_parts sz part = - ((- sz) div part)"
proof -
  define n where "n = - ((- sz) div part)"
  define q :: rat where "q = of_int sz / of_int part"
  have p: "(0::rat) < of_int part" using assms(3) by simp
  have b: "part * (n - 1) + 1 \<le> sz" "sz \<le> part * n" using ceiling_div [OF assms(3), of sz] by (simp_all add: n_def)
  have r: "of_int part * (of_int n - 1) + 1 \<le> (of_int sz :: rat)" "(of_int sz :: rat) \<le> of_int part * of_int n"
    using b [THEN of_int_le_iff [where 'a = rat, THEN iffD2]] by simp_all
  have lo: "of_int n - 1 + 1 / of_int part \<le> q"
  proof -
    have "of_int n - 1 + 1 / of_int part = (of_int part * (of_int n - 1) + 1) / (of_int part :: rat)" using p by (simp add: field_simps)
    then show ?thesis using r(1) p by (simp add: q_def divide_right_mono)
  qed
  have hi: "q \<le> of_int n" using r(2) p by (simp add: q_def pos_divide_le_eq mult.commute)
  have n: "0 < n" "n \<le> sz"
  proof -
    show "0 < n" using b(2) assms(1,3) by (metis less_le_trans mult_pos_pos not_le zero_less_mult_pos)
    then have "n - 1 \<le> part * (n - 1)" using assms(3) by (simp add: mult_le_cancel_right1)
    then show "n \<le> sz" using b(1) by linarith
  qed
  have "fl q \<le> fl (of_int n)" using hi by (rule fl_mono)
  then have up: "fl q \<le> of_int n" using fl_of_int [of n] n assms(2) by simp
  have q0: "0 < q" using assms(1) p by (simp add: q_def)
  have "(of_int sz :: rat) < 2 ^ 53" using assms(2) by (metis of_int_less_iff of_int_numeral of_int_power)
  then have "of_int sz / 2 ^ 53 / of_int part < (1 :: rat) / of_int part"
    using p by (intro divide_strict_right_mono) simp_all
  then have "eps * q < 1 / of_int part" by (simp add: eps_def q_def mult.commute)
  moreover have "q - eps * q \<le> fl q" using fl_rel_error [of q] q0 by (simp add: abs_le_iff)
  ultimately have "of_int n - 1 < fl q" using lo by linarith
  then have "\<lceil>fl q\<rceil> = n" using up by (intro ceiling_unique) simp_all
  then show ?thesis by (simp add: float_parts_def fdiv_def q_def n_def)
qed

subsection \<open>Listings\<close>

text \<open>
  Whatever prefix a user asks for: unless a workspace administrator looks at the whole staging bucket, every
  object a listing shows lies under the prefix of the tenant. The hypothesis is what S3 promises of a prefix.
\<close>

theorem listing_confined:
  assumes "\<And>b p k n items cont. objects b p k n = Inr (items, cont) \<Longrightarrow> \<forall>x \<in> set items. is_prefix p (or_key (fst x))"
    and "list_storage_objects st objects user prefix token n scope = Inr (items, cont)" "\<not> whole_bucket user scope"
  shows "\<forall>x \<in> set items. is_prefix (imports_prefix (iur_tenant user)) (or_key (fst x))"
proof
  fix x assume x: "x \<in> set items"
  have "objects (ist_bucket_staging st) (listing_prefix user scope prefix) token n = Inr (items, cont)"
    using assms(2) by (auto simp: list_storage_objects_def split: if_splits sum.splits)
  then have "is_prefix (listing_prefix user scope prefix) (or_key (fst x))" using assms(1) x by blast
  moreover have "is_prefix (imports_prefix (iur_tenant user)) (listing_prefix user scope prefix)"
    using assms(3) by (simp add: listing_prefix_def Let_def is_prefix_iff)
  ultimately show "is_prefix (imports_prefix (iur_tenant user)) (or_key (fst x))" by (auto simp: is_prefix_iff)
qed

end
