(* ===== verification/TabularProps.thy ===== *)
theory TabularProps
  imports TabularImport ImportProps
begin

text \<open>
  What \<open>TabularImport\<close> does with the rows of a file: every row of a CSV file that is accepted has the width of the
  header, reaches the canonical table in its order and is fed to the privacy scan exactly once.
\<close>

subsection \<open>Every row is imported and scanned\<close>

definition scan_row :: "ident list \<Rightarrow> ustr list \<Rightarrow> jdict" where
  "scan_row names row = row_dict names (map cell_json (map clean_cell row))"

lemma flush_result: "flush lib ink = Inr ink' \<Longrightarrow> ink' = ink\<lparr>ink_batch := 0, ink_batch_bytes := 0\<rparr>"
  by (simp add: flush_def split: if_splits)

lemma final_flush_result: "final_flush lib ink = Inr ink' \<Longrightarrow>
    ink_rows ink' = ink_rows ink \<and> ink_table ink' = ink_table ink \<and> ink_scanner ink' = ink_scanner ink \<and> ink_preview ink' = ink_preview ink"
  by (auto simp: final_flush_def dest!: flush_result split: if_splits)

lemma take_row_result:
  assumes "take_row lib names vals n ink = Inr ink'"
  shows "ink_rows ink' = Suc (ink_rows ink)" "ink_table ink' = ink_table ink @ [vals]" "ink_scanner ink' = ink_scanner ink"
    "ink_preview ink' = (if ink_rows ink < PREVIEW_ROWS then ink_preview ink @ [row_dict names (map cell_json vals)] else ink_preview ink)"
  using assms by (auto simp: take_row_def Let_def dest!: flush_result split: if_splits)

lemma csv_row_result:
  assumes "csv_row lib names row ink = Inr ink'"
  shows "length row = length names" "ink_rows ink' = Suc (ink_rows ink)" "ink_table ink' = ink_table ink @ [map clean_cell row]"
    "feed_row (tl_ud lib) (tl_nt lib) (scan_row names row) (ink_scanner ink) = Inr (ink_scanner ink')"
    "ink_preview ink' = (if ink_rows ink < PREVIEW_ROWS then ink_preview ink @ [scan_row names row] else ink_preview ink)"
proof -
  obtain n ink1 where s: "length row = length names" "feed_scanner lib (scan_row names row) ink = Inr ink1"
    "take_row lib names (map clean_cell row) n ink1 = Inr ink'"
    using assms by (auto simp: csv_row_def Let_def scan_row_def split: if_splits option.splits sum.splits)
  have f: "feed_row (tl_ud lib) (tl_nt lib) (scan_row names row) (ink_scanner ink) = Inr (ink_scanner ink1)"
    "ink_rows ink1 = ink_rows ink" "ink_table ink1 = ink_table ink" "ink_preview ink1 = ink_preview ink"
    using s(2) by (auto simp: feed_scanner_def split: sum.splits)
  note t = take_row_result [OF s(3)]
  show "length row = length names" by (rule s(1))
  show "ink_rows ink' = Suc (ink_rows ink)" "ink_table ink' = ink_table ink @ [map clean_cell row]" using t f by simp_all
  show "feed_row (tl_ud lib) (tl_nt lib) (scan_row names row) (ink_scanner ink) = Inr (ink_scanner ink')" using t(3) f(1) by simp
  show "ink_preview ink' = (if ink_rows ink < PREVIEW_ROWS then ink_preview ink @ [scan_row names row] else ink_preview ink)"
    using t(4) f by (simp add: scan_row_def)
qed

lemma csv_body_result:
  assumes "csv_body lib names rows ink = Inr ink'" "length (ink_preview ink) = min PREVIEW_ROWS (ink_rows ink)"
  shows "(\<forall>r \<in> set rows. length r = length names) \<and> ink_rows ink' = ink_rows ink + length rows
    \<and> ink_table ink' = ink_table ink @ map (map clean_cell) rows
    \<and> feed_rows (tl_ud lib) (tl_nt lib) (map (scan_row names) rows) (ink_scanner ink) = Inr (ink_scanner ink')
    \<and> ink_preview ink' = take PREVIEW_ROWS (ink_preview ink @ map (scan_row names) rows)"
  using assms
proof (induction rows arbitrary: ink)
  case Nil
  then show ?case by simp
next
  case (Cons row rows)
  obtain ink1 where i: "csv_row lib names row ink = Inr ink1" "csv_body lib names rows ink1 = Inr ink'"
    using Cons.prems(1) by (auto split: sum.splits)
  note r = csv_row_result [OF i(1)]
  have "length (ink_preview ink1) = min PREVIEW_ROWS (ink_rows ink1)" using r(2,5) Cons.prems(2) by auto
  note ih = Cons.IH [OF i(2) this]
  have "take PREVIEW_ROWS (ink_preview ink1 @ map (scan_row names) rows)
      = take PREVIEW_ROWS (ink_preview ink @ map (scan_row names) (row # rows))"
    using r(5) Cons.prems(2) by (cases "ink_rows ink < PREVIEW_ROWS") (simp_all add: take_Cons' min_def)
  then show ?case using ih r by simp
qed

lemma conclude_result:
  assumes "conclude lib names columns version containers ink = Inr r"
  shows "tbr_rows r = ink_rows ink" "tbr_table r = ink_table ink" "tbr_scan r = finish (tl_ud lib) (ink_scanner ink)" "tbr_names r = names"
    "build_preview lib (sr_sensitive_columns (tbr_scan r)) (ink_preview ink) = Inr (tbr_preview r)"
    "tbr_profile r = build_profile lib names (ink_sample ink) (ink_rows ink) containers (sr_sensitive_columns (tbr_scan r))"
  using assms by (auto simp: conclude_def Let_def split: sum.splits)

lemma process_csv_result:
  assumes "process_csv lib delim mapping private rules bytes = Inr r"
  obtains content hdr rows where "decode_sig bytes = Some content" "csv_reader delim content = (hdr # rows, False)" "rows \<noteq> []"
    "\<forall>row \<in> set rows. length row = length (tbr_names r)" "tbr_table r = map (map clean_cell) rows" "tbr_rows r = length rows"
    "scan_with (tl_ud lib) (tl_nt lib) (tl_re lib) (Some rules) (map (scan_row (tbr_names r)) rows) (tbr_names r) private = Inr (tbr_scan r)"
    "build_preview lib (sr_sensitive_columns (tbr_scan r)) (take PREVIEW_ROWS (map (scan_row (tbr_names r)) rows)) = Inr (tbr_preview r)"
    "csv_names mapping (map py_strip hdr) = Inr (tbr_names r)"
proof -
  obtain content where t: "decode_sig bytes = Some content" using assms by (auto simp: process_csv_def split: option.splits)
  obtain hdr rows broken where h: "csv_reader delim content = (hdr # rows, broken)"
    using assms t by (auto simp: process_csv_def split: prod.splits list.splits bool.splits)
  obtain names where n: "csv_names mapping (map py_strip hdr) = Inr names"
    using assms t h by (auto simp: process_csv_def Let_def split: if_splits sum.splits)
  obtain sc where sc: "scanner_init (tl_re lib) names private (Some rules) = Inr sc"
    using assms t h n by (auto simp: process_csv_def Let_def split: if_splits sum.splits)
  let ?ink0 = "start_intake sc (single_column names)"
  obtain ink where ink: "csv_body lib names rows ?ink0 = Inr ink"
    using assms t h n sc by (auto simp: process_csv_def Let_def split: if_splits sum.splits)
  obtain ink1 where e: "\<not> broken" "final_flush lib ink = Inr ink1" "ink_rows ink1 \<noteq> 0"
    "conclude lib names (csv_columns (map py_strip hdr) names) 1 [] ink1 = Inr r"
    using assms t h n sc ink by (auto simp: process_csv_def Let_def split: if_splits sum.splits)
  have s0: "ink_rows ?ink0 = 0" "ink_table ?ink0 = []" "ink_scanner ?ink0 = sc" "ink_preview ?ink0 = []"
    by (simp_all add: start_intake_def)
  have "length (ink_preview ?ink0) = min PREVIEW_ROWS (ink_rows ?ink0)" by (simp add: s0)
  note b = csv_body_result [OF ink this] and f = final_flush_result [OF e(2)] and c = conclude_result [OF e(4)]
  show thesis
  proof (rule that [OF t])
    show "csv_reader delim content = (hdr # rows, False)" using h e(1) by simp
    show "rows \<noteq> []" using b f s0 e(3) by auto
    show "\<forall>row \<in> set rows. length row = length (tbr_names r)" using b c(4) s0 by simp
    show "tbr_table r = map (map clean_cell) rows" using b f c s0 by simp
    show "tbr_rows r = length rows" using b f c s0 by simp
    show "scan_with (tl_ud lib) (tl_nt lib) (tl_re lib) (Some rules) (map (scan_row (tbr_names r)) rows) (tbr_names r) private = Inr (tbr_scan r)"
      using b f c s0 sc by (simp add: scan_with_def)
    show "build_preview lib (sr_sensitive_columns (tbr_scan r)) (take PREVIEW_ROWS (map (scan_row (tbr_names r)) rows)) = Inr (tbr_preview r)"
      using b f c s0 by simp
    show "csv_names mapping (map py_strip hdr) = Inr (tbr_names r)" using n c(4) by simp
  qed
qed


end
