(* ===== verification/ImportGuarantees.thy ===== *)
theory ImportGuarantees
  imports TabularProps CanonicalJson
begin

text \<open>
  What an import promises its users: the preview hides the columns the scan flags, the stored descriptor is
  accepted where snapshots are read, and registered findings mask their columns. Two faults: a NUL character in
  the preview, and bank numbers in the profile.
\<close>

subsection \<open>Flagged columns in the preview\<close>

lemma update_map_values: "map (\<lambda>(k, v). (k, f k v)) (AList.update k v d) = AList.update k (f k v) (map (\<lambda>(k, v). (k, f k v)) d)"
  by (induction d) auto

lemma dict_of_map: "map (\<lambda>(k, v). (k, f k v)) (dict_of ps) = dict_of (map (\<lambda>(k, v). (k, f k v)) ps)"
proof -
  have "map (\<lambda>(k, v). (k, f k v)) (fold (\<lambda>(k, v) d. AList.update k v d) ps acc)
      = fold (\<lambda>(k, v) d. AList.update k v d) (map (\<lambda>(k, v). (k, f k v)) ps) (map (\<lambda>(k, v). (k, f k v)) acc)" for acc
    by (induction ps arbitrary: acc) (auto simp: update_map_values)
  then show ?thesis by (simp add: dict_of_def)
qed

text \<open>Equal cells, or cells of a hidden column that are both empty or both filled.\<close>

definition same_outside :: "ident list \<Rightarrow> ident list \<Rightarrow> ustr option list \<Rightarrow> ustr option list \<Rightarrow> bool" where
  "same_outside names hidden a b \<longleftrightarrow> length a = length names \<and> length b = length names
     \<and> (\<forall>i < length names. a ! i = b ! i \<or> (names ! i \<in> set hidden \<and> (a ! i = None) = (b ! i = None)))"

lemma masked_row_agrees:
  assumes "same_outside names sens (map clean_cell a) (map clean_cell b)"
  shows "preview_row lib sens (scan_row names a) = preview_row lib sens (scan_row names b)"
proof -
  let ?m = "\<lambda>(k, v). (k, mask_preview_cell (tl_ud lib) sens k v)"
  let ?cells = "\<lambda>r. map cell_json (map clean_cell r)"
  have len: "length a = length names" "length b = length names" using assms by (simp_all add: same_outside_def)
  have "map ?m (zip names (?cells a)) = map ?m (zip names (?cells b))"
  proof (rule nth_equalityI)
    fix i assume "i < length (map ?m (zip names (?cells a)))"
    then have i: "i < length names" by simp
    then have "clean_cell (a ! i) = clean_cell (b ! i) \<or> (names ! i \<in> set sens \<and> (clean_cell (a ! i) = None) = (clean_cell (b ! i) = None))"
      using assms len by (auto simp: same_outside_def)
    then show "map ?m (zip names (?cells a)) ! i = map ?m (zip names (?cells b)) ! i"
      using i len by (auto simp: mask_preview_cell_def mask_value_def cell_json_def clean_cell_def split: if_splits)
  qed (simp add: len)
  then have "map ?m (scan_row names a) = map ?m (scan_row names b)"
    unfolding scan_row_def row_dict_def dict_of_map by simp
  then show ?thesis unfolding preview_row_def Let_def by (simp only:)
qed

lemma each_cong: "list_all2 (\<lambda>x y. f x = f y) xs ys \<Longrightarrow> each f xs = each f ys"
  by (induction rule: list_all2_induct) (auto split: sum.split)

lemma preview_agrees:
  assumes "list_all2 (\<lambda>a b. same_outside names sens (map clean_cell a) (map clean_cell b)) xs ys"
  shows "build_preview lib sens (take PREVIEW_ROWS (map (scan_row names) xs)) = build_preview lib sens (take PREVIEW_ROWS (map (scan_row names) ys))"
proof -
  have "list_all2 (\<lambda>x y. preview_row lib sens x = preview_row lib sens y) (take PREVIEW_ROWS (map (scan_row names) xs))
      (take PREVIEW_ROWS (map (scan_row names) ys))"
    using assms by (intro list_all2_takeI) (auto simp: list_all2_map1 list_all2_map2 intro: masked_row_agrees elim!: list_all2_mono)
  then have "each (preview_row lib sens) (take PREVIEW_ROWS (map (scan_row names) xs))
      = each (preview_row lib sens) (take PREVIEW_ROWS (map (scan_row names) ys))" by (rule each_cong)
  then show ?thesis by (simp add: build_preview_def)
qed


subsection \<open>The stored descriptor\<close>

definition plain_char :: "nat \<Rightarrow> bool" where
  "plain_char c \<longleftrightarrow> c = 45 \<or> (48 \<le> c \<and> c \<le> 57) \<or> (97 \<le> c \<and> c \<le> 122)"

lemma hex_digits_plain: "c \<in> set (hex_digits k n) \<Longrightarrow> plain_char c"
proof (induction k arbitrary: n)
  case (Suc k)
  have "n mod 16 < 16" by simp
  then have "plain_char (hex_digit (n mod 16))" by (auto simp: hex_digit_def plain_char_def)
  with Suc show ?case by auto
qed simp

lemma uuid_plain: "c \<in> set (uuid_str n) \<Longrightarrow> plain_char c"
  by (auto simp: uuid_str_def Let_def dest!: in_set_takeD in_set_dropD dest: hex_digits_plain) (simp_all add: plain_char_def)

lemma int_text_plain: "c \<in> set (int_text i) \<Longrightarrow> plain_char c"
  by (auto simp: int_text_def plain_char_def json_digit_def dest!: nat_text_digits split: if_splits)

lemma key_parts_cons: "\<forall>c \<in> set p. c \<noteq> 47 \<Longrightarrow> key_parts (p @ 47 # rest) = p # key_parts rest"
  by (induction p) auto

lemma key_parts_single: "\<forall>c \<in> set p. c \<noteq> 47 \<Longrightarrow> key_parts p = [p]"
  by (induction p) auto

lemma plain_no_slash: "\<forall>c \<in> set p. plain_char c \<Longrightarrow> \<forall>c \<in> set p. c \<noteq> 47"
  by (auto simp: plain_char_def)

lemma plain_not_bad: "p \<noteq> [] \<Longrightarrow> \<forall>c \<in> set p. plain_char c \<Longrightarrow> \<not> bad_part p"
  by (cases p) (auto simp: bad_part_def plain_char_def u_def)

lemma snapshot_key:
  "under_prefix (snapshot_prefix s) name = tenant_prefix (ul_tenant s) @ uuid_str (ul_id s) @ 47 # (u ''attempt-'' @ int_text (ul_generation s)) @ 47 # name"
proof -
  let ?p = "snapshot_prefix s"
  have "int_text (ul_generation s) \<noteq> []" by (simp add: int_text_def)
  then have l: "?p \<noteq> []" "last ?p = last (int_text (ul_generation s))" by (simp_all add: snapshot_prefix_def)
  have "last (int_text (ul_generation s)) \<in> set (int_text (ul_generation s))" using \<open>int_text (ul_generation s) \<noteq> []\<close> by simp
  then have "plain_char (last ?p)" using int_text_plain l(2) by simp
  then have "last ?p \<noteq> 47" by (auto simp: plain_char_def)
  then have "rstrip_by (\<lambda>c. c = 47) ?p = ?p" using l(1) by (cases ?p rule: rev_cases) (simp_all add: rstrip_by_def)
  then show ?thesis by (simp add: under_prefix_def) (simp add: snapshot_prefix_def u_def)
qed

lemma snapshot_key_safe:
  assumes "\<forall>c \<in> set name. plain_char c \<or> c = 46" "\<not> bad_part name"
  shows "is_prefix (tenant_prefix (ul_tenant s)) (under_prefix (snapshot_prefix s) name)"
    "\<not> any_of bad_part (key_parts (under_prefix (snapshot_prefix s) name))"
    "92 \<notin> set (under_prefix (snapshot_prefix s) name)" "\<not> any_of (\<lambda>c. c < 32) (under_prefix (snapshot_prefix s) name)"
proof -
  have u0: "uuid_str n \<noteq> []" for n by (simp add: uuid_str_def Let_def)
  have up: "\<forall>c \<in> set (uuid_str n). plain_char c" for n by (blast intro: uuid_plain)
  let ?a = "u ''attempt-'' @ int_text (ul_generation s)"
  have ap: "\<forall>c \<in> set ?a. plain_char c" using int_text_plain by (auto simp: u_def plain_char_def)
  have a0: "?a \<noteq> []" by (simp add: u_def)
  have sp: "\<forall>c \<in> set (u ''snapshots''). plain_char c" by (simp add: u_def plain_char_def)
  have key: "under_prefix (snapshot_prefix s) name
      = u ''snapshots'' @ 47 # uuid_str (ul_tenant s) @ 47 # uuid_str (ul_id s) @ 47 # ?a @ 47 # name"
    by (simp add: snapshot_key tenant_prefix_def u_def)
  have nm: "\<forall>c \<in> set name. c \<noteq> 47" using assms(1) by (auto simp: plain_char_def)
  have "key_parts (under_prefix (snapshot_prefix s) name) = [u ''snapshots'', uuid_str (ul_tenant s), uuid_str (ul_id s), ?a, name]"
    unfolding key by (simp only: key_parts_cons [OF plain_no_slash [OF sp]] key_parts_cons [OF plain_no_slash [OF up]]
        key_parts_cons [OF plain_no_slash [OF ap]] key_parts_single [OF nm])
  moreover have "\<not> bad_part (u ''snapshots'')" by (rule plain_not_bad [OF _ sp]) (simp add: u_def)
  ultimately show "\<not> any_of bad_part (key_parts (under_prefix (snapshot_prefix s) name))"
    using plain_not_bad [OF u0 up] plain_not_bad [OF a0 ap] assms(2) by (simp add: any_of_iff)
  show "is_prefix (tenant_prefix (ul_tenant s)) (under_prefix (snapshot_prefix s) name)" by (simp add: snapshot_key is_prefix_iff)
  have all: "\<forall>c \<in> set (under_prefix (snapshot_prefix s) name). plain_char c \<or> c = 46 \<or> c = 47"
    unfolding key using sp up ap assms(1) by auto
  show "92 \<notin> set (under_prefix (snapshot_prefix s) name)" using all by (auto simp: plain_char_def)
  show "\<not> any_of (\<lambda>c. c < 32) (under_prefix (snapshot_prefix s) name)" using all by (auto simp: any_of_iff plain_char_def)
qed

lemma inspect_result:
  assumes "inspect_and_normalize lib parquet io task = Inr x"
  obtains bytes r and m :: staged_metadata where "process_file lib parquet task bytes = Inr r"
    "isp_canonical_ref x = \<lparr>or_bucket = itk_bucket task, or_key = under_prefix (itk_prefix task) (u ''canonical.parquet''),
        or_version_id = om_version_id m\<rparr>"
    "isp_canonical_sha x = tl_sha lib (tl_parquet lib (tbr_names r) (tbr_version r) (tbr_table r))"
    "isp_canonical_size x = int (length (tl_parquet lib (tbr_names r) (tbr_version r) (tbr_table r)))"
    "isp_preview x = JArr (tbr_preview r)" "isp_scan x = report_dict (tbr_scan r)" "isp_columns x = tbr_columns r"
proof -
  have *: "\<exists>bytes r m. process_file lib parquet task bytes = Inr r
    \<and> isp_canonical_ref x = \<lparr>or_bucket = itk_bucket task, or_key = under_prefix (itk_prefix task) (u ''canonical.parquet''),
        or_version_id = om_version_id (m :: staged_metadata)\<rparr>
    \<and> isp_canonical_sha x = tl_sha lib (tl_parquet lib (tbr_names r) (tbr_version r) (tbr_table r))
    \<and> isp_canonical_size x = int (length (tl_parquet lib (tbr_names r) (tbr_version r) (tbr_table r)))
    \<and> isp_preview x = JArr (tbr_preview r) \<and> isp_scan x = report_dict (tbr_scan r) \<and> isp_columns x = tbr_columns r"
    using assms unfolding inspect_and_normalize_def Let_def
    by (force simp: inspection_of_def split: sum.splits if_splits)
  show thesis using * that by blast
qed

text \<open>C27: 
  What an import stores is what the readers of snapshots accept: the descriptor of a successful inspection has
  a canonical part, and resolving it for the tenant of the session gives exactly the object that was written,
  with its size and digest. Hypotheses: the versioned bucket returned a version, digests are 64 hexadecimal
  digits and a Parquet file is not empty.
\<close>

theorem imported_snapshot_pinned:
  assumes "inspect_and_normalize lib parquet io (task_of st s private pin bucket) = Inr x"
    and "or_version_id (isp_canonical_ref x) = Some v" "v \<noteq> []" "v \<noteq> u ''null''"
    and "\<And>bs. hex64 (tl_sha lib bs)" "\<And>names n table. tl_parquet lib names n table \<noteq> []"
  shows "\<exists>d. canonical_descriptor (source_descriptor (ul_format s) x) = Inr d
    \<and> pinned_ref (ul_tenant s) d (ist_bucket_snapshots st) = Inr (isp_canonical_ref x)
    \<and> declared_digest d = isp_canonical_sha x \<and> declared_size d = isp_canonical_size x"
proof -
  let ?ref = "isp_canonical_ref x"
  let ?t = "task_of st s private pin bucket"
  obtain bytes r and m :: staged_metadata where "process_file lib parquet ?t bytes = Inr r"
    and i: "?ref = \<lparr>or_bucket = itk_bucket ?t, or_key = under_prefix (itk_prefix ?t) (u ''canonical.parquet''), or_version_id = om_version_id m\<rparr>"
      "isp_canonical_sha x = tl_sha lib (tl_parquet lib (tbr_names r) (tbr_version r) (tbr_table r))"
      "isp_canonical_size x = int (length (tl_parquet lib (tbr_names r) (tbr_version r) (tbr_table r)))"
    and "isp_preview x = JArr (tbr_preview r)" "isp_scan x = report_dict (tbr_scan r)" "isp_columns x = tbr_columns r"
    by (rule inspect_result [OF assms(1)])
  have ref: "?ref = \<lparr>or_bucket = ist_bucket_snapshots st, or_key = under_prefix (snapshot_prefix s) (u ''canonical.parquet''), or_version_id = Some v\<rparr>"
    using assms(2) i(1) by (simp add: task_of_def)
  have int: "hex64 (isp_canonical_sha x)" "0 < isp_canonical_size x" using assms(5,6) by (simp_all add: i(2,3))
  define d where "d = stored_ref_json ?ref (isp_canonical_sha x) (isp_canonical_size x) (u ''PARQUET'') @ [(u ''s3a_uri'', JStr (s3a_uri ?ref))]"
  have f: "jget_null d ''bucket'' = JStr (ist_bucket_snapshots st)"
    "jget_null d ''key'' = JStr (under_prefix (snapshot_prefix s) (u ''canonical.parquet''))" "jget_null d ''version_id'' = JStr v"
    "jget_null d ''content_sha256'' = JStr (isp_canonical_sha x)" "jget_null d ''size_bytes'' = JInt (isp_canonical_size x)"
    "jget_null d ''format'' = JStr (u ''PARQUET'')"
    by (simp_all add: d_def stored_ref_json_def jget_def jget_null_def ref opt_str_def)
  have nm: "\<forall>c \<in> set (u ''canonical.parquet''). plain_char c \<or> c = 46" by (simp add: u_def plain_char_def)
  have nb: "\<not> bad_part (u ''canonical.parquet'')" by (simp add: bad_part_def)
  note key = snapshot_key_safe [OF nm nb, of s]
  have "jget (source_descriptor (ul_format s) x) ''canonical'' = Some (JObj d)"
    by (simp add: source_descriptor_def stored_ref_json_def jget_def d_def)
  then have "canonical_descriptor (source_descriptor (ul_format s) x) = Inr d" by (simp add: canonical_descriptor_def f)
  moreover have "pinned_ref (ul_tenant s) d (ist_bucket_snapshots st) = Inr ?ref"
    using key int assms(3,4) by (simp add: pinned_ref_def f ref valid_integrity_def int_size_def)
  moreover have "declared_digest d = isp_canonical_sha x" "declared_size d = isp_canonical_size x"
    by (simp_all add: declared_digest_def declared_size_def f int_size_def)
  ultimately show ?thesis by blast
qed

subsection \<open>Registered findings\<close>

definition finding_of_import :: "(ustr \<Rightarrow> uuid) \<Rightarrow> uuid \<Rightarrow> uuid \<Rightarrow> uuid \<Rightarrow> finding \<Rightarrow> find_row" where
  "finding_of_import uuid5 t s scan f =
     \<lparr>fr_id = generate_finding_id uuid5 scan (fi_column_name f) (fi_path f) (fi_detector_code f) (fi_detector_revision f),
       fr_tenant = t, fr_snapshot = s, fr_column = fi_column_name f, fr_path = fi_path f, fr_category = fi_category f,
       fr_status = u ''DETECTED'', fr_code = fi_detector_code f, fr_matched = fi_matched_count f, fr_observed = fi_observed_count f,
       fr_rule_id = fi_rule_id f, fr_rule_revision = (if truthy (opt_str (fi_rule_id f)) then fi_rule_revision f else None),
       fr_scan = Some scan, fr_reason = None, fr_reviewed_by = None, fr_reviewed_at = None\<rparr>"

lemma import_finding_dict:
  "import_finding uuid5 t s (Some scan) (finding_dict f) = Inr row \<Longrightarrow> row = finding_of_import uuid5 t s scan f"
  by (cases "fi_rule_id f"; cases "fi_rule_revision f")
    (auto simp: import_finding_def finding_dict_def as_dict_def jget_def jget_null_def jget_or_def fmt_text_def json_count_def
      finding_of_import_def opt_text_of_def opt_int_of_def opt_str_def opt_int_def Let_def split: if_splits)

lemma each_import_findings:
  "each (import_finding uuid5 t s (Some scan)) (map finding_dict fs) = Inr rows \<Longrightarrow> rows = map (finding_of_import uuid5 t s scan) fs"
proof (induction fs arbitrary: rows)
  case (Cons f fs)
  obtain row rest where "import_finding uuid5 t s (Some scan) (finding_dict f) = Inr row"
    "each (import_finding uuid5 t s (Some scan)) (map finding_dict fs) = Inr rest" "rows = row # rest"
    using Cons.prems by (auto split: sum.splits)
  then show ?case using import_finding_dict Cons.IH by simp
qed simp

lemma same_finding_refl [simp]: "same_finding f f"
  by (simp add: same_finding_def)

lemma add_findings_subset: "set fs \<subseteq> set (fold add_finding rows fs) \<and> set (fold add_finding rows fs) \<subseteq> set fs \<union> set rows"
proof (induction rows arbitrary: fs)
  case (Cons row rows)
  have "set fs \<subseteq> set (add_finding row fs)" "set (add_finding row fs) \<subseteq> insert row (set fs)" by (auto simp: add_finding_def)
  then show ?case using Cons.IH [of "add_finding row fs"] by auto
qed simp

lemma add_findings_covered: "row \<in> set rows \<Longrightarrow> \<exists>g \<in> set (fold add_finding rows fs). same_finding row g"
proof (induction rows arbitrary: fs)
  case (Cons x rows)
  show ?case
  proof (cases "row = x")
    case True
    have "\<exists>g \<in> set (add_finding x fs). same_finding x g" by (auto simp: add_finding_def any_of_iff)
    then show ?thesis using True add_findings_subset [of "add_finding x fs" rows] by auto
  next
    case False
    then show ?thesis using Cons by simp
  qed
qed simp

text \<open>What a new version adds to the privacy tables.\<close>

lemma add_version_privacy:
  assumes "add_version ev now tx user ids s a desc canonical db = Inr (r, db')"
    and "jget_null (ul_manifest s) ''sensitive_scan'' = report_dict rep" "jget_null (ul_manifest s) ''privacy_config_version'' = JInt v"
  shows "\<exists>j. pd_jobs (idb_privacy db') = pd_jobs (idb_privacy db) @ [j] \<and> jb_id j = iid_scan ids \<and> jb_tenant j = ul_tenant s
      \<and> jb_snapshot j = iid_snapshot ids \<and> jb_purpose j = Apply \<and> jb_state j = SComplete"
    and "pd_findings (idb_privacy db') = fold add_finding
      (map (finding_of_import (pv_uuid5 ev) (ul_tenant s) (iid_snapshot ids) (iid_scan ids)) (sr_findings rep)) (pd_findings (idb_privacy db))"
proof -
  obtain db1 p scanned scan p1 rows cols parent sha where d:
    "as_dict (py_or (jget_null (ul_manifest s) ''sensitive_scan'') (JObj [])) = Inr scanned"
    "jget_null desc ''content_sha256'' = JStr sha"
    "json_len (Some (py_or (jget_null (ul_manifest s) ''columns'') (JArr []))) = Inr cols"
    "r = published_snapshot user now (ul_tenant s) a (iid_snapshot ids) (ul_manifest s) desc sha (storage_of canonical)
       (schema_of (py_or (jget_null (ul_manifest s) ''columns'') (JArr [])) scanned) rows cols parent (next_version (ul_tenant s) a db)"
    "insert_snapshot r db = Inr db1"
    "insert_import_job tx (iid_scan ids) (ul_tenant s) (iid_snapshot ids) user rows (ul_manifest s) scanned (idb_privacy db1) = Inr (scan, p1)"
    "insert_findings (pv_uuid5 ev) (ul_tenant s) (iid_snapshot ids) scan scanned p1 = Inr p"
    "db' = mark_registered (ul_tenant s) (ul_id s) a (iid_snapshot ids) (bump_asset (ul_tenant s) a (iid_snapshot ids) (db1\<lparr>idb_privacy := p\<rparr>))"
    by (rule add_version_result [OF assms(1)])
  have p: "idb_privacy db' = p" by (simp add: d(8) mark_registered_def bump_asset_def update_sessions_def)
  have p0: "pd_jobs (idb_privacy db1) = pd_jobs (idb_privacy db)" "pd_findings (idb_privacy db1) = pd_findings (idb_privacy db)"
    using d(5) by (auto simp: insert_snapshot_def split: if_splits)
  obtain j where j: "scan = Some (iid_scan ids)" "p1 = (idb_privacy db1)\<lparr>pd_jobs := pd_jobs (idb_privacy db1) @ [j]\<rparr>"
    "jb_id j = iid_scan ids" "jb_tenant j = ul_tenant s" "jb_snapshot j = iid_snapshot ids" "jb_purpose j = Apply" "jb_state j = SComplete"
    using d(6) assms(3) by (auto simp: insert_import_job_def import_job_def split: option.splits json.splits if_splits)
  have sc: "jget_null scanned ''findings'' = JArr (map finding_dict (sr_findings rep))"
    using d(1) assms(2) by (auto simp: report_dict_def py_or_def as_dict_def jget_null_def jget_def)
  obtain xs fr where "iter_json (Some (py_or (JArr (map finding_dict (sr_findings rep))) (JArr []))) = Inr xs"
    "each (import_finding (pv_uuid5 ev) (ul_tenant s) (iid_snapshot ids) (Some (iid_scan ids))) xs = Inr fr"
    "p = p1\<lparr>pd_findings := fold add_finding fr (pd_findings p1)\<rparr>"
    using d(7) by (auto simp: insert_findings_def sc j(1) split: sum.splits)
  then have f: "pd_findings p = fold add_finding
      (map (finding_of_import (pv_uuid5 ev) (ul_tenant s) (iid_snapshot ids) (iid_scan ids)) (sr_findings rep)) (pd_findings p1)" "pd_jobs p = pd_jobs p1"
    using each_import_findings by (auto simp: iter_json_def py_or_def split: if_splits)
  show "\<exists>j. pd_jobs (idb_privacy db') = pd_jobs (idb_privacy db) @ [j] \<and> jb_id j = iid_scan ids \<and> jb_tenant j = ul_tenant s
      \<and> jb_snapshot j = iid_snapshot ids \<and> jb_purpose j = Apply \<and> jb_state j = SComplete"
    using j p0 f by (auto simp: p)
  show "pd_findings (idb_privacy db') = fold add_finding
      (map (finding_of_import (pv_uuid5 ev) (ul_tenant s) (iid_snapshot ids) (iid_scan ids)) (sr_findings rep)) (pd_findings (idb_privacy db))"
    using f j p0 by (simp add: p)
qed

lemma finding_of_import_column: "fr_column (finding_of_import uuid5 t s scan f) = fi_column_name f"
  by (simp add: finding_of_import_def)

text \<open>
  The ids of a registration are new: no job or finding belongs to the new snapshot and scan, no row has the id
  of one of its findings, and findings of different columns get different ids.
\<close>

definition fresh_for_import :: "(ustr \<Rightarrow> uuid) \<Rightarrow> uuid \<Rightarrow> import_ids \<Rightarrow> finding list \<Rightarrow> privacy_db \<Rightarrow> bool" where
  "fresh_for_import uuid5 t ids fs db \<longleftrightarrow>
     (let row = finding_of_import uuid5 t (iid_snapshot ids) (iid_scan ids)
      in (\<forall>j \<in> set (pd_jobs db). jb_snapshot j \<noteq> iid_snapshot ids)
       \<and> (\<forall>g \<in> set (pd_findings db). fr_scan g \<noteq> Some (iid_scan ids) \<and> (\<forall>f \<in> set fs. fr_id g \<noteq> fr_id (row f)))
       \<and> (\<forall>f \<in> set fs. \<forall>g \<in> set fs. fr_id (row f) = fr_id (row g) \<longrightarrow> fi_column_name f = fi_column_name g))"

text \<open>C13: 
  What the scan of an import reported is masked from the moment of the registration: every schema column of
  the new snapshot that a finding of the verified session names is protected.
\<close>

theorem imported_findings_protect:
  assumes "add_version ev now tx user ids s a desc canonical db = Inr (r, db')"
    and "jget_null (ul_manifest s) ''sensitive_scan'' = report_dict rep" "jget_null (ul_manifest s) ''privacy_config_version'' = JInt v"
    and "fresh_for_import (pv_uuid5 ev) (ul_tenant s) ids (sr_findings rep) (idb_privacy db)"
    and "f \<in> set (sr_findings rep)" "resolve_snapshot_protection (idb_privacy db') (ul_tenant s) (iid_snapshot ids) = Inr sp"
    and "cp \<in> set (sp_columns sp)" "cp_column_name cp = fi_column_name f"
  shows "fi_column_name f \<in> set (sp_protected_columns sp)"
proof (rule ccontr)
  assume "fi_column_name f \<notin> set (sp_protected_columns sp)"
  with unprotected_column [OF assms(6,7)] assms(8)
  have none: "detected_categories (idb_privacy db') (ul_tenant s) (iid_snapshot ids) (fi_column_name f) = []" by simp
  let ?row = "finding_of_import (pv_uuid5 ev) (ul_tenant s) (iid_snapshot ids) (iid_scan ids)"
  note priv = add_version_privacy [OF assms(1-3)]
  obtain j where j: "pd_jobs (idb_privacy db') = pd_jobs (idb_privacy db) @ [j]" "jb_id j = iid_scan ids" "jb_tenant j = ul_tenant s"
    "jb_snapshot j = iid_snapshot ids" "jb_purpose j = Apply" "jb_state j = SComplete" using priv(1) by blast
  have old: "apply_jobs (idb_privacy db) (ul_tenant s) (iid_snapshot ids) = []" using assms(4) by (auto simp: apply_jobs_def filter_empty_conv fresh_for_import_def Let_def)
  have lc: "latest_complete (idb_privacy db') (ul_tenant s) (iid_snapshot ids) = Some (iid_scan ids)"
    using old j by (simp add: latest_complete_def apply_jobs_def latest_def)
  have "?row f \<in> set (map ?row (sr_findings rep))" using assms(5) by simp
  from add_findings_covered [OF this, of "pd_findings (idb_privacy db)"]
  obtain g where g: "g \<in> set (pd_findings (idb_privacy db'))" "same_finding (?row f) g" unfolding priv(2) by blast
  have nold: "g \<notin> set (pd_findings (idb_privacy db))"
  proof
    assume "g \<in> set (pd_findings (idb_privacy db))"
    then have "fr_scan g \<noteq> Some (iid_scan ids)" "fr_id g \<noteq> fr_id (?row f)" using assms(4,5) unfolding fresh_for_import_def Let_def by blast+
    then show False using g(2) by (auto simp: same_finding_def finding_of_import_def)
  qed
  then obtain f' where f': "f' \<in> set (sr_findings rep)" "g = ?row f'"
    using g(1) add_findings_subset [of "pd_findings (idb_privacy db)" "map ?row (sr_findings rep)"] unfolding priv(2) by auto
  have "fr_id (?row f) = fr_id (?row f') \<or> fr_column (?row f) = fr_column (?row f')"
    using g(2) unfolding f'(2) same_finding_def by blast
  then have "fi_column_name f' = fi_column_name f"
    using assms(4,5) f'(1) unfolding fresh_for_import_def Let_def by (metis finding_of_import_column)
  then have "fr_category g \<in> set (detected_categories (idb_privacy db') (ul_tenant s) (iid_snapshot ids) (fi_column_name f))"
    using g(1) lc unfolding detected_categories_def f'(2) by (force simp: finding_of_import_def active_finding_def)
  then show False using none by simp
qed

subsection \<open>What an import shows although it should not, and what stops it\<close>

lemma jsonb_text_nul: "jsonb_text s \<Longrightarrow> 0 \<notin> set s"
  by (induction s rule: jsonb_text.induct) (auto split: if_splits)

text \<open>C40: 
  One NUL character that reaches the preview stops an import for ever: PostgreSQL refuses the manifest, the
  error is none the worker catches, and nothing is settled. Whatever worker tries the session ends the same way.
\<close>

theorem nul_cell_blocks_import:
  assumes "load_pinned_rules (pv_nt ev) (pv_sha ev) (pv_rule_id ev) (ul_tenant c) (idb_privacy db) = Inr (pin, pdb)"
    and "ww_versioned w" "inspected st w c pin pdb (idb_privacy (meanwhile (db\<lparr>idb_privacy := pdb\<rparr>))) = Inr x"
    and "isp_preview x = JArr rows" "JObj cells \<in> set rows" "(k, JStr s) \<in> set cells" "0 \<in> set s"
  shows "process_session ev st w worker tx c meanwhile db = Inl ''DataError''"
proof -
  have "\<not> jsonb_ok (isp_preview x)"
    using assms(4-7) jsonb_text_nul by (force simp: list_all_iff)
  then have "\<not> jsonb_ok (JObj (outcome_patch (ul_format c) pin n (Inr x)))" for n
    by (simp add: outcome_patch_def verified_patch_def)
  then show ?thesis using assms(1-3) by (simp add: process_session_def Let_def settle_outcome_def)
qed

lemma reached_all: "0 < n \<Longrightarrow> reached n n"
  using fl_of_int [of 1] by (simp add: reached_def fdiv_def)

lemma min_max_of: "xs \<noteq> [] \<Longrightarrow> min_of xs = Min (set xs)" "xs \<noteq> [] \<Longrightarrow> max_of xs = Max (set xs)"
proof -
  assume xs: "xs \<noteq> []"
  have s: "sorted (sort xs)" "sort xs \<noteq> []" "set (sort xs) = set xs" using xs by (simp_all add: set_empty [symmetric] del: set_empty)
  show "min_of xs = Min (set xs)"
    using s by (cases "sort xs") (auto simp: min_of_def s(3) [symmetric] simp del: set_sort intro!: Min_eqI [symmetric])
  show "max_of xs = Max (set xs)"
    using s by (cases "sort xs" rule: rev_cases) (auto simp: max_of_def s(3) [symmetric] sorted_append simp del: set_sort intro!: Max_eqI [symmetric])
qed

text \<open>
  A column whose name says bank or credit is replaced by a marker in the preview, but the profile beside it
  shows the smallest and the largest of its numbers: the list of names the profile spares lacks the two words.
\<close>

theorem profile_shows_bank_numbers:
  assumes "has_token (tl_ud lib) FINANCIAL_TOKENS name" "\<not> is_identifier_name (tl_ud lib) name" "name \<notin> set sens" "name \<notin> set containers"
    and "vs \<noteq> []" "\<forall>v \<in> set vs. integer_text (tl_ud lib) v \<and> py_int (tl_ud lib) v \<noteq> None"
  shows "mask_preview_cell (tl_ud lib) sens name (JStr s) = JStr REDACTED_SENTINEL"
    and "\<exists>d. column_stats lib containers sens (length vs) name (map Some vs) = JObj d
      \<and> jget d ''min'' = Some (JInt (Min (set (map (\<lambda>v. the (py_int (tl_ud lib) v)) vs))))
      \<and> jget d ''max'' = Some (JInt (Max (set (map (\<lambda>v. the (py_int (tl_ud lib) v)) vs))))"
proof -
  show "mask_preview_cell (tl_ud lib) sens name (JStr s) = JStr REDACTED_SENTINEL"
    using assms(1,3) by (simp add: mask_preview_cell_def)
  let ?ints = "map (\<lambda>v. the (py_int (tl_ud lib) v)) vs"
  have i: "integer_values (tl_ud lib) vs = ?ints" using assms(6) by (simp add: integer_values_def filter_True)
  have p: "map the (filter (\<lambda>v. v \<noteq> None) (map Some vs)) = vs" by (induction vs) simp_all
  have st: "infer_profile_stats lib name vs = \<lparr>pst_hint = ''INTEGER'', pst_count = length vs, pst_format = None,
      pst_min = Some (JInt (Min (set ?ints))), pst_max = Some (JInt (Max (set ?ints)))\<rparr>"
    using assms(2,5) reached_all [of "length vs"] min_max_of [of ?ints] by (simp add: infer_profile_stats_def Let_def i)
  show "\<exists>d. column_stats lib containers sens (length vs) name (map Some vs) = JObj d
      \<and> jget d ''min'' = Some (JInt (Min (set ?ints))) \<and> jget d ''max'' = Some (JInt (Max (set ?ints)))"
    using assms(3,4) unfolding column_stats_def p st Let_def by (simp add: opt_entry_def jget_def)
qed

end
