(* ===== verification/ImportDemo.thy ===== *)
theory ImportDemo
  imports ImportGuarantees StructuredRules
begin

text \<open>
  Concrete imports: a session that is created from a staged object, claimed, verified and registered, and CSV
  files of one cell. They show that the hypotheses of the import theorems can hold.
\<close>

subsection \<open>A session from creation to registration\<close>

definition demo_import_env :: import_env where
  "demo_import_env = \<lparr>iev_privacy = \<lparr>pv_nt = plain_numbers, pv_sha = (\<lambda>s. replicate 64 48), pv_uuid5 = length, pv_rule_id = (\<lambda>t c. length c)\<rparr>,
     iev_ud = plain_unidata, iev_settings = \<lparr>ist_max_bytes = 1000, ist_part_bytes = 100, ist_lease_seconds = 60,
       ist_bucket_staging = u ''staging'', ist_bucket_snapshots = u ''snapshots''\<rparr>, iev_sha = (\<lambda>b. replicate 64 48)\<rparr>"

definition demo_import_user :: import_user where
  "demo_import_user = \<lparr>iur_tenant = 2, iur_id = 7, iur_role = u ''DATA_STEWARD''\<rparr>"

definition demo_request :: create_request where
  "demo_request = \<lparr>crq_client_request = 9, crq_asset = None, crq_name = Some (u ''Sales''), crq_format = u ''CSV'',
     crq_filename = u ''sales.csv'', crq_size = 4, crq_source = Some \<lparr>sob_bucket = u ''staging'', sob_key = imports_prefix 2 @ u ''sales.csv''\<rparr>,
     crq_csv = None\<rparr>"

definition demo_metadata :: staged_metadata where
  "demo_metadata = \<lparr>om_size_bytes = 4, om_version_id = Some (u ''v1''), om_etag = u ''e1''\<rparr>"

definition demo_objects :: import_store where
  "demo_objects = \<lparr>ios_head = (\<lambda>r. Inr demo_metadata), ios_create_multipart = (\<lambda>b k. Inr (u ''m1''))\<rparr>"

definition demo_start :: import_db where
  "demo_start = \<lparr>idb_sessions = [], idb_assets = [], idb_snapshots = [],
     idb_privacy = \<lparr>pd_assets = [], pd_snapshots = [], pd_classes = [], pd_findings = [], pd_jobs = [], pd_configs = [(2, 1)],
       pd_rules = [], pd_revisions = [], pd_policies = [], pd_events = []\<rparr>\<rparr>"

definition demo_ref :: "ustr \<Rightarrow> object_ref" where
  "demo_ref k = \<lparr>or_bucket = u ''snapshots'', or_key = k, or_version_id = Some (u ''v1'')\<rparr>"

definition demo_finding :: finding where
  "demo_finding = \<lparr>fi_column_name = u ''note'', fi_path = [], fi_category = u ''CONTACT'', fi_detector_code = u ''EMAIL'',
     fi_rule_id = None, fi_rule_revision = None, fi_matched_count = 1, fi_observed_count = 1, fi_method = u ''VALUE_PATTERN'',
     fi_detector_revision = BUILTIN_DETECTOR_REVISION, fi_confidence_score = 1\<rparr>"

definition demo_scan_report :: scan_report where
  "demo_scan_report = \<lparr>sr_total_rows = 1, sr_findings = [demo_finding], sr_sensitive_columns = [u ''note''], sr_scope_missing = []\<rparr>"

definition demo_inspection :: inspection where
  "demo_inspection = \<lparr>isp_raw_ref = demo_ref (u ''a''), isp_canonical_ref = demo_ref (u ''b''), isp_raw_sha = replicate 64 48,
     isp_canonical_sha = replicate 64 49, isp_raw_size = 4, isp_canonical_size = 9, isp_rows = 1,
     isp_columns = JArr [JObj [(u ''name'', JStr (u ''note''))]], isp_preview = JArr [], isp_profile = JObj [], isp_warnings = [],
     isp_normalization = 1, isp_scan = report_dict demo_scan_report\<rparr>"

definition demo_world :: worker_world where
  "demo_world = \<lparr>ww_versioned = True, ww_head = (\<lambda>r. Inr demo_metadata), ww_inspect = (\<lambda>t. Inr demo_inspection)\<rparr>"

definition demo_import_pin :: pinned_rules where
  "demo_import_pin = \<lparr>pin_rules_of = [], pin_config_version = 1, pin_digest = replicate 64 48\<rparr>"

definition demo_staged :: upload_session where
  "demo_staged = new_session demo_import_user 0 5 demo_request 4 (imports_prefix 2 @ u ''sales.csv'')
     (Some (s3a_uri \<lparr>or_bucket = u ''staging'', or_key = imports_prefix 2 @ u ''sales.csv'', or_version_id = None\<rparr>)) None UStaged
     (first_manifest (iev_settings demo_import_env) (replicate 64 48) (fresh_staging_key (\<lambda>c. [c]) 2 5 (u ''CSV'')) demo_request
       @ [(u ''source_ref'', source_ref_json \<lparr>sob_bucket = u ''staging'', sob_key = imports_prefix 2 @ u ''sales.csv''\<rparr> demo_metadata)])"

definition demo_claim :: upload_session where
  "demo_claim = leased_to (u ''w1'') 1 60 demo_staged"

definition demo_checked :: upload_session where
  "demo_checked = settled (u ''CSV'') demo_import_pin 0 (Inr demo_inspection) demo_claim"

definition demo_with :: "upload_session \<Rightarrow> import_db" where
  "demo_with s = demo_start\<lparr>idb_sessions := [s]\<rparr>"

definition demo_import_create :: import_call where
  "demo_import_create = CreateImport demo_objects demo_import_user 0 5 demo_request"

definition demo_verified :: "import_call list" where
  "demo_verified = [demo_import_create, ClaimImport (u ''w1'') 1 1 (\<lambda>s. False), SettleImport demo_world (u ''w1'') 2 demo_claim []]"

definition demo_ids :: import_ids where
  "demo_ids = \<lparr>iid_asset = 20, iid_snapshot = 21, iid_scan = 22\<rparr>"

lemma demo_may: "may_import demo_import_user" by code_simp
text \<open>Texts of ASCII characters other than NUL can be stored.\<close>

definition plain_text :: "ustr \<Rightarrow> bool" where
  "plain_text s \<longleftrightarrow> list_all (\<lambda>c. 0 < c \<and> c < 128) s"

fun plain_json :: "json \<Rightarrow> bool" where
  "plain_json (JStr s) = plain_text s"
| "plain_json (JArr xs) = list_all plain_json xs"
| "plain_json (JObj kvs) = list_all (\<lambda>(k, v). plain_text k \<and> plain_json v) kvs"
| "plain_json v = True"

lemma plain_text_jsonb: "plain_text s \<Longrightarrow> jsonb_text s"
  by (induction s rule: jsonb_text.induct) (auto simp: plain_text_def)

lemma plain_json_ok: "plain_json v \<Longrightarrow> jsonb_ok v"
  by (induction v) (auto simp: plain_text_jsonb list_all_iff)

lemma plain_text_storable: "plain_text s \<Longrightarrow> storable_text s"
  using encodable_iff [of s] by (auto simp: plain_text_def storable_text_def list_all_iff surrogate_def)

lemma demo_storable: "storable demo_staged"
proof -
  have "plain_json (JObj (ul_manifest demo_staged))" "plain_text (ul_filename demo_staged)"
    "case ul_name demo_staged of None \<Rightarrow> False | Some n \<Rightarrow> plain_text n" by code_simp+
  then show ?thesis using plain_json_ok [of "JObj (ul_manifest demo_staged)"]
    by (simp add: storable_def plain_text_storable del: plain_json.simps jsonb_ok.simps split: option.splits)
qed

lemma demo_target: "session_target_ok demo_staged" by code_simp
lemma demo_manifest: "jget (ul_manifest demo_staged) ''parts'' = Some (JObj [])" "jget (ul_manifest demo_staged) ''preview'' = None"
   "jget (ul_manifest demo_staged) ''profile'' = None" "jget (ul_manifest demo_staged) ''columns'' = None" by code_simp+
lemma demo_no_key: "jget_null (ul_manifest demo_staged) ''column_names_mapping'' = JNull" by code_simp
lemma demo_digest_text: "canonical_json plain_numbers (JObj [(u ''rules'', JArr [])]) = u ''{\"rules\":[]}''" by code_simp

lemma demo_import_pinned: "load_pinned_rules plain_numbers (\<lambda>s. replicate 64 48) (\<lambda>t c. length c) 2 (idb_privacy demo_start)
    = Inr (demo_import_pin, idb_privacy demo_start)"
proof -
  have "utf8_size (u ''{\"rules\":[]}'') \<noteq> None" unfolding encodable_iff by (simp add: surrogate_def u_def)
  then have "rules_digest plain_numbers (\<lambda>s. replicate 64 48) [] = Inr (replicate 64 48)"
    by (auto simp: rules_digest_def compute_deterministic_hash_def by_rule_id_def demo_digest_text)
  then show ?thesis
    by (simp add: load_pinned_rules_def ensure_initialized_def pin_rules_def latest_rules_def config_version_def dict_get_def demo_start_def
      demo_import_pin_def tenant_rules_def by_rule_id_def)
qed

lemma demo_patch: "jsonb_ok (JObj (outcome_patch (u ''CSV'') demo_import_pin 0 (Inr demo_inspection)))" by (rule plain_json_ok) code_simp

lemma demo_checked_fields: "ul_id demo_checked = 5" "ul_tenant demo_checked = 2" "ul_status demo_checked = UVerified" "ul_asset demo_checked = None"
  "ul_name demo_checked = Some (u ''Sales'')" "ul_registered demo_checked = None" "ul_expires_at demo_checked = 24 * 3600 * 1000000"
  by (simp_all add: demo_checked_def settled_def patched_def demo_claim_def leased_to_def demo_staged_def new_session_def demo_import_user_def demo_request_def)

definition demo_import_descriptor :: jdict where
  "demo_import_descriptor = source_descriptor (u ''CSV'') demo_inspection"

lemma demo_checked_jget: "jget (ul_manifest demo_checked) k = (case map_of (rev (verified_patch (u ''CSV'') demo_inspection demo_import_pin 0)) (u k) of
    Some v \<Rightarrow> Some v | None \<Rightarrow> jget (ul_manifest demo_staged) k)"
  by (simp add: demo_checked_def settled_def patched_def outcome_patch_def merge_manifest_def demo_claim_def leased_to_def jget_def
      map_of_fold_update map_add_def split: option.split)

lemma demo_no_parent: "jget (ul_manifest demo_staged) ''parent_snapshot_id'' = None" by code_simp

lemma demo_checked_manifest:
  "jget_null (ul_manifest demo_checked) ''source_descriptor'' = JObj demo_import_descriptor"
  "jget_null (ul_manifest demo_checked) ''sensitive_scan'' = report_dict demo_scan_report"
  "jget_null (ul_manifest demo_checked) ''privacy_config_version'' = JInt 1"
  "jget (ul_manifest demo_checked) ''privacy_detector_digest'' = Some (JStr (replicate 64 48))"
  "jget (ul_manifest demo_checked) ''privacy_rules'' = Some (JArr [])"
  "jget_null (ul_manifest demo_checked) ''columns'' = JArr [JObj [(u ''name'', JStr (u ''note''))]]"
  "jget_null (ul_manifest demo_checked) ''exact_row_count'' = JInt 1"
  "jget_null (ul_manifest demo_checked) ''parent_snapshot_id'' = JNull"
  "jget_null (ul_manifest demo_checked) ''warnings'' = JArr []"
  by (simp_all add: demo_checked_jget jget_null_def verified_patch_def demo_import_descriptor_def demo_inspection_def demo_import_pin_def demo_no_parent)

lemma demo_descriptor_fields: "jget_null demo_import_descriptor ''content_sha256'' = JStr (replicate 64 48)"
  "as_dict (jget_or demo_import_descriptor ''canonical'' (JObj [])) = Inr (the (case jget demo_import_descriptor ''canonical'' of Some (JObj d) \<Rightarrow> Some d | _ \<Rightarrow> None))"
  "demo_import_descriptor \<noteq> []"
  by code_simp+

lemma demo_checked_get: "get_by_id 2 5 (demo_with demo_checked) = Some demo_checked"
  by (simp add: get_by_id_def demo_with_def owned_by_def demo_checked_fields)

lemma demo_finding_row: "\<exists>row. import_finding length 2 21 (Some 22) (finding_dict demo_finding) = Inr row"
  by (simp add: import_finding_def finding_dict_def as_dict_def jget_def jget_null_def jget_or_def json_count_def demo_finding_def Let_def)

lemma demo_import_job: "\<exists>p. insert_import_job 3 22 2 21 7 1 (ul_manifest demo_checked) scanned p0 = Inr (Some 22, p)
    \<and> pd_snapshots p = pd_snapshots p0" if "pd_jobs p0 = []"
  using that by (simp add: insert_import_job_def demo_checked_manifest jget_or_def hex64_def list_all_iff)

lemma demo_findings: "\<exists>p. insert_findings length 2 21 (Some 22) scanned p0 = Inr p \<and> pd_snapshots p = pd_snapshots p0" if "JObj scanned = report_dict demo_scan_report"
proof -
  have "jget_null scanned ''findings'' = JArr [finding_dict demo_finding]"
    using that by (simp add: report_dict_def jget_null_def jget_def demo_scan_report_def)
  then show ?thesis using demo_finding_row by (auto simp: insert_findings_def py_or_def iter_json_def)
qed


lemma demo_import_created: "import_step demo_import_env demo_import_create demo_start = demo_with demo_staged"
proof -
  let ?st = "iev_settings demo_import_env"
  have none: "get_by_client_request 2 7 9 demo_start = None" by (simp add: get_by_client_request_def demo_start_def)
  have resp: "\<exists>r. build_session_response plain_unidata ?st (idb_privacy demo_start) 2 0 demo_staged = Inr r"
    using demo_manifest by (simp add: build_session_response_def parts_of_def int_keys_def masked_output_def jget_null_def opt_list_def
      opt_dict_def json_len_def)
  have cs: "create_session demo_staged demo_start = Inr (demo_staged, demo_with demo_staged)"
    using demo_storable demo_target by (simp add: create_session_def demo_start_def demo_with_def get_by_client_request_def)
  have priv: "idb_privacy (demo_with demo_staged) = idb_privacy demo_start" by (simp add: demo_with_def)
  have src: "create_from_source plain_unidata ?st demo_objects demo_import_user 0 5 demo_request \<lparr>sob_bucket = u ''staging'', sob_key = imports_prefix 2 @ u ''sales.csv''\<rparr>
      (first_manifest ?st (replicate 64 48) (fresh_staging_key (\<lambda>c. [c]) 2 5 (u ''CSV'')) demo_request) demo_start
      = Inr (Inr (THE r. build_session_response plain_unidata ?st (idb_privacy demo_start) 2 0 demo_staged = Inr r), demo_with demo_staged)"
  proof -
    have p: "is_prefix (imports_prefix 2) (imports_prefix 2 @ u ''sales.csv'')" by (simp add: is_prefix_iff)
    have m: "demo_staged = new_session demo_import_user 0 5 demo_request 4 (imports_prefix 2 @ u ''sales.csv'')
     (Some (s3a_uri \<lparr>or_bucket = u ''staging'', or_key = imports_prefix 2 @ u ''sales.csv'', or_version_id = None\<rparr>)) None UStaged
     (first_manifest ?st (replicate 64 48) (fresh_staging_key (\<lambda>c. [c]) 2 5 (u ''CSV'')) demo_request
       @ [(u ''source_ref'', source_ref_json \<lparr>sob_bucket = u ''staging'', sob_key = imports_prefix 2 @ u ''sales.csv''\<rparr> demo_metadata)])"
      by (simp add: demo_staged_def)
    have b: "ist_bucket_staging ?st = u ''staging''" "ist_max_bytes ?st = 1000" by (simp_all add: demo_import_env_def)
    have h: "ios_head demo_objects = (\<lambda>r. Inr demo_metadata)" "om_size_bytes demo_metadata = 4" "crq_size demo_request = 4" "iur_tenant demo_import_user = 2"
      by (simp_all add: demo_objects_def demo_metadata_def demo_request_def demo_import_user_def)
    show ?thesis using resp p by (auto simp: create_from_source_def b h m [symmetric] cs respond_updated_def respond_def priv)
  qed
  have e: "ensure_initialized (\<lambda>t c. length c) 2 (idb_privacy demo_start) = Inr (idb_privacy demo_start)"
    by (simp add: ensure_initialized_def demo_start_def)
  have fp: "request_fingerprint plain_numbers (\<lambda>s. replicate 64 48) demo_request = replicate 64 48" by (simp add: request_fingerprint_def)
  have f: "iur_tenant demo_import_user = 2" "iur_id demo_import_user = 7" "crq_client_request demo_request = 9" "crq_format demo_request = u ''CSV''"
    "crq_asset demo_request = None" "crq_size demo_request = 4" "ud_lower plain_unidata = (\<lambda>c. [c])"
    "crq_source demo_request = Some \<lparr>sob_bucket = u ''staging'', sob_key = imports_prefix 2 @ u ''sales.csv''\<rparr>"
    "ist_max_bytes ?st = 1000"
    by (simp_all add: demo_import_user_def demo_request_def plain_unidata_def demo_import_env_def)
  have env: "pv_rule_id (iev_privacy demo_import_env) = (\<lambda>t c. length c)" "pv_nt (iev_privacy demo_import_env) = plain_numbers"
    "pv_sha (iev_privacy demo_import_env) = (\<lambda>s. replicate 64 48)" "iev_ud demo_import_env = plain_unidata"
    by (simp_all add: demo_import_env_def)
  have same: "demo_start\<lparr>idb_privacy := idb_privacy demo_start\<rparr> = demo_start" by simp
  show ?thesis
    by (simp add: demo_import_create_def create_import_session_def demo_may f env e Let_def none fp same src)
qed

lemma demo_import_claimed: "import_step demo_import_env (ClaimImport (u ''w1'') 1 1 (\<lambda>s. False)) (demo_with demo_staged) = demo_with demo_claim"
proof -
  have f: "ul_status demo_staged = UStaged" "ul_expires_at demo_staged = 24 * 3600 * 1000000" "ul_attempts demo_staged = 0"
    by (simp_all add: demo_staged_def new_session_def)
  then have "next_upload 1 (\<lambda>s. False) (demo_with demo_staged) = Some demo_staged"
    by (simp add: next_upload_def demo_with_def claimable_upload_def)
  then show ?thesis using f
    by (simp add: claim_next_session_def expired_def demo_claim_def demo_import_env_def demo_with_def update_sessions_def)
qed

lemma demo_source: "source_check (\<lambda>r. Inr demo_metadata) ref (jget_null (ul_manifest demo_claim) ''source_ref'') = Inr ()"
proof -
  have sel: "jget_null (ul_manifest demo_claim) ''source_ref'' = source_ref_json \<lparr>sob_bucket = u ''staging'', sob_key = imports_prefix 2 @ u ''sales.csv''\<rparr> demo_metadata"
    by code_simp
  show ?thesis unfolding source_check_def sel by (simp add: source_ref_json_def demo_metadata_def jget_null_def jget_def opt_str_def)
qed

lemma demo_settled: "import_step demo_import_env (SettleImport demo_world (u ''w1'') 2 demo_claim []) (demo_with demo_claim) = demo_with demo_checked"
proof -
  have f: "ul_tenant demo_claim = 2" "ul_asset demo_claim = None" "ul_format demo_claim = u ''CSV''" "ul_id demo_claim = 5"
    "ul_manifest demo_claim = ul_manifest demo_staged" "ul_staging_key demo_claim = imports_prefix 2 @ u ''sales.csv''"
    "holds_upload (u ''w1'') 2 5 (ul_generation demo_claim) demo_claim"
    by (simp_all add: demo_claim_def leased_to_def demo_staged_def new_session_def demo_import_user_def demo_request_def holds_upload_def upload_seconds_def)
  have h: "ww_head demo_world = (\<lambda>r. Inr demo_metadata)" by (simp add: demo_world_def)
  have w: "ww_inspect demo_world = (\<lambda>t. Inr demo_inspection)" by (simp add: demo_world_def)
  have insp: "inspected (iev_settings demo_import_env) demo_world demo_claim demo_import_pin p p' = Inr demo_inspection" for p p'
    using demo_source by (simp add: inspected_def f h w Let_def)
  have env: "pv_rule_id (iev_privacy demo_import_env) = (\<lambda>t c. length c)" "pv_nt (iev_privacy demo_import_env) = plain_numbers"
    "pv_sha (iev_privacy demo_import_env) = (\<lambda>s. replicate 64 48)"
    by (simp_all add: demo_import_env_def)
  have priv: "idb_privacy (demo_with demo_claim) = idb_privacy demo_start" "privacy_calls ev [] db = db"
    "demo_with demo_claim\<lparr>idb_privacy := idb_privacy demo_start\<rparr> = demo_with demo_claim" for ev db
    by (simp_all add: demo_with_def privacy_calls_def)
  have v: "ww_versioned demo_world" by (simp add: demo_world_def)
  have s: "settle (u ''w1'') 2 demo_claim (settled (u ''CSV'') demo_import_pin 0 (Inr demo_inspection)) (demo_with demo_claim) = demo_with demo_checked"
    using f by (simp add: settle_def update_sessions_def demo_with_def demo_checked_def)
  show ?thesis
    by (simp add: process_session_def f env priv demo_import_pinned [unfolded priv] v Let_def settle_outcome_def insp demo_patch s del: jsonb_ok.simps)
qed

lemma demo_run: "fold (import_step demo_import_env) demo_verified demo_start = demo_with demo_checked"
  by (simp only: demo_verified_def fold.simps comp_apply id_apply demo_import_created demo_import_claimed demo_settled)


lemma demo_add: "\<exists>r db'. add_version (iev_privacy demo_import_env) 3 3 7 demo_ids demo_checked 20 demo_import_descriptor canonical db = Inr (r, db')
    \<and> (\<exists>scanned. pd_snapshots (idb_privacy db') = pd_snapshots (idb_privacy db) @ [\<lparr>ps_tenant = 2, ps_id = 21, ps_asset = 20,
        ps_schema = Some (schema_of (JArr [JObj [(u ''name'', JStr (u ''note''))]]) scanned), ps_manifest = Some (ul_manifest demo_checked)\<rparr>])"
  if "idb_snapshots db = []" "pd_jobs (idb_privacy db) = []" for db canonical
proof -
  obtain scanned where sc: "report_dict demo_scan_report = JObj scanned" by (simp add: report_dict_def)
  have tr: "py_or (report_dict demo_scan_report) (JObj []) = JObj scanned" using sc by (auto simp: py_or_def report_dict_def)
  have nv: "next_version 2 20 db = 1" using that by (simp add: next_version_def)
  let ?r = "published_snapshot 7 3 2 20 21 (ul_manifest demo_checked) demo_import_descriptor (replicate 64 48) (storage_of canonical)
     (schema_of (JArr [JObj [(u ''name'', JStr (u ''note''))]]) scanned) 1 1 None 1"
  have i: "\<exists>db1. insert_snapshot ?r db = Inr db1 \<and> pd_jobs (idb_privacy db1) = []
    \<and> pd_snapshots (idb_privacy db1) = pd_snapshots (idb_privacy db) @ [\<lparr>ps_tenant = 2, ps_id = 21, ps_asset = 20,
        ps_schema = Some (schema_of (JArr [JObj [(u ''name'', JStr (u ''note''))]]) scanned), ps_manifest = Some (ul_manifest demo_checked)\<rparr>]"
    using that by (auto simp: insert_snapshot_def published_snapshot_def)
  then obtain db1 where db1: "insert_snapshot ?r db = Inr db1" "pd_jobs (idb_privacy db1) = []"
    "pd_snapshots (idb_privacy db1) = pd_snapshots (idb_privacy db) @ [\<lparr>ps_tenant = 2, ps_id = 21, ps_asset = 20,
        ps_schema = Some (schema_of (JArr [JObj [(u ''name'', JStr (u ''note''))]]) scanned), ps_manifest = Some (ul_manifest demo_checked)\<rparr>]" by blast
  obtain p1 where p1: "insert_import_job 3 22 2 21 7 1 (ul_manifest demo_checked) scanned (idb_privacy db1) = Inr (Some 22, p1)"
    "pd_snapshots p1 = pd_snapshots (idb_privacy db1)"
    using demo_import_job [OF db1(2)] by blast
  obtain p2 where p2: "insert_findings length 2 21 (Some 22) scanned p1 = Inr p2" "pd_snapshots p2 = pd_snapshots p1"
    using demo_findings [of scanned] sc by auto
  have m: "py_or (JArr [JObj [(u ''name'', JStr (u ''note''))]]) (JArr []) = JArr [JObj [(u ''name'', JStr (u ''note''))]]"
    "py_or (JInt 1) (JInt 0) = JInt 1" by (simp_all add: py_or_def)
  have ids: "iid_snapshot demo_ids = 21" "iid_scan demo_ids = 22" "pv_uuid5 (iev_privacy demo_import_env) = length"
    by (simp_all add: demo_ids_def demo_import_env_def)
  show ?thesis
    using db1 p1 p2 by (simp add: add_version_def Let_def demo_checked_manifest demo_checked_fields tr as_dict_def m json_count_def json_len_def
        parent_of_def demo_descriptor_fields nv ids) (auto simp: mark_registered_def bump_asset_def update_sessions_def)
qed

lemma demo_registered: "\<exists>r db'. register_snapshot (iev_privacy demo_import_env) (ud_lower (iev_ud demo_import_env)) 3 3 5 2 7 [] demo_ids
    (fold (import_step demo_import_env) demo_verified demo_start) = Inr (Inr r, db')"
proof -
  have "unacknowledged [] (ul_manifest demo_checked) = Inr False"
    by (simp add: unacknowledged_def demo_checked_manifest py_or_def json_in_def)
  moreover have "\<not> expired 3 demo_checked" by (simp add: expired_def demo_checked_fields)
  moreover have "\<exists>r db'. register_verified (iev_privacy demo_import_env) (ud_lower (iev_ud demo_import_env)) 3 3 7 demo_ids demo_checked demo_import_descriptor
      (demo_with demo_checked) = Inr (Inr r, db')"
  proof -
    obtain db where db: "resolve_asset (ud_lower (iev_ud demo_import_env)) 7 3 demo_checked 20 (demo_with demo_checked) = Inr (Inr 20, db)"
      "idb_snapshots db = []" "pd_jobs (idb_privacy db) = []"
      by (simp add: resolve_asset_def insert_asset_def demo_checked_fields demo_with_def demo_start_def Let_def)
    obtain canonical where c: "as_dict (jget_or demo_import_descriptor ''canonical'' (JObj [])) = Inr canonical" using demo_descriptor_fields(2) by blast
    obtain r db' where "add_version (iev_privacy demo_import_env) 3 3 7 demo_ids demo_checked 20 demo_import_descriptor canonical db = Inr (r, db')"
      using demo_add [OF db(2,3)] by blast
    then show ?thesis using db c by (simp add: register_verified_def demo_ids_def)
  qed
  ultimately show ?thesis unfolding demo_run
    by (simp add: register_snapshot_def demo_checked_get demo_checked_fields demo_checked_manifest demo_descriptor_fields(3) as_dict_def)
qed


lemma demo_empty: "empty_imports demo_start" "idb_sessions demo_start = []"
  by (simp_all add: empty_imports_def demo_start_def)

theorem upload_refines_lifecycle_witness:
  "\<exists>ks new. idb_sessions (import_step demo_import_env (ClaimImport (u ''w1'') 1 1 (\<lambda>s. False)) (fold (import_step demo_import_env) [demo_import_create] demo_start)) = ks @ new
    \<and> list_all2 (\<lambda>s r. ul_id r = ul_id s \<and> ul_tenant r = ul_tenant s \<and> lifecycle\<^sup>=\<^sup>= (abs_session s) (abs_session r)) [demo_staged] ks"
  using upload_refines_lifecycle [OF demo_empty(2), of demo_import_env "ClaimImport (u ''w1'') 1 1 (\<lambda>s. False)" "[demo_import_create]"]
  by (simp only: fold.simps comp_apply id_apply demo_import_created) (auto simp: demo_with_def)


theorem snapshot_versions_witness:
  "\<exists>r db. register_snapshot (iev_privacy demo_import_env) (ud_lower (iev_ud demo_import_env)) 3 3 5 2 7 [] demo_ids
      (fold (import_step demo_import_env) demo_verified demo_start) = Inr (Inr r, db)
    \<and> (\<exists>new. idb_snapshots (fold (import_step demo_import_env) [] (fold (import_step demo_import_env) demo_verified demo_start))
        = idb_snapshots (fold (import_step demo_import_env) demo_verified demo_start) @ new)"
  using snapshot_versions [OF demo_empty(1), of demo_import_env demo_verified "[]"] demo_registered unfolding Let_def by blast

theorem registered_for_ever_witness:
  "\<exists>r db. register_snapshot (iev_privacy demo_import_env) (ud_lower (iev_ud demo_import_env)) 3 3 5 2 7 [] demo_ids
      (fold (import_step demo_import_env) demo_verified demo_start) = Inr (Inr r, db)
    \<and> register_snapshot (iev_privacy demo_import_env) (ud_lower (iev_ud demo_import_env)) 9 9 5 2 8 [] demo_ids
      (fold (import_step demo_import_env) [demo_import_create] db) = Inr (Inr r, fold (import_step demo_import_env) [demo_import_create] db)"
proof -
  obtain r db where r: "register_snapshot (iev_privacy demo_import_env) (ud_lower (iev_ud demo_import_env)) 3 3 5 2 7 [] demo_ids
      (fold (import_step demo_import_env) demo_verified demo_start) = Inr (Inr r, db)" using demo_registered by blast
  show ?thesis using r registered_for_ever [OF demo_empty(1) refl r] by blast
qed

lemma demo_import_superseded: "upload_superseded (demo_with demo_checked) (ul_id demo_claim) (ul_generation demo_claim)"
  by (simp add: upload_superseded_def demo_with_def demo_checked_def settled_def patched_def)

theorem stale_import_refused_witness:
  "\<not> fst (upload_heartbeat (iev_settings demo_import_env) (u ''w1'') 5 5 (ul_id demo_claim) (ul_generation demo_claim)
      (fold (import_step demo_import_env) [demo_import_create] (demo_with demo_checked)))"
  using stale_import_refused [OF demo_empty(2) demo_run [symmetric] demo_import_superseded refl] by blast

theorem lost_lease_still_settles_witness:
  "\<not> fst (upload_heartbeat (iev_settings demo_import_env) (u ''w1'') 60000002 60000002 5 1 (demo_with demo_claim))
    \<and> demo_checked \<in> set (idb_sessions (settle (u ''w1'') 2 demo_claim (\<lambda>s. demo_checked)
        (snd (upload_heartbeat (iev_settings demo_import_env) (u ''w1'') 60000002 60000002 5 1 (demo_with demo_claim)))))"
proof -
  have f: "ul_id demo_claim = 5" "ul_generation demo_claim = 1" "ul_lease demo_claim = Some 60000001"
    "holds_upload (u ''w1'') 2 5 1 demo_claim"
    by (simp_all add: demo_claim_def leased_to_def demo_staged_def new_session_def holds_upload_def upload_seconds_def)
  have "sessions_ok (demo_with demo_claim)"
    using calls_sessions_ok [OF no_sessions_ok [OF demo_empty(2)], of demo_import_env "[demo_import_create, ClaimImport (u ''w1'') 1 1 (\<lambda>s. False)]"]
    by (simp only: fold.simps comp_apply id_apply demo_import_created demo_import_claimed)
  moreover have "demo_claim \<in> set (idb_sessions (demo_with demo_claim))" by (simp add: demo_with_def)
  ultimately show ?thesis
    using lost_lease_still_settles [of "demo_with demo_claim" demo_claim "u ''w1''" 2 60000001 60000002 "iev_settings demo_import_env" "\<lambda>s. demo_checked"] f
    by simp
qed

theorem part_count_exact_witness: "float_parts 250 100 = 3"
  using part_count_exact [of 250 100] by simp

theorem listing_confined_witness:
  "\<forall>x \<in> set [(\<lparr>or_bucket = u ''staging'', or_key = imports_prefix 2 @ u ''a'', or_version_id = None\<rparr>,
      \<lparr>om_size_bytes = 4, om_version_id = None\<rparr> :: object_metadata)]. is_prefix (imports_prefix (iur_tenant demo_import_user)) (or_key (fst x))"
proof (rule listing_confined [where objects = "\<lambda>b p k n. Inr ([(\<lparr>or_bucket = u ''staging'', or_key = p @ u ''a'', or_version_id = None\<rparr>,
      \<lparr>om_size_bytes = 4, om_version_id = None\<rparr>)], None)" and st = "iev_settings demo_import_env" and prefix = "[]" and token = None
      and n = 50 and scope = "u ''tenant''" and cont = None])
  show "list_storage_objects (iev_settings demo_import_env) (\<lambda>b p k n. Inr ([(\<lparr>or_bucket = u ''staging'', or_key = p @ u ''a'', or_version_id = None\<rparr>,
      \<lparr>om_size_bytes = 4, om_version_id = None\<rparr>)], None)) demo_import_user [] None 50 (u ''tenant'')
    = Inr ([(\<lparr>or_bucket = u ''staging'', or_key = imports_prefix 2 @ u ''a'', or_version_id = None\<rparr>, \<lparr>om_size_bytes = 4, om_version_id = None\<rparr>)], None)"
    using demo_may by (simp add: list_storage_objects_def listing_prefix_def whole_bucket_def Let_def demo_import_user_def)
qed (auto simp: is_prefix_iff whole_bucket_def demo_import_user_def)


text \<open>The session of a user who has had it verified three times.\<close>

definition demo_tired :: upload_session where
  "demo_tired = demo_checked\<lparr>ul_generation := 3, ul_attempts := 3\<rparr>"

lemma demo_reconfigured: "\<exists>r db. configure_import_session plain_unidata (iev_settings demo_import_env)
    \<lparr>iur_tenant = 2, iur_id = 7, iur_role = u ''DATA_STEWARD''\<rparr> 3 5 [u ''x''] (demo_with demo_tired) = Inr (Inr r, db)"
proof -
  let ?user = "\<lparr>iur_tenant = 2, iur_id = 7, iur_role = u ''DATA_STEWARD''\<rparr>"
  have m: "may_import ?user" using demo_may by (simp add: demo_import_user_def)
  have t: "ul_id demo_tired = 5" "ul_tenant demo_tired = 2" "ul_status demo_tired = UVerified" "\<not> expired 3 demo_tired"
    "ul_manifest demo_tired = ul_manifest demo_checked"
    by (simp_all add: demo_tired_def demo_checked_fields expired_def)
  then have g: "get_by_id 2 5 (demo_with demo_tired) = Some demo_tired" by (simp add: get_by_id_def demo_with_def owned_by_def)
  have p: "jsonb_ok (JObj (configure_patch [u ''x'']))" by (rule plain_json_ok) code_simp
  let ?f = "\<lambda>s. s\<lparr>ul_status := UStaged, ul_error := None, ul_manifest := merge_manifest (ul_manifest s) (configure_patch [u ''x''])\<rparr>"
  have j: "jget (ul_manifest (?f demo_tired)) k = (case map_of (rev (configure_patch [u ''x''])) (u k) of
      Some v \<Rightarrow> Some v | None \<Rightarrow> jget (ul_manifest demo_checked) k)" for k
    by (simp add: merge_manifest_def jget_def map_of_fold_update map_add_def t split: option.split)
  have staged: "jget (ul_manifest demo_checked) ''parts'' = Some (JObj [])"
    using demo_manifest by (simp add: demo_checked_jget verified_patch_def)
  have cols: "jget (ul_manifest demo_checked) ''columns'' = Some (JArr [JObj [(u ''name'', JStr (u ''note''))]])"
    by (simp add: demo_checked_jget verified_patch_def demo_inspection_def)
  have mf: "jget (ul_manifest (?f demo_tired)) ''parts'' = Some (JObj [])" "jget_null (ul_manifest (?f demo_tired)) ''preview'' = JNull"
    "jget_null (ul_manifest (?f demo_tired)) ''profile'' = JNull"
    "jget (ul_manifest (?f demo_tired)) ''columns'' = Some (JArr [JObj [(u ''name'', JStr (u ''note''))]])"
    unfolding jget_null_def j by (simp_all add: configure_patch_def staged cols)
  let ?db = "update_sessions (owned_by 2 5) ?f (demo_with demo_tired)"
  have "\<exists>r. build_session_response plain_unidata (iev_settings demo_import_env) (idb_privacy ?db) 2 3 (?f demo_tired) = Inr r"
    unfolding build_session_response_def Let_def masked_output_def parts_of_def mf
    by (simp add: int_keys_def opt_list_def opt_dict_def json_len_def)
  then obtain r where r: "build_session_response plain_unidata (iev_settings demo_import_env) (idb_privacy ?db) 2 3 (?f demo_tired) = Inr r" by blast
  have up: "update_status 5 2 UStaged None (configure_patch [u ''x'']) (demo_with demo_tired) = Inr (?f demo_tired, ?db)"
    using p by (simp only: update_status_def returning_def g) simp
  have "configure_import_session plain_unidata (iev_settings demo_import_env) ?user 3 5 [u ''x''] (demo_with demo_tired) = Inr (Inr r, ?db)"
    using m t g unfolding configure_import_session_def by (simp add: up respond_updated_def respond_def r [unfolded t(5)])
  then show ?thesis by blast
qed

theorem reconfiguration_exhausts_attempts_witness:
  "\<exists>resp db1 r. configure_import_session plain_unidata (iev_settings demo_import_env)
      \<lparr>iur_tenant = 2, iur_id = 7, iur_role = u ''DATA_STEWARD''\<rparr> 3 5 [u ''x''] (demo_with demo_tired) = Inr (Inr resp, db1)
    \<and> claim_next_session (iev_settings demo_import_env) (u ''w4'') 4 4 (\<lambda>s. False) db1 = (None, r)"
proof -
  obtain resp db1 where c: "configure_import_session plain_unidata (iev_settings demo_import_env)
      \<lparr>iur_tenant = 2, iur_id = 7, iur_role = u ''DATA_STEWARD''\<rparr> 3 5 [u ''x''] (demo_with demo_tired) = Inr (Inr resp, db1)"
    using demo_reconfigured by blast
  have "sessions_ok (demo_with demo_checked)"
    using calls_sessions_ok [OF no_sessions_ok [OF demo_empty(2)], of demo_import_env demo_verified] by (simp add: demo_run)
  then have ok: "sessions_ok (demo_with demo_tired)"
    by (simp add: sessions_ok_def demo_with_def demo_tired_def session_target_ok_def demo_checked_fields)
  have g: "get_by_id 2 5 (demo_with demo_tired) = Some demo_tired"
    by (simp add: get_by_id_def demo_with_def owned_by_def demo_tired_def demo_checked_fields)
  have t: "ul_status demo_tired = UVerified" "ul_attempts demo_tired = 3" "3 \<le> ul_expires_at demo_tired" "4 \<le> ul_expires_at demo_tired"
    by (simp_all add: demo_tired_def demo_checked_fields)
  have n: "\<forall>r \<in> set (idb_sessions (demo_with demo_tired)). \<not> claimable_upload 4 r" by (simp add: demo_with_def claimable_upload_def t)
  show ?thesis using reconfiguration_exhausts_attempts [OF ok g t(1-3) n c refl t(4)] c by blast
qed

subsection \<open>The registered finding\<close>

theorem imported_findings_protect_witness:
  "\<exists>r db sp. add_version (iev_privacy demo_import_env) 3 3 7 demo_ids demo_checked 20 demo_import_descriptor [] (demo_with demo_checked) = Inr (r, db)
    \<and> resolve_snapshot_protection (idb_privacy db) 2 21 = Inr sp \<and> u ''note'' \<in> set (sp_protected_columns sp)"
proof -
  have e: "idb_snapshots (demo_with demo_checked) = []" "pd_jobs (idb_privacy (demo_with demo_checked)) = []"
    "pd_findings (idb_privacy (demo_with demo_checked)) = []" "pd_snapshots (idb_privacy (demo_with demo_checked)) = []"
    by (simp_all add: demo_with_def demo_start_def)
  obtain r db where a: "add_version (iev_privacy demo_import_env) 3 3 7 demo_ids demo_checked 20 demo_import_descriptor [] (demo_with demo_checked) = Inr (r, db)"
    using demo_add [OF e(1,2)] by blast
  have sc: "jget_null (ul_manifest demo_checked) ''sensitive_scan'' = report_dict demo_scan_report"
    "jget_null (ul_manifest demo_checked) ''privacy_config_version'' = JInt 1" using demo_checked_manifest by simp_all
  have ids: "iid_snapshot demo_ids = 21" "ul_tenant demo_checked = 2" by (simp_all add: demo_ids_def demo_checked_fields)
  have fr: "fresh_for_import (pv_uuid5 (iev_privacy demo_import_env)) (ul_tenant demo_checked) demo_ids (sr_findings demo_scan_report) (idb_privacy (demo_with demo_checked))"
    by (simp add: fresh_for_import_def e demo_scan_report_def)
  have f: "demo_finding \<in> set (sr_findings demo_scan_report)" "fi_column_name demo_finding = u ''note''"
    by (simp_all add: demo_scan_report_def demo_finding_def)
  obtain scanned where sn: "pd_snapshots (idb_privacy db) = [\<lparr>ps_tenant = 2, ps_id = 21, ps_asset = 20,
        ps_schema = Some (schema_of (JArr [JObj [(u ''name'', JStr (u ''note''))]]) scanned), ps_manifest = Some (ul_manifest demo_checked)\<rparr>]"
    using demo_add [OF e(1,2), of "[]"] a e(4) by auto
  obtain j where j: "pd_jobs (idb_privacy db) = [j]" "jb_tenant j = 2" "jb_snapshot j = 21" "jb_purpose j = Apply"
    using add_version_privacy(1) [OF a sc] e(2) by (auto simp: ids)
  have "\<exists>st. scan_state_of (idb_privacy db) 2 21 (Some (ul_manifest demo_checked)) = Inr st"
    using j by (simp add: scan_state_of_def apply_jobs_def latest_def)
  moreover have "column_names (Some (schema_of (JArr [JObj [(u ''name'', JStr (u ''note''))]]) scanned)) = Inr [u ''note'']"
    by (simp add: column_names_def schema_of_def jget_def iter_json_def column_name_of_def)
  ultimately have "\<exists>sp cp. resolve_snapshot_protection (idb_privacy db) 2 21 = Inr sp \<and> cp \<in> set (sp_columns sp) \<and> cp_column_name cp = u ''note''"
    by (auto simp: resolve_snapshot_protection_def find_snapshot_def sn Let_def)
  then obtain sp cp where sp: "resolve_snapshot_protection (idb_privacy db) 2 21 = Inr sp" "cp \<in> set (sp_columns sp)" "cp_column_name cp = u ''note''" by blast
  have "u ''note'' \<in> set (sp_protected_columns sp)"
    using imported_findings_protect [OF a sc fr f(1)] sp f(2) unfolding ids by simp
  then show ?thesis using a sp(1) by blast
qed

subsection \<open>Files of one cell\<close>

definition demo_lib :: tab_lib where
  "demo_lib = \<lparr>tl_ud = plain_unidata, tl_nt = plain_numbers, tl_re = (\<lambda>p cs. None), tl_sha = (\<lambda>b. replicate 64 48),
     tl_parquet = (\<lambda>names n table. [80, 65, 82, 49]), tl_strptime = (\<lambda>v f. None), tl_iso = (\<lambda>t. []),
     tl_decimal = (\<lambda>v. None), tl_float = (\<lambda>x. []), tl_recursion = 1000, tl_reserve = True\<rparr>"

lemmas eval_csv = csv_reader_def csv_start_def csv_char_def field_char_def line_end_def after_end_def add_char_def save_field_def FIELD_LIMIT_def

definition demo_file :: "ident \<Rightarrow> nat \<Rightarrow> nat list" where
  "demo_file name c = name @ [10, c, 10]"

definition scanned_cell :: "ident list \<Rightarrow> ident \<Rightarrow> nat \<Rightarrow> ident list option" where
  "scanned_cell private name c = (case scanner_init (\<lambda>p cs. None) [name] private (Some []) of Inl e \<Rightarrow> None
     | Inr sc \<Rightarrow> (case feed_row plain_unidata plain_numbers (scan_row [name] [[c]]) sc of Inl e \<Rightarrow> None
         | Inr sc1 \<Rightarrow> Some (sr_sensitive_columns (finish plain_unidata sc1))))"

lemma one_cell:
  assumes "decode_sig bytes = Some bytes" "csv_reader 44 bytes = ([[name], [[c]]], False)" "py_strip name = name" "name \<noteq> []"
    and "dumped_size plain_numbers (csv_columns [name] [name]) < 1000" "row_bytes [Some [c]] = Some 1" "scanned_cell private name c = Some sens"
    and "build_preview demo_lib sens [scan_row [name] [[c]]] = Inr pv"
  shows "\<exists>r. process_csv demo_lib 44 [] private [] bytes = Inr r \<and> tbr_names r = [name] \<and> tbr_table r = [[Some [c]]]
    \<and> sr_sensitive_columns (tbr_scan r) = sens \<and> tbr_preview r = pv"
proof -
  obtain sc sc1 where sc: "scanner_init (\<lambda>p cs. None) [name] private (Some []) = Inr sc"
    "feed_row plain_unidata plain_numbers (scan_row [name] [[c]]) sc = Inr sc1" "sr_sensitive_columns (finish plain_unidata sc1) = sens"
    using assms(7) by (auto simp: scanned_cell_def split: sum.splits)
  have l: "tl_ud demo_lib = plain_unidata" "tl_nt demo_lib = plain_numbers" "tl_re demo_lib = (\<lambda>p cs. None)" "tl_reserve demo_lib"
    by (simp_all add: demo_lib_def)
  have n: "csv_names [] [name] = Inr [name]" using assms(4)
    by (simp add: csv_names_def header_error_def positions_def Let_def)
  let ?ink = "start_intake sc (single_column [name])"
  have f: "feed_scanner demo_lib (scan_row [name] [[c]]) ?ink = Inr (?ink\<lparr>ink_scanner := sc1\<rparr>)"
    using sc(2) by (simp add: feed_scanner_def l start_intake_def)
  have row: "row_dict [name] (map cell_json [Some [c]]) = scan_row [name] [[c]]" by (simp add: scan_row_def clean_cell_def)
  obtain ink where ink: "csv_body demo_lib [name] [[[c]]] ?ink = Inr ink" "ink_batch ink \<noteq> 0"
    "ink_rows ink = 1" "ink_scanner ink = sc1" "ink_preview ink = [scan_row [name] [[c]]]" "ink_table ink = [[Some [c]]]"
  proof -
    have "\<exists>ink. csv_row demo_lib [name] [[c]] ?ink = Inr ink \<and> ink_batch ink \<noteq> 0
      \<and> ink_rows ink = 1 \<and> ink_scanner ink = sc1 \<and> ink_preview ink = [scan_row [name] [[c]]] \<and> ink_table ink = [[Some [c]]]"
      using assms(6) f row by (simp add: csv_row_def clean_cell_def MAX_RECORD_def take_row_def Let_def start_intake_def MAX_SAMPLE_def PREVIEW_ROWS_def)
    then show thesis using that by auto
  qed
  have "final_flush demo_lib ink = Inr (ink\<lparr>ink_batch := 0, ink_batch_bytes := 0\<rparr>)" using ink(2) l by (simp add: final_flush_def flush_def)
  moreover have "\<exists>r. conclude demo_lib [name] cols 1 [] (ink\<lparr>ink_batch := 0, ink_batch_bytes := 0\<rparr>) = Inr r \<and> tbr_names r = [name] \<and> tbr_table r = [[Some [c]]]
    \<and> sr_sensitive_columns (tbr_scan r) = sens \<and> tbr_preview r = pv" for cols
    using assms(8) sc(3) ink by (simp add: conclude_def Let_def l)
  moreover have "\<not> MAX_JSON < dumped_size plain_numbers (csv_columns [name] [name])" using assms(5) by (simp add: MAX_JSON_def)
  ultimately show ?thesis using assms(1-4) n sc(1) ink(1,3)
    by (simp add: process_csv_def Let_def l)
qed

lemma demo_fits: "dumped_size plain_numbers (JArr xs) < 1000 \<Longrightarrow> fit_rows (tl_nt demo_lib) MAX_JSON xs = xs"
  by (subst fit_rows.simps) (simp add: MAX_JSON_def demo_lib_def)

lemmas eval_cell = cap_cell_def looks_structured_def is_prefix_def ends_with_def py_strip_def strip_by_def lstrip_by_def rstrip_by_def
  is_space_def cap_text_def

definition cell_name :: ident where "cell_name = u ''n''"

lemma cell_preview:
  assumes "redact_sample_row plain_unidata [(cell_name, JStr [c])] = [(cell_name, JStr [c])]" "c \<noteq> 123" "c \<noteq> 91" "\<not> is_space c"
    and "dumped_size plain_numbers (JArr [JObj [(cell_name, JStr [c])]]) < 1000"
  shows "build_preview demo_lib [] [scan_row [cell_name] [[c]]] = Inr [JObj [(cell_name, JStr [c])]]"
proof -
  have t: "\<not> has_token plain_unidata FINANCIAL_TOKENS cell_name" by code_simp
  have s: "scan_row [cell_name] [[c]] = [(cell_name, JStr [c])]" by (simp add: scan_row_def row_dict_def dict_of_def clean_cell_def cell_json_def)
  have "cap_cell demo_lib (JStr [c]) = Inr (JStr [c])" using assms(2-4) by (simp add: eval_cell)
  then have "preview_row demo_lib [] (scan_row [cell_name] [[c]]) = Inr (JObj [(cell_name, JStr [c])])"
    using assms(1) t by (simp add: preview_row_def Let_def mask_preview_cell_def s demo_lib_def)
  then show ?thesis using demo_fits [OF assms(5)] by (simp add: build_preview_def PREVIEW_ROWS_def)
qed

lemma hidden_preview: "\<exists>pv. build_preview demo_lib [cell_name] [scan_row [cell_name] [[c]]] = Inr pv"
proof -
  have r: "redact_sample_row plain_unidata [(cell_name, JStr REDACTED_SENTINEL)] = [(cell_name, JStr REDACTED_SENTINEL)]" by code_simp
  have p: "parse_structured_json 1000 (py_strip REDACTED_SENTINEL) = Inl INVALID_JSON" by code_simp
  have s: "scan_row [cell_name] [[c]] = [(cell_name, JStr [c])]" by (simp add: scan_row_def row_dict_def dict_of_def clean_cell_def cell_json_def)
  have "\<exists>v. cap_cell demo_lib (JStr REDACTED_SENTINEL) = Inr v" by (simp add: cap_cell_def p demo_lib_def)
  then have "\<exists>v. preview_row demo_lib [cell_name] (scan_row [cell_name] [[c]]) = Inr v"
    using r by (auto simp: preview_row_def Let_def mask_preview_cell_def mask_value_def s demo_lib_def)
  then show ?thesis by (auto simp: build_preview_def PREVIEW_ROWS_def)
qed

lemma demo_import_scanned: "scanned_cell [] cell_name 120 = Some []" "scanned_cell [] cell_name 0 = Some []" "scanned_cell [cell_name] cell_name 120 = Some [cell_name]" "scanned_cell [cell_name] cell_name 121 = Some [cell_name]"
  by code_simp+

lemma demo_decoded: "decode_sig (demo_file cell_name 120) = Some (demo_file cell_name 120)" "decode_sig (demo_file cell_name 0) = Some (demo_file cell_name 0)"
  "decode_sig (demo_file cell_name 121) = Some (demo_file cell_name 121)" by code_simp+

lemma demo_read: "csv_reader 44 (demo_file cell_name 120) = ([[cell_name], [[120]]], False)" "csv_reader 44 (demo_file cell_name 0) = ([[cell_name], [[0]]], False)"
  "csv_reader 44 (demo_file cell_name 121) = ([[cell_name], [[121]]], False)"
  by (simp_all add: eval_csv demo_file_def cell_name_def u_def)

lemma demo_name: "py_strip cell_name = cell_name" "cell_name \<noteq> []"
  by (simp_all add: cell_name_def u_def py_strip_def strip_by_def lstrip_by_def rstrip_by_def is_space_def)

lemma demo_size: "dumped_size plain_numbers (csv_columns [cell_name] [cell_name]) = 85" "row_bytes [Some [120]] = Some 1" "row_bytes [Some [0]] = Some 1"
  "row_bytes [Some [121]] = Some 1" "dumped_size plain_numbers (JArr [JObj [(cell_name, JStr [120])]]) = 12"
  "dumped_size plain_numbers (JArr [JObj [(cell_name, JStr [0])]]) = 17" by code_simp+

lemma demo_redacted: "redact_sample_row plain_unidata [(cell_name, JStr [120])] = [(cell_name, JStr [120])]"
  "redact_sample_row plain_unidata [(cell_name, JStr [0])] = [(cell_name, JStr [0])]" by code_simp+

lemma demo_x: "\<exists>r. process_csv demo_lib 44 [] [] [] (demo_file cell_name 120) = Inr r \<and> tbr_names r = [cell_name] \<and> tbr_table r = [[Some [120]]]
    \<and> sr_sensitive_columns (tbr_scan r) = [] \<and> tbr_preview r = [JObj [(cell_name, JStr [120])]]"
  by (rule one_cell [OF demo_decoded(1) demo_read(1) demo_name _ demo_size(2) demo_import_scanned(1) cell_preview [OF demo_redacted(1)]])
    (simp_all add: is_space_def demo_size)

lemma demo_nul: "\<exists>r. process_csv demo_lib 44 [] [] [] (demo_file cell_name 0) = Inr r \<and> tbr_names r = [cell_name] \<and> tbr_table r = [[Some [0]]]
    \<and> sr_sensitive_columns (tbr_scan r) = [] \<and> tbr_preview r = [JObj [(cell_name, JStr [0])]]"
  by (rule one_cell [OF demo_decoded(2) demo_read(2) demo_name _ demo_size(3) demo_import_scanned(2) cell_preview [OF demo_redacted(2)]])
    (simp_all add: is_space_def demo_size)

lemma demo_hidden:
  "\<exists>r. process_csv demo_lib 44 [] [cell_name] [] (demo_file cell_name 120) = Inr r \<and> tbr_names r = [cell_name] \<and> tbr_table r = [[Some [120]]]
    \<and> sr_sensitive_columns (tbr_scan r) = [cell_name]"
  "\<exists>r. process_csv demo_lib 44 [] [cell_name] [] (demo_file cell_name 121) = Inr r \<and> tbr_names r = [cell_name] \<and> tbr_table r = [[Some [121]]]
    \<and> sr_sensitive_columns (tbr_scan r) = [cell_name]"
proof -
  obtain pv where "build_preview demo_lib [cell_name] [scan_row [cell_name] [[120]]] = Inr pv" using hidden_preview by blast
  from one_cell [OF demo_decoded(1) demo_read(1) demo_name _ demo_size(2) demo_import_scanned(3) this]
  show "\<exists>r. process_csv demo_lib 44 [] [cell_name] [] (demo_file cell_name 120) = Inr r \<and> tbr_names r = [cell_name] \<and> tbr_table r = [[Some [120]]]
    \<and> sr_sensitive_columns (tbr_scan r) = [cell_name]" by (auto simp: demo_size)
  obtain pv where "build_preview demo_lib [cell_name] [scan_row [cell_name] [[121]]] = Inr pv" using hidden_preview by blast
  from one_cell [OF demo_decoded(3) demo_read(3) demo_name _ demo_size(4) demo_import_scanned(4) this]
  show "\<exists>r. process_csv demo_lib 44 [] [cell_name] [] (demo_file cell_name 121) = Inr r \<and> tbr_names r = [cell_name] \<and> tbr_table r = [[Some [121]]]
    \<and> sr_sensitive_columns (tbr_scan r) = [cell_name]" by (auto simp: demo_size)
qed



definition demo_tab_store :: "nat list \<Rightarrow> tab_store" where
  "demo_tab_store bytes = \<lparr>tbs_before = (\<lambda>r. Inr demo_metadata), tbs_after = (\<lambda>r. Inr demo_metadata), tbs_free = 1000000000,
     tbs_copy = (\<lambda>r b k e. Inr demo_metadata), tbs_read = (\<lambda>r. Inr bytes), tbs_put = (\<lambda>b k out. Inr demo_metadata)\<rparr>"

definition no_parquet :: "inspect_task \<Rightarrow> nat list \<Rightarrow> import_failure + tab_result" where
  "no_parquet t b = Inl Broken"

lemma demo_task: "itk_format (task_of st demo_claim private demo_import_pin bucket) = u ''CSV''" "itk_delimiter (task_of st demo_claim private demo_import_pin bucket) = JStr [44]"
  "itk_mapping (task_of st demo_claim private demo_import_pin bucket) = JNull" "itk_private (task_of st demo_claim private demo_import_pin bucket) = private"
  "itk_rules (task_of st demo_claim private demo_import_pin bucket) = []"
proof -
  have m: "jget_null (ul_manifest demo_claim) ''csv_options'' = JNull" "jget_null (ul_manifest demo_claim) ''column_names_mapping'' = JNull" by code_simp+
  show "itk_format (task_of st demo_claim private demo_import_pin bucket) = u ''CSV''"
    by (simp add: task_of_def demo_claim_def leased_to_def demo_staged_def new_session_def demo_request_def)
  show "itk_delimiter (task_of st demo_claim private demo_import_pin bucket) = JStr [44]" by (simp add: task_of_def m py_or_def jget_def)
  show "itk_mapping (task_of st demo_claim private demo_import_pin bucket) = JNull" "itk_private (task_of st demo_claim private demo_import_pin bucket) = private"
    "itk_rules (task_of st demo_claim private demo_import_pin bucket) = []" by (simp_all add: task_of_def m demo_import_pin_def)
qed

lemma demo_inspected:
  assumes "process_csv demo_lib 44 [] private [] bytes = Inr r" "bytes \<noteq> []" "\<not> binary_magic bytes (u ''CSV'')"
  shows "\<exists>x. inspect_and_normalize demo_lib no_parquet (demo_tab_store bytes) (task_of st demo_claim private demo_import_pin bucket) = Inr x
    \<and> isp_preview x = JArr (tbr_preview r) \<and> or_version_id (isp_canonical_ref x) = Some (u ''v1'')"
proof -
  have p: "process_file demo_lib no_parquet (task_of st demo_claim private demo_import_pin bucket) bytes = Inr r"
    using assms(1,3) by (simp add: process_file_def demo_task mapping_of_def texts_of_def)
  have s: "tl_reserve demo_lib" "\<not> source_changed demo_metadata demo_metadata" by (simp_all add: demo_lib_def source_changed_def)
  have io: "tbs_before (demo_tab_store bytes) = (\<lambda>r. Inr demo_metadata)" "tbs_after (demo_tab_store bytes) = (\<lambda>r. Inr demo_metadata)"
    "tbs_free (demo_tab_store bytes) = 1000000000" "tbs_copy (demo_tab_store bytes) = (\<lambda>r b k e. Inr demo_metadata)"
    "tbs_read (demo_tab_store bytes) = (\<lambda>r. Inr bytes)" "tbs_put (demo_tab_store bytes) = (\<lambda>b k out. Inr demo_metadata)"
    "om_size_bytes demo_metadata = 4" "om_version_id demo_metadata = Some (u ''v1'')"
    by (simp_all add: demo_tab_store_def demo_metadata_def)
  show ?thesis using s by (simp add: inspect_and_normalize_def Let_def io p) (simp add: inspection_of_def)
qed

lemma demo_magic: "\<not> binary_magic (demo_file cell_name 120) (u ''CSV'')" "\<not> binary_magic (demo_file cell_name 0) (u ''CSV'')"
  "demo_file cell_name 120 \<noteq> []" "demo_file cell_name 0 \<noteq> []"
  by (simp_all add: binary_magic_def BINARY_MAGICS_def any_of_iff is_prefix_def demo_file_def cell_name_def u_def)

theorem imported_snapshot_pinned_witness:
  "\<exists>x d. inspect_and_normalize demo_lib no_parquet (demo_tab_store (demo_file cell_name 120)) (task_of (iev_settings demo_import_env) demo_claim [] demo_import_pin (u ''staging'')) = Inr x
    \<and> canonical_descriptor (source_descriptor (ul_format demo_claim) x) = Inr d
    \<and> pinned_ref (ul_tenant demo_claim) d (ist_bucket_snapshots (iev_settings demo_import_env)) = Inr (isp_canonical_ref x)"
proof -
  obtain r where r: "process_csv demo_lib 44 [] [] [] (demo_file cell_name 120) = Inr r" using demo_x by blast
  obtain x where x: "inspect_and_normalize demo_lib no_parquet (demo_tab_store (demo_file cell_name 120)) (task_of (iev_settings demo_import_env) demo_claim [] demo_import_pin (u ''staging'')) = Inr x"
    "or_version_id (isp_canonical_ref x) = Some (u ''v1'')" using demo_inspected [OF r demo_magic(3,1)] by blast
  have "hex64 (tl_sha demo_lib bs)" "tl_parquet demo_lib names n table \<noteq> []" for bs names n table
    by (simp_all add: demo_lib_def hex64_def list_all_iff)
  then show ?thesis using imported_snapshot_pinned [OF x] x(1) by simp blast
qed

theorem nul_cell_blocks_import_witness:
  "process_session (iev_privacy demo_import_env) (iev_settings demo_import_env) \<lparr>ww_versioned = True, ww_head = (\<lambda>r. Inr demo_metadata),
      ww_inspect = inspect_and_normalize demo_lib no_parquet (demo_tab_store (demo_file cell_name 0))\<rparr> (u ''w1'') 2 demo_claim id (demo_with demo_claim)
    = Inl ''DataError''"
proof -
  let ?w = "\<lparr>ww_versioned = True, ww_head = (\<lambda>r. Inr demo_metadata),
      ww_inspect = inspect_and_normalize demo_lib no_parquet (demo_tab_store (demo_file cell_name 0))\<rparr>"
  obtain r where r: "process_csv demo_lib 44 [] [] [] (demo_file cell_name 0) = Inr r" "tbr_preview r = [JObj [(cell_name, JStr [0])]]"
    using demo_nul by blast
  obtain x where x: "inspect_and_normalize demo_lib no_parquet (demo_tab_store (demo_file cell_name 0))
      (task_of (iev_settings demo_import_env) demo_claim [] demo_import_pin (staging_bucket_of (iev_settings demo_import_env) (ul_manifest demo_claim))) = Inr x"
    "isp_preview x = JArr [JObj [(cell_name, JStr [0])]]" using demo_inspected [OF r(1) demo_magic(4,2)] r(2) by metis
  have a: "ul_asset demo_claim = None" "ul_tenant demo_claim = 2"
    by (simp_all add: demo_claim_def leased_to_def demo_staged_def new_session_def demo_request_def demo_import_user_def)
  have "inspected (iev_settings demo_import_env) ?w demo_claim demo_import_pin p p' = Inr x" for p p'
    using demo_source x(1) by (simp add: inspected_def a Let_def)
  moreover have "load_pinned_rules (pv_nt (iev_privacy demo_import_env)) (pv_sha (iev_privacy demo_import_env)) (pv_rule_id (iev_privacy demo_import_env))
      (ul_tenant demo_claim) (idb_privacy (demo_with demo_claim)) = Inr (demo_import_pin, idb_privacy demo_start)"
    using demo_import_pinned by (simp add: demo_import_env_def a demo_with_def)
  ultimately show ?thesis using x(2)
    by (intro nul_cell_blocks_import [where rows = "[JObj [(cell_name, JStr [0])]]" and cells = "[(cell_name, JStr [0])]" and s = "[0]"
        and k = cell_name and pin = demo_import_pin and pdb = "idb_privacy demo_start" and x = x]) simp_all
qed

end
